(* ===== verification/Prelude.thy ===== *)
theory Prelude
  imports Main "HOL-Library.Word" "HOL-Library.Sublist" "HOL-Library.Multiset"
begin

text \<open>
  Shared vocabulary of the development: C integers, byte buffers, C strings and the C library
  routines (\<open>strstr\<close>, \<open>strncpy\<close>, \<open>fgets\<close>, \<open>memcmp\<close>, \<open>printf\<close> conversions) that the
  components use, with the generic lemmas they share.

  Conventions.
  \<^item> A byte is an \<open>8 word\<close>. Sizes, counters and offsets are \<open>nat\<close>; where the C arithmetic on
    \<open>uint64_t\<close>, \<open>size_t\<close> or \<open>uint32_t\<close> can leave the type's range the wrap-around is written
    out with \<open>wrap64\<close> and \<open>wrap32\<close>. Bit fields are handled on words.
  \<^item> A C string is an Isabelle \<open>string\<close> holding the characters before the terminating NUL; a
    \<open>char\<close> array of \<open>n\<close> bytes holds a string of fewer than \<open>n\<close> characters, and \<open>cstr n s\<close> is
    what a bounded copy of \<open>s\<close> into it leaves.
  \<^item> A pointer argument that the code tests against NULL is an \<open>option\<close>, NULL being \<open>None\<close>.
  \<^item> A loop that the code cannot bound is a \<open>partial_function (option)\<close>; \<open>None\<close> then stands for a
    call that does not return.
\<close>

section \<open>Integers\<close>

type_synonym byte = "8 word"
type_synonym u16 = "16 word"
type_synonym u32 = "32 word"
type_synonym u64 = "64 word"

definition wrap64 :: "nat \<Rightarrow> nat" where
  "wrap64 n = n mod 2 ^ 64"

definition wrap32 :: "nat \<Rightarrow> nat" where
  "wrap32 n = n mod 2 ^ 32"

definition UINT64_MAX :: nat where
  "UINT64_MAX = 2 ^ 64 - 1"

named_theorems bytes_simps

lemma wrap64_less [simp]: "n < 2 ^ 64 \<Longrightarrow> wrap64 n = n"
  by (simp add: wrap64_def)

lemma wrap64_bound: "wrap64 n < 2 ^ 64"
  by (simp add: wrap64_def)

lemma wrap64_wrap64 [simp]: "wrap64 (wrap64 n) = wrap64 n"
  by (simp add: wrap64_def)

lemma wrap64_add [simp]: "wrap64 (wrap64 a + b) = wrap64 (a + b)"
  by (simp add: wrap64_def mod_simps)

lemma wrap32_less [simp]: "n < 2 ^ 32 \<Longrightarrow> wrap32 n = n"
  by (simp add: wrap32_def)

lemma wrap32_bound: "wrap32 n < 2 ^ 32"
  by (simp add: wrap32_def)

section \<open>C strings\<close>

definition cstr :: "nat \<Rightarrow> string \<Rightarrow> string" where
  "cstr n s = take (n - 1) s"

lemma cstr_fits [simp]: "length s < n \<Longrightarrow> cstr n s = s"
  by (simp add: cstr_def)

lemma length_cstr: "0 < n \<Longrightarrow> length (cstr n s) < n"
  by (auto simp: cstr_def)

definition is_digit :: "char \<Rightarrow> bool" where
  "is_digit c \<longleftrightarrow> 48 \<le> (of_char c :: nat) \<and> (of_char c :: nat) \<le> 57"

definition is_space :: "char \<Rightarrow> bool" where
  "is_space c \<longleftrightarrow> (of_char c :: nat) = 32 \<or> (9 \<le> (of_char c :: nat) \<and> (of_char c :: nat) \<le> 13)"

definition to_lower :: "char \<Rightarrow> nat" where
  "to_lower c = (let n = (of_char c :: nat) in if 65 \<le> n \<and> n \<le> 90 then n + 32 else n)"

definition strcasecmp_eq :: "string \<Rightarrow> string \<Rightarrow> bool" where
  "strcasecmp_eq s t \<longleftrightarrow> map to_lower s = map to_lower t"

text \<open>\<open>strchr\<close> returns the rest of the string from the first occurrence; \<open>strstr\<close> the offset of
  the first occurrence.\<close>

definition strchr :: "string \<Rightarrow> char \<Rightarrow> string option" where
  "strchr s c = (case dropWhile (\<lambda>x. x \<noteq> c) s of [] \<Rightarrow> None | y # ys \<Rightarrow> Some (y # ys))"

lemma strchr_hit: "c \<notin> set s \<Longrightarrow> strchr (s @ c # t) c = Some (c # t)"
  by (induction s) (auto simp: strchr_def)

lemma strchr_miss: "c \<notin> set s \<Longrightarrow> strchr s c = None"
  by (induction s) (auto simp: strchr_def)

fun strstr :: "'a list \<Rightarrow> 'a list \<Rightarrow> nat option" where
  "strstr [] n = (if n = [] then Some 0 else None)"
| "strstr (c # cs) n = (if prefix n (c # cs) then Some 0 else map_option Suc (strstr cs n))"

lemma strstr_Some_iff:
  "strstr s n = Some i \<longleftrightarrow>
     i \<le> length s \<and> prefix n (drop i s) \<and> (\<forall>j < i. \<not> prefix n (drop j s))"
proof (induction s arbitrary: i)
  case Nil
  then show ?case by auto
next
  case (Cons c s)
  show ?case
  proof (cases "prefix n (c # s)")
    case True
    then show ?thesis by (cases i) auto
  next
    case False
    show ?thesis
    proof (cases i)
      case 0
      with False show ?thesis by simp
    next
      case (Suc k)
      have "(\<forall>j < Suc k. \<not> prefix n (drop j (c # s))) \<longleftrightarrow> (\<forall>j < k. \<not> prefix n (drop j s))"
        using False by (auto simp: less_Suc_eq_0_disj)
      with False Suc Cons.IH [of k] show ?thesis by simp
    qed
  qed
qed

lemma strstr_0_iff: "strstr s n = Some 0 \<longleftrightarrow> prefix n s"
  by (simp add: strstr_Some_iff)

lemma strstr_None_iff: "strstr s n = None \<longleftrightarrow> (\<forall>i \<le> length s. \<not> prefix n (drop i s))"
proof (induction s)
  case Nil
  then show ?case by simp
next
  case (Cons c s)
  have "(\<forall>i \<le> Suc (length s). \<not> prefix n (drop i (c # s))) \<longleftrightarrow>
        \<not> prefix n (c # s) \<and> (\<forall>i \<le> length s. \<not> prefix n (drop i s))"
  proof (intro iffI conjI allI impI)
    fix i assume *: "\<not> prefix n (c # s) \<and> (\<forall>i \<le> length s. \<not> prefix n (drop i s))"
      and "i \<le> Suc (length s)"
    then show "\<not> prefix n (drop i (c # s))" by (cases i) auto
  qed fastforce+
  with Cons.IH show ?case by simp
qed

text \<open>\<open>strcmp\<close>: negative, zero or positive.\<close>

fun strcmp :: "string \<Rightarrow> string \<Rightarrow> int" where
  "strcmp [] [] = 0"
| "strcmp [] (d # ds) = -1"
| "strcmp (c # cs) [] = 1"
| "strcmp (c # cs) (d # ds) =
     (if c = d then strcmp cs ds else int (of_char c) - int (of_char d))"

lemma strcmp_eq_0 [simp]: "strcmp s t = 0 \<longleftrightarrow> s = t"
  by (induction s t rule: strcmp.induct) (auto simp: of_char_eq_iff)

lemma strcmp_swap: "strcmp t s = - strcmp s t"
  by (induction s t rule: strcmp.induct) auto

text \<open>What the C library promises of \<open>qsort\<close> on one array.\<close>

definition qsort_result :: "('a \<Rightarrow> 'a \<Rightarrow> int) \<Rightarrow> 'a list \<Rightarrow> 'a list \<Rightarrow> bool" where
  "qsort_result compare xs ys \<longleftrightarrow> mset ys = mset xs \<and> sorted_wrt (\<lambda>a b. compare a b \<le> 0) ys"

section \<open>Quoted text\<close>

definition jquoted :: "string \<Rightarrow> string" where
  "jquoted s = CHR 0x22 # s @ [CHR 0x22]"

lemma length_jquoted [simp]: "length (jquoted s) = length s + 2"
  by (simp add: jquoted_def)

text \<open>A text without the delimiter is delimited in one way only.\<close>

lemma prefix_delimited:
  assumes "q \<notin> set k" and "q \<notin> set v"
  shows "prefix (k @ q # x) (v @ q # y) \<longleftrightarrow> k = v \<and> prefix x y"
  using assms
proof (induction k arbitrary: v)
  case Nil
  then show ?case by (cases v) auto
next
  case (Cons c k)
  then show ?case by (cases v) auto
qed

text \<open>The text after the first occurrence of a key.\<close>

definition text_after :: "string \<Rightarrow> string \<Rightarrow> string option" where
  "text_after key s = map_option (\<lambda>i. drop (i + length key) s) (strstr s key)"

lemma text_after_hit: "prefix key s \<Longrightarrow> text_after key s = Some (drop (length key) s)"
  using strstr_0_iff [of s key] by (simp add: text_after_def)

lemma text_after_step: "\<not> prefix key (c # s) \<Longrightarrow> text_after key (c # s) = text_after key s"
  by (cases "strstr s key") (simp_all add: text_after_def)

lemma text_after_skip: "q \<notin> set a \<Longrightarrow> text_after (q # n) (a @ s) = text_after (q # n) s"
  by (induction a) (simp_all add: text_after_step)

section \<open>Number conversions of printf\<close>

definition digit_char :: "nat \<Rightarrow> char" where
  "digit_char d = ''0123456789abcdef'' ! d"

fun dec :: "nat \<Rightarrow> string" where
  "dec n = (if n < 10 then [digit_char n] else dec (n div 10) @ [digit_char (n mod 10)])"

declare dec.simps [simp del]

lemma length_dec: "n < 10 ^ Suc k \<Longrightarrow> length (dec n) \<le> Suc k"
proof (induction k arbitrary: n)
  case 0
  then show ?case by (simp add: dec.simps)
next
  case (Suc k)
  show ?case
  proof (cases "n < 10")
    case True
    then show ?thesis by (simp add: dec.simps)
  next
    case False
    have "n div 10 < 10 ^ Suc k" using Suc.prems by (simp add: less_mult_imp_div_less)
    from Suc.IH [OF this] False show ?thesis by (simp add: dec.simps [of n])
  qed
qed

lemma dec_chars: "c \<in> set (dec n) \<Longrightarrow> c \<in> set ''0123456789''"
proof (induction n rule: dec.induct)
  case (1 n)
  have d: "digit_char k \<in> set ''0123456789''" if "k < 10" for k
    using that by (auto simp: digit_char_def less_Suc_eq numeral_eq_Suc)
  show ?case
  proof (cases "n < 10")
    case True
    with 1 d [of n] show ?thesis by (simp add: dec.simps [of n])
  next
    case False
    with "1.prems" have "c \<in> set (dec (n div 10)) \<or> c = digit_char (n mod 10)"
      by (auto simp: dec.simps [of n])
    with "1.IH" [OF False] d [of "n mod 10"] show ?thesis by auto
  qed
qed

lemma dec_digits: "c \<in> set (dec n) \<Longrightarrow> is_digit c"
  using dec_chars [of c n] by (auto simp: is_digit_def)

lemma dec_not_Nil [simp]: "dec n \<noteq> []"
  by (simp add: dec.simps [of n])

definition dec_int :: "int \<Rightarrow> string" where
  "dec_int i = (if i < 0 then CHR ''-'' # dec (nat (- i)) else dec (nat i))"

lemma length_dec_int: "\<bar>i\<bar> < 10 ^ Suc k \<Longrightarrow> length (dec_int i) \<le> Suc (Suc k)"
  using length_dec [of "nat \<bar>i\<bar>" k] by (auto simp: dec_int_def nat_less_iff)

lemma dec_int_chars: "c \<in> set (dec_int i) \<Longrightarrow> c \<in> set ''-0123456789''"
  using dec_chars by (fastforce simp: dec_int_def split: if_splits)

definition hex2 :: "byte \<Rightarrow> string" where
  "hex2 b = [digit_char (unat b div 16), digit_char (unat b mod 16)]"

lemma length_hex2 [simp]: "length (hex2 b) = 2"
  by (simp add: hex2_def)

lemma hex2_chars: "c \<in> set (hex2 b) \<Longrightarrow> c \<in> set ''0123456789abcdef''"
proof -
  have "digit_char d \<in> set ''0123456789abcdef''" if "d < 16" for d
    unfolding digit_char_def by (rule nth_mem) (use that in simp)
  moreover have "unat b < 256" using unsigned_less [of b, where ?'a = nat] by simp
  then have "unat b div 16 < 16" "unat b mod 16 < 16" by simp_all
  moreover assume "c \<in> set (hex2 b)"
  then have "c = digit_char (unat b div 16) \<or> c = digit_char (unat b mod 16)"
    by (auto simp: hex2_def)
  ultimately show "c \<in> set ''0123456789abcdef''" by blast
qed

section \<open>Bit fields of a byte\<close>

lemma stamp_high_bits:
  assumes "n \<le> 7" and "h = push_bit n (m :: 8 word)"
  shows "unat (or (take_bit n x) h) = unat (take_bit n x) + unat h"
proof -
  have disj: "and (take_bit n x) h = 0"
    by (rule bit_word_eqI) (auto simp: assms(2) bit_simps)
  then have "or (take_bit n x) h = take_bit n x + h" by (simp add: disjunctive_add_eq_or)
  moreover have "unat (take_bit n x + h) = unat (take_bit n x) + unat h"
    by (metis disj disjunctive_add_eq_or unsigned_and_eq unsigned_or_eq unsigned_0)
  ultimately show ?thesis by simp
qed
lemma unat_take: "unat (take_bit n (x::8 word)) < 2 ^ n"
  by (metis take_bit_nat_less_exp unsigned_take_bit_eq)
lemma stamp_version: "unat (or (and x 0x0F) 0x40 :: 8 word) div 16 = 4"
proof -
  have "and x 0x0F = take_bit 4 x" using take_bit_eq_mask [of 4 x] by (simp add: mask_eq_exp_minus_1)
  with stamp_high_bits [of 4 "0x40" 4 x] have "unat (or (and x 0x0F) 0x40) = unat (take_bit 4 x) + 64"
    by (simp add: push_bit_eq_mult)
  with unat_take [of 4 x] show ?thesis by simp
qed
lemma stamp_variant: "unat (or (and x 0x3F) 0x80 :: 8 word) div 16 \<in> {8, 9, 10, 11}"
proof -
  have "and x 0x3F = take_bit 6 x" using take_bit_eq_mask [of 6 x] by (simp add: mask_eq_exp_minus_1)
  with stamp_high_bits [of 6 "0x80" 2 x] have u: "unat (or (and x 0x3F) 0x80) = unat (take_bit 6 x) + 128"
    by (simp add: push_bit_eq_mult)
  have "unat (take_bit 6 x) div 16 < 4" using unat_take [of 6 x] by simp
  then show ?thesis unfolding u by auto
qed
section \<open>Byte buffers\<close>

definition bytes_of :: "string \<Rightarrow> byte list" where
  "bytes_of s = map of_char s"

lemma length_bytes_of [simp]: "length (bytes_of s) = length s"
  by (simp add: bytes_of_def)

text \<open>\<open>memcmp(buf + off, pat, strlen(pat)) == 0\<close>, for reads that stay inside the buffer.\<close>

definition mem_eq :: "byte list \<Rightarrow> nat \<Rightarrow> byte list \<Rightarrow> bool" where
  "mem_eq buf off pat \<longleftrightarrow> take (length pat) (drop off buf) = pat"

lemma mem_eq_prefix: "mem_eq buf off pat \<longleftrightarrow> prefix pat (drop off buf)"
  by (auto simp: mem_eq_def prefix_def) (metis append_take_drop_id)

lemma take_length_eq: "length (take m xs) = k \<Longrightarrow> take m xs = take k xs"
  by (metis append_eq_conv_conj append_take_drop_id)

text \<open>Writing a run of bytes at an offset of an existing buffer or file.\<close>

definition write_at :: "'a list \<Rightarrow> nat \<Rightarrow> 'a list \<Rightarrow> 'a list" where
  "write_at content off data = take off content @ data @ drop (off + length data) content"

lemma length_write_at [simp]:
  "off + length data \<le> length content \<Longrightarrow> length (write_at content off data) = length content"
  by (simp add: write_at_def)

lemma take_write_at:
  "off \<le> length content \<Longrightarrow>
   take (off + length data) (write_at content off data) = take off content @ data"
  by (simp add: write_at_def)

lemma drop_write_at:
  "off \<le> length content \<Longrightarrow>
   drop (off + length data) (write_at content off data) = drop (off + length data) content"
  by (simp add: write_at_def)


section \<open>Integers in memory\<close>

text \<open>The bytes of an unsigned integer of \<open>n\<close> bytes in little-endian order, and back.\<close>

definition le_bytes :: "nat \<Rightarrow> nat \<Rightarrow> byte list" where
  "le_bytes n v = map (\<lambda>i. word_of_nat (v div 256 ^ i)) [0..<n]"

definition le_value :: "byte list \<Rightarrow> nat" where
  "le_value bs = foldr (\<lambda>b v. unat b + 256 * v) bs 0"

lemma length_le_bytes [simp]: "length (le_bytes n v) = n"
  by (simp add: le_bytes_def)

lemma le_bytes_Suc: "le_bytes (Suc n) v = word_of_nat v # le_bytes n (v div 256)"
proof -
  have "map (\<lambda>i. word_of_nat (v div 256 ^ i)) [1..<Suc n] = map (\<lambda>i. word_of_nat (v div 256 ^ Suc i)) [0..<n]"
    by (rule nth_equalityI) (simp_all del: upt_Suc)
  then show ?thesis
    by (simp add: le_bytes_def upt_rec [of 0 "Suc n"] div_mult2_eq del: upt_Suc)
qed

lemma le_value_le_bytes: "v < 256 ^ n \<Longrightarrow> le_value (le_bytes n v) = v"
proof (induction n arbitrary: v)
  case (Suc n)
  have "v div 256 < 256 ^ n" using Suc.prems by (simp add: less_mult_imp_div_less mult.commute)
  moreover have "unat (word_of_nat v :: byte) = v mod 256"
    by (simp add: unsigned_of_nat take_bit_eq_mod)
  ultimately show ?case using Suc.IH [of "v div 256"] by (simp add: le_bytes_Suc le_value_def)
qed (simp add: le_bytes_def le_value_def)

lemma le_value_bound: "le_value bs < 256 ^ length bs"
proof (induction bs)
  case (Cons b bs)
  have "unat b < 256" using unsigned_less [of b, where ?'a = nat] by simp
  with Cons show ?case by (simp add: le_value_def)
qed (simp add: le_value_def)

lemma le_bytes_le_value: "le_bytes (length bs) (le_value bs) = bs"
proof (induction bs)
  case (Cons b bs)
  have b: "unat b < 256" using unsigned_less [of b, where ?'a = nat] by simp
  have v: "le_value (b # bs) = unat b + 256 * le_value bs" by (simp add: le_value_def)
  have "(word_of_nat (256 * le_value bs) :: byte) = 0"
    by (simp only: word_of_nat_eq_0_iff) simp
  then have "(word_of_nat (le_value (b # bs)) :: byte) = b" unfolding v by simp
  moreover have "le_value (b # bs) div 256 = le_value bs" using b by (simp add: v)
  ultimately show ?case using Cons by (simp add: le_bytes_Suc)
qed (simp add: le_bytes_def)

section \<open>Options\<close>

fun the_default :: "'a \<Rightarrow> 'a option \<Rightarrow> 'a" where
  "the_default d None = d"
| "the_default d (Some x) = x"

section \<open>Loops over indices\<close>

text \<open>The values of \<open>i\<close> in \<open>for (i = a; i < b; i += step)\<close>, for a positive step.\<close>

definition upt_step :: "nat \<Rightarrow> nat \<Rightarrow> nat \<Rightarrow> nat list" where
  "upt_step a b step = map (\<lambda>i. a + i * step) [0..<(b - a + step - 1) div step]"

lemma upt_step_1 [simp]: "upt_step a b (Suc 0) = [a..<b]"
  by (rule nth_equalityI) (simp_all add: upt_step_def)

lemma length_upt_step: "length (upt_step a b step) = (b - a + step - 1) div step"
  by (simp add: upt_step_def)

lemma set_upt_step:
  assumes "0 < step"
  shows "i \<in> set (upt_step a b step) \<longleftrightarrow> a \<le> i \<and> i < b \<and> step dvd (i - a)"
proof
  assume "i \<in> set (upt_step a b step)"
  then obtain k where "i = a + k * step" "k < (b - a + step - 1) div step"
    unfolding upt_step_def set_map set_upt by (elim imageE) auto
  moreover from this(2) assms have "k * step < b - a"
    by (simp add: less_eq_div_iff_mult_less_eq Suc_le_eq [symmetric] mult.commute)
  ultimately show "a \<le> i \<and> i < b \<and> step dvd (i - a)" by auto
next
  assume *: "a \<le> i \<and> i < b \<and> step dvd (i - a)"
  then obtain k where k: "i - a = step * k" by (elim conjE dvdE)
  with * have "i = a + k * step" by (metis le_add_diff_inverse mult.commute)
  moreover have "k * step < b - a" using * k by (metis diff_less_mono mult.commute)
  then have "k < (b - a + step - 1) div step"
    using assms by (simp add: less_eq_div_iff_mult_less_eq Suc_le_eq [symmetric])
  ultimately show "i \<in> set (upt_step a b step)" by (auto simp: upt_step_def)
qed

end
