(* ===== verification/Errors.thy ===== *)
theory Errors
  imports Prelude
begin

text \<open>
  The error codes of \<open>include/common/error.h\<close> and the message table of
  \<open>src/common/error.c\<close>. \<open>ErasecureError\<close> has the enumerators of the header, in its order, and
  one more constructor for the identifiers that some sources return although no header of the
  repository declares them (\<open>ERASECURE_ERR_NO_MEM\<close> in the recovery modules, \<open>ERR_SUCCESS\<close> and its
  kin in the test-image generator): those have no integer value.
\<close>

section \<open>The error enumeration\<close>

datatype (plugins only: code) ErasecureError =
    ERASECURE_OK
  | ERASECURE_ERR_GENERIC
  | ERASECURE_ERR_INVALID_ARG
  | ERASECURE_ERR_NULL_PTR
  | ERASECURE_ERR_NOT_IMPLEMENTED
  | ERASECURE_ERR_UNSUPPORTED
  | ERASECURE_ERR_OVERFLOW
  | ERASECURE_ERR_IO
  | ERASECURE_ERR_OPEN_FAILED
  | ERASECURE_ERR_READ_FAILED
  | ERASECURE_ERR_WRITE_FAILED
  | ERASECURE_ERR_SEEK_FAILED
  | ERASECURE_ERR_SYNC_FAILED
  | ERASECURE_ERR_STAT_FAILED
  | ERASECURE_ERR_ALLOC
  | ERASECURE_ERR_DEVICE_NOT_FOUND
  | ERASECURE_ERR_DEVICE_READ_ONLY
  | ERASECURE_ERR_DEVICE_SCAN_FAIL
  | ERASECURE_ERR_NOT_A_DEVICE
  | ERASECURE_ERR_REAL_DEVICE_PATH
  | ERASECURE_ERR_SAFETY_BLOCKED
  | ERASECURE_ERR_CRYPTO
  | ERASECURE_ERR_HASH_FAILED
  | ERASECURE_ERR_KEY_UNAVAILABLE
  | ERASECURE_ERR_VERIFY_FAILED
  | ERASECURE_ERR_PATTERN_MISMATCH
  | ERASECURE_ERR_AUDIT
  | ERASECURE_ERR_DB_OPEN
  | ERASECURE_ERR_DB_EXEC
  | ERASECURE_ERR_CHAIN_TAMPERED
  | ERASECURE_ERR_PERMISSION_DENIED
  | ERASECURE_ERR_DEVICE_BUSY
  | ERASECURE_ERR_DEVICE_MOUNTED
  | ERASECURE_ERR_TIMEOUT
  | ERASECURE_ERR_CANCELLED
  | ERASECURE_ERR_IDENTITY_CHANGED
  | ERASECURE_ERR_CONFIRMATION
  | ERASECURE_ERR_IOCTL_FAILED
  | ERASECURE_ERR_PATH_TRAVERSAL
  | ERASECURE_ERR_SYMLINK_ATTACK
  | ERASECURE_ERR_DANGEROUS_PATH
  | ERASECURE_ERR_DIR_NOT_EMPTY
  | ERASECURE_ERR_CYCLE_DETECTED
  | ERASECURE_ERR_EVIDENCE_MISMATCH
  | ERASECURE_ERR_EVIDENCE_MODIFIED
  | ERASECURE_ERR_CHECKPOINT_INVALID
  | ERASECURE_ERR_CHECKPOINT_VERSION
  | ERASECURE_ERR_VALIDATION_FAILED
  | ERASECURE_ERR_QUEUE_FULL
  | ERASECURE_ERR_QUEUE_EMPTY
  | ERASECURE_ERR_NOT_FOUND
  | ERASECURE_ERR_ALREADY_EXISTS
  | Undeclared string

text \<open>The compatibility aliases of the header, and the two undeclared names of the recovery modules.\<close>

abbreviation ERASECURE_SUCCESS :: ErasecureError where
  "ERASECURE_SUCCESS \<equiv> ERASECURE_OK"
abbreviation ERASECURE_ERROR_INVALID_PARAM :: ErasecureError where
  "ERASECURE_ERROR_INVALID_PARAM \<equiv> ERASECURE_ERR_INVALID_ARG"
abbreviation ERASECURE_ERROR_INVALID_ARGUMENT :: ErasecureError where
  "ERASECURE_ERROR_INVALID_ARGUMENT \<equiv> ERASECURE_ERR_INVALID_ARG"
abbreviation ERASECURE_ERR_INVALID_ARGUMENT :: ErasecureError where
  "ERASECURE_ERR_INVALID_ARGUMENT \<equiv> ERASECURE_ERR_INVALID_ARG"
abbreviation ERASECURE_ERROR_INVALID_STATE :: ErasecureError where
  "ERASECURE_ERROR_INVALID_STATE \<equiv> ERASECURE_ERR_INVALID_ARG"
abbreviation ERASECURE_ERROR_MEMORY :: ErasecureError where
  "ERASECURE_ERROR_MEMORY \<equiv> ERASECURE_ERR_ALLOC"
abbreviation ERASECURE_ERROR_NOT_FOUND :: ErasecureError where
  "ERASECURE_ERROR_NOT_FOUND \<equiv> ERASECURE_ERR_NOT_FOUND"
abbreviation ERASECURE_ERR_DEVICE_OPEN_FAILED :: ErasecureError where
  "ERASECURE_ERR_DEVICE_OPEN_FAILED \<equiv> ERASECURE_ERR_OPEN_FAILED"
abbreviation ERASECURE_ERR_NO_MEM :: ErasecureError where
  "ERASECURE_ERR_NO_MEM \<equiv> Undeclared ''ERASECURE_ERR_NO_MEM''"
abbreviation ERASECURE_ERR_FILE_NOT_FOUND :: ErasecureError where
  "ERASECURE_ERR_FILE_NOT_FOUND \<equiv> Undeclared ''ERASECURE_ERR_FILE_NOT_FOUND''"

text \<open>The enumerators' values.\<close>

primrec error_code :: "ErasecureError \<Rightarrow> int option" where
  "error_code ERASECURE_OK = Some (0)"
| "error_code ERASECURE_ERR_GENERIC = Some (-1)"
| "error_code ERASECURE_ERR_INVALID_ARG = Some (-2)"
| "error_code ERASECURE_ERR_NULL_PTR = Some (-3)"
| "error_code ERASECURE_ERR_NOT_IMPLEMENTED = Some (-4)"
| "error_code ERASECURE_ERR_UNSUPPORTED = Some (-5)"
| "error_code ERASECURE_ERR_OVERFLOW = Some (-6)"
| "error_code ERASECURE_ERR_IO = Some (-10)"
| "error_code ERASECURE_ERR_OPEN_FAILED = Some (-11)"
| "error_code ERASECURE_ERR_READ_FAILED = Some (-12)"
| "error_code ERASECURE_ERR_WRITE_FAILED = Some (-13)"
| "error_code ERASECURE_ERR_SEEK_FAILED = Some (-14)"
| "error_code ERASECURE_ERR_SYNC_FAILED = Some (-15)"
| "error_code ERASECURE_ERR_STAT_FAILED = Some (-16)"
| "error_code ERASECURE_ERR_ALLOC = Some (-20)"
| "error_code ERASECURE_ERR_DEVICE_NOT_FOUND = Some (-30)"
| "error_code ERASECURE_ERR_DEVICE_READ_ONLY = Some (-31)"
| "error_code ERASECURE_ERR_DEVICE_SCAN_FAIL = Some (-32)"
| "error_code ERASECURE_ERR_NOT_A_DEVICE = Some (-33)"
| "error_code ERASECURE_ERR_REAL_DEVICE_PATH = Some (-40)"
| "error_code ERASECURE_ERR_SAFETY_BLOCKED = Some (-41)"
| "error_code ERASECURE_ERR_CRYPTO = Some (-50)"
| "error_code ERASECURE_ERR_HASH_FAILED = Some (-51)"
| "error_code ERASECURE_ERR_KEY_UNAVAILABLE = Some (-52)"
| "error_code ERASECURE_ERR_VERIFY_FAILED = Some (-60)"
| "error_code ERASECURE_ERR_PATTERN_MISMATCH = Some (-61)"
| "error_code ERASECURE_ERR_AUDIT = Some (-70)"
| "error_code ERASECURE_ERR_DB_OPEN = Some (-71)"
| "error_code ERASECURE_ERR_DB_EXEC = Some (-72)"
| "error_code ERASECURE_ERR_CHAIN_TAMPERED = Some (-73)"
| "error_code ERASECURE_ERR_PERMISSION_DENIED = Some (-80)"
| "error_code ERASECURE_ERR_DEVICE_BUSY = Some (-81)"
| "error_code ERASECURE_ERR_DEVICE_MOUNTED = Some (-82)"
| "error_code ERASECURE_ERR_TIMEOUT = Some (-83)"
| "error_code ERASECURE_ERR_CANCELLED = Some (-84)"
| "error_code ERASECURE_ERR_IDENTITY_CHANGED = Some (-85)"
| "error_code ERASECURE_ERR_CONFIRMATION = Some (-86)"
| "error_code ERASECURE_ERR_IOCTL_FAILED = Some (-87)"
| "error_code ERASECURE_ERR_PATH_TRAVERSAL = Some (-90)"
| "error_code ERASECURE_ERR_SYMLINK_ATTACK = Some (-91)"
| "error_code ERASECURE_ERR_DANGEROUS_PATH = Some (-92)"
| "error_code ERASECURE_ERR_DIR_NOT_EMPTY = Some (-93)"
| "error_code ERASECURE_ERR_CYCLE_DETECTED = Some (-94)"
| "error_code ERASECURE_ERR_EVIDENCE_MISMATCH = Some (-100)"
| "error_code ERASECURE_ERR_EVIDENCE_MODIFIED = Some (-101)"
| "error_code ERASECURE_ERR_CHECKPOINT_INVALID = Some (-102)"
| "error_code ERASECURE_ERR_CHECKPOINT_VERSION = Some (-103)"
| "error_code ERASECURE_ERR_VALIDATION_FAILED = Some (-104)"
| "error_code ERASECURE_ERR_QUEUE_FULL = Some (-105)"
| "error_code ERASECURE_ERR_QUEUE_EMPTY = Some (-106)"
| "error_code ERASECURE_ERR_NOT_FOUND = Some (-107)"
| "error_code ERASECURE_ERR_ALREADY_EXISTS = Some (-108)"
| "error_code (Undeclared n) = None"

section \<open>The message table\<close>

definition error_table :: "(int \<times> string) list" where
  "error_table = [
    (0, ''Success''),
    (-1, ''Generic error''),
    (-2, ''Invalid argument''),
    (-3, ''Null pointer''),
    (-4, ''Not implemented''),
    (-5, ''Unsupported operation''),
    (-6, ''Integer overflow''),
    (-10, ''I/O error''),
    (-11, ''Failed to open file/device''),
    (-12, ''Read failed''),
    (-13, ''Write failed''),
    (-14, ''Seek failed''),
    (-15, ''Fsync failed''),
    (-16, ''Stat failed''),
    (-20, ''Memory allocation failed''),
    (-30, ''Device not found''),
    (-31, ''Device is read-only''),
    (-32, ''Device scan failed''),
    (-33, ''Path is not a storage device''),
    (-40, ''Real device path rejected in test mode''),
    (-41, ''Operation blocked for safety''),
    (-50, ''Cryptographic error''),
    (-51, ''Hash computation failed''),
    (-52, ''Encryption key unavailable''),
    (-60, ''Verification failed''),
    (-61, ''Pattern mismatch during verification''),
    (-70, ''Audit error''),
    (-71, ''Database open failed''),
    (-72, ''Database execution failed''),
    (-73, ''Audit chain tamper detected''),
    (-80, ''Permission denied''),
    (-81, ''Device is busy''),
    (-82, ''Device has mounted filesystems''),
    (-83, ''Operation timed out''),
    (-84, ''Operation cancelled''),
    (-85, ''Device identity changed since discovery''),
    (-86, ''Destructive operation not confirmed''),
    (-87, ''Ioctl call failed''),
    (-90, ''Path traversal detected''),
    (-91, ''Symlink attack detected''),
    (-92, ''Dangerous path rejected''),
    (-93, ''Directory not empty after processing''),
    (-94, ''Directory cycle detected''),
    (-100, ''Evidence image mismatch''),
    (-101, ''Evidence image was modified''),
    (-102, ''Checkpoint data is invalid''),
    (-103, ''Checkpoint format version mismatch''),
    (-104, ''File validation failed''),
    (-105, ''Queue is full''),
    (-106, ''Queue is empty''),
    (-107, ''Item not found''),
    (-108, ''Item already exists'')]"

text \<open>\<open>erasecure_strerror\<close>: the first entry of the table with the given code.\<close>

fun strerror_scan :: "(int \<times> string) list \<Rightarrow> int \<Rightarrow> string" where
  "strerror_scan [] err = ''Unknown error code''"
| "strerror_scan ((code, message) # rest) err =
     (if code = err then message else strerror_scan rest err)"

definition erasecure_strerror :: "int \<Rightarrow> string" where
  "erasecure_strerror err = strerror_scan error_table err"

text \<open>The line that \<open>erasecure_log_error\<close> writes to stderr.\<close>

definition erasecure_log_error :: "string \<Rightarrow> int \<Rightarrow> string \<Rightarrow> int \<Rightarrow> string option \<Rightarrow> string" where
  "erasecure_log_error file line func err msg =
     ''[ERASECURE ERROR] '' @ file @ '':'' @ dec_int line @ '' '' @ func @ ''(): '' @
     erasecure_strerror err @ '' (code '' @ dec_int err @ '') -- '' @
     (case msg of None \<Rightarrow> [] | Some m \<Rightarrow> m) @ [char_of (10 :: nat)]"

lemma strerror_scan_map_of:
  "strerror_scan t err = (case map_of t err of None \<Rightarrow> ''Unknown error code'' | Some m \<Rightarrow> m)"
  by (induction t) auto

lemma distinct_error_table: "distinct (map fst error_table)"
  by (simp add: error_table_def)

lemma distinct_error_messages: "distinct (''Unknown error code'' # map snd error_table)"
  by (simp add: error_table_def)

definition all_errors :: "ErasecureError list" where
  "all_errors = [
     ERASECURE_OK, ERASECURE_ERR_GENERIC, ERASECURE_ERR_INVALID_ARG,
     ERASECURE_ERR_NULL_PTR, ERASECURE_ERR_NOT_IMPLEMENTED, ERASECURE_ERR_UNSUPPORTED,
     ERASECURE_ERR_OVERFLOW, ERASECURE_ERR_IO, ERASECURE_ERR_OPEN_FAILED,
     ERASECURE_ERR_READ_FAILED, ERASECURE_ERR_WRITE_FAILED, ERASECURE_ERR_SEEK_FAILED,
     ERASECURE_ERR_SYNC_FAILED, ERASECURE_ERR_STAT_FAILED, ERASECURE_ERR_ALLOC,
     ERASECURE_ERR_DEVICE_NOT_FOUND, ERASECURE_ERR_DEVICE_READ_ONLY, ERASECURE_ERR_DEVICE_SCAN_FAIL,
     ERASECURE_ERR_NOT_A_DEVICE, ERASECURE_ERR_REAL_DEVICE_PATH, ERASECURE_ERR_SAFETY_BLOCKED,
     ERASECURE_ERR_CRYPTO, ERASECURE_ERR_HASH_FAILED, ERASECURE_ERR_KEY_UNAVAILABLE,
     ERASECURE_ERR_VERIFY_FAILED, ERASECURE_ERR_PATTERN_MISMATCH, ERASECURE_ERR_AUDIT,
     ERASECURE_ERR_DB_OPEN, ERASECURE_ERR_DB_EXEC, ERASECURE_ERR_CHAIN_TAMPERED,
     ERASECURE_ERR_PERMISSION_DENIED, ERASECURE_ERR_DEVICE_BUSY, ERASECURE_ERR_DEVICE_MOUNTED,
     ERASECURE_ERR_TIMEOUT, ERASECURE_ERR_CANCELLED, ERASECURE_ERR_IDENTITY_CHANGED,
     ERASECURE_ERR_CONFIRMATION, ERASECURE_ERR_IOCTL_FAILED, ERASECURE_ERR_PATH_TRAVERSAL,
     ERASECURE_ERR_SYMLINK_ATTACK, ERASECURE_ERR_DANGEROUS_PATH, ERASECURE_ERR_DIR_NOT_EMPTY,
     ERASECURE_ERR_CYCLE_DETECTED, ERASECURE_ERR_EVIDENCE_MISMATCH, ERASECURE_ERR_EVIDENCE_MODIFIED,
     ERASECURE_ERR_CHECKPOINT_INVALID, ERASECURE_ERR_CHECKPOINT_VERSION, ERASECURE_ERR_VALIDATION_FAILED,
     ERASECURE_ERR_QUEUE_FULL, ERASECURE_ERR_QUEUE_EMPTY, ERASECURE_ERR_NOT_FOUND,
     ERASECURE_ERR_ALREADY_EXISTS]"

lemma error_code_all_errors: "map error_code all_errors = map (Some \<circ> fst) error_table"
  by (simp add: all_errors_def error_table_def)

lemma in_all_errors: "error_code e = Some c \<Longrightarrow> e \<in> set all_errors"
  by (cases e) (simp_all add: all_errors_def)

lemma inj_on_error_code: "inj_on error_code (set all_errors)"
proof -
  have "distinct (map error_code all_errors)"
    using distinct_error_table
    by (simp add: error_code_all_errors distinct_map comp_inj_on_iff [symmetric] inj_on_def)
  then show ?thesis by (simp add: distinct_map)
qed

lemma error_code_in_table:
  assumes "error_code e = Some c"
  shows "c \<in> fst ` set error_table"
proof -
  have "e \<in> set all_errors" using assms by (rule in_all_errors)
  then have "error_code e \<in> set (map error_code all_errors)" by simp
  then have "Some c \<in> set (map error_code all_errors)" by (simp only: assms)
  then show ?thesis by (force simp: error_code_all_errors)
qed

lemma strerror_in_table:
  assumes "(c, m) \<in> set error_table"
  shows "erasecure_strerror c = m"
  using map_of_is_SomeI [OF distinct_error_table assms]
  by (simp add: erasecure_strerror_def strerror_scan_map_of)

text \<open>
  Every declared error code has its own message: \<open>erasecure_strerror\<close> never answers "Unknown
  error code" for one, and two different enumerators never share a message.
\<close>

theorem strerror_distinguishes_codes:
  assumes "error_code e = Some c" and "error_code f = Some d"
  shows "erasecure_strerror c \<noteq> ''Unknown error code''
    \<and> (erasecure_strerror c = erasecure_strerror d \<longleftrightarrow> e = f)"
proof -
  from assms have "c \<in> fst ` set error_table" and "d \<in> fst ` set error_table"
    by (auto intro: error_code_in_table)
  then obtain m n where m: "(c, m) \<in> set error_table" and n: "(d, n) \<in> set error_table"
    by auto
  have "m \<noteq> ''Unknown error code''"
    using distinct_error_messages m by (force simp: image_iff)
  moreover have "m = n \<longleftrightarrow> c = d"
  proof
    assume "m = n"
    have "inj_on snd (set error_table)"
      using distinct_error_messages by (simp add: distinct_map)
    from inj_onD [OF this _ m n] \<open>m = n\<close> show "c = d" by simp
  next
    assume "c = d"
    have "inj_on fst (set error_table)"
      using distinct_error_table by (simp add: distinct_map)
    from inj_onD [OF this _ m n] \<open>c = d\<close> show "m = n" by simp
  qed
  moreover have "c = d \<longleftrightarrow> e = f"
    using assms inj_on_error_code in_all_errors by (metis inj_onD option.inject)
  ultimately show ?thesis using m n by (simp add: strerror_in_table)
qed

theorem strerror_distinguishes_codes_witness:
  "erasecure_strerror (-30) \<noteq> ''Unknown error code''
    \<and> (erasecure_strerror (-30) = erasecure_strerror (-31)
        \<longleftrightarrow> ERASECURE_ERR_DEVICE_NOT_FOUND = ERASECURE_ERR_DEVICE_READ_ONLY)"
  by (rule strerror_distinguishes_codes) simp_all

end
