(* ===== verification/Os.thy ===== *)
theory Os
  imports Errors
begin

text \<open>
  What the components use of the operating system: the node a path resolves to, \<open>stat\<close>, text files
  read line by line with \<open>fgets\<close>, and the number parsers of the C library. Whether a system call
  succeeds is never decided here: the operations that make calls take the answers as arguments.
\<close>

section \<open>Files and devices\<close>

text \<open>
  A path resolves to a regular file, a block device (both with their bytes), a directory, a symbolic
  link or something else. A file system maps the existing paths to their nodes.
\<close>

datatype node = Reg "byte list" | Blk "byte list" | DirNode | LnkNode | OtherNode

type_synonym filesys = "string \<rightharpoonup> node"

fun S_ISREG :: "node \<Rightarrow> bool" where
  "S_ISREG (Reg c) = True"
| "S_ISREG _ = False"

fun S_ISBLK :: "node \<Rightarrow> bool" where
  "S_ISBLK (Blk c) = True"
| "S_ISBLK _ = False"

text \<open>\<open>st_size\<close> is meaningful for regular files only.\<close>

fun node_bytes :: "node \<Rightarrow> byte list" where
  "node_bytes (Reg c) = c"
| "node_bytes (Blk c) = c"
| "node_bytes _ = []"

section \<open>Reading text\<close>

definition newline :: char where
  "newline = char_of (10 :: nat)"

lemma newline_char: "newline = CHR 0x0A"
  unfolding newline_def by code_simp

primrec fgets_take :: "nat \<Rightarrow> string \<Rightarrow> string \<times> string" where
  "fgets_take 0 s = ([], s)"
| "fgets_take (Suc k) s =
     (case s of [] \<Rightarrow> ([], [])
      | c # cs \<Rightarrow> if c = newline then ([c], cs)
                 else (case fgets_take k cs of (l, rest) \<Rightarrow> (c # l, rest)))"

lemma fgets_take_append: "fgets_take k s = (l, rest) \<Longrightarrow> s = l @ rest"
  by (induction k arbitrary: s l rest) (auto split: list.splits if_splits prod.splits)

lemma fgets_take_Suc_progress:
  "fgets_take (Suc k) s = (l, rest) \<Longrightarrow> s \<noteq> [] \<Longrightarrow> length rest < length s"
  using fgets_take_append [of "Suc k" s l rest]
  by (auto split: list.splits if_splits prod.splits)

text \<open>
  The successive results of \<open>fgets(buf, k + 2, f)\<close>: pieces of at most \<open>k + 1\<close> characters, each
  ending after its newline when one is reached.
\<close>

function fgets_lines :: "nat \<Rightarrow> string \<Rightarrow> string list" where
  "fgets_lines k s =
     (if s = [] then []
      else fst (fgets_take (Suc k) s) # fgets_lines k (snd (fgets_take (Suc k) s)))"
  by pat_completeness auto
termination
  by (relation "measure (\<lambda>(k, s). length s)")
    (auto intro!: fgets_take_Suc_progress prod.collapse [symmetric] simp del: fgets_take.simps)

declare fgets_lines.simps [simp del]

lemma fgets_lines_Nil [simp]: "fgets_lines k [] = []"
  by (simp add: fgets_lines.simps)

lemma fgets_take_line:
  assumes "newline \<notin> set l" and "length l < k"
  shows "fgets_take k (l @ newline # rest) = (l @ [newline], rest)"
  using assms
proof (induction l arbitrary: k)
  case Nil
  then show ?case by (cases k) auto
next
  case (Cons c l)
  then show ?case by (cases k) auto
qed

lemma fgets_lines_line:
  assumes "newline \<notin> set l" and "length l \<le> k"
  shows "fgets_lines k (l @ newline # rest) = (l @ [newline]) # fgets_lines k rest"
  using fgets_take_line [OF assms(1), of "Suc k" rest] assms(2)
  by (simp add: fgets_lines.simps [of k "l @ newline # rest"] del: fgets_take.simps)

definition first_token :: "nat \<Rightarrow> string \<Rightarrow> string option" where
  \<comment> \<open>\<open>sscanf(line, "%<n>s", buf)\<close>\<close>
  "first_token n line =
     (case take n (takeWhile (\<lambda>c. \<not> is_space c) (dropWhile is_space line)) of
        [] \<Rightarrow> None | t \<Rightarrow> Some t)"

section \<open>Parsing numbers\<close>

definition digits_value :: "string \<Rightarrow> nat" where
  "digits_value ds = foldl (\<lambda>v c. 10 * v + (of_char c - 48)) 0 ds"

text \<open>
  \<open>strtoull(s, &end, 10)\<close>: \<open>None\<close> when no digit was consumed (\<open>end == s\<close>); values beyond the range
  give \<open>ULLONG_MAX\<close>; a minus sign negates in the unsigned type.
\<close>

definition strtoull :: "string \<Rightarrow> nat option" where
  "strtoull s =
     (let t = dropWhile is_space s;
          neg = (case t of c # _ \<Rightarrow> c = CHR ''-'' | [] \<Rightarrow> False);
          u = (case t of c # cs \<Rightarrow> if c = CHR ''-'' \<or> c = CHR ''+'' then cs else t | [] \<Rightarrow> []);
          ds = takeWhile is_digit u;
          v = digits_value ds
      in if ds = [] then None
         else if UINT64_MAX < v then Some UINT64_MAX
         else if neg then Some ((2 ^ 64 - v) mod 2 ^ 64)
         else Some v)"

lemma strtoull_bound: "strtoull s = Some v \<Longrightarrow> v < 2 ^ 64"
  by (auto simp: strtoull_def Let_def UINT64_MAX_def split: if_splits)

text \<open>\<open>strtol(s, NULL, 10)\<close> on a 64-bit \<open>long\<close>: 0 when there is no digit, saturating at the ends.\<close>

definition strtol :: "string \<Rightarrow> int" where
  "strtol s =
     (let t = dropWhile is_space s;
          neg = (case t of c # _ \<Rightarrow> c = CHR ''-'' | [] \<Rightarrow> False);
          u = (case t of c # cs \<Rightarrow> if c = CHR ''-'' \<or> c = CHR ''+'' then cs else t | [] \<Rightarrow> []);
          v = int (digits_value (takeWhile is_digit u))
      in if neg then max (- (2 ^ 63)) (- v) else min (2 ^ 63 - 1) v)"

end
