(* ===== verification/Device.thy ===== *)
theory Device
  imports Os
begin

text \<open>
  The storage-device record of \<open>include/device/device.h\<close> and \<open>src/device/device.c\<close>, and the checks
  of \<open>src/device/device_detect.c\<close> on names and paths: which \<open>/sys/block\<close> entries are whole disks,
  which paths name physical block devices, and whether a device is mounted. Record fields carry the
  prefix \<open>sd_\<close> (\<open>cap_\<close> for the capabilities).
\<close>

section \<open>Data\<close>

datatype DeviceType =
    DEVICE_TYPE_UNKNOWN | DEVICE_TYPE_HDD | DEVICE_TYPE_SATA_SSD | DEVICE_TYPE_NVME_SSD
  | DEVICE_TYPE_USB_HDD | DEVICE_TYPE_USB_SSD | DEVICE_TYPE_USB_FLASH | DEVICE_TYPE_SD_CARD

datatype TransportType =
    TRANSPORT_UNKNOWN | TRANSPORT_SATA | TRANSPORT_NVME | TRANSPORT_USB | TRANSPORT_SD

datatype SanitizationMethod =
    SANITIZE_METHOD_NONE | SANITIZE_METHOD_BLOCK_ERASE | SANITIZE_METHOD_CRYPTO_ERASE
  | SANITIZE_METHOD_DEVICE_NATIVE

datatype EncryptionStatus =
    ENCRYPTION_STATUS_UNKNOWN | ENCRYPTION_STATUS_NOT_ENCRYPTED
  | ENCRYPTION_STATUS_ENCRYPTED | ENCRYPTION_STATUS_LOCKED

record DeviceCapabilities =
  cap_supports_block_erase :: bool
  cap_supports_crypto_erase :: bool
  cap_supports_device_native :: bool
  cap_is_self_encrypting :: bool
  cap_ata_secure_erase_supported :: bool
  cap_ata_enhanced_erase_supported :: bool
  cap_nvme_sanitize_supported :: bool
  cap_nvme_format_supported :: bool

record StorageDevice =
  sd_device_id :: string
  sd_path :: string
  sd_model :: string
  sd_serial :: string
  sd_capacity_bytes :: nat
  sd_logical_sector_size :: nat
  sd_physical_sector_size :: nat
  sd_device_type :: DeviceType
  sd_transport_type :: TransportType
  sd_is_removable :: bool
  sd_is_read_only :: bool
  sd_is_rotational :: bool
  sd_encryption_status :: EncryptionStatus
  sd_capabilities :: DeviceCapabilities

definition no_capabilities :: DeviceCapabilities where
  "no_capabilities =
     \<lparr>cap_supports_block_erase = False, cap_supports_crypto_erase = False,
      cap_supports_device_native = False, cap_is_self_encrypting = False,
      cap_ata_secure_erase_supported = False, cap_ata_enhanced_erase_supported = False,
      cap_nvme_sanitize_supported = False, cap_nvme_format_supported = False\<rparr>"

definition device_init :: StorageDevice where
  "device_init =
     \<lparr>sd_device_id = [], sd_path = [], sd_model = [], sd_serial = [], sd_capacity_bytes = 0,
      sd_logical_sector_size = 512, sd_physical_sector_size = 512,
      sd_device_type = DEVICE_TYPE_UNKNOWN, sd_transport_type = TRANSPORT_UNKNOWN,
      sd_is_removable = False, sd_is_read_only = False, sd_is_rotational = False,
      sd_encryption_status = ENCRYPTION_STATUS_UNKNOWN, sd_capabilities = no_capabilities\<rparr>"

fun device_type_str :: "DeviceType \<Rightarrow> string" where
  "device_type_str DEVICE_TYPE_HDD = ''HDD (rotational)''"
| "device_type_str DEVICE_TYPE_SATA_SSD = ''SATA SSD''"
| "device_type_str DEVICE_TYPE_NVME_SSD = ''NVMe SSD''"
| "device_type_str DEVICE_TYPE_USB_HDD = ''USB HDD''"
| "device_type_str DEVICE_TYPE_USB_SSD = ''USB SSD''"
| "device_type_str DEVICE_TYPE_USB_FLASH = ''USB Flash''"
| "device_type_str DEVICE_TYPE_SD_CARD = ''SD/Memory Card''"
| "device_type_str DEVICE_TYPE_UNKNOWN = ''Unknown''"

fun device_transport_str :: "TransportType \<Rightarrow> string" where
  "device_transport_str TRANSPORT_SATA = ''SATA''"
| "device_transport_str TRANSPORT_NVME = ''NVMe''"
| "device_transport_str TRANSPORT_USB = ''USB''"
| "device_transport_str TRANSPORT_SD = ''SD''"
| "device_transport_str TRANSPORT_UNKNOWN = ''Unknown''"

fun sanitization_method_str :: "SanitizationMethod \<Rightarrow> string" where
  "sanitization_method_str SANITIZE_METHOD_BLOCK_ERASE = ''Block Erase (pattern overwrite)''"
| "sanitization_method_str SANITIZE_METHOD_CRYPTO_ERASE = ''Cryptographic Erase (key destruction)''"
| "sanitization_method_str SANITIZE_METHOD_DEVICE_NATIVE = ''Device-Native Sanitize''"
| "sanitization_method_str SANITIZE_METHOD_NONE = ''None''"

section \<open>Whole disks and partitions\<close>

text \<open>\<open>p_pos && *(p_pos + 1) >= '0' && *(p_pos + 1) <= '9'\<close>\<close>

definition p_then_digit :: "string option \<Rightarrow> bool" where
  "p_then_digit p_pos = (case p_pos of Some (_ # d # _) \<Rightarrow> is_digit d | _ \<Rightarrow> False)"

definition is_partition :: "string \<Rightarrow> bool" where
  "is_partition name =
     (if name = [] then False
      else if prefix ''loop'' name \<or> prefix ''ram'' name then True
      else if prefix ''nvme'' name then
        (case strchr (drop 4 name) (CHR ''n'') of
           None \<Rightarrow> False
         | Some n_pos \<Rightarrow> p_then_digit (strchr (tl n_pos) (CHR ''p'')))
      else if prefix ''mmcblk'' name then
        p_then_digit (strchr (drop 6 name) (CHR ''p''))
      else is_digit (last name))"

section \<open>Physical device paths\<close>

definition blockdev_prefixes :: "string list" where
  "blockdev_prefixes =
     [''/dev/sd'', ''/dev/hd'', ''/dev/nvme'', ''/dev/vd'', ''/dev/xvd'', ''/dev/mmcblk'',
      ''/dev/fd'', ''/dev/sr'', ''/dev/scd'']"

text \<open>\<open>stat_ok\<close> says whether the \<open>stat\<close> call succeeds on an existing path.\<close>

definition device_path_is_block_device :: "bool \<Rightarrow> filesys \<Rightarrow> string option \<Rightarrow> bool" where
  "device_path_is_block_device stat_ok fs path =
     (case path of None \<Rightarrow> False
      | Some p \<Rightarrow>
          if list_ex (\<lambda>pre. prefix pre p) blockdev_prefixes then True
          else if stat_ok then (case fs p of None \<Rightarrow> False | Some n \<Rightarrow> S_ISBLK n)
          else False)"

lemma not_block_device_prefix:
  "\<not> device_path_is_block_device ok fs (Some p) \<Longrightarrow> pre \<in> set blockdev_prefixes \<Longrightarrow> \<not> prefix pre p"
  by (auto simp: device_path_is_block_device_def list_ex_iff split: if_splits)

lemma not_block_device_node:
  "\<not> device_path_is_block_device True fs (Some p) \<Longrightarrow> fs p \<noteq> Some (Blk c)"
  by (auto simp: device_path_is_block_device_def split: if_splits)

section \<open>Mounted devices\<close>

definition mount_matches :: "string \<Rightarrow> string \<Rightarrow> bool" where
  "mount_matches device_path mnt_dev \<longleftrightarrow>
     mnt_dev = device_path \<or>
     (prefix device_path mnt_dev \<and>
      (case drop (length device_path) mnt_dev of
         [] \<Rightarrow> False | c # _ \<Rightarrow> is_digit c \<or> c = CHR ''p''))"

fun scan_mounts :: "string \<Rightarrow> string list \<Rightarrow> bool" where
  "scan_mounts device_path [] = False"
| "scan_mounts device_path (line # lines) =
     (case first_token 511 line of
        None \<Rightarrow> scan_mounts device_path lines
      | Some mnt_dev \<Rightarrow>
          if mount_matches device_path mnt_dev then True else scan_mounts device_path lines)"

text \<open>
  \<open>read_text\<close> gives the content of the text files that can be opened. The result is the error code
  and the value left in \<open>*is_mounted\<close>.
\<close>

definition device_is_mounted :: "(string \<Rightarrow> string option) \<Rightarrow> string option \<Rightarrow> bool option
    \<Rightarrow> ErasecureError \<times> bool option" where
  "device_is_mounted read_text device_path is_mounted =
     (case (device_path, is_mounted) of
        (Some p, Some _) \<Rightarrow>
          (case (case read_text ''/proc/mounts'' of
                   None \<Rightarrow> read_text ''/etc/mtab'' | Some t \<Rightarrow> Some t) of
             None \<Rightarrow> (ERASECURE_OK, Some False)
           | Some t \<Rightarrow> (ERASECURE_OK, Some (scan_mounts p (fgets_lines 1022 t))))
      | _ \<Rightarrow> (ERASECURE_ERR_INVALID_ARG, is_mounted))"

lemma scan_mounts_iff:
  "scan_mounts p lines \<longleftrightarrow>
     (\<exists>line \<in> set lines. \<exists>d. first_token 511 line = Some d \<and> mount_matches p d)"
  by (induction lines) (auto split: option.splits)

lemma mount_matches_subpartition:
  "mount_matches p (p @ c # s) \<longleftrightarrow> is_digit c \<or> c = CHR ''p''"
  by (simp add: mount_matches_def)

end
