(* ===== verification/Block_Erase.thy ===== *)
theory Block_Erase
  imports Device
begin

text \<open>
  Pattern overwrite of disk images and devices: \<open>include/sanitization/block_erase.h\<close> and
  \<open>src/sanitization/block_erase.c\<close>. The system's answers (does \<open>fopen\<close> succeed, how many bytes does
  a write take, what does \<open>RAND_bytes\<close> deliver) are fields of \<open>erase_env\<close>; the loops' local
  variables and the bytes under erasure are the fields of \<open>erase_state\<close>. Wall-clock times
  (\<open>duration_seconds\<close>) are left out.
\<close>

section \<open>Data\<close>

datatype ErasePattern = ERASE_PATTERN_ZERO | ERASE_PATTERN_ONE | ERASE_PATTERN_RANDOM

datatype VerifyMode = VERIFY_NONE | VERIFY_SAMPLE | VERIFY_FULL

definition ERASECURE_DEFAULT_BLOCK_SIZE :: nat where "ERASECURE_DEFAULT_BLOCK_SIZE = 1048576"
definition ERASECURE_MIN_BLOCK_SIZE :: nat where "ERASECURE_MIN_BLOCK_SIZE = 512"
definition ERASECURE_MAX_BLOCK_SIZE :: nat where "ERASECURE_MAX_BLOCK_SIZE = 67108864"
definition ERASECURE_DEFAULT_PASSES :: nat where "ERASECURE_DEFAULT_PASSES = 1"
definition ERASECURE_MAX_PASSES :: nat where "ERASECURE_MAX_PASSES = 35"

lemmas erase_limits =
  ERASECURE_DEFAULT_BLOCK_SIZE_def ERASECURE_MIN_BLOCK_SIZE_def ERASECURE_MAX_BLOCK_SIZE_def
  ERASECURE_DEFAULT_PASSES_def ERASECURE_MAX_PASSES_def

text \<open>\<open>beo_progress_cb\<close>: whether the callback pointer is set.\<close>

record BlockEraseOptions =
  beo_pattern :: ErasePattern
  beo_block_size :: nat
  beo_passes :: nat
  beo_verify_mode :: VerifyMode
  beo_progress_cb :: bool

record BlockEraseResult =
  ber_bytes_written :: nat
  ber_passes_completed :: nat
  ber_result_code :: ErasecureError
  ber_error_message :: string

text \<open>\<open>memset(result, 0, sizeof(*result)); result->result_code = ERASECURE_ERR_GENERIC;\<close>\<close>

definition fresh_erase_result :: BlockEraseResult where
  "fresh_erase_result =
     \<lparr>ber_bytes_written = 0, ber_passes_completed = 0, ber_result_code = ERASECURE_ERR_GENERIC,
      ber_error_message = []\<rparr>"

definition erase_pattern_str :: "ErasePattern \<Rightarrow> string" where
  "erase_pattern_str p =
     (case p of ERASE_PATTERN_ZERO \<Rightarrow> ''zero (0x00)'' | ERASE_PATTERN_ONE \<Rightarrow> ''one (0xFF)''
      | ERASE_PATTERN_RANDOM \<Rightarrow> ''random (CSPRNG)'')"

definition block_erase_options_init :: BlockEraseOptions where
  "block_erase_options_init =
     \<lparr>beo_pattern = ERASE_PATTERN_ZERO, beo_block_size = ERASECURE_DEFAULT_BLOCK_SIZE,
      beo_passes = ERASECURE_DEFAULT_PASSES, beo_verify_mode = VERIFY_NONE,
      beo_progress_cb = False\<rparr>"

section \<open>The environment\<close>

datatype open_answer = Open_Ok | Open_EACCES | Open_EPERM | Open_EBUSY | Open_Other

text \<open>An answer of \<open>write(2)\<close>: interrupted, failed, or the number of bytes it is willing to take.\<close>

datatype write_answer = Write_EINTR | Write_Error | Write_Takes nat

text \<open>
  \<open>env_rand\<close> and \<open>env_fwrite\<close> are indexed by the bytes written so far, \<open>env_write\<close> by the number of
  \<open>write\<close> calls made so far, the others by the pass.
\<close>

record erase_env =
  env_stat_ok :: bool
  env_malloc_ok :: bool
  env_rand :: "nat \<Rightarrow> (nat \<Rightarrow> byte) option"
  env_strerror :: string
  env_fopen_ok :: "nat \<Rightarrow> bool"
  env_fwrite :: "nat \<Rightarrow> nat"
  env_sync_ok :: "nat \<Rightarrow> bool"
  env_text :: "string \<Rightarrow> string option"
  env_open :: open_answer
  env_ioctl_size :: "nat option"
  env_lseek_ok :: "nat \<Rightarrow> bool"
  env_write :: "nat \<Rightarrow> write_answer"

record erase_state =
  es_content :: "byte list"
  es_buf :: "byte list"
  es_written :: nat
  es_ret :: ErasecureError
  es_passes :: nat
  es_message :: string
  es_progress :: "(nat \<times> nat) list"
  es_calls :: nat

definition es_fail :: "ErasecureError \<Rightarrow> string \<Rightarrow> erase_state \<Rightarrow> erase_state" where
  "es_fail e msg st = st\<lparr>es_ret := e, es_message := cstr 128 msg\<rparr>"

section \<open>Pattern buffers\<close>

text \<open>\<open>rand\<close> is the answer of \<open>RAND_bytes\<close>. The result is the code and the buffer.\<close>

definition block_erase_fill_pattern ::
    "(nat \<Rightarrow> byte) option \<Rightarrow> byte list option \<Rightarrow> nat \<Rightarrow> ErasePattern
     \<Rightarrow> ErasecureError \<times> byte list option" where
  "block_erase_fill_pattern rand buf len pattern =
     (case buf of None \<Rightarrow> (ERASECURE_ERR_NULL_PTR, None)
      | Some b \<Rightarrow>
        (case pattern of
           ERASE_PATTERN_ZERO \<Rightarrow> (ERASECURE_OK, Some (replicate len 0 @ drop len b))
         | ERASE_PATTERN_ONE \<Rightarrow> (ERASECURE_OK, Some (replicate len 0xFF @ drop len b))
         | ERASE_PATTERN_RANDOM \<Rightarrow>
             (case rand of None \<Rightarrow> (ERASECURE_ERR_CRYPTO, Some b)
              | Some f \<Rightarrow> (ERASECURE_OK, Some (map f [0..<len] @ drop len b)))))"

definition fill_buffer_pattern ::
    "(nat \<Rightarrow> byte) option \<Rightarrow> byte list \<Rightarrow> nat \<Rightarrow> ErasePattern \<Rightarrow> ErasecureError \<times> byte list" where
  "fill_buffer_pattern rand buf len pattern =
     (case block_erase_fill_pattern rand (Some buf) len pattern of
        (e, b) \<Rightarrow> (e, case b of None \<Rightarrow> buf | Some b' \<Rightarrow> b'))"

text \<open>The \<open>j\<close>-th byte of a chunk filled when \<open>k\<close> bytes had been written.\<close>

definition pattern_byte :: "erase_env \<Rightarrow> ErasePattern \<Rightarrow> nat \<Rightarrow> nat \<Rightarrow> byte" where
  "pattern_byte env pattern k j =
     (case pattern of ERASE_PATTERN_ZERO \<Rightarrow> 0 | ERASE_PATTERN_ONE \<Rightarrow> 0xFF
      | ERASE_PATTERN_RANDOM \<Rightarrow> (case env_rand env k of None \<Rightarrow> 0 | Some f \<Rightarrow> f j))"

lemma fill_buffer_pattern_OK:
  assumes "fill_buffer_pattern (env_rand env k) buf len pattern = (ERASECURE_OK, b)"
  shows "take len b = map (pattern_byte env pattern k) [0..<len]"
  using assms
  by (auto simp: fill_buffer_pattern_def block_erase_fill_pattern_def pattern_byte_def
      intro!: nth_equalityI split: ErasePattern.splits option.splits)

section \<open>Clamping the options\<close>

definition clamp_block_size :: "nat \<Rightarrow> nat" where
  "clamp_block_size bs =
     (let b = (if bs < ERASECURE_MIN_BLOCK_SIZE then ERASECURE_DEFAULT_BLOCK_SIZE else bs)
      in if b > ERASECURE_MAX_BLOCK_SIZE then ERASECURE_MAX_BLOCK_SIZE else b)"

definition clamp_passes :: "nat \<Rightarrow> nat" where
  "clamp_passes n =
     (let p = (if n = 0 then ERASECURE_DEFAULT_PASSES else n)
      in if p > ERASECURE_MAX_PASSES then ERASECURE_MAX_PASSES else p)"

lemma clamp_block_size_bounds:
  "ERASECURE_MIN_BLOCK_SIZE \<le> clamp_block_size bs \<and> clamp_block_size bs \<le> ERASECURE_MAX_BLOCK_SIZE"
  by (auto simp: clamp_block_size_def Let_def erase_limits)

lemma clamp_block_size_pos [simp]: "0 < clamp_block_size bs"
  using clamp_block_size_bounds [of bs] by (simp add: erase_limits)

lemma clamp_passes_bounds: "1 \<le> clamp_passes n \<and> clamp_passes n \<le> ERASECURE_MAX_PASSES"
  by (auto simp: clamp_passes_def Let_def erase_limits)

section \<open>Erasing an image file\<close>

text \<open>
  One iteration of the chunk loop: the new state and the number of bytes to take off
  \<open>remaining\<close>. A failing step sets \<open>es_ret\<close>, which ends the loop (the code's \<open>break\<close>).
\<close>

definition image_chunk ::
    "erase_env \<Rightarrow> BlockEraseOptions \<Rightarrow> nat \<Rightarrow> nat \<Rightarrow> nat \<Rightarrow> nat \<Rightarrow> nat \<Rightarrow> erase_state
     \<Rightarrow> erase_state \<times> nat" where
  "image_chunk env opts pass block_size file_size total_bytes remaining st =
     (let chunk = (if remaining < block_size then remaining else block_size)
      in case fill_buffer_pattern (env_rand env (es_written st)) (es_buf st) chunk
                (beo_pattern opts) of
           (pe, buf) \<Rightarrow>
             let st1 = st\<lparr>es_buf := buf\<rparr>
             in if pe \<noteq> ERASECURE_OK then (es_fail pe ''Pattern generation failed.'' st1, 0)
                else
                  let written = min chunk (env_fwrite env (es_written st));
                      st2 = st1\<lparr>es_content := write_at (es_content st1) (file_size - remaining)
                                   (take written buf)\<rparr>
                  in if written \<noteq> chunk
                     then (es_fail ERASECURE_ERR_WRITE_FAILED
                             (''fwrite failed at pass '' @ dec pass @ '': '' @ env_strerror env) st2, 0)
                     else
                       let done = wrap64 (es_written st2 + written);
                           st3 = st2\<lparr>es_written := done\<rparr>;
                           st4 = (if beo_progress_cb opts
                                  then st3\<lparr>es_progress := es_progress st3 @ [(done, total_bytes)]\<rparr> else st3)
                       in (st4, written))"

partial_function (option) image_write_loop ::
    "erase_env \<Rightarrow> BlockEraseOptions \<Rightarrow> nat \<Rightarrow> nat \<Rightarrow> nat \<Rightarrow> nat \<Rightarrow> nat \<Rightarrow> erase_state
     \<Rightarrow> erase_state option" where
  "image_write_loop env opts pass block_size file_size total_bytes remaining st =
     (if remaining > 0 \<and> es_ret st = ERASECURE_OK
      then image_write_loop env opts pass block_size file_size total_bytes
             (remaining - snd (image_chunk env opts pass block_size file_size total_bytes remaining st))
             (fst (image_chunk env opts pass block_size file_size total_bytes remaining st))
      else Some st)"

definition quoted :: "string \<Rightarrow> string" where
  "quoted s = [CHR 0x27] @ s @ [CHR 0x27]"

definition image_pass ::
    "erase_env \<Rightarrow> BlockEraseOptions \<Rightarrow> string \<Rightarrow> nat \<Rightarrow> nat \<Rightarrow> nat \<Rightarrow> nat \<Rightarrow> erase_state
     \<Rightarrow> erase_state option" where
  "image_pass env opts image_path block_size file_size total_bytes pass st =
     (if \<not> env_fopen_ok env pass
      then Some (es_fail ERASECURE_ERR_OPEN_FAILED
                   (''fopen('' @ quoted image_path @ '') failed: '' @ env_strerror env) st)
      else case image_write_loop env opts pass block_size file_size total_bytes file_size st of
             None \<Rightarrow> None
           | Some st1 \<Rightarrow>
               let st2 = (if es_ret st1 = ERASECURE_OK \<and> \<not> env_sync_ok env pass
                          then es_fail ERASECURE_ERR_SYNC_FAILED
                                 (''fsync failed at pass '' @ dec pass @ '': '' @ env_strerror env) st1
                          else st1)
               in Some (if es_ret st2 = ERASECURE_OK then st2\<lparr>es_passes := es_passes st2 + 1\<rparr>
                        else st2))"

fun image_passes ::
    "erase_env \<Rightarrow> BlockEraseOptions \<Rightarrow> string \<Rightarrow> nat \<Rightarrow> nat \<Rightarrow> nat \<Rightarrow> nat list \<Rightarrow> erase_state
     \<Rightarrow> erase_state option" where
  "image_passes env opts image_path block_size file_size total_bytes [] st = Some st"
| "image_passes env opts image_path block_size file_size total_bytes (pass # passes) st =
     (if es_ret st = ERASECURE_OK
      then case image_pass env opts image_path block_size file_size total_bytes pass st of
             None \<Rightarrow> None
           | Some st' \<Rightarrow> image_passes env opts image_path block_size file_size total_bytes passes st'
      else Some st)"

definition start_state :: "byte list \<Rightarrow> nat \<Rightarrow> erase_state" where
  "start_state content block_size =
     \<lparr>es_content = content, es_buf = replicate block_size 0, es_written = 0, es_ret = ERASECURE_OK,
      es_passes = 0, es_message = [], es_progress = [], es_calls = 0\<rparr>"

definition finish_result :: "erase_state \<Rightarrow> BlockEraseResult" where
  "finish_result st =
     \<lparr>ber_bytes_written = es_written st, ber_passes_completed = es_passes st,
      ber_result_code = es_ret st, ber_error_message = es_message st\<rparr>"

text \<open>What a call leaves: code, \<open>*result\<close>, file system, calls of the progress callback.\<close>

type_synonym erase_outcome =
  "ErasecureError \<times> BlockEraseResult option \<times> filesys \<times> (nat \<times> nat) list"

definition erase_reject :: "ErasecureError \<Rightarrow> string \<Rightarrow> filesys \<Rightarrow> erase_outcome" where
  "erase_reject e msg fs =
     (e, Some (fresh_erase_result\<lparr>ber_result_code := e, ber_error_message := cstr 128 msg\<rparr>), fs, [])"

text \<open>The part of the call after the checks: \<open>content\<close> is the file's.\<close>

definition block_erase_image_run ::
    "erase_env \<Rightarrow> filesys \<Rightarrow> string \<Rightarrow> byte list \<Rightarrow> BlockEraseOptions \<Rightarrow> erase_outcome option" where
  "block_erase_image_run env fs path content opts =
     (let block_size = clamp_block_size (beo_block_size opts);
          passes = clamp_passes (beo_passes opts);
          file_size = length content;
          total_bytes = wrap64 (file_size * passes)
      in case image_passes env opts path block_size file_size total_bytes [0..<passes]
                (start_state content block_size) of
           None \<Rightarrow> None
         | Some st \<Rightarrow>
             Some (es_ret st, Some (finish_result st), fs(path \<mapsto> Reg (es_content st)),
                   es_progress st))"

definition block_erase_image ::
    "erase_env \<Rightarrow> filesys \<Rightarrow> string option \<Rightarrow> BlockEraseOptions option \<Rightarrow> BlockEraseResult option
     \<Rightarrow> erase_outcome option" where
  "block_erase_image env fs image_path opts result =
     (case (image_path, opts, result) of
        (Some path, Some opts, Some _) \<Rightarrow>
          if device_path_is_block_device (env_stat_ok env) fs (Some path)
          then Some (erase_reject ERASECURE_ERR_REAL_DEVICE_PATH
                 (''SAFETY: '' @ quoted path @ '' looks like a physical block device. '' @
                  ''block_erase_image() is for test images only.'') fs)
          else if \<not> env_stat_ok env \<or> fs path = None
          then Some (erase_reject ERASECURE_ERR_STAT_FAILED
                 (''stat('' @ quoted path @ '') failed: '' @ env_strerror env) fs)
          else (case the (fs path) of
                  Reg content \<Rightarrow>
                    if content = []
                    then Some (erase_reject ERASECURE_ERR_INVALID_ARG
                           (quoted path @ '' has zero size.'') fs)
                    else if \<not> env_malloc_ok env
                    then Some (erase_reject ERASECURE_ERR_ALLOC
                           (''malloc('' @ dec (clamp_block_size (beo_block_size opts)) @ '') failed.'') fs)
                    else block_erase_image_run env fs path content opts
                | _ \<Rightarrow> Some (erase_reject ERASECURE_ERR_INVALID_ARG
                         (quoted path @ '' is not a regular file.'') fs))
      | _ \<Rightarrow> Some (ERASECURE_ERR_INVALID_ARG, result, fs, []))"


section \<open>Lemmas on the chunk loop\<close>

lemma es_fail_simps [simp]:
  "es_ret (es_fail e m st) = e" "es_content (es_fail e m st) = es_content st"
  "es_written (es_fail e m st) = es_written st" "es_passes (es_fail e m st) = es_passes st"
  "es_progress (es_fail e m st) = es_progress st" "es_calls (es_fail e m st) = es_calls st"
  "es_buf (es_fail e m st) = es_buf st"
  by (simp_all add: es_fail_def)

lemma image_chunk_OK:
  assumes "image_chunk env opts pass bs sz total_bytes rem st = (st', w)"
    and "es_ret st' = ERASECURE_OK" and "es_ret st = ERASECURE_OK"
  shows "w = min rem bs
    \<and> es_content st' = write_at (es_content st) (sz - rem)
        (map (pattern_byte env (beo_pattern opts) (es_written st)) [0..<w])
    \<and> es_written st' = wrap64 (es_written st + w) \<and> es_passes st' = es_passes st"
  using assms
  by (auto simp: image_chunk_def Let_def min_def fill_buffer_pattern_OK
      split: prod.splits if_splits)

lemma image_chunk_not_OK:
  assumes "image_chunk env opts pass bs sz total_bytes rem st = (st', w)"
    and "es_ret st' \<noteq> ERASECURE_OK" and "es_ret st = ERASECURE_OK"
  shows "w = 0 \<and> es_passes st' = es_passes st"
  using assms by (auto simp: image_chunk_def Let_def split: prod.splits if_splits)

lemma image_chunk_length:
  assumes "length (es_content st) = sz" and "rem \<le> sz"
  shows "length (es_content (fst (image_chunk env opts pass bs sz total_bytes rem st))) = sz"
  using assms by (auto simp: image_chunk_def Let_def split: prod.splits)

lemma image_write_loop_total:
  "0 < bs \<Longrightarrow> \<exists>st'. image_write_loop env opts pass bs sz total_bytes rem st = Some st'"
proof (induction rem arbitrary: st rule: less_induct)
  case (less rem)
  obtain st1 w where c: "image_chunk env opts pass bs sz total_bytes rem st = (st1, w)"
    by fastforce
  show ?case
  proof (cases "rem > 0 \<and> es_ret st = ERASECURE_OK")
    case False
    then show ?thesis by (subst image_write_loop.simps) auto
  next
    case run: True
    show ?thesis
    proof (cases "es_ret st1 = ERASECURE_OK")
      case True
      with run less.prems image_chunk_OK [OF c True] have "rem - w < rem" by simp
      from less.IH [OF this less.prems, of st1] run c show ?thesis
        by (subst image_write_loop.simps) simp
    next
      case False
      then have "image_write_loop env opts pass bs sz total_bytes (rem - w) st1 = Some st1"
        by (subst image_write_loop.simps) simp
      with run c show ?thesis by (subst image_write_loop.simps) simp
    qed
  qed
qed


text \<open>
  The bytes a completed pass leaves when \<open>k\<close> bytes had been written before it: every chunk has its
  own buffer contents.
\<close>

definition pass_bytes :: "erase_env \<Rightarrow> ErasePattern \<Rightarrow> nat \<Rightarrow> nat \<Rightarrow> nat \<Rightarrow> byte list" where
  "pass_bytes env pattern bs k n =
     map (\<lambda>i. pattern_byte env pattern (k + i div bs * bs) (i mod bs)) [0..<n]"

lemma length_pass_bytes [simp]: "length (pass_bytes env pattern bs k n) = n"
  by (simp add: pass_bytes_def)

lemma pass_bytes_add:
  assumes "0 < bs" and "bs dvd m" and "n \<le> bs"
  shows "pass_bytes env pattern bs k (m + n) =
    pass_bytes env pattern bs k m @ map (pattern_byte env pattern (k + m)) [0..<n]"
proof (rule nth_equalityI)
  fix i assume "i < length (pass_bytes env pattern bs k (m + n))"
  then have i: "i < m + n" by simp
  obtain q where m: "m = bs * q" using assms(2) by (elim dvdE)
  show "pass_bytes env pattern bs k (m + n) ! i =
    (pass_bytes env pattern bs k m @ map (pattern_byte env pattern (k + m)) [0..<n]) ! i"
  proof (cases "i < m")
    case True
    with i show ?thesis by (simp add: pass_bytes_def nth_append)
  next
    case False
    then obtain j where j: "i = m + j" by (metis add_diff_inverse_nat)
    with i assms(3) have "j < n" and "j < bs" by auto
    with i j m assms(1) show ?thesis
      by (simp add: pass_bytes_def nth_append mult.commute)
  qed
qed simp

lemma write_at_extend:
  assumes "take off c = xs" and "off + length ys \<le> length c"
  shows "take (off + length ys) (write_at c off ys) = xs @ ys"
    and "length (write_at c off ys) = length c"
  using assms by (simp_all add: take_write_at)

text \<open>A loop that ends without error has overwritten everything.\<close>

lemma image_write_loop_OK:
  assumes "image_write_loop env opts pass bs sz total_bytes rem st = Some st'"
    and "es_ret st = ERASECURE_OK" and "es_ret st' = ERASECURE_OK"
    and "0 < bs" and "rem \<le> sz" and "length (es_content st) = sz" and "k + sz < 2 ^ 64"
    and "rem = 0 \<or> bs dvd (sz - rem)" and "es_written st = k + (sz - rem)"
    and "take (sz - rem) (es_content st) = pass_bytes env (beo_pattern opts) bs k (sz - rem)"
  shows "es_content st' = pass_bytes env (beo_pattern opts) bs k sz
    \<and> es_written st' = k + sz \<and> es_passes st' = es_passes st"
  using assms
proof (induction rem arbitrary: st rule: less_induct)
  case (less rem)
  obtain st1 w where c: "image_chunk env opts pass bs sz total_bytes rem st = (st1, w)"
    by fastforce
  show ?case
  proof (cases "rem = 0")
    case True
    with less.prems show ?thesis by (subst (asm) image_write_loop.simps) auto
  next
    case False
    with less.prems c have next_it:
      "image_write_loop env opts pass bs sz total_bytes (rem - w) st1 = Some st'"
      by (subst (asm) image_write_loop.simps) auto
    have ok: "es_ret st1 = ERASECURE_OK"
    proof (rule ccontr)
      assume "es_ret st1 \<noteq> ERASECURE_OK"
      with next_it have "st' = st1" by (subst (asm) image_write_loop.simps) auto
      with \<open>es_ret st1 \<noteq> ERASECURE_OK\<close> less.prems(3) show False by simp
    qed
    note step = image_chunk_OK [OF c ok less.prems(2)]
    define bytes where "bytes = map (pattern_byte env (beo_pattern opts) (es_written st)) [0..<w]"
    have w: "w = min rem bs" "length bytes = w" using step by (auto simp: bytes_def)
    with less.prems False have rem: "sz - (rem - w) = sz - rem + w" "rem - w < rem" "rem - w \<le> sz"
      by auto
    have fits: "(sz - rem) + length bytes \<le> length (es_content st)" using w less.prems by auto
    have pre: "take (sz - rem + w) (es_content st1) =
        pass_bytes env (beo_pattern opts) bs k (sz - rem) @ bytes"
      using write_at_extend(1) [OF less.prems(10) fits] step w by (simp add: bytes_def)
    have "bs dvd (sz - rem)" using less.prems(8) False by simp
    from pass_bytes_add [OF less.prems(4) this, of w env "beo_pattern opts" k] w(1)
    have "pass_bytes env (beo_pattern opts) bs k (sz - rem + w) =
        pass_bytes env (beo_pattern opts) bs k (sz - rem) @ bytes"
      unfolding bytes_def less.prems(9) by simp
    with pre have "take (sz - (rem - w)) (es_content st1) =
        pass_bytes env (beo_pattern opts) bs k (sz - (rem - w))"
      unfolding rem(1) by simp
    moreover have "length (es_content st1) = sz"
      using image_chunk_length [OF less.prems(6,5)] c by (metis fst_conv)
    moreover have "rem - w = 0 \<or> bs dvd (sz - (rem - w))"
      using w \<open>bs dvd (sz - rem)\<close> rem(1) by (auto simp: min_def)
    moreover have "es_written st1 = k + (sz - (rem - w))"
      using step less.prems(7,9) rem w less.prems(5) by (simp add: rem(1))
    ultimately show ?thesis
      using less.IH [OF rem(2) next_it ok less.prems(3,4) rem(3)] less.prems(7) step by simp
  qed
qed

lemma image_write_loop_length:
  assumes "image_write_loop env opts pass bs sz total_bytes rem st = Some st'"
    and "0 < bs" and "length (es_content st) = sz" and "rem \<le> sz"
  shows "length (es_content st') = sz \<and> es_passes st' = es_passes st"
  using assms
proof (induction rem arbitrary: st rule: less_induct)
  case (less rem)
  obtain st1 w where c: "image_chunk env opts pass bs sz total_bytes rem st = (st1, w)"
    by fastforce
  have len: "length (es_content st1) = sz"
    using image_chunk_length [OF less.prems(3,4)] c by (metis fst_conv)
  show ?case
  proof (cases "rem > 0 \<and> es_ret st = ERASECURE_OK")
    case False
    with less.prems show ?thesis by (subst (asm) image_write_loop.simps) auto
  next
    case run: True
    with less.prems c have next_it:
      "image_write_loop env opts pass bs sz total_bytes (rem - w) st1 = Some st'"
      by (subst (asm) image_write_loop.simps) auto
    show ?thesis
    proof (cases "es_ret st1 = ERASECURE_OK")
      case True
      from image_chunk_OK [OF c True] run less.prems(2) have "rem - w < rem" "es_passes st1 = es_passes st"
        by auto
      with less.IH [OF this(1) next_it less.prems(2) len] less.prems(4) show ?thesis by simp
    next
      case False
      with next_it have "st' = st1" by (subst (asm) image_write_loop.simps) auto
      with len image_chunk_not_OK [OF c False] run show ?thesis by simp
    qed
  qed
qed


section \<open>Lemmas on the passes\<close>

lemma image_pass_total: "0 < bs \<Longrightarrow> \<exists>st'. image_pass env opts path bs sz total_bytes pass st = Some st'"
  using image_write_loop_total [of bs env opts pass sz total_bytes sz st]
  by (auto simp: image_pass_def Let_def)

lemma image_passes_total:
  "0 < bs \<Longrightarrow> \<exists>st'. image_passes env opts path bs sz total_bytes ps st = Some st'"
proof (induction ps arbitrary: st)
  case (Cons p ps)
  then show ?case using image_pass_total [of bs env opts path sz total_bytes p st] by auto
qed simp

lemma image_pass_frame:
  assumes "image_pass env opts path bs sz total_bytes pass st = Some st'"
    and "0 < bs" and "length (es_content st) = sz"
  shows "length (es_content st') = sz
    \<and> es_passes st' = es_passes st + (if es_ret st' = ERASECURE_OK then 1 else 0)"
proof (cases "env_fopen_ok env pass")
  case False
  with assms show ?thesis by (auto simp: image_pass_def)
next
  case True
  obtain st1 where st1: "image_write_loop env opts pass bs sz total_bytes sz st = Some st1"
    using image_write_loop_total [OF assms(2)] by blast
  from image_write_loop_length [OF st1 assms(2,3)] True assms(1) st1 show ?thesis
    by (auto simp: image_pass_def Let_def split: if_splits)
qed

lemma image_passes_frame:
  assumes "image_passes env opts path bs sz total_bytes ps st = Some st'"
    and "0 < bs" and "length (es_content st) = sz"
  shows "length (es_content st') = sz
    \<and> (if es_ret st' = ERASECURE_OK then es_passes st' = es_passes st + length ps
       else es_passes st' < es_passes st + max 1 (length ps))"
  using assms
proof (induction ps arbitrary: st)
  case (Cons p ps)
  show ?case
  proof (cases "es_ret st = ERASECURE_OK")
    case True
    with Cons.prems obtain st1 where p: "image_pass env opts path bs sz total_bytes p st = Some st1"
      and rest: "image_passes env opts path bs sz total_bytes ps st1 = Some st'"
      by (auto split: option.splits)
    note f = image_pass_frame [OF p Cons.prems(2,3)]
    show ?thesis
    proof (cases "es_ret st1 = ERASECURE_OK")
      case True
      show ?thesis
      proof (cases ps)
        case Nil
        with rest f True show ?thesis by simp
      next
        case (Cons a list)
        with Cons.IH [OF rest Cons.prems(2)] f True show ?thesis by (auto split: if_splits)
      qed
    next
      case False
      with rest have "st' = st1" by (cases ps) auto
      with f False show ?thesis by simp
    qed
  qed (use Cons.prems in auto)
qed auto

lemma image_pass_OK:
  assumes "image_pass env opts path bs sz total_bytes pass st = Some st'"
    and "es_ret st = ERASECURE_OK" and "es_ret st' = ERASECURE_OK" and "0 < bs"
    and "length (es_content st) = sz" and "es_written st = k" and "k + sz < 2 ^ 64"
  shows "es_content st' = pass_bytes env (beo_pattern opts) bs k sz \<and> es_written st' = k + sz"
proof -
  from assms(1,3) have fopen: "env_fopen_ok env pass" by (auto simp: image_pass_def split: if_splits)
  obtain st1 where st1: "image_write_loop env opts pass bs sz total_bytes sz st = Some st1"
    using image_write_loop_total [OF assms(4)] by blast
  from assms(1,3) fopen st1 have "es_ret st1 = ERASECURE_OK" "es_content st' = es_content st1"
    "es_written st' = es_written st1"
    by (auto simp: image_pass_def Let_def split: if_splits)
  with image_write_loop_OK [OF st1 assms(2) _ assms(4) _ assms(5), of k] assms show ?thesis
    by (simp add: pass_bytes_def)
qed

lemma image_passes_OK:
  assumes "image_passes env opts path bs sz total_bytes ps st = Some st'" and "ps \<noteq> []"
    and "es_ret st = ERASECURE_OK" and "es_ret st' = ERASECURE_OK" and "0 < bs"
    and "length (es_content st) = sz" and "es_written st = k" and "k + length ps * sz < 2 ^ 64"
  shows "es_content st' = pass_bytes env (beo_pattern opts) bs (k + (length ps - 1) * sz) sz
    \<and> es_written st' = k + length ps * sz"
  using assms
proof (induction ps arbitrary: st k)
  case (Cons p ps)
  from Cons.prems obtain st1 where p: "image_pass env opts path bs sz total_bytes p st = Some st1"
    and rest: "image_passes env opts path bs sz total_bytes ps st1 = Some st'"
    by (auto split: option.splits)
  have ok: "es_ret st1 = ERASECURE_OK"
  proof (rule ccontr)
    assume "es_ret st1 \<noteq> ERASECURE_OK"
    with rest have "st' = st1" by (cases ps) auto
    with \<open>es_ret st1 \<noteq> ERASECURE_OK\<close> Cons.prems(4) show False by simp
  qed
  have k: "k + sz < 2 ^ 64" using Cons.prems(8) by simp
  note c = image_pass_OK [OF p Cons.prems(3) ok Cons.prems(5,6,7) k]
  show ?case
  proof (cases "ps = []")
    case True
    with rest c show ?thesis by simp
  next
    case False
    have "length (es_content st1) = sz" using c by simp
    moreover have "(k + sz) + length ps * sz < 2 ^ 64" using Cons.prems(8) by simp
    ultimately have "es_content st' =
        pass_bytes env (beo_pattern opts) bs (k + sz + (length ps - 1) * sz) sz
      \<and> es_written st' = k + sz + length ps * sz"
      using Cons.IH [OF rest False ok Cons.prems(4,5)] c by simp
    moreover have "sz + (length ps - 1) * sz = length ps * sz"
      using False by (cases ps) auto
    ultimately show ?thesis by (simp add: add.assoc)
  qed
qed simp

section \<open>What erasing an image does\<close>

lemma start_state_simps [simp]:
  "es_content (start_state c bs) = c" "es_written (start_state c bs) = 0"
  "es_ret (start_state c bs) = ERASECURE_OK" "es_passes (start_state c bs) = 0"
  by (simp_all add: start_state_def)

lemma finish_result_simps [simp]:
  "ber_bytes_written (finish_result st) = es_written st"
  "ber_passes_completed (finish_result st) = es_passes st"
  "ber_result_code (finish_result st) = es_ret st"
  by (simp_all add: finish_result_def)

text \<open>Every call either is rejected before the file is touched or runs the passes.\<close>

lemma block_erase_image_cases:
  assumes "block_erase_image env fs (Some path) (Some opts) (Some r) = Some (e, res, fs', prog)"
  obtains (reject) "e \<noteq> ERASECURE_OK" "fs' = fs"
  | (run) content where "fs path = Some (Reg content)" "content \<noteq> []"
      "\<not> device_path_is_block_device (env_stat_ok env) fs (Some path)"
      "block_erase_image_run env fs path content opts = Some (e, res, fs', prog)"
  using assms
  by (auto simp: block_erase_image_def erase_reject_def split: if_splits option.splits node.splits)

lemma block_erase_image_run_total:
  "\<exists>e res fs' prog. block_erase_image_run env fs path content opts = Some (e, res, fs', prog)"
proof -
  obtain st where "image_passes env opts path (clamp_block_size (beo_block_size opts))
      (length content) (wrap64 (length content * clamp_passes (beo_passes opts)))
      [0..<clamp_passes (beo_passes opts)]
      (start_state content (clamp_block_size (beo_block_size opts))) = Some st"
    using image_passes_total by (metis clamp_block_size_pos)
  then show ?thesis by (simp add: block_erase_image_run_def Let_def)
qed

lemma block_erase_image_run_frame:
  assumes "block_erase_image_run env fs path content opts = Some (e, res, fs', prog)"
  shows "\<exists>c' r'. fs' = fs(path \<mapsto> Reg c') \<and> length c' = length content \<and> res = Some r'
    \<and> ber_result_code r' = e
    \<and> (if e = ERASECURE_OK then ber_passes_completed r' = clamp_passes (beo_passes opts)
       else ber_passes_completed r' < clamp_passes (beo_passes opts))"
proof -
  define ps where "ps = clamp_passes (beo_passes opts)"
  obtain st where run: "image_passes env opts path (clamp_block_size (beo_block_size opts))
      (length content) (wrap64 (length content * ps)) [0..<ps]
      (start_state content (clamp_block_size (beo_block_size opts))) = Some st"
    using image_passes_total by (metis clamp_block_size_pos)
  have "1 \<le> ps" using clamp_passes_bounds by (simp add: ps_def)
  with image_passes_frame [OF run] assms run show ?thesis
    by (auto simp: block_erase_image_run_def Let_def ps_def [symmetric] split: if_splits)
qed

lemma block_erase_image_run_OK:
  assumes "block_erase_image_run env fs path content opts = Some (ERASECURE_OK, res, fs', prog)"
    and "length content * clamp_passes (beo_passes opts) < 2 ^ 64"
  shows "fs' = fs(path \<mapsto> Reg (pass_bytes env (beo_pattern opts)
             (clamp_block_size (beo_block_size opts))
             ((clamp_passes (beo_passes opts) - 1) * length content) (length content)))
    \<and> map_option ber_bytes_written res = Some (length content * clamp_passes (beo_passes opts))"
proof -
  define ps where "ps = clamp_passes (beo_passes opts)"
  obtain st where run: "image_passes env opts path (clamp_block_size (beo_block_size opts))
      (length content) (wrap64 (length content * ps)) [0..<ps]
      (start_state content (clamp_block_size (beo_block_size opts))) = Some st"
    using image_passes_total by (metis clamp_block_size_pos)
  have "1 \<le> ps" using clamp_passes_bounds by (simp add: ps_def)
  with image_passes_OK [OF run, of 0] assms run show ?thesis
    by (auto simp: block_erase_image_run_def Let_def ps_def [symmetric] mult.commute)
qed

lemma pass_bytes_const:
  "pass_bytes env ERASE_PATTERN_ZERO bs k n = replicate n 0"
  "pass_bytes env ERASE_PATTERN_ONE bs k n = replicate n 0xFF"
  by (simp_all add: pass_bytes_def pattern_byte_def map_replicate_const)


text \<open>With a cooperative system every pass runs to its end.\<close>

definition cooperative_env :: "erase_env \<Rightarrow> bool" where
  "cooperative_env env \<longleftrightarrow>
     env_stat_ok env \<and> env_malloc_ok env \<and> (\<forall>k. env_rand env k \<noteq> None) \<and>
     (\<forall>p. env_fopen_ok env p) \<and> (\<forall>k. ERASECURE_MAX_BLOCK_SIZE \<le> env_fwrite env k) \<and>
     (\<forall>p. env_sync_ok env p)"

lemma image_chunk_cooperative:
  assumes "cooperative_env env" and "es_ret st = ERASECURE_OK" and "bs \<le> ERASECURE_MAX_BLOCK_SIZE"
  shows "es_ret (fst (image_chunk env opts pass bs sz total_bytes rem st)) = ERASECURE_OK"
proof -
  obtain f where "env_rand env (es_written st) = Some f"
    using assms(1) by (meson cooperative_env_def option.exhaust_sel)
  moreover have "bs \<le> env_fwrite env (es_written st)"
    using assms(1,3) order_trans unfolding cooperative_env_def by blast
  ultimately show ?thesis
    using assms(2)
    by (cases "beo_pattern opts")
      (auto simp: image_chunk_def Let_def fill_buffer_pattern_def block_erase_fill_pattern_def
        min_def)
qed

lemma image_write_loop_cooperative:
  assumes "image_write_loop env opts pass bs sz total_bytes rem st = Some st'"
    and "cooperative_env env" and "es_ret st = ERASECURE_OK"
    and "0 < bs" and "bs \<le> ERASECURE_MAX_BLOCK_SIZE"
  shows "es_ret st' = ERASECURE_OK"
  using assms
proof (induction rem arbitrary: st rule: less_induct)
  case (less rem)
  obtain st1 w where c: "image_chunk env opts pass bs sz total_bytes rem st = (st1, w)"
    by fastforce
  show ?case
  proof (cases "rem = 0")
    case True
    with less.prems show ?thesis by (subst (asm) image_write_loop.simps) auto
  next
    case False
    have ok: "es_ret st1 = ERASECURE_OK"
      using image_chunk_cooperative [OF less.prems(2,3,5)] c by (metis fst_conv)
    from less.prems c False have
      "image_write_loop env opts pass bs sz total_bytes (rem - w) st1 = Some st'"
      by (subst (asm) image_write_loop.simps) auto
    moreover have "rem - w < rem" using image_chunk_OK [OF c ok less.prems(3)] False less.prems(4) by simp
    ultimately show ?thesis using less.IH less.prems ok by blast
  qed
qed

lemma image_passes_cooperative:
  assumes "image_passes env opts path bs sz total_bytes ps st = Some st'"
    and "cooperative_env env" and "es_ret st = ERASECURE_OK"
    and "0 < bs" and "bs \<le> ERASECURE_MAX_BLOCK_SIZE"
  shows "es_ret st' = ERASECURE_OK"
  using assms
proof (induction ps arbitrary: st)
  case (Cons p ps)
  from Cons.prems obtain st1 where p: "image_pass env opts path bs sz total_bytes p st = Some st1"
    and rest: "image_passes env opts path bs sz total_bytes ps st1 = Some st'"
    by (auto split: option.splits)
  obtain st0 where st0: "image_write_loop env opts p bs sz total_bytes sz st = Some st0"
    using image_write_loop_total [OF Cons.prems(4)] by blast
  from image_write_loop_cooperative [OF this Cons.prems(2-5)] p st0 Cons.prems(2)
  have "es_ret st1 = ERASECURE_OK"
    by (auto simp: image_pass_def Let_def cooperative_env_def)
  from Cons.IH [OF rest Cons.prems(2) this Cons.prems(4,5)] show ?case .
qed auto

lemma block_erase_image_run_cooperative:
  assumes "cooperative_env env"
  shows "\<exists>res fs' prog. block_erase_image_run env fs path content opts
    = Some (ERASECURE_OK, res, fs', prog)"
proof -
  let ?bs = "clamp_block_size (beo_block_size opts)" and ?ps = "clamp_passes (beo_passes opts)"
  have bs: "?bs \<le> ERASECURE_MAX_BLOCK_SIZE" using clamp_block_size_bounds by blast
  obtain st where st: "image_passes env opts path ?bs (length content)
      (wrap64 (length content * ?ps)) [0..<?ps] (start_state content ?bs) = Some st"
    using image_passes_total by (metis clamp_block_size_pos)
  from image_passes_cooperative [OF st assms _ _ bs] have "es_ret st = ERASECURE_OK" by simp
  with st show ?thesis by (simp add: block_erase_image_run_def Let_def)
qed

section \<open>Properties\<close>

text \<open>
  C3. A successful image erase with a constant pattern overwrites every byte: when
  \<open>block_erase_image\<close> returns \<open>ERASECURE_OK\<close> for the zero or one pattern, the file holds only the
  pattern byte and has kept its length, no other path changed, all the (clamped) passes were
  completed and \<open>bytes_written\<close> is the file size times the number of passes.
\<close>

theorem block_erase_image_overwrites:
  assumes call: "block_erase_image env fs (Some path) (Some opts) (Some r)
        = Some (ERASECURE_OK, res, fs', prog)"
    and content: "fs path = Some (Reg content)"
    and pattern: "beo_pattern opts \<noteq> ERASE_PATTERN_RANDOM"
    and fits: "length content * clamp_passes (beo_passes opts) < 2 ^ 64"
  shows "fs' = fs(path \<mapsto> Reg (replicate (length content)
             (if beo_pattern opts = ERASE_PATTERN_ZERO then 0 else 0xFF)))
    \<and> map_option ber_bytes_written res = Some (length content * clamp_passes (beo_passes opts))
    \<and> map_option ber_passes_completed res = Some (clamp_passes (beo_passes opts))"
  using call
proof (cases rule: block_erase_image_cases)
  case (run content')
  with content have run': "block_erase_image_run env fs path content opts
      = Some (ERASECURE_OK, res, fs', prog)" by simp
  from block_erase_image_run_OK [OF run' fits] block_erase_image_run_frame [OF run'] pattern
  show ?thesis by (cases "beo_pattern opts") (auto simp: pass_bytes_const)
qed simp

definition demo_env :: erase_env where
  "demo_env =
     \<lparr>env_stat_ok = True, env_malloc_ok = True, env_rand = (\<lambda>_. Some (\<lambda>j. word_of_nat j)),
      env_strerror = ''Input/output error'', env_fopen_ok = (\<lambda>_. True),
      env_fwrite = (\<lambda>_. 67108864), env_sync_ok = (\<lambda>_. True), env_text = (\<lambda>_. None),
      env_open = Open_Ok, env_ioctl_size = None, env_lseek_ok = (\<lambda>_. True),
      env_write = (\<lambda>_. Write_Takes 67108864)\<rparr>"

definition demo_opts :: BlockEraseOptions where
  "demo_opts = block_erase_options_init\<lparr>beo_passes := 3, beo_pattern := ERASE_PATTERN_ONE\<rparr>"

lemma cooperative_demo_env: "cooperative_env demo_env"
  by (simp add: cooperative_env_def demo_env_def erase_limits)

text \<open>
  Erasing an image always returns, and it succeeds whenever the system does its part: for a
  non-empty regular file that is no block device, with \<open>stat\<close>, \<open>malloc\<close>, \<open>fopen\<close>, \<open>fwrite\<close>,
  \<open>RAND_bytes\<close> and the flushes succeeding, the call returns \<open>ERASECURE_OK\<close>.
\<close>

theorem block_erase_image_succeeds:
  assumes env: "cooperative_env env"
    and node: "fs path = Some (Reg content)" "content \<noteq> []"
    and dev: "\<not> device_path_is_block_device True fs (Some path)"
  shows "\<exists>res fs' prog. block_erase_image env fs (Some path) (Some opts) (Some r)
    = Some (ERASECURE_OK, res, fs', prog)"
proof -
  have "block_erase_image env fs (Some path) (Some opts) (Some r)
      = block_erase_image_run env fs path content opts"
    using env node dev by (simp add: block_erase_image_def cooperative_env_def)
  then show ?thesis using block_erase_image_run_cooperative [OF env] by simp
qed

text \<open>The file system of the witnesses: one image of three bytes and one disk.\<close>

definition demo_fs :: filesys where
  "demo_fs = [''test.img'' \<mapsto> Reg [1, 2, 3], ''/dev/sda'' \<mapsto> Blk [7, 7, 7, 7]]"

lemma demo_image_is_no_device: "\<not> device_path_is_block_device True demo_fs (Some ''test.img'')"
  by (simp add: device_path_is_block_device_def blockdev_prefixes_def demo_fs_def)

theorem block_erase_image_succeeds_witness:
  "\<exists>res fs' prog. block_erase_image demo_env demo_fs (Some ''test.img'') (Some demo_opts)
     (Some fresh_erase_result) = Some (ERASECURE_OK, res, fs', prog)"
  by (rule block_erase_image_succeeds [OF cooperative_demo_env _ _ demo_image_is_no_device,
        of "[1, 2, 3]"]) (simp_all add: demo_fs_def)

lemma demo_image_erase:
  "\<exists>res fs' prog. block_erase_image demo_env demo_fs (Some ''test.img'') (Some demo_opts)
     (Some fresh_erase_result) = Some (ERASECURE_OK, res, fs', prog)"
proof -
  have "block_erase_image demo_env demo_fs (Some ''test.img'') (Some demo_opts)
      (Some fresh_erase_result) = block_erase_image_run demo_env demo_fs ''test.img'' [1, 2, 3] demo_opts"
    using demo_image_is_no_device
    by (simp add: block_erase_image_def demo_env_def demo_fs_def)
  then show ?thesis using block_erase_image_run_cooperative [OF cooperative_demo_env] by simp
qed

theorem block_erase_image_overwrites_witness:
  "\<exists>fs'. fs' ''test.img'' = Some (Reg [0xFF, 0xFF, 0xFF]) \<and> fs' ''/dev/sda'' = demo_fs ''/dev/sda''
    \<and> (\<exists>res prog. block_erase_image demo_env demo_fs (Some ''test.img'') (Some demo_opts)
        (Some fresh_erase_result) = Some (ERASECURE_OK, res, fs', prog))"
proof -
  obtain res fs' prog where call: "block_erase_image demo_env demo_fs (Some ''test.img'')
      (Some demo_opts) (Some fresh_erase_result) = Some (ERASECURE_OK, res, fs', prog)"
    using demo_image_erase by blast
  have "fs' = demo_fs(''test.img'' \<mapsto> Reg (replicate 3 0xFF))"
    using block_erase_image_overwrites [OF call, of "[1, 2, 3]"]
    by (simp add: demo_fs_def demo_opts_def block_erase_options_init_def clamp_passes_def
        erase_limits numeral_3_eq_3)
  with call show ?thesis by (auto simp: numeral_3_eq_3)
qed

lemma block_erase_image_frame:
  assumes call: "block_erase_image env fs (Some path) (Some opts) (Some r) = Some (e, res, fs', prog)"
    and changed: "fs' q \<noteq> fs q"
  shows "q = path \<and> (\<forall>pre \<in> set blockdev_prefixes. \<not> prefix pre q)
    \<and> (\<exists>c c'. fs q = Some (Reg c) \<and> fs' q = Some (Reg c') \<and> length c' = length c)"
  using call
proof (cases rule: block_erase_image_cases)
  case reject
  with changed show ?thesis by simp
next
  case (run content)
  from block_erase_image_run_frame [OF run(4)] obtain c' where
    "fs' = fs(path \<mapsto> Reg c')" "length c' = length content" by blast
  moreover from this changed have "q = path" by (auto split: if_splits)
  ultimately show ?thesis using run(1,3) not_block_device_prefix by fastforce
qed

text \<open>
  Image erasing never touches a device: whatever the system answers, the only path a call of
  \<open>block_erase_image\<close> can change is the one it was given, that path has none of the physical-device
  prefixes and named a regular file, and the file keeps its length.
\<close>

theorem block_erase_image_safe:
  assumes call: "block_erase_image env fs (Some path) (Some opts) (Some r) = Some (e, res, fs', prog)"
    and changed: "fs' q \<noteq> fs q"
  shows "q = path \<and> (\<forall>pre \<in> set blockdev_prefixes. \<not> prefix pre path)
    \<and> (\<exists>c c'. fs q = Some (Reg c) \<and> fs' q = Some (Reg c') \<and> length c' = length c)"
  using block_erase_image_frame [OF call changed] by blast

theorem block_erase_image_safe_witness:
  "\<exists>fs' c c'. (\<exists>res prog. block_erase_image demo_env demo_fs (Some ''test.img'') (Some demo_opts)
        (Some fresh_erase_result) = Some (ERASECURE_OK, res, fs', prog))
    \<and> demo_fs ''test.img'' = Some (Reg c) \<and> fs' ''test.img'' = Some (Reg c') \<and> length c' = length c"
proof -
  obtain res fs' prog where call: "block_erase_image demo_env demo_fs (Some ''test.img'')
      (Some demo_opts) (Some fresh_erase_result) = Some (ERASECURE_OK, res, fs', prog)"
    using demo_image_erase by blast
  show ?thesis
  proof (cases "fs' ''test.img'' = demo_fs ''test.img''")
    case True
    with call show ?thesis by (auto simp: demo_fs_def)
  next
    case False
    from block_erase_image_safe [OF call False] call show ?thesis by blast
  qed
qed

text \<open>
  Error paths of an image erase are reported: a call that reaches the passes always returns, its
  code is also the one stored in the result, and \<open>passes_completed\<close> reaches the requested (clamped)
  number exactly when that code is \<open>ERASECURE_OK\<close>.
\<close>

theorem block_erase_image_reports_passes:
  assumes run: "fs path = Some (Reg content)" "content \<noteq> []" "env_stat_ok env" "env_malloc_ok env"
      "\<not> device_path_is_block_device True fs (Some path)"
  shows "\<exists>e r' fs' prog. block_erase_image env fs (Some path) (Some opts) (Some r)
      = Some (e, Some r', fs', prog)
    \<and> ber_result_code r' = e \<and> ber_passes_completed r' \<le> clamp_passes (beo_passes opts)
    \<and> (ber_passes_completed r' = clamp_passes (beo_passes opts) \<longleftrightarrow> e = ERASECURE_OK)"
proof -
  have "block_erase_image env fs (Some path) (Some opts) (Some r)
      = block_erase_image_run env fs path content opts"
    using run by (simp add: block_erase_image_def)
  moreover obtain e res fs' prog where
    out: "block_erase_image_run env fs path content opts = Some (e, res, fs', prog)"
    using block_erase_image_run_total by blast
  ultimately show ?thesis
    using block_erase_image_run_frame [OF out] by (auto split: if_splits)
qed

theorem block_erase_image_reports_passes_witness:
  "\<exists>e r' fs' prog. block_erase_image (demo_env\<lparr>env_sync_ok := (\<lambda>p. p < 2)\<rparr>) demo_fs
      (Some ''test.img'') (Some demo_opts) (Some fresh_erase_result) = Some (e, Some r', fs', prog)
    \<and> (ber_passes_completed r' = 3 \<longleftrightarrow> e = ERASECURE_OK)"
proof -
  let ?env = "demo_env\<lparr>env_sync_ok := (\<lambda>p. p < 2)\<rparr>"
  have clamp: "clamp_passes (beo_passes demo_opts) = 3"
    by (simp add: demo_opts_def clamp_passes_def erase_limits)
  have "\<exists>e r' fs' prog. block_erase_image ?env demo_fs (Some ''test.img'') (Some demo_opts)
        (Some fresh_erase_result) = Some (e, Some r', fs', prog)
      \<and> ber_result_code r' = e \<and> ber_passes_completed r' \<le> clamp_passes (beo_passes demo_opts)
      \<and> (ber_passes_completed r' = clamp_passes (beo_passes demo_opts) \<longleftrightarrow> e = ERASECURE_OK)"
    by (rule block_erase_image_reports_passes [of _ _ "[1, 2, 3]"])
      (simp_all add: demo_image_is_no_device, simp_all add: demo_fs_def demo_env_def)
  then show ?thesis unfolding clamp by blast
qed

end
