(* ===== verification/Device_Erase.thy ===== *)
theory Device_Erase
  imports Block_Erase
begin

text \<open>
  Overwriting a physical block device: \<open>block_erase_device\<close> of
  \<open>src/sanitization/block_erase.c\<close>, its safety checks in order, the retrying \<open>write\<close> loop and the
  pass loop. A block device has a fixed size: a write past its end takes nothing.
\<close>

section \<open>Model\<close>

text \<open>
  The loop on \<open>chunk_written\<close>. \<open>limit\<close> is the size of a block device; a regular file (\<open>None\<close>) grows.
\<close>

definition write_takes :: "nat option \<Rightarrow> nat \<Rightarrow> nat \<Rightarrow> nat \<Rightarrow> nat" where
  "write_takes limit pos rest w =
     min (min w rest) (case limit of None \<Rightarrow> rest | Some l \<Rightarrow> l - pos)"

partial_function (option) device_write_chunk ::
    "erase_env \<Rightarrow> nat option \<Rightarrow> nat \<Rightarrow> nat \<Rightarrow> nat \<Rightarrow> nat \<Rightarrow> erase_state \<Rightarrow> erase_state option" where
  "device_write_chunk env limit pass pos chunk chunk_written st =
     (if chunk_written < chunk then
        (case env_write env (es_calls st) of
           Write_EINTR \<Rightarrow>
             device_write_chunk env limit pass pos chunk chunk_written
               (st\<lparr>es_calls := es_calls st + 1\<rparr>)
         | Write_Error \<Rightarrow>
             Some (es_fail ERASECURE_ERR_WRITE_FAILED
               (''write() failed at pass '' @ dec pass @ '': '' @ env_strerror env)
               (st\<lparr>es_calls := es_calls st + 1\<rparr>))
         | Write_Takes n \<Rightarrow>
             (let w = write_takes limit (pos + chunk_written) (chunk - chunk_written) n
              in if w = 0
                 then Some (es_fail ERASECURE_ERR_WRITE_FAILED
                        (''write() returned 0 unexpectedly at pass '' @ dec pass)
                        (st\<lparr>es_calls := es_calls st + 1\<rparr>))
                 else device_write_chunk env limit pass pos chunk (chunk_written + w)
                        (st\<lparr>es_calls := es_calls st + 1,
                            es_content := write_at (es_content st) (pos + chunk_written)
                              (take w (drop chunk_written (es_buf st)))\<rparr>)))
      else Some st)"

text \<open>The bookkeeping after a completed chunk: counters and the progress callback.\<close>

definition count_chunk :: "BlockEraseOptions \<Rightarrow> nat \<Rightarrow> nat \<Rightarrow> erase_state \<Rightarrow> erase_state" where
  "count_chunk opts total_bytes chunk st =
     (let done = wrap64 (es_written st + chunk); st1 = st\<lparr>es_written := done\<rparr>
      in if beo_progress_cb opts
         then st1\<lparr>es_progress := es_progress st1 @ [(done, total_bytes)]\<rparr> else st1)"

partial_function (option) device_write_loop ::
    "erase_env \<Rightarrow> nat option \<Rightarrow> BlockEraseOptions \<Rightarrow> nat \<Rightarrow> nat \<Rightarrow> nat \<Rightarrow> nat \<Rightarrow> nat \<Rightarrow> erase_state
     \<Rightarrow> erase_state option" where
  "device_write_loop env limit opts pass block_size capacity total_bytes remaining st =
     (if remaining > 0 \<and> es_ret st = ERASECURE_OK then
        (let chunk = (if remaining < block_size then remaining else block_size);
             filled = fill_buffer_pattern (env_rand env (es_written st)) (es_buf st) chunk
                        (beo_pattern opts)
         in if fst filled \<noteq> ERASECURE_OK
            then Some (st\<lparr>es_buf := snd filled, es_ret := fst filled\<rparr>)
            else Option.bind
                   (device_write_chunk env limit pass (capacity - remaining) chunk 0
                      (st\<lparr>es_buf := snd filled\<rparr>))
                   (\<lambda>st1. if es_ret st1 \<noteq> ERASECURE_OK then Some st1
                          else device_write_loop env limit opts pass block_size capacity total_bytes
                                 (remaining - chunk) (count_chunk opts total_bytes chunk st1)))
      else Some st)"

definition device_pass ::
    "erase_env \<Rightarrow> nat option \<Rightarrow> BlockEraseOptions \<Rightarrow> nat \<Rightarrow> nat \<Rightarrow> nat \<Rightarrow> nat \<Rightarrow> erase_state
     \<Rightarrow> erase_state option" where
  "device_pass env limit opts block_size capacity total_bytes pass st =
     (if \<not> env_lseek_ok env pass
      then Some (es_fail ERASECURE_ERR_SEEK_FAILED
                   (''lseek failed on pass '' @ dec pass @ '': '' @ env_strerror env) st)
      else case device_write_loop env limit opts pass block_size capacity total_bytes capacity st of
             None \<Rightarrow> None
           | Some st1 \<Rightarrow>
               Some (if es_ret st1 = ERASECURE_OK then
                       (if \<not> env_sync_ok env pass
                        then es_fail ERASECURE_ERR_SYNC_FAILED
                               (''fsync failed at pass '' @ dec pass @ '': '' @ env_strerror env) st1
                        else st1\<lparr>es_passes := es_passes st1 + 1\<rparr>)
                     else st1))"

fun device_passes ::
    "erase_env \<Rightarrow> nat option \<Rightarrow> BlockEraseOptions \<Rightarrow> nat \<Rightarrow> nat \<Rightarrow> nat \<Rightarrow> nat list \<Rightarrow> erase_state
     \<Rightarrow> erase_state option" where
  "device_passes env limit opts block_size capacity total_bytes [] st = Some st"
| "device_passes env limit opts block_size capacity total_bytes (pass # passes) st =
     (if es_ret st = ERASECURE_OK
      then case device_pass env limit opts block_size capacity total_bytes pass st of
             None \<Rightarrow> None
           | Some st' \<Rightarrow> device_passes env limit opts block_size capacity total_bytes passes st'
      else Some st)"

text \<open>The code and message for a failing \<open>open\<close>.\<close>

fun open_error :: "erase_env \<Rightarrow> string \<Rightarrow> open_answer \<Rightarrow> ErasecureError \<times> string" where
  "open_error env path Open_EBUSY =
     (ERASECURE_ERR_DEVICE_BUSY,
      ''Device '' @ quoted path @ '' is busy or held exclusively by another process.'')"
| "open_error env path Open_Other =
     (ERASECURE_ERR_OPEN_FAILED, ''open('' @ quoted path @ '') failed: '' @ env_strerror env)"
| "open_error env path _ =
     (ERASECURE_ERR_PERMISSION_DENIED,
      ''Permission denied opening '' @ quoted path @ ''. Root privileges required.'')"

definition dev_capacity :: "erase_env \<Rightarrow> StorageDevice \<Rightarrow> nat" where
  "dev_capacity env device =
     (case env_ioctl_size env of
        Some n \<Rightarrow> if n > 0 then n else sd_capacity_bytes device
      | None \<Rightarrow> sd_capacity_bytes device)"

text \<open>The part after the device is open: \<open>n\<close> is its node.\<close>

definition device_run ::
    "erase_env \<Rightarrow> filesys \<Rightarrow> StorageDevice \<Rightarrow> node \<Rightarrow> BlockEraseOptions \<Rightarrow> erase_outcome option" where
  "device_run env fs device n opts =
     (let block_size = clamp_block_size (beo_block_size opts);
          passes = clamp_passes (beo_passes opts);
          capacity = dev_capacity env device;
          content = node_bytes n;
          limit = (if S_ISBLK n then Some (length content) else None)
      in if capacity = 0
         then Some (erase_reject ERASECURE_ERR_DEVICE_SCAN_FAIL
                (''Device '' @ quoted (sd_path device) @ '' reported zero capacity'') fs)
         else if \<not> env_malloc_ok env
         then Some (erase_reject ERASECURE_ERR_ALLOC
                (''Failed to allocate '' @ dec block_size @ ''-byte I/O buffer'') fs)
         else case device_passes env limit opts block_size capacity (wrap64 (capacity * passes))
                     [1..<Suc passes] (start_state content block_size) of
                None \<Rightarrow> None
              | Some st \<Rightarrow>
                  Some (es_ret st, Some (finish_result st),
                        fs(sd_path device \<mapsto> (if S_ISBLK n then Blk (es_content st)
                                                 else Reg (es_content st))),
                        es_progress st))"

definition block_erase_device ::
    "erase_env \<Rightarrow> filesys \<Rightarrow> StorageDevice option \<Rightarrow> BlockEraseOptions option \<Rightarrow> string option
     \<Rightarrow> BlockEraseResult option \<Rightarrow> erase_outcome option" where
  "block_erase_device env fs device opts confirmation result =
     (case (device, opts, confirmation, result) of
        (Some dev, Some opts, Some token, Some _) \<Rightarrow>
          if token \<noteq> sd_path dev
          then Some (erase_reject ERASECURE_ERR_CONFIRMATION
                 (''SAFETY: Confirmation token '' @ quoted token @ '' does not match device path '' @
                  quoted (sd_path dev)) fs)
          else if \<not> device_path_is_block_device (env_stat_ok env) fs (Some (sd_path dev))
          then Some (erase_reject ERASECURE_ERR_NOT_A_DEVICE
                 (''SAFETY: '' @ quoted (sd_path dev) @
                  '' is not recognized as a physical block device'') fs)
          else if sd_is_read_only dev
          then Some (erase_reject ERASECURE_ERR_DEVICE_READ_ONLY
                 (''SAFETY: Device '' @ quoted (sd_path dev) @ '' is reported read-only'') fs)
          else if device_is_mounted (env_text env) (Some (sd_path dev)) (Some False)
                    = (ERASECURE_OK, Some True)
          then Some (erase_reject ERASECURE_ERR_DEVICE_MOUNTED
                 (''SAFETY: Device '' @ quoted (sd_path dev) @
                  '' or one of its partitions is mounted. Refusing erasure.'') fs)
          else (case (env_open env, fs (sd_path dev)) of
                  (Open_Ok, Some (Reg c)) \<Rightarrow> device_run env fs dev (Reg c) opts
                | (Open_Ok, Some (Blk c)) \<Rightarrow> device_run env fs dev (Blk c) opts
                | (ans, _) \<Rightarrow>
                    let em = open_error env (sd_path dev) (if ans = Open_Ok then Open_Other else ans)
                    in Some (erase_reject (fst em) (snd em) fs))
      | _ \<Rightarrow> Some (ERASECURE_ERR_INVALID_ARG, result, fs, []))"

section \<open>The write loops\<close>

text \<open>A chunk that is written without error ends up on the device, and nothing else changes.\<close>

lemma write_at_twice:
  assumes "off + length xs \<le> length c"
  shows "write_at (write_at c off xs) (off + length xs) ys = write_at c off (xs @ ys)"
  using assms by (simp add: write_at_def add.assoc add.commute add.left_commute)

lemma take_add_drop: "take (a + b) xs = take a xs @ take b (drop a xs)"
  by (rule take_add)

lemma write_takes_le:
  "write_takes limit pos rest n \<le> rest"
  "write_takes (Some l) pos rest n \<le> l - pos"
  by (auto simp: write_takes_def)

definition chunk_inv :: "nat \<Rightarrow> byte list \<Rightarrow> nat \<Rightarrow> nat \<Rightarrow> nat \<Rightarrow> erase_state \<Rightarrow> bool" where
  "chunk_inv l c0 pos chunk cw st \<longleftrightarrow>
     cw \<le> chunk \<and> pos + cw \<le> l \<and> chunk \<le> length (es_buf st) \<and> length c0 = l
     \<and> es_content st = write_at c0 pos (take cw (es_buf st))"

lemma chunk_inv_calls [simp]:
  "chunk_inv l c0 pos chunk cw (st\<lparr>es_calls := n\<rparr>) = chunk_inv l c0 pos chunk cw st"
  by (simp add: chunk_inv_def)

lemma chunk_inv_fail [simp]:
  "chunk_inv l c0 pos chunk cw (es_fail e m st) = chunk_inv l c0 pos chunk cw st"
  by (simp add: chunk_inv_def)

lemma chunk_inv_step:
  assumes "chunk_inv l c0 pos chunk cw st" and "w \<le> chunk - cw" and "w \<le> l - (pos + cw)"
  shows "chunk_inv l c0 pos chunk (cw + w)
    (st\<lparr>es_calls := n, es_content := write_at (es_content st) (pos + cw) (take w (drop cw (es_buf st)))\<rparr>)"
proof -
  have "length (take cw (es_buf st)) = cw" using assms(1) by (auto simp: chunk_inv_def)
  with assms write_at_twice [of pos "take cw (es_buf st)" c0 "take w (drop cw (es_buf st))"]
  show ?thesis by (auto simp: chunk_inv_def take_add)
qed

text \<open>What the loop does to a chunk of which \<open>cw\<close> bytes are written: the counters stay, and without an error it is written in full.\<close>

definition chunk_kept :: "nat \<Rightarrow> byte list \<Rightarrow> nat \<Rightarrow> nat \<Rightarrow> nat \<Rightarrow> erase_state \<Rightarrow> erase_state \<Rightarrow> bool" where
  "chunk_kept l c0 pos chunk cw st st' \<longleftrightarrow> (chunk_inv l c0 pos chunk cw st \<longrightarrow>
     es_passes st' = es_passes st \<and> es_written st' = es_written st \<and> es_buf st' = es_buf st
     \<and> (\<exists>cw'. chunk_inv l c0 pos chunk cw' st'
         \<and> (es_ret st = ERASECURE_OK \<and> es_ret st' = ERASECURE_OK \<longrightarrow> cw' = chunk)))"

lemma chunk_kept_cases:
  shows chunk_kept_end: "\<not> cw < chunk \<Longrightarrow> chunk_kept l c0 pos chunk cw st st"
    and chunk_kept_fail: "e \<noteq> ERASECURE_OK \<Longrightarrow> chunk_kept l c0 pos chunk cw st (es_fail e m (st\<lparr>es_calls := k\<rparr>))"
    and chunk_kept_calls: "chunk_kept l c0 pos chunk cw (st\<lparr>es_calls := k\<rparr>) st' = chunk_kept l c0 pos chunk cw st st'"
  by (auto simp: chunk_kept_def) (auto simp: chunk_inv_def)

lemma chunk_kept_step:
  assumes "w = write_takes (Some l) (pos + cw) (chunk - cw) n"
    and "chunk_kept l c0 pos chunk (cw + w)
      (st\<lparr>es_calls := k, es_content := write_at (es_content st) (pos + cw) (take w (drop cw (es_buf st)))\<rparr>) st'"
  shows "chunk_kept l c0 pos chunk cw st st'"
  unfolding chunk_kept_def
proof
  assume inv: "chunk_inv l c0 pos chunk cw st"
  have "w \<le> chunk - cw" "w \<le> l - (pos + cw)" using write_takes_le assms(1) by simp_all
  from chunk_inv_step [OF inv this, of k] assms(2)
  show "es_passes st' = es_passes st \<and> es_written st' = es_written st \<and> es_buf st' = es_buf st
     \<and> (\<exists>cw'. chunk_inv l c0 pos chunk cw' st'
         \<and> (es_ret st = ERASECURE_OK \<and> es_ret st' = ERASECURE_OK \<longrightarrow> cw' = chunk))"
    by (simp add: chunk_kept_def)
qed

lemma device_write_chunk_inv:
  assumes "device_write_chunk env (Some l) pass pos chunk cw st = Some st'"
  shows "chunk_kept l c0 pos chunk cw st st'"
proof -
  have "limit = Some l \<longrightarrow> chunk_kept l c0 pos chunk cw st st'"
    if "device_write_chunk env limit pass pos chunk cw st = Some st'" for limit
  proof (rule device_write_chunk.raw_induct [where
        P = "\<lambda>env limit pass pos chunk cw st st'. limit = Some l \<longrightarrow> chunk_kept l c0 pos chunk cw st st'",
        OF _ that], goal_cases)
    case (1 f env limit pass pos chunk cw st st')
    from 1(2) show ?case
      by (auto simp: Let_def chunk_kept_end chunk_kept_fail chunk_kept_calls split: if_splits write_answer.splits
          dest!: 1(1) intro: chunk_kept_step [OF refl])
  qed
  with assms show ?thesis by blast
qed

lemma fill_buffer_pattern_length:
  "length (snd (fill_buffer_pattern r buf len p)) = length buf" if "len \<le> length buf"
  using that by (auto simp: fill_buffer_pattern_def block_erase_fill_pattern_def
      split: ErasePattern.splits option.splits)

lemma count_chunk_simps [simp]:
  "es_content (count_chunk opts t n st) = es_content st" "es_buf (count_chunk opts t n st) = es_buf st"
  "es_ret (count_chunk opts t n st) = es_ret st" "es_passes (count_chunk opts t n st) = es_passes st"
  "es_written (count_chunk opts t n st) = wrap64 (es_written st + n)"
  by (simp_all add: count_chunk_def Let_def)

text \<open>One iteration of the outer loop that ends without error.\<close>

lemma device_write_loop_step:
  assumes "device_write_loop env (Some l) opts pass bs cap total_bytes rem st = Some st'"
    and "0 < rem" and "es_ret st = ERASECURE_OK" and "es_ret st' = ERASECURE_OK"
    and "length (es_content st) = l" and "length (es_buf st) = bs" and "cap - rem \<le> l"
  obtains st1 where "device_write_loop env (Some l) opts pass bs cap total_bytes (rem - min rem bs)
        (count_chunk opts total_bytes (min rem bs) st1) = Some st'"
    and "es_ret st1 = ERASECURE_OK" "es_passes st1 = es_passes st" "es_written st1 = es_written st"
    and "length (es_buf st1) = bs" and "cap - rem + min rem bs \<le> l"
    and "es_content st1 = write_at (es_content st) (cap - rem)
          (map (pattern_byte env (beo_pattern opts) (es_written st)) [0..<min rem bs])"
proof -
  define chunk where "chunk = min rem bs"
  define filled where "filled = fill_buffer_pattern (env_rand env (es_written st)) (es_buf st) chunk
    (beo_pattern opts)"
  have chunk: "(if rem < bs then rem else bs) = chunk" by (auto simp: chunk_def)
  have unfolded: "(if fst filled \<noteq> ERASECURE_OK then Some (st\<lparr>es_buf := snd filled, es_ret := fst filled\<rparr>)
      else Option.bind (device_write_chunk env (Some l) pass (cap - rem) chunk 0 (st\<lparr>es_buf := snd filled\<rparr>))
        (\<lambda>st1. if es_ret st1 \<noteq> ERASECURE_OK then Some st1
               else device_write_loop env (Some l) opts pass bs cap total_bytes (rem - chunk)
                      (count_chunk opts total_bytes chunk st1))) = Some st'"
    using assms(1,2,3) chunk
    by (subst (asm) device_write_loop.simps) (auto simp: Let_def filled_def split: if_splits)
  with assms(4) have fill: "fst filled = ERASECURE_OK" by (auto split: if_splits)
  with unfolded obtain st1 where
    w: "device_write_chunk env (Some l) pass (cap - rem) chunk 0 (st\<lparr>es_buf := snd filled\<rparr>) = Some st1"
    and rest: "(if es_ret st1 \<noteq> ERASECURE_OK then Some st1
      else device_write_loop env (Some l) opts pass bs cap total_bytes (rem - chunk)
             (count_chunk opts total_bytes chunk st1)) = Some st'"
    by (auto simp: Option.bind_eq_Some_conv)
  from rest assms(4) have ok: "es_ret st1 = ERASECURE_OK" by (auto split: if_splits)
  have len: "length (snd filled) = bs"
    using fill_buffer_pattern_length assms(6) by (simp add: filled_def chunk_def)
  have "chunk_inv l (es_content st) (cap - rem) chunk 0 (st\<lparr>es_buf := snd filled\<rparr>)"
    using assms(5,7) len by (simp add: chunk_inv_def chunk_def write_at_def)
  with device_write_chunk_inv [OF w, of "es_content st"] ok assms(3) len
  have inv: "chunk_inv l (es_content st) (cap - rem) chunk chunk st1" "es_passes st1 = es_passes st"
    "es_written st1 = es_written st" "es_buf st1 = snd filled" by (auto simp: chunk_kept_def)
  have "take chunk (snd filled) = map (pattern_byte env (beo_pattern opts) (es_written st)) [0..<chunk]"
    using fill fill_buffer_pattern_OK unfolding filled_def by (metis prod.collapse)
  with inv len ok rest show ?thesis by (intro that [of st1]) (auto simp: chunk_inv_def chunk_def)
qed

lemma device_write_loop_OK:
  assumes "device_write_loop env (Some l) opts pass bs cap total_bytes rem st = Some st'"
    and "es_ret st = ERASECURE_OK" and "es_ret st' = ERASECURE_OK"
    and "0 < bs" and "rem \<le> cap" and "cap - rem \<le> l" and "length c0 = l"
    and "length (es_buf st) = bs" and "k + cap < 2 ^ 64"
    and "rem = 0 \<or> bs dvd (cap - rem)" and "es_written st = k + (cap - rem)"
    and "es_content st = write_at c0 0 (pass_bytes env (beo_pattern opts) bs k (cap - rem))"
  shows "es_content st' = write_at c0 0 (pass_bytes env (beo_pattern opts) bs k cap) \<and> cap \<le> l
    \<and> es_written st' = k + cap \<and> es_passes st' = es_passes st \<and> length (es_buf st') = bs"
  using assms
proof (induction rem arbitrary: st rule: less_induct)
  case (less rem)
  let ?B = "pass_bytes env (beo_pattern opts) bs k"
  show ?case
  proof (cases "rem = 0")
    case True
    with less.prems show ?thesis by (subst (asm) device_write_loop.simps) auto
  next
    case False
    have len: "length (es_content st) = l" using less.prems(6,7,12) by simp
    obtain st1 where next_it: "device_write_loop env (Some l) opts pass bs cap total_bytes
          (rem - min rem bs) (count_chunk opts total_bytes (min rem bs) st1) = Some st'"
      and st1: "es_ret st1 = ERASECURE_OK" "es_passes st1 = es_passes st" "es_written st1 = es_written st"
        "length (es_buf st1) = bs" and fits: "cap - rem + min rem bs \<le> l"
      and content: "es_content st1 = write_at (es_content st) (cap - rem)
          (map (pattern_byte env (beo_pattern opts) (es_written st)) [0..<min rem bs])"
      using device_write_loop_step [OF less.prems(1) _ less.prems(2,3) len less.prems(8,6)] False
      by blast
    have rem: "cap - (rem - min rem bs) = cap - rem + min rem bs" "rem - min rem bs < rem"
      using False less.prems(4,5) by auto
    have dvd: "bs dvd (cap - rem)" using less.prems(10) False by simp
    let ?st = "count_chunk opts total_bytes (min rem bs) st1"
    have c: "es_content ?st = write_at c0 0 (?B (cap - rem + min rem bs))"
      using write_at_twice [of 0 "?B (cap - rem)" c0] less.prems(6,7,11,12) content
        pass_bytes_add [OF less.prems(4) dvd, of "min rem bs" env "beo_pattern opts" k]
      by simp
    have w: "es_written ?st = k + (cap - rem + min rem bs)"
      using st1 less.prems(5,9,11) by simp
    have d: "rem - min rem bs = 0 \<or> bs dvd (cap - rem + min rem bs)"
      using dvd by (auto simp: min_def)
    have le: "rem - min rem bs \<le> cap" using less.prems(5) by simp
    have ok: "es_ret ?st = ERASECURE_OK" and buf: "length (es_buf ?st) = bs" using st1 by simp_all
    from less.IH [OF rem(2) next_it ok less.prems(3,4) le _ less.prems(7) buf less.prems(9)]
    show ?thesis unfolding rem(1) using fits d w c st1 by simp
  qed
qed


lemma device_pass_OK:
  assumes "device_pass env limit opts bs cap total_bytes p st = Some st1"
    and "es_ret st1 = ERASECURE_OK"
  obtains st0 where "device_write_loop env limit opts p bs cap total_bytes cap st = Some st0"
    and "es_ret st0 = ERASECURE_OK" and "st1 = st0\<lparr>es_passes := es_passes st0 + 1\<rparr>"
proof -
  from assms have seek: "env_lseek_ok env p"
    by (cases "env_lseek_ok env p") (simp_all add: device_pass_def es_fail_def, auto)
  obtain st0 where loop: "device_write_loop env limit opts p bs cap total_bytes cap st = Some st0"
    using assms(1) seek
    by (cases "device_write_loop env limit opts p bs cap total_bytes cap st")
      (simp_all add: device_pass_def)
  have "es_ret st0 = ERASECURE_OK"
    using assms seek loop by (cases "es_ret st0 = ERASECURE_OK") (simp_all add: device_pass_def)
  moreover have "env_sync_ok env p"
  proof (rule ccontr)
    assume "\<not> env_sync_ok env p"
    with assms(1) seek loop calculation have "es_ret st1 = ERASECURE_ERR_SYNC_FAILED"
      by (auto simp: device_pass_def)
    with assms(2) show False by simp
  qed
  ultimately show ?thesis using that assms(1) seek loop by (simp add: device_pass_def)
qed

text \<open>One pass that ends without error leaves its pattern in the whole device.\<close>

lemma device_pass_pattern:
  assumes pass: "device_pass env (Some l) opts bs cap total_bytes p st = Some st1" "es_ret st1 = ERASECURE_OK"
    and st: "es_ret st = ERASECURE_OK" "length (es_content st) = l" "length (es_buf st) = bs" "es_written st = k"
    and "0 < bs" "cap = l" "k + cap < 2 ^ 64"
  shows "es_content st1 = pass_bytes env (beo_pattern opts) bs k cap \<and> es_written st1 = k + cap
    \<and> es_passes st1 = es_passes st + 1 \<and> length (es_buf st1) = bs"
proof -
  obtain st0 where loop: "device_write_loop env (Some l) opts p bs cap total_bytes cap st = Some st0"
    and st0: "es_ret st0 = ERASECURE_OK" "st1 = st0\<lparr>es_passes := es_passes st0 + 1\<rparr>"
    using device_pass_OK [OF pass] by blast
  have start: "es_content st = write_at (es_content st) 0 (pass_bytes env (beo_pattern opts) bs k (cap - cap))"
    "es_written st = k + (cap - cap)" "cap - cap \<le> l" "cap = 0 \<or> bs dvd (cap - cap)"
    using st(4) by (simp_all add: pass_bytes_def write_at_def)
  have full: "write_at (es_content st) 0 (pass_bytes env (beo_pattern opts) bs k cap)
      = pass_bytes env (beo_pattern opts) bs k cap"
    using assms(8) st(2) by (simp add: pass_bytes_def write_at_def)
  show ?thesis
    using device_write_loop_OK [OF loop st(1) st0(1) assms(7) order_refl start(3) st(2,3) assms(9) start(4,2,1)]
    unfolding full by (simp add: st0(2))
qed

lemma device_passes_OK:
  assumes "device_passes env (Some l) opts bs cap total_bytes ps st = Some st'" and "ps \<noteq> []"
    and "es_ret st = ERASECURE_OK" and "es_ret st' = ERASECURE_OK" and "0 < bs" and "cap = l"
    and "length (es_content st) = l" and "length (es_buf st) = bs"
    and "es_written st = k" and "k + length ps * cap < 2 ^ 64"
  shows "es_content st' = pass_bytes env (beo_pattern opts) bs (k + (length ps - 1) * cap) cap
    \<and> es_written st' = k + length ps * cap \<and> es_passes st' = es_passes st + length ps"
  using assms
proof (induction ps arbitrary: st k)
  case (Cons p ps)
  from Cons.prems obtain st1 where p: "device_pass env (Some l) opts bs cap total_bytes p st = Some st1"
    and rest: "device_passes env (Some l) opts bs cap total_bytes ps st1 = Some st'"
    by (auto split: option.splits)
  have ok: "es_ret st1 = ERASECURE_OK"
  proof (rule ccontr)
    assume "es_ret st1 \<noteq> ERASECURE_OK"
    with rest have "st' = st1" by (cases ps) auto
    with \<open>es_ret st1 \<noteq> ERASECURE_OK\<close> Cons.prems(4) show False by simp
  qed
  have "k + cap < 2 ^ 64" using Cons.prems(10) by simp
  note c = device_pass_pattern [OF p ok Cons.prems(3,7,8,9,5,6) this]
  show ?case
  proof (cases "ps = []")
    case True
    with rest c show ?thesis by auto
  next
    case False
    have len: "length (es_content st1) = l" "length (es_buf st1) = bs" "es_written st1 = k + cap"
      using c Cons.prems(6) by simp_all
    have "(k + cap) + length ps * cap < 2 ^ 64" using Cons.prems(10) by simp
    from Cons.IH [OF rest False ok Cons.prems(4,5,6) len this] c
    have "es_content st' = pass_bytes env (beo_pattern opts) bs (k + cap + (length ps - 1) * cap) cap
      \<and> es_written st' = k + cap + length ps * cap \<and> es_passes st' = es_passes st + 1 + length ps"
      by simp
    moreover have "cap + (length ps - 1) * cap = length ps * cap"
      using False by (cases ps) auto
    ultimately show ?thesis by (simp add: add.assoc)
  qed
qed simp

section \<open>Termination\<close>

text \<open>\<open>write\<close> is not interrupted for ever.\<close>

definition not_always_interrupted :: "erase_env \<Rightarrow> bool" where
  "not_always_interrupted env \<longleftrightarrow> (\<forall>k. \<exists>j. env_write env (k + j) \<noteq> Write_EINTR)"

text \<open>Every call of \<open>write\<close> makes progress or is interrupted.\<close>

definition writes_progress :: "erase_env \<Rightarrow> bool" where
  "writes_progress env \<longleftrightarrow>
     (\<forall>k. env_write env k \<noteq> Write_Error \<and> env_write env k \<noteq> Write_Takes 0)"

text \<open>
  The inner loop returns unless it is interrupted for ever, and without error when writes progress
  and the chunk fits the device.
\<close>

lemma device_write_chunk_returns:
  assumes "not_always_interrupted env"
  shows "\<exists>st'. device_write_chunk env limit pass pos chunk cw st = Some st'
    \<and> (writes_progress env \<and> (\<forall>l. limit = Some l \<longrightarrow> pos + chunk \<le> l) \<longrightarrow> es_ret st' = es_ret st)"
  (is "?Q cw st")
proof (induction "chunk - cw" arbitrary: cw st rule: less_induct)
  case less
  have taking: "?Q cw st" if takes: "env_write env (es_calls st) = Write_Takes n" for n st
  proof -
    define w where "w = write_takes limit (pos + cw) (chunk - cw) n"
    show ?thesis
    proof (cases "cw < chunk \<and> w \<noteq> 0")
      case True
      then have "chunk - (cw + w) < chunk - cw" by linarith
      from less [OF this, of "st\<lparr>es_calls := es_calls st + 1, es_content :=
          write_at (es_content st) (pos + cw) (take w (drop cw (es_buf st)))\<rparr>"] True takes
      show ?thesis
        by (subst device_write_chunk.simps) (simp add: w_def Let_def)
    next
      case False
      have "n \<noteq> 0" if "writes_progress env"
        using that takes unfolding writes_progress_def by metis
      with False takes show ?thesis
        by (subst device_write_chunk.simps)
          (auto simp: w_def Let_def write_takes_def split: option.splits)
    qed
  qed
  have fail: "?Q cw st" if "env_write env (es_calls st) = Write_Error" for st
    using that by (subst device_write_chunk.simps) (auto simp: writes_progress_def)
  have "?Q cw st" if "env_write env (es_calls st + j) \<noteq> Write_EINTR" for j st
    using that
  proof (induction j arbitrary: st)
    case 0
    then show ?case using taking fail by (cases "env_write env (es_calls st)") simp_all
  next
    case (Suc j)
    show ?case
    proof (cases "env_write env (es_calls st)")
      case Write_EINTR
      from Suc.IH [of "st\<lparr>es_calls := es_calls st + 1\<rparr>"] Suc.prems Write_EINTR show ?thesis
        by (subst device_write_chunk.simps) simp
    qed (use taking fail in blast)+
  qed
  then show ?case using assms unfolding not_always_interrupted_def by blast
qed

lemma device_write_loop_total:
  assumes "not_always_interrupted env" and "0 < bs"
  shows "\<exists>st'. device_write_loop env limit opts pass bs cap total_bytes rem st = Some st'
    \<and> (writes_progress env \<and> (\<forall>k. env_rand env k \<noteq> None) \<and> (\<forall>l. limit = Some l \<longrightarrow> cap \<le> l)
        \<and> rem \<le> cap \<and> es_ret st = ERASECURE_OK \<longrightarrow> es_ret st' = ERASECURE_OK)"
proof (induction rem arbitrary: st rule: less_induct)
  case (less rem)
  define chunk where "chunk = (if rem < bs then rem else bs)"
  define filled where "filled = fill_buffer_pattern (env_rand env (es_written st)) (es_buf st) chunk
    (beo_pattern opts)"
  obtain st1 where w: "device_write_chunk env limit pass (cap - rem) chunk 0
      (st\<lparr>es_buf := snd filled\<rparr>) = Some st1"
    and w1: "writes_progress env \<and> (\<forall>l. limit = Some l \<longrightarrow> cap - rem + chunk \<le> l)
        \<longrightarrow> es_ret st1 = es_ret st"
    using device_write_chunk_returns [OF assms(1), of limit pass "cap - rem" chunk 0
        "st\<lparr>es_buf := snd filled\<rparr>"] by auto
  show ?case
  proof (cases "rem > 0 \<and> es_ret st = ERASECURE_OK \<and> fst filled = ERASECURE_OK")
    case False
    moreover have "fst filled = ERASECURE_OK" if "\<forall>k. env_rand env k \<noteq> None"
      using that [rule_format, of "es_written st"]
      by (auto simp: filled_def fill_buffer_pattern_def block_erase_fill_pattern_def
          split: ErasePattern.splits)
    ultimately show ?thesis
      by (subst device_write_loop.simps) (auto simp: Let_def filled_def chunk_def)
  next
    case True
    with assms(2) have dec: "rem - chunk < rem" by (auto simp: chunk_def)
    have fits: "rem \<le> cap \<Longrightarrow> cap \<le> l \<Longrightarrow> cap - rem + chunk \<le> l" for l
      by (auto simp: chunk_def)
    from less.IH [OF dec, of "count_chunk opts total_bytes chunk st1"] True w w1 fits show ?thesis
      by (subst device_write_loop.simps)
        (auto simp add: Let_def filled_def [symmetric] chunk_def [symmetric])
  qed
qed

lemma device_passes_total:
  assumes "not_always_interrupted env" and "0 < bs"
  shows "\<exists>st'. device_passes env limit opts bs cap total_bytes ps st = Some st'
    \<and> (writes_progress env \<and> (\<forall>k. env_rand env k \<noteq> None) \<and> (\<forall>l. limit = Some l \<longrightarrow> cap \<le> l)
        \<and> (\<forall>p. env_lseek_ok env p) \<and> (\<forall>p. env_sync_ok env p) \<and> es_ret st = ERASECURE_OK
        \<longrightarrow> es_ret st' = ERASECURE_OK)"
proof (induction ps arbitrary: st)
  case (Cons p ps)
  obtain st1 where st1: "device_write_loop env limit opts p bs cap total_bytes cap st = Some st1"
    and ok: "writes_progress env \<and> (\<forall>k. env_rand env k \<noteq> None) \<and> (\<forall>l. limit = Some l \<longrightarrow> cap \<le> l)
        \<and> es_ret st = ERASECURE_OK \<longrightarrow> es_ret st1 = ERASECURE_OK"
    using device_write_loop_total [OF assms, of limit opts p cap total_bytes cap st] by auto
  obtain st2 where st2: "device_pass env limit opts bs cap total_bytes p st = Some st2"
    and ok2: "env_lseek_ok env p \<and> env_sync_ok env p \<and> es_ret st1 = ERASECURE_OK
        \<longrightarrow> es_ret st2 = ERASECURE_OK"
    using st1 by (cases "env_lseek_ok env p") (simp_all add: device_pass_def)
  with Cons [of st2] ok show ?case by auto
qed simp

section \<open>The whole call\<close>

lemma write_at_0_all [simp]: "length xs = length c \<Longrightarrow> write_at c 0 xs = xs"
  by (simp add: write_at_def)

text \<open>The outcomes of a call: refused with the file system unchanged, or run after every check.\<close>

lemma block_erase_device_cases [consumes 1, case_names reject run]:
  assumes "block_erase_device env fs (Some dev) (Some opts) (Some token) (Some r) = Some (e, res, fs', prog)"
  obtains "e \<noteq> ERASECURE_OK" and "fs' = fs"
  | n where "token = sd_path dev"
      and "device_path_is_block_device (env_stat_ok env) fs (Some (sd_path dev))"
      and "\<not> sd_is_read_only dev"
      and "device_is_mounted (env_text env) (Some (sd_path dev)) (Some False) \<noteq> (ERASECURE_OK, Some True)"
      and "env_open env = Open_Ok" and "fs (sd_path dev) = Some n" and "\<exists>c. n = Reg c \<or> n = Blk c"
      and "device_run env fs dev n opts = Some (e, res, fs', prog)"
proof -
  have E: "fst (open_error env p a) \<noteq> ERASECURE_OK" for p a by (cases a) simp_all
  have R: "erase_reject x m fs = (e, res, fs', prog) \<Longrightarrow> x \<noteq> ERASECURE_OK \<Longrightarrow> ?thesis" for x m
    using that(1) by (auto simp: erase_reject_def)
  show ?thesis
  proof (cases "token = sd_path dev \<and> device_path_is_block_device (env_stat_ok env) fs (Some (sd_path dev))
      \<and> \<not> sd_is_read_only dev
      \<and> device_is_mounted (env_text env) (Some (sd_path dev)) (Some False) \<noteq> (ERASECURE_OK, Some True)")
    case False
    with assms show ?thesis
      by (simp add: block_erase_device_def split: if_splits) (erule R, simp)+
  next
    case True
    with assms that(2) E show ?thesis
      by (auto simp: block_erase_device_def Let_def elim!: R
          split: option.splits node.splits open_answer.splits)
  qed
qed

lemma device_run_frame:
  assumes "device_run env fs dev n opts = Some (e, res, fs', prog)" and "q \<noteq> sd_path dev"
  shows "fs' q = fs q"
  using assms
  by (auto simp: device_run_def Let_def erase_reject_def split: if_splits option.splits)

lemma device_run_OK:
  assumes "device_run env fs dev (Blk content) opts = Some (ERASECURE_OK, res, fs', prog)"
    and "dev_capacity env dev = length content"
    and "length content * clamp_passes (beo_passes opts) < 2 ^ 64"
  shows "fs' = fs(sd_path dev \<mapsto> Blk (pass_bytes env (beo_pattern opts)
             (clamp_block_size (beo_block_size opts))
             ((clamp_passes (beo_passes opts) - 1) * length content) (length content)))
    \<and> map_option ber_bytes_written res = Some (length content * clamp_passes (beo_passes opts))
    \<and> map_option ber_passes_completed res = Some (clamp_passes (beo_passes opts))"
proof -
  define ps where "ps = clamp_passes (beo_passes opts)"
  define bs where "bs = clamp_block_size (beo_block_size opts)"
  have bs: "0 < bs" by (simp add: bs_def)
  have ps: "1 \<le> ps" using clamp_passes_bounds by (simp add: ps_def)
  from assms(1,2) obtain st where
    run: "device_passes env (Some (length content)) opts bs (length content)
        (wrap64 (length content * ps)) [1..<Suc ps] (start_state content bs) = Some st"
    and st: "es_ret st = ERASECURE_OK" "fs' = fs(sd_path dev \<mapsto> Blk (es_content st))"
      "res = Some (finish_result st)"
    by (auto simp: device_run_def Let_def erase_reject_def bs_def ps_def simp del: upt_Suc
        split: if_splits option.splits)
  have "es_content st = pass_bytes env (beo_pattern opts) bs (0 + (length [1..<Suc ps] - 1) * length content)
        (length content)
      \<and> es_written st = 0 + length [1..<Suc ps] * length content
      \<and> es_passes st = es_passes (start_state content bs) + length [1..<Suc ps]"
    using assms(3) ps bs st(1)
    by (intro device_passes_OK [OF run]) (simp_all add: start_state_def ps_def [symmetric] mult.commute
        del: upt_Suc)
  with st show ?thesis
    by (simp add: finish_result_def start_state_def ps_def [symmetric] bs_def [symmetric] mult.commute
        del: upt_Suc)
qed


text \<open>What the system has to do for a device erase to succeed.\<close>

definition cooperative_device_env :: "erase_env \<Rightarrow> bool" where
  "cooperative_device_env env \<longleftrightarrow>
     env_malloc_ok env \<and> env_open env = Open_Ok \<and> (\<forall>k. env_rand env k \<noteq> None)
     \<and> (\<forall>p. env_lseek_ok env p) \<and> (\<forall>p. env_sync_ok env p) \<and> writes_progress env
     \<and> not_always_interrupted env"

lemma device_run_total:
  assumes "not_always_interrupted env"
  shows "\<exists>out. device_run env fs dev n opts = Some out"
proof -
  obtain st where "device_passes env (if S_ISBLK n then Some (length (node_bytes n)) else None) opts
      (clamp_block_size (beo_block_size opts)) (dev_capacity env dev)
      (wrap64 (dev_capacity env dev * clamp_passes (beo_passes opts)))
      [1..<Suc (clamp_passes (beo_passes opts))]
      (start_state (node_bytes n) (clamp_block_size (beo_block_size opts))) = Some st"
    using device_passes_total [OF assms] by (metis clamp_block_size_pos)
  then show ?thesis by (auto simp: device_run_def Let_def erase_reject_def simp del: upt_Suc)
qed

lemma block_erase_device_unguarded:
  assumes "device_path_is_block_device (env_stat_ok env) fs (Some (sd_path dev))"
    and "\<not> sd_is_read_only dev"
    and "device_is_mounted (env_text env) (Some (sd_path dev)) (Some False) \<noteq> (ERASECURE_OK, Some True)"
    and "env_open env = Open_Ok" and "fs (sd_path dev) = Some (Blk content)"
  shows "block_erase_device env fs (Some dev) (Some opts) (Some (sd_path dev)) (Some r)
    = device_run env fs dev (Blk content) opts"
  using assms by (simp add: block_erase_device_def)

lemma device_run_cooperative:
  assumes "cooperative_device_env env" and "dev_capacity env dev = length content" "content \<noteq> []"
  shows "\<exists>res fs' prog. device_run env fs dev (Blk content) opts = Some (ERASECURE_OK, res, fs', prog)"
proof -
  have nai: "not_always_interrupted env" using assms(1) by (simp add: cooperative_device_env_def)
  obtain st where "device_passes env (Some (length content)) opts
      (clamp_block_size (beo_block_size opts)) (length content)
      (wrap64 (length content * clamp_passes (beo_passes opts)))
      [1..<Suc (clamp_passes (beo_passes opts))]
      (start_state content (clamp_block_size (beo_block_size opts))) = Some st"
    and "es_ret st = ERASECURE_OK"
    using device_passes_total [OF nai clamp_block_size_pos, of "Some (length content)" opts
        "beo_block_size opts" "length content" "wrap64 (length content * clamp_passes (beo_passes opts))"
        "[1..<Suc (clamp_passes (beo_passes opts))]"
        "start_state content (clamp_block_size (beo_block_size opts))"] assms(1)
    by (auto simp: cooperative_device_env_def start_state_def simp del: upt_Suc)
  with assms show ?thesis
    by (simp add: device_run_def Let_def cooperative_device_env_def del: upt_Suc)
qed


section \<open>Properties\<close>

text \<open>The disk of the witnesses and a system on which every third \<open>write\<close> is interrupted.\<close>

definition demo_device :: StorageDevice where
  "demo_device = device_init\<lparr>sd_path := ''/dev/sda'', sd_capacity_bytes := 4\<rparr>"

definition demo_device_env :: erase_env where
  "demo_device_env = demo_env\<lparr>env_ioctl_size := Some 4,
     env_write := (\<lambda>k. if k mod 3 = 0 then Write_EINTR else Write_Takes 3)\<rparr>"

lemma cooperative_demo_device_env: "cooperative_device_env demo_device_env"
proof -
  have "env_write demo_device_env (k + j) \<noteq> Write_EINTR" if "j = (if k mod 3 = 0 then 1 else 0)" for k j
    using that by (auto simp: demo_device_env_def demo_env_def mod_Suc)
  then have "not_always_interrupted demo_device_env" unfolding not_always_interrupted_def by blast
  then show ?thesis
    by (simp add: cooperative_device_env_def writes_progress_def demo_device_env_def demo_env_def)
qed

lemma demo_device_checks:
  "device_path_is_block_device (env_stat_ok demo_device_env) demo_fs (Some (sd_path demo_device))"
  "\<not> sd_is_read_only demo_device"
  "device_is_mounted (env_text demo_device_env) (Some (sd_path demo_device)) (Some False)
     \<noteq> (ERASECURE_OK, Some True)"
  "env_open demo_device_env = Open_Ok"
  "demo_fs (sd_path demo_device) = Some (Blk [7, 7, 7, 7])"
  "dev_capacity demo_device_env demo_device = length [7, 7, 7, 7 :: byte]"
  by (simp_all add: device_path_is_block_device_def blockdev_prefixes_def demo_device_def
      demo_device_env_def demo_env_def device_init_def device_is_mounted_def demo_fs_def
      dev_capacity_def)

lemma demo_device_erase:
  "\<exists>res fs' prog. block_erase_device demo_device_env demo_fs (Some demo_device) (Some demo_opts)
     (Some ''/dev/sda'') (Some fresh_erase_result) = Some (ERASECURE_OK, res, fs', prog)"
proof -
  have "sd_path demo_device = ''/dev/sda''" by (simp add: demo_device_def)
  with block_erase_device_unguarded [OF demo_device_checks(1-5), of demo_opts fresh_erase_result]
    device_run_cooperative [OF cooperative_demo_device_env demo_device_checks(6)]
  show ?thesis by simp
qed

lemma block_erase_device_effect:
  assumes call: "block_erase_device env fs (Some dev) (Some opts) (Some token) (Some r)
      = Some (e, res, fs', prog)"
    and effect: "e = ERASECURE_OK \<or> fs' \<noteq> fs"
  shows "token = sd_path dev
    \<and> device_path_is_block_device (env_stat_ok env) fs (Some token)
    \<and> \<not> sd_is_read_only dev
    \<and> device_is_mounted (env_text env) (Some token) (Some False) \<noteq> (ERASECURE_OK, Some True)
    \<and> env_open env = Open_Ok \<and> (\<forall>q. q \<noteq> token \<longrightarrow> fs' q = fs q)"
  using call
proof (cases rule: block_erase_device_cases)
  case reject
  with effect show ?thesis by simp
next
  case (run n)
  with device_run_frame [OF run(8)] show ?thesis by simp
qed

text \<open>
  C1. The safety checks of the device erase stand between the caller and the disk: if a call of
  \<open>block_erase_device\<close> succeeds or changes anything at all, then the confirmation token was exactly
  the device's path, the path was recognised as a block device, the device was neither read-only nor
  reported mounted, it could be opened, and nothing but that device changed.
\<close>

theorem block_erase_device_guarded:
  assumes call: "block_erase_device env fs (Some dev) (Some opts) (Some token) (Some r)
      = Some (e, res, fs', prog)"
    and effect: "e = ERASECURE_OK \<or> fs' \<noteq> fs"
  shows "token = sd_path dev
    \<and> device_path_is_block_device (env_stat_ok env) fs (Some token)
    \<and> \<not> sd_is_read_only dev
    \<and> device_is_mounted (env_text env) (Some token) (Some False) \<noteq> (ERASECURE_OK, Some True)
    \<and> env_open env = Open_Ok \<and> (\<forall>q. q \<noteq> token \<longrightarrow> fs' q = fs q)"
  using block_erase_device_effect [OF call effect] .

theorem block_erase_device_guarded_witness:
  "\<exists>res fs' prog. block_erase_device demo_device_env demo_fs (Some demo_device) (Some demo_opts)
      (Some ''/dev/sda'') (Some fresh_erase_result) = Some (ERASECURE_OK, res, fs', prog)
    \<and> fs' ''test.img'' = Some (Reg [1, 2, 3])"
proof -
  from demo_device_erase obtain res fs' prog where
    call: "block_erase_device demo_device_env demo_fs (Some demo_device) (Some demo_opts)
      (Some ''/dev/sda'') (Some fresh_erase_result) = Some (ERASECURE_OK, res, fs', prog)" by blast
  from block_erase_device_guarded [OF call disjI1 [OF refl]]
  have "\<forall>q. q \<noteq> ''/dev/sda'' \<longrightarrow> fs' q = demo_fs q" by blast
  then have "fs' ''test.img'' = demo_fs ''test.img''" by simp
  with call show ?thesis by (simp add: demo_fs_def)
qed

text \<open>
  C2. A successful device erase with a constant pattern overwrites the whole device: when the kernel
  reports the true size, \<open>ERASECURE_OK\<close> means that every byte of the device holds the pattern,
  whatever short or interrupted writes happened on the way, that all passes were completed and that
  \<open>bytes_written\<close> counts them all.
\<close>

theorem block_erase_device_overwrites:
  assumes call: "block_erase_device env fs (Some dev) (Some opts) (Some token) (Some r)
      = Some (ERASECURE_OK, res, fs', prog)"
    and node: "fs (sd_path dev) = Some (Blk content)" "content \<noteq> []"
    and capacity: "env_ioctl_size env = Some (length content)"
    and pattern: "beo_pattern opts \<noteq> ERASE_PATTERN_RANDOM"
    and fits: "length content * clamp_passes (beo_passes opts) < 2 ^ 64"
  shows "fs' = fs(sd_path dev \<mapsto> Blk (replicate (length content)
             (if beo_pattern opts = ERASE_PATTERN_ZERO then 0 else 0xFF)))
    \<and> map_option ber_bytes_written res = Some (length content * clamp_passes (beo_passes opts))
    \<and> map_option ber_passes_completed res = Some (clamp_passes (beo_passes opts))"
  using call
proof (cases rule: block_erase_device_cases)
  case (run n)
  from capacity node(2) have "dev_capacity env dev = length content" by (simp add: dev_capacity_def)
  from run node device_run_OK [OF _ this fits] pattern show ?thesis
    by (cases "beo_pattern opts") (auto simp: pass_bytes_const)
qed simp

theorem block_erase_device_overwrites_witness:
  "\<exists>res fs' prog. block_erase_device demo_device_env demo_fs (Some demo_device) (Some demo_opts)
      (Some ''/dev/sda'') (Some fresh_erase_result) = Some (ERASECURE_OK, res, fs', prog)
    \<and> fs' ''/dev/sda'' = Some (Blk [0xFF, 0xFF, 0xFF, 0xFF])"
proof -
  from demo_device_erase obtain res fs' prog where
    call: "block_erase_device demo_device_env demo_fs (Some demo_device) (Some demo_opts)
      (Some ''/dev/sda'') (Some fresh_erase_result) = Some (ERASECURE_OK, res, fs', prog)" by blast
  have "fs' = demo_fs(sd_path demo_device \<mapsto> Blk (replicate (length [7, 7, 7, 7 :: byte])
        (if beo_pattern demo_opts = ERASE_PATTERN_ZERO then 0 else 0xFF)))
    \<and> map_option ber_bytes_written res
        = Some (length [7, 7, 7, 7 :: byte] * clamp_passes (beo_passes demo_opts))
    \<and> map_option ber_passes_completed res = Some (clamp_passes (beo_passes demo_opts))"
    by (rule block_erase_device_overwrites [OF call demo_device_checks(5)])
      (simp_all add: demo_device_env_def demo_opts_def block_erase_options_init_def clamp_passes_def
        erase_limits)
  then have "fs' ''/dev/sda'' = Some (Blk (replicate 4 0xFF))"
    by (simp add: demo_device_def demo_opts_def block_erase_options_init_def numeral_eq_Suc)
  with call show ?thesis by (auto simp: numeral_eq_Suc)
qed

lemma block_erase_device_opened:
  "(\<exists>out. block_erase_device env fs (Some dev) (Some opts) (Some token) (Some r) = Some out)
   \<or> (\<exists>n. block_erase_device env fs (Some dev) (Some opts) (Some token) (Some r)
          = device_run env fs dev n opts)"
proof (cases "\<exists>n. env_open env = Open_Ok \<and> fs (sd_path dev) = Some n \<and> (\<exists>c. n = Reg c \<or> n = Blk c)")
  case True
  then obtain n where n: "env_open env = Open_Ok" "fs (sd_path dev) = Some n" "\<exists>c. n = Reg c \<or> n = Blk c"
    by blast
  then show ?thesis unfolding block_erase_device_def by (elim exE disjE) 
    (simp_all only: option.case prod.case node.case open_answer.case split: if_split, blast+)
next
  case False
  then show ?thesis
    unfolding block_erase_device_def
    by (cases "env_open env"; cases "fs (sd_path dev)")
      (auto simp only: option.case prod.case open_answer.case Let_def split: if_split node.split)
qed

text \<open>
  C13. A device erase returns, and succeeds on a cooperative system: the retry loop around
  \<open>write\<close> ends unless it is interrupted for ever, and when writes progress, random bytes, seeks and
  flushes are available and the checks pass, a device of the size the kernel reports is erased with
  code \<open>ERASECURE_OK\<close>.
\<close>

theorem block_erase_device_returns:
  assumes env: "not_always_interrupted env"
  shows "\<exists>e res fs' prog. block_erase_device env fs (Some dev) (Some opts) (Some token) (Some r)
      = Some (e, res, fs', prog)
    \<and> (cooperative_device_env env \<and> token = sd_path dev \<and> \<not> sd_is_read_only dev
       \<and> device_path_is_block_device (env_stat_ok env) fs (Some token)
       \<and> device_is_mounted (env_text env) (Some token) (Some False) \<noteq> (ERASECURE_OK, Some True)
       \<and> (\<exists>content. content \<noteq> [] \<and> fs token = Some (Blk content)
            \<and> env_ioctl_size env = Some (length content))
       \<longrightarrow> e = ERASECURE_OK)"
proof -
  have "device_run env fs dev n opts \<noteq> None" for n using device_run_total [OF env] by auto
  then have "block_erase_device env fs (Some dev) (Some opts) (Some token) (Some r) \<noteq> None"
    using block_erase_device_opened [of env fs dev opts token r] by auto
  then obtain out' where
    "block_erase_device env fs (Some dev) (Some opts) (Some token) (Some r) = Some out'" by blast
  moreover obtain e res fs' prog where "out' = (e, res, fs', prog)" by (cases out')
  ultimately have
    out: "block_erase_device env fs (Some dev) (Some opts) (Some token) (Some r) = Some (e, res, fs', prog)"
    by simp
  have "e = ERASECURE_OK" if coop: "cooperative_device_env env" and tok: "token = sd_path dev"
    and ro: "\<not> sd_is_read_only dev"
    and blk: "device_path_is_block_device (env_stat_ok env) fs (Some token)"
    and mnt: "device_is_mounted (env_text env) (Some token) (Some False) \<noteq> (ERASECURE_OK, Some True)"
    and content: "content \<noteq> []" "fs token = Some (Blk content)"
      "env_ioctl_size env = Some (length content)" for content
  proof -
    have cap: "dev_capacity env dev = length content" using content by (simp add: dev_capacity_def)
    have "env_open env = Open_Ok" using coop by (simp add: cooperative_device_env_def)
    with block_erase_device_unguarded [of env fs dev content opts r] tok ro blk mnt content(2) out
      device_run_cooperative [OF coop cap content(1), of fs opts] show ?thesis by auto
  qed
  with out show ?thesis by blast
qed

theorem block_erase_device_returns_witness:
  "\<exists>res fs' prog. block_erase_device demo_device_env demo_fs (Some demo_device) (Some demo_opts)
     (Some (sd_path demo_device)) (Some fresh_erase_result) = Some (ERASECURE_OK, res, fs', prog)"
proof -
  have "not_always_interrupted demo_device_env"
    using cooperative_demo_device_env by (simp add: cooperative_device_env_def)
  from block_erase_device_returns [OF this, of demo_fs demo_device demo_opts "sd_path demo_device"
      fresh_erase_result]
  obtain e res fs' prog where
    out: "block_erase_device demo_device_env demo_fs (Some demo_device) (Some demo_opts)
     (Some (sd_path demo_device)) (Some fresh_erase_result) = Some (e, res, fs', prog)"
    and ok: "(\<exists>content. content \<noteq> [] \<and> demo_fs (sd_path demo_device) = Some (Blk content)
        \<and> env_ioctl_size demo_device_env = Some (length content)) \<longrightarrow> e = ERASECURE_OK"
    using cooperative_demo_device_env demo_device_checks(1-3) by auto
  have "e = ERASECURE_OK"
    using ok demo_device_checks(5) by (auto simp: demo_device_env_def)
  with out show ?thesis by blast
qed

end
