(* ===== verification/Verification.thy ===== *)
theory Verification
  imports Block_Erase
begin

text \<open>
  Post-sanitization readback, \<open>include/sanitization/verification.h\<close> and
  \<open>src/sanitization/verification.c\<close>: every block (or every n-th one) of an image is read and
  compared with the expected byte. What \<open>fseeko\<close> and \<open>fread\<close> answer for a block number are fields
  of \<open>verify_env\<close>.
\<close>

section \<open>Model\<close>

datatype VerificationScope =
  VERIFY_SCOPE_NOT_APPLICABLE | VERIFY_SCOPE_LOGICAL_BLOCKS | VERIFY_SCOPE_SAMPLED

record VerificationResult =
  vr_scope :: VerificationScope
  vr_blocks_total :: nat
  vr_blocks_checked :: nat
  vr_blocks_failed :: nat
  vr_verification_passed :: bool
  vr_result_code :: ErasecureError
  vr_confidence_note :: string
  vr_error_message :: string

definition ERASECURE_VERIFY_SAMPLE_BLOCKS :: nat where "ERASECURE_VERIFY_SAMPLE_BLOCKS = 16"

text \<open>\<open>vf_special_size\<close> is the \<open>st_size\<close> of a node that is neither a file nor a device.\<close>

record verify_env =
  vf_stat_ok :: bool
  vf_special_size :: nat
  vf_malloc_ok :: bool
  vf_fopen_ok :: bool
  vf_seek_ok :: "nat \<Rightarrow> bool"
  vf_fread :: "nat \<Rightarrow> nat"

fun verification_scope_str :: "VerificationScope \<Rightarrow> string" where
  "verification_scope_str VERIFY_SCOPE_NOT_APPLICABLE = ''Not applicable''"
| "verification_scope_str VERIFY_SCOPE_LOGICAL_BLOCKS = ''Logical block readback (full)''"
| "verification_scope_str VERIFY_SCOPE_SAMPLED = ''Logical block readback (sampled)''"

definition fresh_verification :: VerificationResult where
  "fresh_verification =
     \<lparr>vr_scope = VERIFY_SCOPE_NOT_APPLICABLE, vr_blocks_total = 0, vr_blocks_checked = 0,
      vr_blocks_failed = 0, vr_verification_passed = False,
      vr_result_code = ERASECURE_ERR_GENERIC, vr_confidence_note = [], vr_error_message = []\<rparr>"

fun st_size :: "verify_env \<Rightarrow> node \<Rightarrow> nat" where
  "st_size env (Reg c) = length c"
| "st_size env (Blk c) = 0"
| "st_size env _ = vf_special_size env"

text \<open>The bytes of block \<open>blk\<close>.\<close>

definition block_bytes :: "byte list \<Rightarrow> nat \<Rightarrow> nat \<Rightarrow> byte list" where
  "block_bytes content block_size blk = take block_size (drop (blk * block_size) content)"

text \<open>
  The loop over the block numbers, with the error code of its exit; a failed seek or a short read
  is the code's \<open>break\<close>.
\<close>

fun verify_blocks ::
    "verify_env \<Rightarrow> byte list \<Rightarrow> nat \<Rightarrow> byte \<Rightarrow> nat \<Rightarrow> nat list \<Rightarrow> VerificationResult
     \<Rightarrow> ErasecureError \<times> VerificationResult" where
  "verify_blocks env content file_size expected_byte block_size [] r = (ERASECURE_OK, r)"
| "verify_blocks env content file_size expected_byte block_size (blk # blks) r =
     (if \<not> vf_seek_ok env blk then (ERASECURE_ERR_SEEK_FAILED, r)
      else
        let offset = blk * block_size;
            to_read = (if file_size - offset < block_size then file_size - offset else block_size);
            buf = take (min to_read (vf_fread env blk)) (drop offset content)
        in if length buf \<noteq> to_read then (ERASECURE_ERR_READ_FAILED, r)
           else let r1 = r\<lparr>vr_blocks_checked := vr_blocks_checked r + 1\<rparr>
                in verify_blocks env content file_size expected_byte block_size blks
                     (if list_all (\<lambda>b. b = expected_byte) buf then r1
                      else r1\<lparr>vr_blocks_failed := vr_blocks_failed r1 + 1\<rparr>))"

definition blocks_in :: "nat \<Rightarrow> nat \<Rightarrow> nat" where
  "blocks_in file_size block_size =
     (if file_size mod block_size \<noteq> 0 then file_size div block_size + 1
      else file_size div block_size)"

definition sample_step_for :: "VerifyMode \<Rightarrow> nat \<Rightarrow> nat" where
  "sample_step_for mode total_blocks =
     (if mode = VERIFY_SAMPLE \<and> total_blocks > ERASECURE_VERIFY_SAMPLE_BLOCKS
      then total_blocks div ERASECURE_VERIFY_SAMPLE_BLOCKS else 1)"

definition verify_constant_pattern ::
    "verify_env \<Rightarrow> filesys \<Rightarrow> string \<Rightarrow> byte \<Rightarrow> nat \<Rightarrow> VerifyMode \<Rightarrow> VerificationResult
     \<Rightarrow> ErasecureError \<times> VerificationResult" where
  "verify_constant_pattern env fs image_path expected_byte block_size mode r =
     (case (vf_stat_ok env, fs image_path) of
        (True, Some n) \<Rightarrow>
          let file_size = st_size env n;
              total_blocks = blocks_in file_size block_size;
              r1 = r\<lparr>vr_blocks_total := total_blocks, vr_blocks_checked := 0, vr_blocks_failed := 0\<rparr>
          in if file_size = 0 then (ERASECURE_ERR_INVALID_ARG, r)
             else if \<not> vf_malloc_ok env then (ERASECURE_ERR_ALLOC, r1)
             else if \<not> vf_fopen_ok env then (ERASECURE_ERR_OPEN_FAILED, r1)
             else (case verify_blocks env (node_bytes n) file_size expected_byte block_size
                          (upt_step 0 total_blocks (sample_step_for mode total_blocks)) r1 of
                     (ret, r2) \<Rightarrow>
                       (ret, r2\<lparr>vr_verification_passed := vr_blocks_failed r2 = 0,
                                vr_result_code := ret,
                                vr_scope := (if mode = VERIFY_SAMPLE then VERIFY_SCOPE_SAMPLED
                                             else VERIFY_SCOPE_LOGICAL_BLOCKS)\<rparr>))
      | _ \<Rightarrow> (ERASECURE_ERR_STAT_FAILED, r))"

definition random_note :: string where
  "random_note = ''Random pattern verification is not possible: '' @
     ''the written values are not deterministic.''"

definition scope_note :: "VerificationScope \<Rightarrow> string" where
  "scope_note scope = ''Verification scope: '' @ verification_scope_str scope @ ''. '' @
     ''Logical block readback confirms host-visible content only. '' @
     ''Physical NAND erasure on SSD/flash devices cannot be '' @
     ''confirmed by this method.''"

definition verify_image_pattern ::
    "verify_env \<Rightarrow> filesys \<Rightarrow> string option \<Rightarrow> ErasePattern \<Rightarrow> nat \<Rightarrow> VerifyMode
     \<Rightarrow> VerificationResult option \<Rightarrow> ErasecureError \<times> VerificationResult option" where
  "verify_image_pattern env fs image_path pattern block_size mode result =
     (case (image_path, result) of
        (Some path, Some _) \<Rightarrow>
          if pattern = ERASE_PATTERN_RANDOM
          then (ERASECURE_ERR_UNSUPPORTED,
                Some (fresh_verification
                  \<lparr>vr_scope := VERIFY_SCOPE_NOT_APPLICABLE, vr_verification_passed := False,
                   vr_confidence_note := cstr 256 random_note,
                   vr_error_message := cstr 128 ''Cannot verify random pattern.'',
                   vr_result_code := ERASECURE_ERR_UNSUPPORTED\<rparr>))
          else (case verify_constant_pattern env fs path
                       (if pattern = ERASE_PATTERN_ZERO then 0 else 0xFF)
                       (clamp_block_size block_size) mode fresh_verification of
                  (ret, r) \<Rightarrow>
                    (ret, Some (r\<lparr>vr_confidence_note := cstr 256 (scope_note (vr_scope r))\<rparr>)))
      | _ \<Rightarrow> (ERASECURE_ERR_INVALID_ARG, result))"

section \<open>The block loop\<close>

text \<open>The blocks of a list of block numbers that differ from the expected byte.\<close>

definition bad_blocks :: "byte list \<Rightarrow> nat \<Rightarrow> byte \<Rightarrow> nat list \<Rightarrow> nat list" where
  "bad_blocks content bs b blks =
     List.filter (\<lambda>blk. \<exists>x \<in> set (block_bytes content bs blk). x \<noteq> b) blks"

lemma verify_blocks_OK:
  assumes "verify_blocks env content (length content) b bs blks r = (ERASECURE_OK, r')"
  shows "r' = r\<lparr>vr_blocks_checked := vr_blocks_checked r + length blks,
                vr_blocks_failed := vr_blocks_failed r + length (bad_blocks content bs b blks)\<rparr>"
  using assms
proof (induction blks arbitrary: r)
  case (Cons blk blks)
  define to_read where "to_read = (if length content - blk * bs < bs then length content - blk * bs else bs)"
  define buf where "buf = take (min to_read (vf_fread env blk)) (drop (blk * bs) content)"
  from Cons.prems have len: "length buf = to_read"
    and rest: "verify_blocks env content (length content) b bs blks
      (if list_all (\<lambda>x. x = b) buf then r\<lparr>vr_blocks_checked := vr_blocks_checked r + 1\<rparr>
       else r\<lparr>vr_blocks_checked := vr_blocks_checked r + 1,
              vr_blocks_failed := vr_blocks_failed r + 1\<rparr>) = (ERASECURE_OK, r')"
    by (auto simp: Let_def buf_def to_read_def split: if_splits)
  have "buf = block_bytes content bs blk"
    using take_length_eq [OF len [unfolded buf_def]]
    by (auto simp: buf_def to_read_def block_bytes_def min_def)
  with Cons.IH [OF rest] show ?case
    by (auto simp: bad_blocks_def list_all_iff split: if_splits)
qed (simp add: bad_blocks_def)

lemma blocks_cover:
  assumes "0 < bs"
  shows "i < n \<longleftrightarrow> i < n \<and> i div bs < blocks_in n bs"
proof -
  have "i div bs < blocks_in n bs" if "i < n"
  proof -
    have "i div bs \<le> n div bs" using that by (simp add: div_le_mono)
    moreover have "i div bs \<noteq> n div bs" if "n mod bs = 0"
    proof
      assume "i div bs = n div bs"
      then have "i \<ge> n" using that assms
        by (metis add.right_neutral div_mult_mod_eq le_add1)
      with \<open>i < n\<close> show False by simp
    qed
    ultimately show ?thesis by (auto simp: blocks_in_def)
  qed
  then show ?thesis by blast
qed

lemma bad_blocks_all:
  assumes "0 < bs"
  shows "bad_blocks content bs b [0..<blocks_in (length content) bs] = [] \<longleftrightarrow> (\<forall>x \<in> set content. x = b)"
proof
  assume none: "bad_blocks content bs b [0..<blocks_in (length content) bs] = []"
  show "\<forall>x \<in> set content. x = b"
  proof
    fix x assume "x \<in> set content"
    then obtain i where i: "i < length content" "x = content ! i" by (auto simp: in_set_conv_nth)
    have "i div bs < blocks_in (length content) bs" using i assms blocks_cover by blast
    moreover have "x \<in> set (block_bytes content bs (i div bs))"
    proof -
      have split_i: "i div bs * bs + i mod bs = i" by simp
      then have "i mod bs < length content - i div bs * bs" using i(1) by linarith
      then have "block_bytes content bs (i div bs) ! (i mod bs) = x"
        "i mod bs < length (block_bytes content bs (i div bs))"
        using assms i split_i by (simp_all add: block_bytes_def)
      then show ?thesis by (metis nth_mem)
    qed
    ultimately show "x = b" using none by (auto simp: bad_blocks_def filter_empty_conv)
  qed
next
  assume "\<forall>x \<in> set content. x = b"
  then show "bad_blocks content bs b [0..<blocks_in (length content) bs] = []"
    by (auto simp: bad_blocks_def filter_empty_conv block_bytes_def dest!: in_set_takeD in_set_dropD)
qed


lemma bad_blocks_Nil_iff:
  "bad_blocks content bs b blks = [] \<longleftrightarrow> (\<forall>blk \<in> set blks. \<forall>x \<in> set (block_bytes content bs blk). x = b)"
  by (auto simp: bad_blocks_def filter_empty_conv)

text \<open>The expected byte and the outcome of a run that ends without error.\<close>

definition pattern_value :: "ErasePattern \<Rightarrow> byte" where
  "pattern_value p = (if p = ERASE_PATTERN_ZERO then 0 else 0xFF)"

lemma verify_image_pattern_OK:
  assumes "verify_image_pattern env fs (Some path) pattern block_size mode (Some r)
      = (ERASECURE_OK, Some r')"
    and "fs path = Some (Reg content)"
    and "bs = clamp_block_size block_size" and "n = blocks_in (length content) bs"
  shows "pattern \<noteq> ERASE_PATTERN_RANDOM
    \<and> vr_blocks_total r' = n
    \<and> vr_blocks_checked r' = length (upt_step 0 n (sample_step_for mode n))
    \<and> vr_blocks_failed r' = length (bad_blocks content bs (pattern_value pattern)
          (upt_step 0 n (sample_step_for mode n)))
    \<and> vr_verification_passed r' = (vr_blocks_failed r' = 0)
    \<and> vr_scope r' = (if mode = VERIFY_SAMPLE then VERIFY_SCOPE_SAMPLED else VERIFY_SCOPE_LOGICAL_BLOCKS)
    \<and> vr_result_code r' = ERASECURE_OK"
proof -
  let ?r = "fresh_verification\<lparr>vr_blocks_total := n, vr_blocks_checked := 0, vr_blocks_failed := 0\<rparr>"
  obtain r1 where r1: "verify_constant_pattern env fs path (pattern_value pattern) bs mode
      fresh_verification = (ERASECURE_OK, r1)"
    and r': "r' = r1\<lparr>vr_confidence_note := cstr 256 (scope_note (vr_scope r1))\<rparr>"
    and pat: "pattern \<noteq> ERASE_PATTERN_RANDOM"
    using assms(1,3) by (auto simp: verify_image_pattern_def pattern_value_def split: if_splits prod.splits)
  obtain r2 where "verify_blocks env content (length content) (pattern_value pattern) bs
      (upt_step 0 n (sample_step_for mode n)) ?r = (ERASECURE_OK, r2)"
    and r1_eq: "r1 = r2\<lparr>vr_verification_passed := vr_blocks_failed r2 = 0, vr_result_code := ERASECURE_OK,
      vr_scope := (if mode = VERIFY_SAMPLE then VERIFY_SCOPE_SAMPLED else VERIFY_SCOPE_LOGICAL_BLOCKS)\<rparr>"
    using r1 assms(2,4)
    by (auto simp: verify_constant_pattern_def Let_def split: if_splits prod.splits bool.splits)
  from verify_blocks_OK [OF this(1)] r1_eq r' pat show ?thesis by simp
qed

lemma sample_step_pos [simp]: "0 < sample_step_for mode n"
  by (auto simp: sample_step_for_def ERASECURE_VERIFY_SAMPLE_BLOCKS_def)

text \<open>A reader that never fails.\<close>

definition cooperative_verify_env :: "verify_env \<Rightarrow> bool" where
  "cooperative_verify_env env \<longleftrightarrow>
     vf_stat_ok env \<and> vf_malloc_ok env \<and> vf_fopen_ok env \<and> (\<forall>b. vf_seek_ok env b)
     \<and> (\<forall>b. ERASECURE_MAX_BLOCK_SIZE \<le> vf_fread env b)"

lemma verify_blocks_cooperative:
  assumes "cooperative_verify_env env" and "bs \<le> ERASECURE_MAX_BLOCK_SIZE"
    and "\<forall>blk \<in> set blks. blk * bs \<le> length content"
  shows "\<exists>r'. verify_blocks env content (length content) b bs blks r = (ERASECURE_OK, r')"
  using assms(3)
proof (induction blks arbitrary: r)
  case (Cons blk blks)
  have "vf_seek_ok env blk" "bs \<le> vf_fread env blk"
    using assms(1,2) le_trans unfolding cooperative_verify_env_def by blast+
  with Cons show ?case by (auto simp: Let_def min_def)
qed simp

lemma blocks_in_bound:
  assumes "blk < blocks_in n bs" and "0 < bs"
  shows "blk * bs < n"
proof -
  have div: "n div bs * bs + n mod bs = n" by simp
  show ?thesis
  proof (cases "blk < n div bs")
    case True
    then have "Suc blk * bs \<le> n div bs * bs" by (metis Suc_leI mult_le_mono1)
    then have "bs + blk * bs \<le> n div bs * bs" by simp
    also have "\<dots> \<le> n" by simp
    finally show ?thesis using assms(2) by linarith
  next
    case False
    with assms(1) have blk: "blk = n div bs" "n mod bs \<noteq> 0"
      by (auto simp: blocks_in_def split: if_splits)
    from div blk(2) show ?thesis unfolding blk(1) by linarith
  qed
qed

lemma verify_image_pattern_runs:
  assumes "cooperative_verify_env env" and "fs path = Some (Reg content)" and "content \<noteq> []"
    and "pattern \<noteq> ERASE_PATTERN_RANDOM"
  shows "\<exists>r'. verify_image_pattern env fs (Some path) pattern block_size mode (Some r)
    = (ERASECURE_OK, Some r')"
proof -
  let ?bs = "clamp_block_size block_size"
  let ?n = "blocks_in (length content) ?bs"
  have "\<forall>blk \<in> set (upt_step 0 ?n (sample_step_for mode ?n)). blk * ?bs \<le> length content"
    using blocks_in_bound [OF _ clamp_block_size_pos] by (auto simp: set_upt_step intro: less_imp_le)
  from verify_blocks_cooperative [OF assms(1) conjunct2 [OF clamp_block_size_bounds] this]
  obtain r1 where "verify_blocks env content (length content) (if pattern = ERASE_PATTERN_ZERO then 0 else 0xFF)
      ?bs (upt_step 0 ?n (sample_step_for mode ?n))
      (fresh_verification\<lparr>vr_blocks_total := ?n, vr_blocks_checked := 0, vr_blocks_failed := 0\<rparr>)
      = (ERASECURE_OK, r1)" by blast
  with assms show ?thesis
    by (simp add: verify_image_pattern_def verify_constant_pattern_def Let_def
        cooperative_verify_env_def)
qed

section \<open>Properties\<close>

text \<open>
  C9. A full verification is exact: when \<open>verify_image_pattern\<close> in full mode returns
  \<open>ERASECURE_OK\<close>, it has read every block of the image, the pattern was a constant one, and it
  reports success exactly when every byte of the file is the pattern byte.
\<close>

theorem verify_full_exact:
  assumes call: "verify_image_pattern env fs (Some path) pattern block_size VERIFY_FULL (Some r)
      = (ERASECURE_OK, Some r')"
    and content: "fs path = Some (Reg content)"
  shows "(vr_verification_passed r' \<longleftrightarrow> content = replicate (length content) (pattern_value pattern))
    \<and> pattern \<noteq> ERASE_PATTERN_RANDOM
    \<and> vr_blocks_checked r' = blocks_in (length content) (clamp_block_size block_size)
    \<and> vr_scope r' = VERIFY_SCOPE_LOGICAL_BLOCKS"
proof -
  note ok = verify_image_pattern_OK [OF call content refl refl]
  have step: "sample_step_for VERIFY_FULL n = Suc 0" for n by (simp add: sample_step_for_def)
  have "content = replicate (length content) (pattern_value pattern)
      \<longleftrightarrow> (\<forall>x \<in> set content. x = pattern_value pattern)"
    by (metis in_set_replicate replicate_length_same)
  with ok bad_blocks_all [OF clamp_block_size_pos] show ?thesis by (simp add: step)
qed

text \<open>The readers of the witnesses.\<close>

definition demo_verify_env :: verify_env where
  "demo_verify_env =
     \<lparr>vf_stat_ok = True, vf_special_size = 4096, vf_malloc_ok = True, vf_fopen_ok = True,
      vf_seek_ok = (\<lambda>_. True), vf_fread = (\<lambda>_. 67108864)\<rparr>"

lemma demo_verify_call:
  "\<exists>r'. verify_image_pattern demo_verify_env demo_fs (Some ''test.img'') ERASE_PATTERN_ZERO 512
     mode (Some fresh_verification) = (ERASECURE_OK, Some r')"
proof -
  have "clamp_block_size 512 = 512" by (simp add: clamp_block_size_def erase_limits)
  moreover have "upt_step 0 1 (sample_step_for mode 1) = [0]"
    by (simp add: sample_step_for_def ERASECURE_VERIFY_SAMPLE_BLOCKS_def)
  ultimately show ?thesis
    by (simp add: verify_image_pattern_def verify_constant_pattern_def demo_verify_env_def demo_fs_def
        Let_def blocks_in_def)
qed

theorem verify_full_exact_witness:
  "\<exists>r'. verify_image_pattern demo_verify_env demo_fs (Some ''test.img'') ERASE_PATTERN_ZERO 512
     VERIFY_FULL (Some fresh_verification) = (ERASECURE_OK, Some r') \<and> \<not> vr_verification_passed r'"
proof -
  from demo_verify_call obtain r' where call: "verify_image_pattern demo_verify_env demo_fs
      (Some ''test.img'') ERASE_PATTERN_ZERO 512 VERIFY_FULL (Some fresh_verification)
      = (ERASECURE_OK, Some r')" by blast
  have "\<not> vr_verification_passed r'"
    using verify_full_exact [OF call, of "[1, 2, 3]"]
    by (simp add: demo_fs_def pattern_value_def numeral_3_eq_3)
  with call show ?thesis by blast
qed

text \<open>
  A sampled verification is sound for the blocks it reads: on \<open>ERASECURE_OK\<close> in sample mode
  it reports success exactly when every block whose number is a multiple of the sampling step holds
  only the pattern byte, it labels the result as sampled, and it has read at least 16 blocks or the
  whole image.
\<close>

theorem verify_sample_sound:
  assumes call: "verify_image_pattern env fs (Some path) pattern block_size VERIFY_SAMPLE (Some r)
      = (ERASECURE_OK, Some r')"
    and content: "fs path = Some (Reg content)"
  shows "(vr_verification_passed r' \<longleftrightarrow>
      (\<forall>blk < vr_blocks_total r'. sample_step_for VERIFY_SAMPLE (vr_blocks_total r') dvd blk \<longrightarrow>
        (\<forall>x \<in> set (block_bytes content (clamp_block_size block_size) blk). x = pattern_value pattern)))
    \<and> vr_scope r' = VERIFY_SCOPE_SAMPLED
    \<and> vr_blocks_total r' = blocks_in (length content) (clamp_block_size block_size)
    \<and> min (vr_blocks_total r') ERASECURE_VERIFY_SAMPLE_BLOCKS \<le> vr_blocks_checked r'"
proof -
  note ok = verify_image_pattern_OK [OF call content refl refl]
  define n where "n = blocks_in (length content) (clamp_block_size block_size)"
  define step where "step = sample_step_for VERIFY_SAMPLE n"
  have step: "0 < step" by (simp add: step_def)
  have "min n 16 * step \<le> n"
  proof (cases "16 < n")
    case True
    then have "step = n div 16" by (simp add: step_def sample_step_for_def ERASECURE_VERIFY_SAMPLE_BLOCKS_def)
    with True show ?thesis by simp
  next
    case False
    then show ?thesis by (simp add: step_def sample_step_for_def ERASECURE_VERIFY_SAMPLE_BLOCKS_def)
  qed
  then have "min n 16 * step \<le> n + step - 1" using step by linarith
  then have "min n 16 \<le> (n + step - 1) div step" using step by (simp add: less_eq_div_iff_mult_less_eq)
  moreover have "vr_verification_passed r' \<longleftrightarrow>
      (\<forall>blk \<in> set (upt_step 0 n step). \<forall>x \<in> set (block_bytes content (clamp_block_size block_size) blk).
        x = pattern_value pattern)"
    using ok by (simp add: bad_blocks_Nil_iff step_def n_def)
  ultimately show ?thesis
    using ok step
    by (auto simp add: set_upt_step length_upt_step n_def [symmetric] step_def [symmetric]
        ERASECURE_VERIFY_SAMPLE_BLOCKS_def Ball_def)
qed

theorem verify_sample_sound_witness:
  "\<exists>r'. verify_image_pattern demo_verify_env demo_fs (Some ''test.img'') ERASE_PATTERN_ZERO 512
     VERIFY_SAMPLE (Some fresh_verification) = (ERASECURE_OK, Some r')
    \<and> vr_scope r' = VERIFY_SCOPE_SAMPLED \<and> min (vr_blocks_total r') 16 \<le> vr_blocks_checked r'"
proof -
  from demo_verify_call obtain r' where call: "verify_image_pattern demo_verify_env demo_fs
      (Some ''test.img'') ERASE_PATTERN_ZERO 512 VERIFY_SAMPLE (Some fresh_verification)
      = (ERASECURE_OK, Some r')" by blast
  have "demo_fs ''test.img'' = Some (Reg [1, 2, 3])" by (simp add: demo_fs_def)
  from verify_sample_sound [OF call this]
  have "vr_scope r' = VERIFY_SCOPE_SAMPLED \<and> min (vr_blocks_total r') 16 \<le> vr_blocks_checked r'"
    unfolding ERASECURE_VERIFY_SAMPLE_BLOCKS_def by blast
  with call show ?thesis by blast
qed

text \<open>
  A readback that could not run is reported as passed: when the very first seek fails,
  \<open>verify_image_pattern\<close> returns \<open>ERASECURE_ERR_SEEK_FAILED\<close>, has checked no block, and still
  leaves \<open>verification_passed\<close> set, because the flag looks only at the count of failed blocks.
\<close>

theorem verify_passes_without_reading:
  assumes node: "fs path = Some (Reg content)" "content \<noteq> []"
    and env: "vf_stat_ok env" "vf_malloc_ok env" "vf_fopen_ok env" "\<not> vf_seek_ok env 0"
    and pattern: "pattern \<noteq> ERASE_PATTERN_RANDOM"
  shows "\<exists>r'. verify_image_pattern env fs (Some path) pattern block_size mode (Some r)
      = (ERASECURE_ERR_SEEK_FAILED, Some r')
    \<and> vr_verification_passed r' \<and> vr_blocks_checked r' = 0 \<and> 0 < vr_blocks_total r'
    \<and> vr_result_code r' = ERASECURE_ERR_SEEK_FAILED"
proof -
  define n where "n = blocks_in (length content) (clamp_block_size block_size)"
  have n: "0 < n"
    using blocks_cover [OF clamp_block_size_pos, of 0 "length content" block_size] node(2)
    by (simp add: n_def)
  define step where "step = sample_step_for mode n"
  have "0 < (n + step - 1) div step" using n by (simp add: step_def div_greater_zero_iff)
  then obtain blks where "upt_step 0 n step = 0 # blks" by (simp add: upt_step_def upt_rec)
  then show ?thesis
    using node env pattern n
    by (simp add: verify_image_pattern_def verify_constant_pattern_def Let_def n_def [symmetric]
        step_def fresh_verification_def)
qed

theorem verify_passes_without_reading_witness:
  "\<exists>r'. verify_image_pattern (demo_verify_env\<lparr>vf_seek_ok := (\<lambda>_. False)\<rparr>) demo_fs (Some ''test.img'')
      ERASE_PATTERN_ZERO 512 VERIFY_FULL (Some fresh_verification)
      = (ERASECURE_ERR_SEEK_FAILED, Some r') \<and> vr_verification_passed r'"
  using verify_passes_without_reading [of demo_fs "''test.img''" "[1, 2, 3]"
      "demo_verify_env\<lparr>vf_seek_ok := (\<lambda>_. False)\<rparr>" ERASE_PATTERN_ZERO 512 VERIFY_FULL fresh_verification]
  by (auto simp: demo_verify_env_def demo_fs_def)

end
