(* ===== verification/Crypto.thy ===== *)
theory Crypto
  imports Verification
begin

text \<open>
  Digests, detection of encrypted volumes and cryptographic erase: \<open>src/crypto/hash.c\<close>,
  \<open>src/crypto/key_management.c\<close> and \<open>src/sanitization/crypto_erase.c\<close>. OpenSSL is not part of the
  repository: the digest context and its operations are the fields of \<open>evp\<close>, a parameter, each
  operation answering \<open>None\<close> when the library reports a failure.
\<close>

section \<open>Digests\<close>

record 'c evp =
  evp_ctx_new_ok :: bool
  evp_init :: "'c option"
  evp_update :: "'c \<Rightarrow> byte list \<Rightarrow> 'c option"
  evp_final :: "'c \<Rightarrow> byte list option"

definition evp_hash_buffer ::
    "'c evp \<Rightarrow> byte list \<Rightarrow> byte list \<Rightarrow> ErasecureError \<times> byte list" where
  "evp_hash_buffer md data digest =
     (if \<not> evp_ctx_new_ok md then (ERASECURE_ERR_CRYPTO, digest)
      else case evp_init md of
             None \<Rightarrow> (ERASECURE_ERR_HASH_FAILED, digest)
           | Some ctx \<Rightarrow>
               (case evp_update md ctx data of
                  None \<Rightarrow> (ERASECURE_ERR_HASH_FAILED, digest)
                | Some ctx' \<Rightarrow>
                    (case evp_final md ctx' of
                       None \<Rightarrow> (ERASECURE_ERR_HASH_FAILED, digest)
                     | Some d \<Rightarrow> (ERASECURE_OK, d))))"

text \<open>The read loop: \<open>data\<close> are the bytes \<open>fread\<close> still delivers, 65536 at a time.\<close>

function evp_read_loop :: "'c evp \<Rightarrow> 'c \<Rightarrow> byte list \<Rightarrow> 'c option" where
  "evp_read_loop md ctx data =
     (if data = [] then Some ctx
      else case evp_update md ctx (take 65536 data) of
             None \<Rightarrow> None
           | Some ctx' \<Rightarrow> evp_read_loop md ctx' (drop 65536 data))"
  by pat_completeness auto
termination by (relation "measure (\<lambda>(md, ctx, data). length data)") auto

declare evp_read_loop.simps [simp del]

text \<open>
  \<open>stream\<close> is \<open>None\<close> when the file cannot be opened, otherwise the bytes that can be read and
  whether reading ended with \<open>ferror\<close>.
\<close>

definition evp_hash_file ::
    "'c evp \<Rightarrow> (byte list \<times> bool) option \<Rightarrow> byte list \<Rightarrow> ErasecureError \<times> byte list" where
  "evp_hash_file md stream digest =
     (case stream of
        None \<Rightarrow> (ERASECURE_ERR_OPEN_FAILED, digest)
      | Some (data, ferror) \<Rightarrow>
          if \<not> evp_ctx_new_ok md then (ERASECURE_ERR_CRYPTO, digest)
          else (case evp_init md of
                  None \<Rightarrow> (ERASECURE_ERR_HASH_FAILED, digest)
                | Some ctx \<Rightarrow>
                    (case evp_read_loop md ctx data of
                       None \<Rightarrow> (ERASECURE_ERR_HASH_FAILED, digest)
                     | Some ctx' \<Rightarrow>
                         if ferror then (ERASECURE_ERR_READ_FAILED, digest)
                         else (case evp_final md ctx' of
                                 None \<Rightarrow> (ERASECURE_ERR_HASH_FAILED, digest)
                               | Some d \<Rightarrow> (ERASECURE_OK, d)))))"

text \<open>\<open>hash_sha256_buffer\<close> and \<open>hash_sha512_buffer\<close> differ only in the digest they pass on.\<close>

definition hash_buffer ::
    "'c evp \<Rightarrow> byte list option \<Rightarrow> byte list option \<Rightarrow> ErasecureError \<times> byte list option" where
  "hash_buffer md data digest =
     (case (data, digest) of
        (Some d, Some out) \<Rightarrow> (case evp_hash_buffer md d out of (e, h) \<Rightarrow> (e, Some h))
      | _ \<Rightarrow> (ERASECURE_ERR_INVALID_ARG, digest))"

definition hash_file ::
    "'c evp \<Rightarrow> (string \<Rightarrow> (byte list \<times> bool) option) \<Rightarrow> string option \<Rightarrow> byte list option
     \<Rightarrow> ErasecureError \<times> byte list option" where
  "hash_file md open_read path digest =
     (case (path, digest) of
        (Some p, Some out) \<Rightarrow> (case evp_hash_file md (open_read p) out of (e, h) \<Rightarrow> (e, Some h))
      | _ \<Rightarrow> (ERASECURE_ERR_INVALID_ARG, digest))"

text \<open>The contents of \<open>hex_out\<close> up to its NUL.\<close>

definition hash_digest_to_hex :: "byte list option \<Rightarrow> nat \<Rightarrow> string option \<Rightarrow> string option" where
  "hash_digest_to_hex digest digest_len hex_out =
     (case (digest, hex_out) of
        (Some d, Some _) \<Rightarrow> Some (concat (map (\<lambda>i. hex2 (d ! i)) [0..<digest_len]))
      | _ \<Rightarrow> hex_out)"

section \<open>Encrypted volumes\<close>

datatype KeyMgmtCapability =
    KEY_MGMT_SED_DETECTED | KEY_MGMT_SED_NOT_DETECTED | KEY_MGMT_DETECTION_FAILED
  | KEY_MGMT_NOT_IMPLEMENTED

datatype EncryptedVolumeType =
    ENCRYPTED_VOL_NONE | ENCRYPTED_VOL_SED_HARDWARE | ENCRYPTED_VOL_LUKS1 | ENCRYPTED_VOL_LUKS2
  | ENCRYPTED_VOL_UNKNOWN

fun key_mgmt_capability_str :: "KeyMgmtCapability \<Rightarrow> string" where
  "key_mgmt_capability_str KEY_MGMT_SED_DETECTED = ''Self-encrypting drive / encrypted volume detected''"
| "key_mgmt_capability_str KEY_MGMT_SED_NOT_DETECTED = ''No self-encryption or LUKS volume detected''"
| "key_mgmt_capability_str KEY_MGMT_DETECTION_FAILED = ''Detection failed''"
| "key_mgmt_capability_str KEY_MGMT_NOT_IMPLEMENTED = ''Detection not implemented''"

fun encrypted_volume_type_str :: "EncryptedVolumeType \<Rightarrow> string" where
  "encrypted_volume_type_str ENCRYPTED_VOL_NONE = ''Not encrypted''"
| "encrypted_volume_type_str ENCRYPTED_VOL_SED_HARDWARE = ''Hardware SED (ATA/NVMe Opal)''"
| "encrypted_volume_type_str ENCRYPTED_VOL_LUKS1 = ''Linux LUKS1 volume''"
| "encrypted_volume_type_str ENCRYPTED_VOL_LUKS2 = ''Linux LUKS2 volume''"
| "encrypted_volume_type_str ENCRYPTED_VOL_UNKNOWN = ''Unknown encryption type''"

text \<open>\<open>OPENSSL_cleanse\<close> overwrites the memory with zeroes.\<close>

definition key_mgmt_secure_cleanse :: "byte list option \<Rightarrow> nat \<Rightarrow> byte list option" where
  "key_mgmt_secure_cleanse ptr len =
     (case ptr of None \<Rightarrow> None
      | Some m \<Rightarrow> if len = 0 then Some m else Some (replicate len 0 @ drop len m))"

definition luks_magic :: "byte list" where
  "luks_magic = [0x4C, 0x55, 0x4B, 0x53, 0xBA, 0xBE]"

definition luks_type :: "byte list \<Rightarrow> EncryptedVolumeType" where
  "luks_type hdr =
     (if take 6 hdr = luks_magic then
        (let ver = unat (hdr ! 6) * 256 + unat (hdr ! 7)
         in if ver = 1 then ENCRYPTED_VOL_LUKS1
            else if ver = 2 then ENCRYPTED_VOL_LUKS2 else ENCRYPTED_VOL_UNKNOWN)
      else ENCRYPTED_VOL_NONE)"

definition key_mgmt_detect_luks ::
    "(string \<Rightarrow> byte list option) \<Rightarrow> string option \<Rightarrow> EncryptedVolumeType option
     \<Rightarrow> ErasecureError \<times> EncryptedVolumeType option" where
  "key_mgmt_detect_luks open_read path vol_type =
     (case (path, vol_type) of
        (Some p, Some _) \<Rightarrow>
          (case open_read p of
             None \<Rightarrow> (ERASECURE_ERR_OPEN_FAILED, Some ENCRYPTED_VOL_NONE)
           | Some content \<Rightarrow>
               let hdr = take 16 content
               in if length hdr < 8 then (ERASECURE_OK, Some ENCRYPTED_VOL_NONE)
                  else (ERASECURE_OK, Some (luks_type hdr)))
      | _ \<Rightarrow> (ERASECURE_ERR_INVALID_ARG, vol_type))"

definition key_mgmt_query_device ::
    "(string \<Rightarrow> byte list option) \<Rightarrow> StorageDevice option \<Rightarrow> KeyMgmtCapability" where
  "key_mgmt_query_device open_read device =
     (case device of None \<Rightarrow> KEY_MGMT_DETECTION_FAILED
      | Some dev \<Rightarrow>
          if cap_supports_crypto_erase (sd_capabilities dev)
             \<or> cap_is_self_encrypting (sd_capabilities dev)
             \<or> sd_encryption_status dev = ENCRYPTION_STATUS_ENCRYPTED
          then KEY_MGMT_SED_DETECTED
          else if sd_path dev \<noteq> []
             \<and> (case key_mgmt_detect_luks open_read (Some (sd_path dev)) (Some ENCRYPTED_VOL_NONE) of
                  (e, v) \<Rightarrow> e = ERASECURE_OK \<and> v \<noteq> Some ENCRYPTED_VOL_NONE)
          then KEY_MGMT_SED_DETECTED
          else KEY_MGMT_SED_NOT_DETECTED)"

section \<open>Cryptographic erase\<close>

datatype CryptoEraseStatus =
    CRYPTO_ERASE_SUPPORTED | CRYPTO_ERASE_UNSUPPORTED | CRYPTO_ERASE_NOT_ENCRYPTED
  | CRYPTO_ERASE_NOT_IMPLEMENTED | CRYPTO_ERASE_FAILED | CRYPTO_ERASE_SUCCESS

fun crypto_erase_status_str :: "CryptoEraseStatus \<Rightarrow> string" where
  "crypto_erase_status_str CRYPTO_ERASE_SUPPORTED = ''Supported''"
| "crypto_erase_status_str CRYPTO_ERASE_UNSUPPORTED = ''Unsupported''"
| "crypto_erase_status_str CRYPTO_ERASE_NOT_ENCRYPTED = ''Device is not self-encrypting''"
| "crypto_erase_status_str CRYPTO_ERASE_NOT_IMPLEMENTED = ''Not implemented in this version''"
| "crypto_erase_status_str CRYPTO_ERASE_FAILED = ''Failed''"
| "crypto_erase_status_str CRYPTO_ERASE_SUCCESS = ''Success''"

definition crypto_erase_query :: "StorageDevice option \<Rightarrow> CryptoEraseStatus" where
  "crypto_erase_query device =
     (case device of None \<Rightarrow> CRYPTO_ERASE_UNSUPPORTED
      | Some dev \<Rightarrow>
          if cap_supports_crypto_erase (sd_capabilities dev) then CRYPTO_ERASE_SUPPORTED
          else if sd_encryption_status dev = ENCRYPTION_STATUS_NOT_ENCRYPTED
             \<or> sd_encryption_status dev = ENCRYPTION_STATUS_UNKNOWN
          then CRYPTO_ERASE_NOT_ENCRYPTED
          else CRYPTO_ERASE_UNSUPPORTED)"

definition crypto_erase_execute :: "StorageDevice option \<Rightarrow> CryptoEraseStatus" where
  "crypto_erase_execute device =
     (case device of None \<Rightarrow> CRYPTO_ERASE_FAILED
      | Some dev \<Rightarrow>
          let query_status = crypto_erase_query device
          in if query_status = CRYPTO_ERASE_NOT_ENCRYPTED then CRYPTO_ERASE_NOT_ENCRYPTED
             else if query_status = CRYPTO_ERASE_UNSUPPORTED then CRYPTO_ERASE_UNSUPPORTED
             else if sd_transport_type dev = TRANSPORT_NVME
                  \<and> cap_supports_crypto_erase (sd_capabilities dev)
             then CRYPTO_ERASE_NOT_IMPLEMENTED
             else if sd_transport_type dev = TRANSPORT_SATA
                  \<and> cap_supports_crypto_erase (sd_capabilities dev)
             then CRYPTO_ERASE_NOT_IMPLEMENTED
             else CRYPTO_ERASE_NOT_IMPLEMENTED)"

definition crypto_erase_synthetic_key ::
    "byte list option \<Rightarrow> nat \<Rightarrow> CryptoEraseStatus \<times> byte list option" where
  "crypto_erase_synthetic_key key_buf key_len =
     (if key_buf = None \<or> key_len = 0 then (CRYPTO_ERASE_FAILED, key_buf)
      else
        let m = key_mgmt_secure_cleanse key_buf key_len
        in if list_ex (\<lambda>b. b \<noteq> 0) (take key_len (the m)) then (CRYPTO_ERASE_FAILED, m)
           else (CRYPTO_ERASE_SUCCESS, m))"


section \<open>Lemmas\<close>

text \<open>
  The contract of the digest library that the file hash relies on: updating with two pieces is
  updating with their concatenation, updating with nothing does nothing.
\<close>

definition evp_incremental :: "'c evp \<Rightarrow> bool" where
  "evp_incremental md \<longleftrightarrow>
     (\<forall>c a b. Option.bind (evp_update md c a) (\<lambda>c'. evp_update md c' b) = evp_update md c (a @ b))
     \<and> (\<forall>c. evp_update md c [] = Some c)"

lemma evp_read_loop_update:
  assumes "evp_incremental md"
  shows "evp_read_loop md ctx data = evp_update md ctx data"
  using assms
proof (induction md ctx data rule: evp_read_loop.induct)
  case (1 md ctx data)
  show ?case
  proof (cases "data = []")
    case True
    with 1(2) show ?thesis by (simp add: evp_read_loop.simps evp_incremental_def)
  next
    case False
    have "evp_update md ctx data = Option.bind (evp_update md ctx (take 65536 data))
        (\<lambda>c'. evp_update md c' (drop 65536 data))"
      using 1(2) by (simp add: evp_incremental_def)
    with False 1 show ?thesis
      by (simp add: evp_read_loop.simps [of md ctx data] split: option.splits)
  qed
qed

text \<open>Reading hexadecimal digits back.\<close>

definition hex_value :: "char \<Rightarrow> nat" where
  "hex_value c = (let n = (of_char c :: nat) in if n < 58 then n - 48 else n - 87)"

fun hex_decode :: "string \<Rightarrow> byte list" where
  "hex_decode (a # b # s) = word_of_nat (16 * hex_value a + hex_value b) # hex_decode s"
| "hex_decode _ = []"

lemma hex_value_digit_char: "d < 16 \<Longrightarrow> hex_value (digit_char d) = d"
  by (auto simp: hex_value_def digit_char_def less_Suc_eq numeral_eq_Suc)

lemma hex_decode_hex2: "hex_decode (hex2 b @ s) = b # hex_decode s"
proof -
  have "unat b < 256" using unsigned_less [of b, where ?'a = nat] by simp
  then have "unat b div 16 < 16" by simp
  then show ?thesis by (simp add: hex2_def hex_value_digit_char mult.commute)
qed

lemma hex_decode_concat: "hex_decode (concat (map hex2 bs)) = bs"
  by (induction bs) (simp_all add: hex_decode_hex2)

lemma hash_digest_to_hex_all:
  "hash_digest_to_hex (Some d) (length d) (Some out) = Some (concat (map hex2 d))"
proof -
  have "map (\<lambda>i. hex2 (d ! i)) [0..<length d] = map hex2 d" by (rule nth_equalityI) simp_all
  then show ?thesis by (simp add: hash_digest_to_hex_def)
qed


section \<open>Properties\<close>

text \<open>
  Hashing a file and hashing a buffer agree: for a digest library whose updates may be split,
  \<open>hash_sha256_file\<close> (and \<open>hash_sha512_file\<close>) on a readable file, read in chunks of 65536
  bytes, gives the code and the digest of \<open>hash_sha256_buffer\<close> on the whole content.
\<close>

theorem hash_file_eq_buffer:
  assumes md: "evp_incremental md" and content: "open_read path = Some (content, False)"
  shows "hash_file md open_read (Some path) (Some out) = hash_buffer md (Some content) (Some out)"
  using content
  by (simp add: hash_file_def hash_buffer_def evp_hash_file_def evp_hash_buffer_def
      evp_read_loop_update [OF md] split: option.split)

text \<open>A digest library for the witnesses: it keeps what it was given and sums the bytes.\<close>

definition demo_evp :: "byte list evp" where
  "demo_evp = \<lparr>evp_ctx_new_ok = True, evp_init = Some [], evp_update = (\<lambda>c d. Some (c @ d)),
     evp_final = (\<lambda>c. Some [fold (+) c 0])\<rparr>"

theorem hash_file_eq_buffer_witness:
  "hash_file demo_evp (\<lambda>_. Some ([1, 2, 3], False)) (Some ''f'') (Some [])
     = (ERASECURE_OK, Some [6])"
proof -
  have "evp_incremental demo_evp" by (simp add: evp_incremental_def demo_evp_def)
  from hash_file_eq_buffer [OF this, of "\<lambda>_. Some ([1, 2, 3], False)" "''f''" "[1, 2, 3]" "[]"]
  show ?thesis by (simp add: hash_buffer_def evp_hash_buffer_def demo_evp_def)
qed

text \<open>
  The hexadecimal form of a digest is faithful: \<open>hash_digest_to_hex\<close> writes two characters
  per byte, all of them lower-case hexadecimal digits, and decoding them gives the digest back, so
  that different digests never share a text.
\<close>

theorem hash_digest_to_hex_roundtrip:
  "\<exists>h. hash_digest_to_hex (Some d) (length d) (Some out) = Some h
    \<and> length h = 2 * length d \<and> set h \<subseteq> set ''0123456789abcdef'' \<and> hex_decode h = d"
proof -
  have "length (concat (map hex2 d)) = 2 * length d" by (induction d) simp_all
  moreover have "set (concat (map hex2 d)) \<subseteq> set ''0123456789abcdef''"
    using hex2_chars by (auto simp del: set_simps)
  ultimately show ?thesis
    unfolding hash_digest_to_hex_all using hex_decode_concat [of d] by blast
qed

text \<open>
  Cryptographic erase never claims success on a device: no call of
  \<open>crypto_erase_execute\<close> answers success, and every device is answered with not encrypted,
  unsupported or not implemented, in agreement with what \<open>crypto_erase_query\<close> reported.
\<close>

theorem crypto_erase_execute_honest:
  "crypto_erase_execute device \<noteq> CRYPTO_ERASE_SUCCESS
   \<and> (device \<noteq> None \<longrightarrow> crypto_erase_execute device =
        (if crypto_erase_query device = CRYPTO_ERASE_SUPPORTED then CRYPTO_ERASE_NOT_IMPLEMENTED
         else crypto_erase_query device))"
  by (auto simp: crypto_erase_execute_def crypto_erase_query_def Let_def split: option.splits)

theorem crypto_erase_execute_honest_witness:
  "crypto_erase_execute (Some device_init) = CRYPTO_ERASE_NOT_ENCRYPTED"
proof -
  have "crypto_erase_query (Some device_init) = CRYPTO_ERASE_NOT_ENCRYPTED"
    by (simp add: crypto_erase_query_def device_init_def no_capabilities_def)
  with crypto_erase_execute_honest [of "Some device_init"] show ?thesis by simp
qed

text \<open>
  Encrypted volumes are recognised by their header: for a device without encryption flags
  \<open>key_mgmt_query_device\<close> reports encryption exactly when the path is not empty, can be read, and
  its content begins with the six magic bytes of LUKS followed by at least two more.
\<close>

theorem key_mgmt_query_device_luks:
  assumes flags: "\<not> cap_supports_crypto_erase (sd_capabilities dev)"
    "\<not> cap_is_self_encrypting (sd_capabilities dev)"
    "sd_encryption_status dev \<noteq> ENCRYPTION_STATUS_ENCRYPTED"
  shows "key_mgmt_query_device open_read (Some dev) = KEY_MGMT_SED_DETECTED \<longleftrightarrow>
    sd_path dev \<noteq> [] \<and> (\<exists>content. open_read (sd_path dev) = Some content
      \<and> prefix luks_magic content \<and> 8 \<le> length content)"
proof -
  have len: "length luks_magic = 6" by (simp add: luks_magic_def)
  have "take 6 (take 16 content) = luks_magic \<longleftrightarrow> prefix luks_magic content" for content
    using mem_eq_prefix [of content 0 luks_magic] len by (simp add: mem_eq_def)
  then have "luks_type (take 16 content) \<noteq> ENCRYPTED_VOL_NONE \<longleftrightarrow> prefix luks_magic content" for content
    by (simp add: luks_type_def Let_def)
  then show ?thesis
    using flags
    by (auto simp: key_mgmt_query_device_def key_mgmt_detect_luks_def Let_def not_less
        split: option.splits)
qed

theorem key_mgmt_query_device_luks_witness:
  "key_mgmt_query_device (\<lambda>_. Some (luks_magic @ [0, 2, 9])) (Some (device_init\<lparr>sd_path := ''/dev/sdb''\<rparr>))
     = KEY_MGMT_SED_DETECTED"
  using key_mgmt_query_device_luks [of "device_init\<lparr>sd_path := ''/dev/sdb''\<rparr>"
      "\<lambda>_. Some (luks_magic @ [0, 2, 9])"]
  by (simp add: device_init_def no_capabilities_def luks_magic_def)

end
