(* ===== verification/Sanitizer.thy ===== *)
theory Sanitizer
  imports Device_Erase Crypto
begin

text \<open>
  The sanitization dispatcher and the modules it routes to: \<open>src/sanitization/sanitizer.c\<close>,
  \<open>src/hdd/hdd_sanitizer.c\<close>, \<open>src/ssd/ssd_sanitizer.c\<close> and
  \<open>src/portable/portable_sanitizer.c\<close>. Every operation is given the system's answers for erasing
  and for reading back, and returns its code, \<open>*result\<close> and the file system. Times are left out.
\<close>

section \<open>Data\<close>

record SanitizationOptions =
  so_method :: SanitizationMethod
  so_block_erase :: BlockEraseOptions
  so_test_mode :: bool
  so_progress_cb :: bool

record SanitizationResult =
  sr_method_used :: SanitizationMethod
  sr_block_result :: BlockEraseResult
  sr_crypto_status :: CryptoEraseStatus
  sr_verify_result :: VerificationResult
  sr_result_code :: ErasecureError
  sr_error_message :: string

text \<open>\<open>memset(result, 0, sizeof(*result))\<close>\<close>

definition zero_sanitization_result :: SanitizationResult where
  "zero_sanitization_result =
     \<lparr>sr_method_used = SANITIZE_METHOD_NONE,
      sr_block_result = fresh_erase_result\<lparr>ber_result_code := ERASECURE_OK\<rparr>,
      sr_crypto_status = CRYPTO_ERASE_SUPPORTED,
      sr_verify_result = fresh_verification\<lparr>vr_result_code := ERASECURE_OK\<rparr>,
      sr_result_code = ERASECURE_OK, sr_error_message = []\<rparr>"

definition sanitizer_options_init :: SanitizationOptions where
  "sanitizer_options_init =
     \<lparr>so_method = SANITIZE_METHOD_BLOCK_ERASE, so_block_erase = block_erase_options_init,
      so_test_mode = True, so_progress_cb = False\<rparr>"

record san_env =
  sn_erase :: erase_env
  sn_verify :: verify_env

type_synonym san_outcome = "ErasecureError \<times> SanitizationResult \<times> filesys"

text \<open>
  What a call leaves: code, \<open>*result\<close> (\<open>None\<close> for a NULL pointer) and file system. The
  handlers of a method work on a result that is there.
\<close>

type_synonym san_call = "(ErasecureError \<times> SanitizationResult option \<times> filesys) option"

definition lift_outcome :: "san_outcome option \<Rightarrow> san_call" where
  "lift_outcome = map_option (\<lambda>(ret, r, fs'). (ret, Some r, fs'))"

text \<open>\<open>if (!device || !opts || !result) return ERASECURE_ERR_INVALID_ARG;\<close>\<close>

fun with_args ::
    "filesys \<Rightarrow> StorageDevice option \<Rightarrow> SanitizationOptions option \<Rightarrow> SanitizationResult option
     \<Rightarrow> (StorageDevice \<Rightarrow> SanitizationOptions \<Rightarrow> SanitizationResult \<Rightarrow> san_call) \<Rightarrow> san_call" where
  "with_args fs (Some dev) (Some opts) (Some res) body = body dev opts res"
| "with_args fs _ _ result body = Some (ERASECURE_ERR_INVALID_ARG, result, fs)"

section \<open>Steps the modules share\<close>

text \<open>\<open>be_opts = opts->block_erase\<close> with the caller's progress callback.\<close>

definition module_options :: "SanitizationOptions \<Rightarrow> BlockEraseOptions" where
  "module_options opts = (so_block_erase opts)\<lparr>beo_progress_cb := so_progress_cb opts\<rparr>"

text \<open>\<open>ret = block_erase_device(device, &be_opts, device->path, ...); result->result_code = ret;\<close>\<close>

definition erase_device_step ::
    "san_env \<Rightarrow> filesys \<Rightarrow> StorageDevice \<Rightarrow> SanitizationOptions \<Rightarrow> SanitizationResult
     \<Rightarrow> san_outcome option" where
  "erase_device_step env fs dev opts res =
     (case block_erase_device (sn_erase env) fs (Some dev) (Some (module_options opts))
             (Some (sd_path dev)) (Some (sr_block_result res)) of
        None \<Rightarrow> None
      | Some (ret, br, fs', _) \<Rightarrow>
          Some (ret, res\<lparr>sr_block_result := the_default (sr_block_result res) br,
                         sr_result_code := ret\<rparr>, fs'))"

text \<open>\<open>ret = block_erase_image(device->path, &be_opts, ...); result->result_code = ret;\<close>\<close>

definition erase_image_step ::
    "san_env \<Rightarrow> filesys \<Rightarrow> StorageDevice \<Rightarrow> BlockEraseOptions \<Rightarrow> SanitizationResult
     \<Rightarrow> san_outcome option" where
  "erase_image_step env fs dev be_opts res =
     (case block_erase_image (sn_erase env) fs (Some (sd_path dev)) (Some be_opts)
             (Some (sr_block_result res)) of
        None \<Rightarrow> None
      | Some (ret, br, fs', _) \<Rightarrow>
          Some (ret, res\<lparr>sr_block_result := the_default (sr_block_result res) br,
                         sr_result_code := ret\<rparr>, fs'))"

text \<open>The optional readback after a successful image erase.\<close>

definition verify_step ::
    "san_env \<Rightarrow> StorageDevice \<Rightarrow> BlockEraseOptions \<Rightarrow> san_outcome \<Rightarrow> san_outcome" where
  "verify_step env dev be_opts out =
     (case out of (ret, res, fs) \<Rightarrow>
        if ret = ERASECURE_OK \<and> beo_verify_mode be_opts \<noteq> VERIFY_NONE
        then (ret, res\<lparr>sr_verify_result := the_default (sr_verify_result res)
                (snd (verify_image_pattern (sn_verify env) fs (Some (sd_path dev))
                        (beo_pattern be_opts) (beo_block_size be_opts) (beo_verify_mode be_opts)
                        (Some (sr_verify_result res))))\<rparr>, fs)
        else (ret, res, fs))"

definition crypto_step :: "filesys \<Rightarrow> StorageDevice \<Rightarrow> SanitizationResult \<Rightarrow> san_outcome" where
  "crypto_step fs dev res =
     (let status = crypto_erase_execute (Some dev);
          code = (if status = CRYPTO_ERASE_SUCCESS then ERASECURE_OK else ERASECURE_ERR_NOT_IMPLEMENTED)
      in (code, res\<lparr>sr_crypto_status := status, sr_result_code := code\<rparr>, fs))"

definition refuse ::
    "ErasecureError \<Rightarrow> string \<Rightarrow> filesys \<Rightarrow> SanitizationResult \<Rightarrow> san_outcome" where
  "refuse e msg fs res = (e, res\<lparr>sr_result_code := e, sr_error_message := cstr 256 msg\<rparr>, fs)"

definition note_confidence :: "string \<Rightarrow> san_outcome \<Rightarrow> san_outcome" where
  "note_confidence msg out =
     (case out of (ret, res, fs) \<Rightarrow>
        (ret, res\<lparr>sr_verify_result := (sr_verify_result res)\<lparr>vr_confidence_note := cstr 256 msg\<rparr>\<rparr>, fs))"

definition note_error :: "string \<Rightarrow> san_outcome \<Rightarrow> san_outcome" where
  "note_error msg out = (case out of (ret, res, fs) \<Rightarrow> (ret, res\<lparr>sr_error_message := cstr 256 msg\<rparr>, fs))"

section \<open>Hard disks\<close>

datatype HddSanitizeStatus =
    HDD_SANITIZE_SUCCESS | HDD_SANITIZE_UNSUPPORTED | HDD_SANITIZE_NOT_IMPLEMENTED
  | HDD_SANITIZE_FAILED | HDD_SANITIZE_DEVICE_ERROR | HDD_SANITIZE_SAFETY_BLOCKED

fun hdd_sanitize_status_str :: "HddSanitizeStatus \<Rightarrow> string" where
  "hdd_sanitize_status_str HDD_SANITIZE_SUCCESS = ''Success''"
| "hdd_sanitize_status_str HDD_SANITIZE_UNSUPPORTED = ''Unsupported''"
| "hdd_sanitize_status_str HDD_SANITIZE_NOT_IMPLEMENTED = ''Not implemented''"
| "hdd_sanitize_status_str HDD_SANITIZE_FAILED = ''Failed''"
| "hdd_sanitize_status_str HDD_SANITIZE_DEVICE_ERROR = ''Device error''"
| "hdd_sanitize_status_str HDD_SANITIZE_SAFETY_BLOCKED = ''Safety blocked''"

definition hdd_can_handle :: "StorageDevice option \<Rightarrow> bool" where
  "hdd_can_handle device =
     (case device of None \<Rightarrow> False
      | Some dev \<Rightarrow> sd_device_type dev = DEVICE_TYPE_HDD \<or> sd_device_type dev = DEVICE_TYPE_USB_HDD)"

definition hdd_supports_method :: "StorageDevice option \<Rightarrow> SanitizationMethod \<Rightarrow> bool" where
  "hdd_supports_method device method =
     (case device of None \<Rightarrow> False
      | Some dev \<Rightarrow>
          (case method of
             SANITIZE_METHOD_BLOCK_ERASE \<Rightarrow> \<not> sd_is_read_only dev
           | SANITIZE_METHOD_CRYPTO_ERASE \<Rightarrow> cap_supports_crypto_erase (sd_capabilities dev)
           | SANITIZE_METHOD_DEVICE_NATIVE \<Rightarrow> False
           | SANITIZE_METHOD_NONE \<Rightarrow> False))"

definition hdd_dispatch ::
    "san_env \<Rightarrow> filesys \<Rightarrow> StorageDevice \<Rightarrow> SanitizationOptions \<Rightarrow> SanitizationResult
     \<Rightarrow> san_outcome option" where
  "hdd_dispatch env fs dev opts result =
     (let res = result\<lparr>sr_method_used := so_method opts\<rparr>; be_opts = module_options opts
      in case so_method opts of
           SANITIZE_METHOD_BLOCK_ERASE \<Rightarrow>
             if \<not> so_test_mode opts
             then map_option
                    (\<lambda>(ret, r, fs'). (ret, if ret \<noteq> ERASECURE_OK
                       then r\<lparr>sr_error_message := cstr 256 (ber_error_message (sr_block_result r))\<rparr>
                       else r, fs'))
                    (erase_device_step env fs dev opts res)
             else map_option (verify_step env dev be_opts) (erase_image_step env fs dev be_opts res)
         | SANITIZE_METHOD_DEVICE_NATIVE \<Rightarrow>
             Some (refuse ERASECURE_ERR_NOT_IMPLEMENTED ''ATA Secure Erase not implemented.'' fs res)
         | SANITIZE_METHOD_CRYPTO_ERASE \<Rightarrow> Some (crypto_step fs dev res)
         | SANITIZE_METHOD_NONE \<Rightarrow>
             Some (ERASECURE_ERR_UNSUPPORTED, res\<lparr>sr_result_code := ERASECURE_ERR_UNSUPPORTED\<rparr>, fs))"

definition hdd_sanitize ::
    "san_env \<Rightarrow> filesys \<Rightarrow> StorageDevice option \<Rightarrow> SanitizationOptions option
     \<Rightarrow> SanitizationResult option \<Rightarrow> san_call" where
  "hdd_sanitize env fs device opts result =
     with_args fs device opts result
       (\<lambda>dev opts res. lift_outcome (hdd_dispatch env fs dev opts res))"

section \<open>Solid-state disks\<close>

datatype SsdSanitizeStatus =
    SSD_SANITIZE_SUCCESS | SSD_SANITIZE_UNSUPPORTED | SSD_SANITIZE_NOT_IMPLEMENTED
  | SSD_SANITIZE_FAILED | SSD_SANITIZE_DEVICE_ERROR | SSD_SANITIZE_LOGICAL_ONLY_WARN

fun ssd_sanitize_status_str :: "SsdSanitizeStatus \<Rightarrow> string" where
  "ssd_sanitize_status_str SSD_SANITIZE_SUCCESS = ''Success''"
| "ssd_sanitize_status_str SSD_SANITIZE_UNSUPPORTED = ''Unsupported''"
| "ssd_sanitize_status_str SSD_SANITIZE_NOT_IMPLEMENTED = ''Not implemented''"
| "ssd_sanitize_status_str SSD_SANITIZE_FAILED = ''Failed''"
| "ssd_sanitize_status_str SSD_SANITIZE_DEVICE_ERROR = ''Device error''"
| "ssd_sanitize_status_str SSD_SANITIZE_LOGICAL_ONLY_WARN =
     ''Logical overwrite only (NAND not guaranteed)''"

definition ssd_can_handle :: "StorageDevice option \<Rightarrow> bool" where
  "ssd_can_handle device =
     (case device of None \<Rightarrow> False
      | Some dev \<Rightarrow>
          sd_device_type dev = DEVICE_TYPE_SATA_SSD \<or> sd_device_type dev = DEVICE_TYPE_NVME_SSD)"

definition ssd_supports_method :: "StorageDevice option \<Rightarrow> SanitizationMethod \<Rightarrow> bool" where
  "ssd_supports_method device method =
     (case device of None \<Rightarrow> False
      | Some dev \<Rightarrow>
          (case method of
             SANITIZE_METHOD_BLOCK_ERASE \<Rightarrow> \<not> sd_is_read_only dev
           | SANITIZE_METHOD_CRYPTO_ERASE \<Rightarrow> cap_supports_crypto_erase (sd_capabilities dev)
           | SANITIZE_METHOD_DEVICE_NATIVE \<Rightarrow> cap_supports_device_native (sd_capabilities dev)
           | SANITIZE_METHOD_NONE \<Rightarrow> False))"

definition ssd_caveat :: string where
  "ssd_caveat = ''CAVEAT: Logical block overwrite completed, but cannot guarantee '' @
     ''physical NAND erasure due to SSD Flash Translation Layer (FTL) '' @
     ''and wear-leveling remaps.''"

definition ssd_image_note :: string where
  "ssd_image_note = ''SSD: test-image logical overwrite complete. '' @
     ''NAND physical erasure NOT confirmed by this method.''"

definition ssd_dispatch ::
    "san_env \<Rightarrow> filesys \<Rightarrow> StorageDevice \<Rightarrow> SanitizationOptions \<Rightarrow> SanitizationResult
     \<Rightarrow> san_outcome option" where
  "ssd_dispatch env fs dev opts result =
     (let res = result\<lparr>sr_method_used := so_method opts\<rparr>; be_opts = module_options opts
      in case so_method opts of
           SANITIZE_METHOD_BLOCK_ERASE \<Rightarrow>
             if \<not> so_test_mode opts
             then map_option (note_confidence ssd_caveat) (erase_device_step env fs dev opts res)
             else map_option (verify_step env dev be_opts \<circ> note_error ssd_image_note)
                    (erase_image_step env fs dev be_opts res)
         | SANITIZE_METHOD_DEVICE_NATIVE \<Rightarrow>
             Some (refuse ERASECURE_ERR_NOT_IMPLEMENTED
                     (if sd_device_type dev = DEVICE_TYPE_NVME_SSD
                      then ''NVMe Sanitize / Format NVM not implemented.''
                      else ''SATA ATA Sanitize not implemented.'') fs res)
         | SANITIZE_METHOD_CRYPTO_ERASE \<Rightarrow> Some (crypto_step fs dev res)
         | SANITIZE_METHOD_NONE \<Rightarrow>
             Some (ERASECURE_ERR_UNSUPPORTED, res\<lparr>sr_result_code := ERASECURE_ERR_UNSUPPORTED\<rparr>, fs))"

definition ssd_sanitize ::
    "san_env \<Rightarrow> filesys \<Rightarrow> StorageDevice option \<Rightarrow> SanitizationOptions option
     \<Rightarrow> SanitizationResult option \<Rightarrow> san_call" where
  "ssd_sanitize env fs device opts result =
     with_args fs device opts result
       (\<lambda>dev opts res. lift_outcome (ssd_dispatch env fs dev opts res))"

section \<open>Portable storage\<close>

definition portable_can_handle :: "StorageDevice option \<Rightarrow> bool" where
  "portable_can_handle device =
     (case device of None \<Rightarrow> False
      | Some dev \<Rightarrow>
          (case sd_device_type dev of
             DEVICE_TYPE_USB_HDD \<Rightarrow> True | DEVICE_TYPE_USB_SSD \<Rightarrow> True
           | DEVICE_TYPE_USB_FLASH \<Rightarrow> True | DEVICE_TYPE_SD_CARD \<Rightarrow> True | _ \<Rightarrow> False))"

definition portable_supports_method :: "StorageDevice option \<Rightarrow> SanitizationMethod \<Rightarrow> bool" where
  "portable_supports_method device method =
     (case device of None \<Rightarrow> False
      | Some dev \<Rightarrow>
          if method = SANITIZE_METHOD_BLOCK_ERASE then \<not> sd_is_read_only dev else False)"

definition flash_caveat :: string where
  "flash_caveat = ''CAVEAT: Logical block overwrite on USB Flash/SD card '' @
     ''cannot guarantee physical NAND erasure.''"

definition portable_flash ::
    "san_env \<Rightarrow> filesys \<Rightarrow> StorageDevice \<Rightarrow> SanitizationOptions \<Rightarrow> SanitizationResult
     \<Rightarrow> san_outcome option" where
  "portable_flash env fs dev opts res =
     (if so_method opts \<noteq> SANITIZE_METHOD_BLOCK_ERASE
      then Some (refuse ERASECURE_ERR_UNSUPPORTED
                   ''Only block erase is supported for USB Flash / SD cards.'' fs res)
      else if \<not> so_test_mode opts
      then map_option (note_confidence flash_caveat) (erase_device_step env fs dev opts res)
      else map_option (verify_step env dev (module_options opts))
             (erase_image_step env fs dev (module_options opts) res))"

definition portable_sanitize ::
    "san_env \<Rightarrow> filesys \<Rightarrow> StorageDevice option \<Rightarrow> SanitizationOptions option
     \<Rightarrow> SanitizationResult option \<Rightarrow> san_call" where
  "portable_sanitize env fs device opts result =
     with_args fs device opts result
       (\<lambda>dev opts' r.
         let res = r\<lparr>sr_method_used := so_method opts'\<rparr>
         in case sd_device_type dev of
              DEVICE_TYPE_USB_HDD \<Rightarrow> hdd_sanitize env fs device opts (Some res)
            | DEVICE_TYPE_USB_SSD \<Rightarrow> ssd_sanitize env fs device opts (Some res)
            | DEVICE_TYPE_USB_FLASH \<Rightarrow> lift_outcome (portable_flash env fs dev opts' res)
            | DEVICE_TYPE_SD_CARD \<Rightarrow> lift_outcome (portable_flash env fs dev opts' res)
            | _ \<Rightarrow> Some (ERASECURE_ERR_UNSUPPORTED,
                        Some (res\<lparr>sr_result_code := ERASECURE_ERR_UNSUPPORTED\<rparr>), fs))"

section \<open>The dispatcher\<close>

definition sanitizer_supports_method :: "StorageDevice option \<Rightarrow> SanitizationMethod \<Rightarrow> bool" where
  "sanitizer_supports_method device method =
     (case device of None \<Rightarrow> False
      | Some dev \<Rightarrow>
          (case method of
             SANITIZE_METHOD_BLOCK_ERASE \<Rightarrow> cap_supports_block_erase (sd_capabilities dev)
           | SANITIZE_METHOD_CRYPTO_ERASE \<Rightarrow> cap_supports_crypto_erase (sd_capabilities dev)
           | SANITIZE_METHOD_DEVICE_NATIVE \<Rightarrow> cap_supports_device_native (sd_capabilities dev)
           | SANITIZE_METHOD_NONE \<Rightarrow> False))"

definition sanitizer_run ::
    "san_env \<Rightarrow> filesys \<Rightarrow> StorageDevice option \<Rightarrow> SanitizationOptions option
     \<Rightarrow> SanitizationResult option \<Rightarrow> san_call" where
  "sanitizer_run env fs device opts result =
     with_args fs device opts result
       (\<lambda>dev opts' r.
         let res = zero_sanitization_result\<lparr>sr_result_code := ERASECURE_ERR_GENERIC,
                                            sr_method_used := so_method opts'\<rparr>
         in if hdd_can_handle device then hdd_sanitize env fs device opts (Some res)
            else if ssd_can_handle device then ssd_sanitize env fs device opts (Some res)
            else if portable_can_handle device then portable_sanitize env fs device opts (Some res)
            else if so_test_mode opts' \<and> so_method opts' = SANITIZE_METHOD_BLOCK_ERASE
            then lift_outcome (erase_image_step env fs dev (so_block_erase opts') res)
            else Some (ERASECURE_ERR_UNSUPPORTED,
                       Some (res\<lparr>sr_result_code := ERASECURE_ERR_UNSUPPORTED\<rparr>), fs))"

section \<open>What the steps do to the file system\<close>

text \<open>
  The outcomes of the dispatcher: an image erase, a device erase or a refusal. \<open>fate\<close> relates the
  file systems and the code.
\<close>

definition image_fate :: "san_env \<Rightarrow> filesys \<Rightarrow> string \<Rightarrow> ErasecureError \<Rightarrow> filesys \<Rightarrow> bool" where
  "image_fate env fs path ret fs' \<longleftrightarrow>
     (\<exists>opts r res prog. block_erase_image (sn_erase env) fs (Some path) (Some opts) (Some r)
        = Some (ret, res, fs', prog))"

definition device_fate :: "san_env \<Rightarrow> filesys \<Rightarrow> StorageDevice \<Rightarrow> ErasecureError \<Rightarrow> filesys \<Rightarrow> bool" where
  "device_fate env fs dev ret fs' \<longleftrightarrow>
     (\<exists>opts r res prog. block_erase_device (sn_erase env) fs (Some dev) (Some opts)
        (Some (sd_path dev)) (Some r) = Some (ret, res, fs', prog))"

definition fate :: "san_env \<Rightarrow> filesys \<Rightarrow> StorageDevice \<Rightarrow> SanitizationOptions \<Rightarrow> ErasecureError
    \<Rightarrow> filesys \<Rightarrow> bool" where
  "fate env fs dev opts ret fs' \<longleftrightarrow>
     (if so_method opts \<noteq> SANITIZE_METHOD_BLOCK_ERASE then ret \<noteq> ERASECURE_OK \<and> fs' = fs
      else if so_test_mode opts then image_fate env fs (sd_path dev) ret fs'
      else device_fate env fs dev ret fs' \<or> ret = ERASECURE_ERR_UNSUPPORTED \<and> fs' = fs)"

lemma erase_image_step_fate:
  "erase_image_step env fs dev be res = Some (ret, r, fs') \<Longrightarrow>
   image_fate env fs (sd_path dev) ret fs' \<and> sr_result_code r = ret"
  by (auto simp: erase_image_step_def image_fate_def split: option.splits)

lemma erase_device_step_fate:
  "erase_device_step env fs dev opts res = Some (ret, r, fs') \<Longrightarrow>
   device_fate env fs dev ret fs' \<and> sr_result_code r = ret"
  by (auto simp: erase_device_step_def device_fate_def split: option.splits)

lemma verify_step_fate:
  "verify_step env dev be out = (ret, r, fs') \<Longrightarrow>
   \<exists>r0. out = (ret, r0, fs') \<and> sr_result_code r = sr_result_code r0"
  by (auto simp: verify_step_def split: prod.splits if_splits)

lemma crypto_step_fate:
  "crypto_step fs dev res = (ret, r, fs') \<Longrightarrow> ret \<noteq> ERASECURE_OK \<and> fs' = fs \<and> sr_result_code r = ret"
  by (auto simp: crypto_step_def Let_def crypto_erase_execute_def split: if_splits)

lemma hdd_dispatch_fate:
  "hdd_dispatch env fs dev opts res = Some (ret, r, fs') \<Longrightarrow>
   fate env fs dev opts ret fs' \<and> sr_result_code r = ret"
  by (cases "so_method opts")
    (auto simp: hdd_dispatch_def Let_def fate_def refuse_def split: if_splits
      dest!: erase_image_step_fate erase_device_step_fate verify_step_fate crypto_step_fate)

lemma ssd_dispatch_fate:
  "ssd_dispatch env fs dev opts res = Some (ret, r, fs') \<Longrightarrow>
   fate env fs dev opts ret fs' \<and> sr_result_code r = ret"
  by (cases "so_method opts")
    (auto simp: ssd_dispatch_def Let_def fate_def refuse_def note_confidence_def note_error_def
      split: if_splits
      dest!: erase_image_step_fate erase_device_step_fate verify_step_fate crypto_step_fate)

lemma portable_flash_fate:
  "portable_flash env fs dev opts res = Some (ret, r, fs') \<Longrightarrow>
   fate env fs dev opts ret fs' \<and> sr_result_code r = ret"
  by (auto simp: portable_flash_def fate_def refuse_def note_confidence_def split: if_splits
      dest!: erase_image_step_fate erase_device_step_fate verify_step_fate)

lemma lift_outcome_Some:
  "lift_outcome x = Some (ret, r, fs') \<longleftrightarrow> (\<exists>r'. r = Some r' \<and> x = Some (ret, r', fs'))"
  by (auto simp: lift_outcome_def)

lemma fate_refused:
  "\<not> (so_test_mode opts \<and> so_method opts = SANITIZE_METHOD_BLOCK_ERASE) \<Longrightarrow>
   fate env fs dev opts ERASECURE_ERR_UNSUPPORTED fs"
  by (auto simp: fate_def)

lemma fate_image:
  "image_fate env fs (sd_path dev) ret fs' \<Longrightarrow> so_test_mode opts \<Longrightarrow>
   so_method opts = SANITIZE_METHOD_BLOCK_ERASE \<Longrightarrow> fate env fs dev opts ret fs'"
  by (simp add: fate_def)

lemma sanitizer_run_fate:
  assumes "sanitizer_run env fs (Some dev) (Some opts) (Some r) = Some (ret, res, fs')"
  shows "fate env fs dev opts ret fs' \<and> map_option sr_result_code res = Some ret"
  using assms
  by (auto simp: sanitizer_run_def Let_def hdd_sanitize_def ssd_sanitize_def portable_sanitize_def
      portable_can_handle_def lift_outcome_Some fate_refused split: if_splits DeviceType.splits
      dest!: hdd_dispatch_fate ssd_dispatch_fate portable_flash_fate erase_image_step_fate
      intro: fate_image)

lemma sanitizer_run_hdd_image:
  assumes "sd_device_type dev = DEVICE_TYPE_HDD" and "so_test_mode opts"
    and "so_method opts = SANITIZE_METHOD_BLOCK_ERASE"
  shows "\<exists>res. sanitizer_run env fs (Some dev) (Some opts) (Some r) = lift_outcome
    (map_option (verify_step env dev (module_options opts))
       (erase_image_step env fs dev (module_options opts) res))"
  using assms
  by (auto simp: sanitizer_run_def Let_def hdd_can_handle_def hdd_sanitize_def hdd_dispatch_def)

text \<open>A device erase through the dispatcher: the modules supply the device\<close>

lemma sanitizer_run_live:
  assumes "sd_device_type dev \<in> {DEVICE_TYPE_HDD, DEVICE_TYPE_USB_HDD, DEVICE_TYPE_SATA_SSD,
      DEVICE_TYPE_NVME_SSD, DEVICE_TYPE_USB_SSD, DEVICE_TYPE_USB_FLASH, DEVICE_TYPE_SD_CARD}"
    and "\<not> so_test_mode opts" and "so_method opts = SANITIZE_METHOD_BLOCK_ERASE"
    and "\<And>br. \<exists>res' prog. block_erase_device (sn_erase env) fs (Some dev) (Some (module_options opts))
        (Some (sd_path dev)) (Some br) = Some (ret, res', fs', prog)"
  shows "\<exists>res. sanitizer_run env fs (Some dev) (Some opts) (Some r) = Some (ret, res, fs')"
proof -
  have step: "\<exists>r'. erase_device_step env fs dev opts res = Some (ret, r', fs')" for res
    using assms(4) [of "sr_block_result res"] by (auto simp: erase_device_step_def)
  have "\<exists>r'. hdd_dispatch env fs dev opts res = Some (ret, r', fs')"
    "\<exists>r'. ssd_dispatch env fs dev opts res = Some (ret, r', fs')"
    "\<exists>r'. portable_flash env fs dev opts res = Some (ret, r', fs')" for res
    using step [of "res\<lparr>sr_method_used := so_method opts\<rparr>"] step [of res] assms(2,3)
    by (auto simp: hdd_dispatch_def ssd_dispatch_def portable_flash_def note_confidence_def)
  then have "\<exists>r'. lift_outcome (hdd_dispatch env fs dev opts res) = Some (ret, r', fs')"
    "\<exists>r'. lift_outcome (ssd_dispatch env fs dev opts res) = Some (ret, r', fs')"
    "\<exists>r'. lift_outcome (portable_flash env fs dev opts res) = Some (ret, r', fs')" for res
    by (simp_all add: lift_outcome_Some)
  then show ?thesis
    using assms(1)
    by (auto simp: sanitizer_run_def Let_def hdd_can_handle_def ssd_can_handle_def
        portable_can_handle_def hdd_sanitize_def ssd_sanitize_def portable_sanitize_def)
qed

section \<open>Properties\<close>

text \<open>The environment and the records of the witnesses.\<close>

definition demo_san_env :: san_env where
  "demo_san_env = \<lparr>sn_erase = demo_device_env, sn_verify = demo_verify_env\<rparr>"

definition demo_image_device :: StorageDevice where
  "demo_image_device = device_init\<lparr>sd_path := ''test.img'', sd_device_type := DEVICE_TYPE_HDD\<rparr>"

definition demo_disk :: StorageDevice where
  "demo_disk = demo_device\<lparr>sd_device_type := DEVICE_TYPE_SATA_SSD\<rparr>"

definition demo_san_opts :: SanitizationOptions where
  "demo_san_opts = sanitizer_options_init\<lparr>so_block_erase :=
     block_erase_options_init\<lparr>beo_verify_mode := VERIFY_FULL\<rparr>\<rparr>"

text \<open>
  C5. Test mode never reaches a disk: whatever the device record, the method and the system's
  answers, a call of \<open>sanitizer_run\<close> with \<open>test_mode\<close> set can only change a regular file whose path
  has no physical-device prefix, namely the path of the device record, and it keeps its length.
\<close>

theorem sanitizer_test_mode_safe:
  assumes call: "sanitizer_run env fs (Some dev) (Some opts) (Some r) = Some (ret, res, fs')"
    and test: "so_test_mode opts"
    and changed: "fs' q \<noteq> fs q"
  shows "q = sd_path dev \<and> (\<forall>pre \<in> set blockdev_prefixes. \<not> prefix pre q)
    \<and> (\<exists>c c'. fs q = Some (Reg c) \<and> fs' q = Some (Reg c') \<and> length c' = length c)"
proof -
  from sanitizer_run_fate [OF call] have "fate env fs dev opts ret fs'" by blast
  with test changed have "image_fate env fs (sd_path dev) ret fs'"
    by (auto simp: fate_def split: if_splits)
  then obtain o' r' res' prog where "block_erase_image (sn_erase env) fs (Some (sd_path dev)) (Some o')
      (Some r') = Some (ret, res', fs', prog)" by (auto simp: image_fate_def)
  from block_erase_image_frame [OF this changed] show ?thesis by blast
qed


lemma demo_not_device: "\<not> device_path_is_block_device True demo_fs (Some (sd_path demo_image_device))"
  using demo_image_is_no_device by (simp add: demo_image_device_def)

lemma cooperative_demo_san_env:
  "cooperative_env (sn_erase demo_san_env)" "cooperative_verify_env (sn_verify demo_san_env)"
  by (simp_all add: cooperative_env_def cooperative_verify_env_def demo_san_env_def
      demo_device_env_def demo_env_def demo_verify_env_def erase_limits)

text \<open>
  Only a block erase can succeed or change anything: for every method other than block erase,
  \<open>sanitizer_run\<close> returns an error and leaves the file system as it was; and the code it returns is
  always the one stored in the result.
\<close>

theorem sanitizer_only_block_erase_succeeds:
  assumes call: "sanitizer_run env fs (Some dev) (Some opts) (Some r) = Some (ret, res, fs')"
  shows "(ret = ERASECURE_OK \<or> fs' \<noteq> fs \<longrightarrow> so_method opts = SANITIZE_METHOD_BLOCK_ERASE)
    \<and> map_option sr_result_code res = Some ret"
  using sanitizer_run_fate [OF call] by (auto simp: fate_def split: if_splits)

theorem sanitizer_only_block_erase_succeeds_witness:
  "\<exists>ret res fs'. sanitizer_run demo_san_env demo_fs (Some demo_disk)
      (Some (demo_san_opts\<lparr>so_method := SANITIZE_METHOD_CRYPTO_ERASE\<rparr>)) (Some zero_sanitization_result)
      = Some (ret, res, fs') \<and> ret \<noteq> ERASECURE_OK \<and> fs' = demo_fs"
proof -
  let ?o = "demo_san_opts\<lparr>so_method := SANITIZE_METHOD_CRYPTO_ERASE\<rparr>"
  have "\<exists>ret res fs'. sanitizer_run demo_san_env demo_fs (Some demo_disk) (Some ?o)
      (Some zero_sanitization_result) = Some (ret, res, fs')"
    by (simp add: sanitizer_run_def Let_def hdd_can_handle_def ssd_can_handle_def demo_disk_def
        ssd_sanitize_def ssd_dispatch_def lift_outcome_def crypto_step_def)
  then obtain ret res fs' where call: "sanitizer_run demo_san_env demo_fs (Some demo_disk) (Some ?o)
      (Some zero_sanitization_result) = Some (ret, res, fs')" by blast
  from sanitizer_only_block_erase_succeeds [OF call] have "ret \<noteq> ERASECURE_OK \<and> fs' = demo_fs" by auto
  with call show ?thesis by blast
qed

text \<open>An image filled with the pattern verifies in full; an erasure on a cooperative system fills it.\<close>

lemma erased_image_verifies:
  assumes env: "cooperative_verify_env venv" and img: "fs path = Some (Reg (replicate n (pattern_value p)))" "0 < n"
    and p: "p \<noteq> ERASE_PATTERN_RANDOM"
  shows "\<exists>v. verify_image_pattern venv fs (Some path) p bs VERIFY_FULL (Some r0) = (ERASECURE_OK, Some v)
    \<and> vr_verification_passed v \<and> vr_result_code v = ERASECURE_OK"
proof -
  let ?img = "replicate n (pattern_value p)"
  have "?img \<noteq> []" using img(2) by simp
  from verify_image_pattern_runs [where fs = fs and path = path, OF env img(1) this p]
  obtain v where v: "verify_image_pattern venv fs (Some path) p bs VERIFY_FULL (Some r0) = (ERASECURE_OK, Some v)" by blast
  have "bad_blocks ?img (clamp_block_size bs) (pattern_value p) [0..<blocks_in (length ?img) (clamp_block_size bs)] = []"
    by (subst bad_blocks_all) simp_all
  with verify_image_pattern_OK [where fs = fs and path = path, OF v img(1) refl refl] v show ?thesis
    by (simp add: sample_step_for_def)
qed

lemma erase_image_step_fills:
  assumes env: "cooperative_env (sn_erase env)" and dev: "\<not> device_path_is_block_device True fs (Some (sd_path dev))"
    and node: "fs (sd_path dev) = Some (Reg content)" "content \<noteq> []" and p: "beo_pattern be \<noteq> ERASE_PATTERN_RANDOM"
    and fits: "length content * clamp_passes (beo_passes be) < 2 ^ 64"
  shows "\<exists>res' fs'. erase_image_step env fs dev be res = Some (ERASECURE_OK, res', fs')
    \<and> fs' (sd_path dev) = Some (Reg (replicate (length content) (pattern_value (beo_pattern be))))"
proof -
  have run: "block_erase_image (sn_erase env) fs (Some (sd_path dev)) (Some be) (Some r')
      = block_erase_image_run (sn_erase env) fs (sd_path dev) content be" for r'
    using env dev node by (simp add: block_erase_image_def cooperative_env_def)
  from block_erase_image_run_cooperative [OF env] obtain br fs' prog where
    out: "block_erase_image_run (sn_erase env) fs (sd_path dev) content be = Some (ERASECURE_OK, br, fs', prog)" by blast
  have "fs' (sd_path dev) = Some (Reg (replicate (length content) (pattern_value (beo_pattern be))))"
    using block_erase_image_run_OK [OF out] fits p
    by (cases "beo_pattern be") (simp_all add: pass_bytes_const pattern_value_def)
  then show ?thesis by (simp add: erase_image_step_def run out)
qed

text \<open>
  C4. Erasing and verifying through the dispatcher agree: for an image of a hard disk in test mode,
  with a constant pattern, full verification and a system that does its part, \<open>sanitizer_run\<close>
  returns \<open>ERASECURE_OK\<close>, the image holds the pattern in every byte, and the embedded verification
  result reports that the readback passed.
\<close>

theorem sanitizer_image_erase_verified:
  assumes env: "cooperative_env (sn_erase env)" "cooperative_verify_env (sn_verify env)"
    and dev: "sd_device_type dev = DEVICE_TYPE_HDD"
      "\<not> device_path_is_block_device True fs (Some (sd_path dev))"
    and node: "fs (sd_path dev) = Some (Reg content)" "content \<noteq> []"
    and opts: "so_method opts = SANITIZE_METHOD_BLOCK_ERASE" "so_test_mode opts"
      "beo_pattern (so_block_erase opts) \<noteq> ERASE_PATTERN_RANDOM"
      "beo_verify_mode (so_block_erase opts) = VERIFY_FULL"
    and fits: "length content * clamp_passes (beo_passes (so_block_erase opts)) < 2 ^ 64"
  shows "\<exists>res fs'. sanitizer_run env fs (Some dev) (Some opts) (Some r) = Some (ERASECURE_OK, Some res, fs')
    \<and> fs' (sd_path dev) = Some (Reg (replicate (length content)
          (pattern_value (beo_pattern (so_block_erase opts)))))
    \<and> vr_verification_passed (sr_verify_result res)
    \<and> vr_result_code (sr_verify_result res) = ERASECURE_OK"
proof -
  let ?be = "module_options opts"
  have be: "beo_pattern ?be \<noteq> ERASE_PATTERN_RANDOM" "beo_verify_mode ?be = VERIFY_FULL"
    "beo_pattern ?be = beo_pattern (so_block_erase opts)" "beo_passes ?be = beo_passes (so_block_erase opts)"
    using opts by (simp_all add: module_options_def)
  obtain res where res: "sanitizer_run env fs (Some dev) (Some opts) (Some r) = lift_outcome
      (map_option (verify_step env dev ?be) (erase_image_step env fs dev ?be res))"
    using sanitizer_run_hdd_image [OF dev(1) opts(2,1)] by blast
  obtain res1 fs' where step: "erase_image_step env fs dev ?be res = Some (ERASECURE_OK, res1, fs')"
    and erased: "fs' (sd_path dev) = Some (Reg (replicate (length content) (pattern_value (beo_pattern ?be))))"
    using erase_image_step_fills [OF env(1) dev(2) node be(1), of res] fits be(4) by auto
  have "0 < length content" using node(2) by simp
  from erased_image_verifies [where fs = fs' and path = "sd_path dev", OF env(2) erased this be(1), of "beo_block_size ?be"]
  obtain v where v: "verify_image_pattern (sn_verify env) fs' (Some (sd_path dev)) (beo_pattern ?be) (beo_block_size ?be)
      VERIFY_FULL (Some (sr_verify_result res1)) = (ERASECURE_OK, Some v)"
    "vr_verification_passed v" "vr_result_code v = ERASECURE_OK" by blast
  with res step erased be show ?thesis by (simp add: lift_outcome_def verify_step_def)
qed

lemma demo_san_opts_simps:
  "so_method demo_san_opts = SANITIZE_METHOD_BLOCK_ERASE" "so_test_mode demo_san_opts"
  "beo_pattern (so_block_erase demo_san_opts) = ERASE_PATTERN_ZERO"
  "beo_verify_mode (so_block_erase demo_san_opts) = VERIFY_FULL"
  "clamp_passes (beo_passes (so_block_erase demo_san_opts)) = 1"
  by (simp_all add: demo_san_opts_def sanitizer_options_init_def block_erase_options_init_def
      clamp_passes_def erase_limits)

lemma demo_image_type: "sd_device_type demo_image_device = DEVICE_TYPE_HDD"
  by (simp add: demo_image_device_def)

theorem sanitizer_image_erase_verified_witness:
  "\<exists>res fs'. sanitizer_run demo_san_env demo_fs (Some demo_image_device) (Some demo_san_opts)
      (Some zero_sanitization_result) = Some (ERASECURE_OK, Some res, fs')
    \<and> fs' ''test.img'' = Some (Reg [0, 0, 0]) \<and> vr_verification_passed (sr_verify_result res)"
  using sanitizer_image_erase_verified [OF cooperative_demo_san_env, of demo_image_device demo_fs
      "[1, 2, 3]" demo_san_opts zero_sanitization_result] demo_not_device
  by (simp add: demo_san_opts_simps demo_image_device_def demo_fs_def pattern_value_def
      numeral_3_eq_3) blast

theorem sanitizer_test_mode_safe_witness:
  "\<exists>ret res fs'. sanitizer_run demo_san_env demo_fs (Some demo_image_device) (Some demo_san_opts)
      (Some zero_sanitization_result) = Some (ret, res, fs') \<and> fs' ''/dev/sda'' = demo_fs ''/dev/sda''"
proof -
  have "erase_image_step demo_san_env demo_fs demo_image_device (module_options demo_san_opts) res \<noteq> None"
    for res
    using block_erase_image_run_cooperative [OF cooperative_demo_san_env(1)] demo_not_device
      cooperative_demo_san_env(1)
    by (fastforce simp: erase_image_step_def block_erase_image_def cooperative_env_def
        demo_image_device_def demo_fs_def split: option.splits)
  moreover obtain res0 where "sanitizer_run demo_san_env demo_fs (Some demo_image_device)
      (Some demo_san_opts) (Some zero_sanitization_result) = lift_outcome
        (map_option (verify_step demo_san_env demo_image_device (module_options demo_san_opts))
          (erase_image_step demo_san_env demo_fs demo_image_device (module_options demo_san_opts) res0))"
    using sanitizer_run_hdd_image [OF demo_image_type demo_san_opts_simps(2,1)] by blast
  ultimately have "sanitizer_run demo_san_env demo_fs (Some demo_image_device) (Some demo_san_opts)
      (Some zero_sanitization_result) \<noteq> None" by (simp add: lift_outcome_def del: not_None_eq)
  then obtain ret res fs' where
    call: "sanitizer_run demo_san_env demo_fs (Some demo_image_device) (Some demo_san_opts)
      (Some zero_sanitization_result) = Some (ret, res, fs')" by auto
  have "fs' ''/dev/sda'' = demo_fs ''/dev/sda''"
    using sanitizer_test_mode_safe [OF call demo_san_opts_simps(2), of "''/dev/sda''"]
    by (auto simp: demo_image_device_def)
  with call show ?thesis by blast
qed

text \<open>
  C6. A live erase is guarded: outside test mode, if \<open>sanitizer_run\<close> succeeds or changes the file
  system, then the path of the device record was recognised as a block device, the record does not
  say read-only, no partition of it was found mounted, and nothing but that path changed.
\<close>

theorem sanitizer_live_guarded:
  assumes call: "sanitizer_run env fs (Some dev) (Some opts) (Some r) = Some (ret, res, fs')"
    and live: "\<not> so_test_mode opts"
    and effect: "ret = ERASECURE_OK \<or> fs' \<noteq> fs"
  shows "device_path_is_block_device (env_stat_ok (sn_erase env)) fs (Some (sd_path dev))
    \<and> \<not> sd_is_read_only dev
    \<and> device_is_mounted (env_text (sn_erase env)) (Some (sd_path dev)) (Some False)
        \<noteq> (ERASECURE_OK, Some True)
    \<and> (\<forall>q. q \<noteq> sd_path dev \<longrightarrow> fs' q = fs q)"
proof -
  from sanitizer_run_fate [OF call] live effect have "device_fate env fs dev ret fs'"
    by (auto simp: fate_def split: if_splits)
  then obtain o' r' res' prog where "block_erase_device (sn_erase env) fs (Some dev) (Some o')
      (Some (sd_path dev)) (Some r') = Some (ret, res', fs', prog)" by (auto simp: device_fate_def)
  from block_erase_device_effect [OF this effect] show ?thesis by blast
qed

text \<open>
  The confirmation token protects nothing behind the dispatcher: the modules pass the device's
  own path as the token, so a live block erase of a supported device type runs to its end and
  overwrites the whole device without the caller having confirmed anything; only the environment
  and the checks on the device matter.
\<close>

theorem sanitizer_live_needs_no_confirmation:
  assumes env: "cooperative_device_env (sn_erase env)"
    and dev: "sd_device_type dev \<in> {DEVICE_TYPE_HDD, DEVICE_TYPE_USB_HDD, DEVICE_TYPE_SATA_SSD,
      DEVICE_TYPE_NVME_SSD, DEVICE_TYPE_USB_SSD, DEVICE_TYPE_USB_FLASH, DEVICE_TYPE_SD_CARD}"
    and checks: "device_path_is_block_device (env_stat_ok (sn_erase env)) fs (Some (sd_path dev))"
      "\<not> sd_is_read_only dev"
      "device_is_mounted (env_text (sn_erase env)) (Some (sd_path dev)) (Some False)
        \<noteq> (ERASECURE_OK, Some True)"
    and node: "fs (sd_path dev) = Some (Blk content)" "content \<noteq> []"
      "env_ioctl_size (sn_erase env) = Some (length content)"
    and opts: "so_method opts = SANITIZE_METHOD_BLOCK_ERASE" "\<not> so_test_mode opts"
      "beo_pattern (so_block_erase opts) \<noteq> ERASE_PATTERN_RANDOM"
    and fits: "length content * clamp_passes (beo_passes (so_block_erase opts)) < 2 ^ 64"
  shows "\<exists>res. sanitizer_run env fs (Some dev) (Some opts) (Some r) = Some (ERASECURE_OK, res,
    fs(sd_path dev \<mapsto> Blk (replicate (length content) (pattern_value (beo_pattern (so_block_erase opts))))))"
proof -
  let ?be = "module_options opts"
  have cap: "dev_capacity (sn_erase env) dev = length content" using node by (simp add: dev_capacity_def)
  have open_ok: "env_open (sn_erase env) = Open_Ok" using env by (simp add: cooperative_device_env_def)
  from device_run_cooperative [OF env cap node(2), of fs ?be] obtain br fs' prog where
    run: "device_run (sn_erase env) fs dev (Blk content) ?be = Some (ERASECURE_OK, br, fs', prog)" by blast
  have "fs' = fs(sd_path dev \<mapsto> Blk (replicate (length content)
      (pattern_value (beo_pattern (so_block_erase opts)))))"
    using device_run_OK [OF run cap] fits opts(3)
    by (cases "beo_pattern (so_block_erase opts)")
      (simp_all add: pass_bytes_const pattern_value_def module_options_def)
  moreover have "\<exists>res' prog. block_erase_device (sn_erase env) fs (Some dev) (Some ?be)
      (Some (sd_path dev)) (Some br') = Some (ERASECURE_OK, res', fs', prog)" for br'
    using block_erase_device_unguarded [OF checks open_ok node(1), of ?be br'] run by simp
  from sanitizer_run_live [OF dev opts(2,1) this]
  have "\<exists>res. sanitizer_run env fs (Some dev) (Some opts) (Some r) = Some (ERASECURE_OK, res, fs')" .
  ultimately show ?thesis by simp
qed

definition demo_live_opts :: SanitizationOptions where
  "demo_live_opts = demo_san_opts\<lparr>so_test_mode := False\<rparr>"

lemma demo_live_simps:
  "so_method demo_live_opts = SANITIZE_METHOD_BLOCK_ERASE" "\<not> so_test_mode demo_live_opts"
  "beo_pattern (so_block_erase demo_live_opts) = ERASE_PATTERN_ZERO"
  "clamp_passes (beo_passes (so_block_erase demo_live_opts)) = 1"
  using demo_san_opts_simps by (simp_all add: demo_live_opts_def)

lemma demo_disk_checks:
  "device_path_is_block_device (env_stat_ok (sn_erase demo_san_env)) demo_fs (Some (sd_path demo_disk))"
  "\<not> sd_is_read_only demo_disk"
  "device_is_mounted (env_text (sn_erase demo_san_env)) (Some (sd_path demo_disk)) (Some False)
     \<noteq> (ERASECURE_OK, Some True)"
  "demo_fs (sd_path demo_disk) = Some (Blk [7, 7, 7, 7])"
  using demo_device_checks by (simp_all add: demo_disk_def demo_san_env_def)

lemma demo_live_run:
  "\<exists>res fs'. sanitizer_run demo_san_env demo_fs (Some demo_disk) (Some demo_live_opts)
     (Some zero_sanitization_result) = Some (ERASECURE_OK, res, fs')"
proof -
  have env: "cooperative_device_env (sn_erase demo_san_env)"
    using cooperative_demo_device_env by (simp add: demo_san_env_def)
  have cap: "dev_capacity (sn_erase demo_san_env) demo_disk = length [7, 7, 7, 7 :: byte]"
    and open_ok: "env_open (sn_erase demo_san_env) = Open_Ok"
    by (simp_all add: dev_capacity_def demo_san_env_def demo_device_env_def demo_env_def)
  from device_run_cooperative [OF env cap, of demo_fs "module_options demo_live_opts"]
  obtain br fs' prog where run: "device_run (sn_erase demo_san_env) demo_fs demo_disk
      (Blk [7, 7, 7, 7]) (module_options demo_live_opts) = Some (ERASECURE_OK, br, fs', prog)"
    by auto
  have "\<exists>res' prog. block_erase_device (sn_erase demo_san_env) demo_fs (Some demo_disk)
      (Some (module_options demo_live_opts)) (Some (sd_path demo_disk)) (Some br')
      = Some (ERASECURE_OK, res', fs', prog)" for br'
    using block_erase_device_unguarded [OF demo_disk_checks(1-3) open_ok demo_disk_checks(4)] run
    by simp
  from sanitizer_run_live [OF _ demo_live_simps(2,1) this, of zero_sanitization_result] show ?thesis
    by (auto simp: demo_disk_def)
qed

theorem sanitizer_live_guarded_witness:
  "\<exists>res fs'. sanitizer_run demo_san_env demo_fs (Some demo_disk) (Some demo_live_opts)
      (Some zero_sanitization_result) = Some (ERASECURE_OK, res, fs')
    \<and> fs' ''test.img'' = Some (Reg [1, 2, 3])"
proof -
  from demo_live_run obtain res fs' where
    call: "sanitizer_run demo_san_env demo_fs (Some demo_disk) (Some demo_live_opts)
      (Some zero_sanitization_result) = Some (ERASECURE_OK, res, fs')" by blast
  have "sd_path demo_disk \<noteq> ''test.img''" by (simp add: demo_disk_def demo_device_def)
  moreover have "\<forall>q. q \<noteq> sd_path demo_disk \<longrightarrow> fs' q = demo_fs q"
    using sanitizer_live_guarded [OF call demo_live_simps(2) disjI1 [OF refl]] by (elim conjE)
  ultimately have "fs' ''test.img'' = demo_fs ''test.img''" by metis
  with call show ?thesis by (simp add: demo_fs_def)
qed

theorem sanitizer_live_needs_no_confirmation_witness:
  "\<exists>res fs'. sanitizer_run demo_san_env demo_fs (Some demo_disk) (Some demo_live_opts)
      (Some zero_sanitization_result) = Some (ERASECURE_OK, res, fs')
    \<and> fs' ''/dev/sda'' = Some (Blk [0, 0, 0, 0])"
proof -
  have env: "cooperative_device_env (sn_erase demo_san_env)"
    using cooperative_demo_device_env by (simp add: demo_san_env_def)
  have "\<exists>res. sanitizer_run demo_san_env demo_fs (Some demo_disk) (Some demo_live_opts)
      (Some zero_sanitization_result) = Some (ERASECURE_OK, res, demo_fs(sd_path demo_disk \<mapsto>
        Blk (replicate (length [7, 7, 7, 7 :: byte]) (pattern_value (beo_pattern (so_block_erase demo_live_opts))))))"
    by (rule sanitizer_live_needs_no_confirmation [OF env _ demo_disk_checks])
      (simp_all add: demo_live_simps, simp_all add: demo_disk_def demo_san_env_def demo_device_env_def)
  moreover have "replicate (length [7, 7, 7, 7 :: byte])
      (pattern_value (beo_pattern (so_block_erase demo_live_opts))) = [0, 0, 0, 0]"
    by (simp add: demo_live_simps pattern_value_def)
  moreover have "sd_path demo_disk = ''/dev/sda''" by (simp add: demo_disk_def demo_device_def)
  ultimately show ?thesis by (metis fun_upd_same)
qed

text \<open>
  The solid-state module reports a completed overwrite whatever happened: outside test mode a
  block erase through \<open>ssd_sanitize\<close> leaves the note that the logical overwrite completed in the
  result, also when the returned code says that nothing was erased.
\<close>

theorem ssd_note_on_failure:
  assumes call: "ssd_sanitize env fs (Some dev) (Some opts) (Some r) = Some (ret, Some res, fs')"
    and opts: "so_method opts = SANITIZE_METHOD_BLOCK_ERASE" "\<not> so_test_mode opts"
  shows "prefix ''CAVEAT: Logical block overwrite completed'' (vr_confidence_note (sr_verify_result res))
    \<and> (sd_is_read_only dev \<longrightarrow> ret \<noteq> ERASECURE_OK \<and> fs' = fs)"
proof -
  from call opts obtain r0 where
    step: "erase_device_step env fs dev opts (r\<lparr>sr_method_used := so_method opts\<rparr>) = Some (ret, r0, fs')"
    and res: "res = r0\<lparr>sr_verify_result := (sr_verify_result r0)\<lparr>vr_confidence_note := cstr 256 ssd_caveat\<rparr>\<rparr>"
    by (auto simp: ssd_sanitize_def ssd_dispatch_def lift_outcome_Some note_confidence_def)
  have "prefix ''CAVEAT: Logical block overwrite completed'' (cstr 256 ssd_caveat)"
    by (simp add: ssd_caveat_def cstr_def)
  moreover have "ret \<noteq> ERASECURE_OK \<and> fs' = fs" if "sd_is_read_only dev"
    using erase_device_step_fate [OF step] that block_erase_device_effect
    unfolding device_fate_def by metis
  ultimately show ?thesis using res by simp
qed

theorem ssd_note_on_failure_witness:
  "\<exists>ret res fs'. ssd_sanitize demo_san_env demo_fs (Some (demo_disk\<lparr>sd_is_read_only := True\<rparr>))
      (Some demo_live_opts) (Some zero_sanitization_result) = Some (ret, Some res, fs')
    \<and> ret \<noteq> ERASECURE_OK
    \<and> prefix ''CAVEAT: Logical block overwrite completed'' (vr_confidence_note (sr_verify_result res))"
proof -
  let ?d = "demo_disk\<lparr>sd_is_read_only := True\<rparr>"
  have "device_path_is_block_device (env_stat_ok (sn_erase demo_san_env)) demo_fs (Some (sd_path ?d))"
    using demo_disk_checks(1) by simp
  then have "\<exists>ret res fs'. ssd_sanitize demo_san_env demo_fs (Some ?d) (Some demo_live_opts)
      (Some zero_sanitization_result) = Some (ret, Some res, fs')"
    by (simp add: ssd_sanitize_def ssd_dispatch_def demo_live_simps erase_device_step_def
        block_erase_device_def lift_outcome_def note_confidence_def erase_reject_def)
  then obtain ret res fs' where call: "ssd_sanitize demo_san_env demo_fs (Some ?d) (Some demo_live_opts)
      (Some zero_sanitization_result) = Some (ret, Some res, fs')" by blast
  from ssd_note_on_failure [OF call demo_live_simps(1,2)] call show ?thesis by auto
qed

end
