(* ===== verification/Carve_State.thy ===== *)
theory Carve_State
  imports Errors
begin

text \<open>
  Recovery candidates: the growable block vector of \<open>src/recovery/blockvector.c\<close> and the candidate
  record with its identifier of \<open>src/recovery/carve_state.c\<close>. An array is the list of its
  allocated elements, \<open>None\<close> for a NULL pointer; whether an allocation succeeds is an argument, as is
  the content of the memory that \<open>realloc\<close> adds.
\<close>

section \<open>Block vectors\<close>

record BvSlot =
  bvs_apparent_block :: nat
  bvs_actual_block :: nat
  bvs_valid :: bool
  bvs_tried :: bool

record Blockvector =
  bv_slots :: "BvSlot list option"
  bv_length :: nat
  bv_capacity :: nat

definition zero_slot :: BvSlot where
  "zero_slot = \<lparr>bvs_apparent_block = 0, bvs_actual_block = 0, bvs_valid = False, bvs_tried = False\<rparr>"

definition zero_blockvector :: Blockvector where
  "zero_blockvector = \<lparr>bv_slots = None, bv_length = 0, bv_capacity = 0\<rparr>"

definition BVSLOT_SIZE :: nat where
  \<comment> \<open>\<open>sizeof(BvSlot)\<close>\<close>
  "BVSLOT_SIZE = 24"

text \<open>\<open>calloc\<close> refuses a product that overflows.\<close>

definition blockvector_create ::
    "bool \<Rightarrow> Blockvector option \<Rightarrow> nat \<Rightarrow> ErasecureError \<times> Blockvector option" where
  "blockvector_create alloc_ok bv initial_capacity =
     (case bv of None \<Rightarrow> (ERASECURE_ERR_INVALID_ARG, None)
      | Some _ \<Rightarrow>
          let cap = (if initial_capacity > 0 then initial_capacity else 16);
              ok = (alloc_ok \<and> cap * BVSLOT_SIZE < 2 ^ 64)
          in (if ok then ERASECURE_OK else ERASECURE_ERR_NO_MEM,
              Some \<lparr>bv_slots = (if ok then Some (replicate cap zero_slot) else None),
                    bv_length = 0, bv_capacity = cap\<rparr>))"

definition blockvector_free :: "Blockvector option \<Rightarrow> Blockvector option" where
  "blockvector_free bv = map_option (\<lambda>_. zero_blockvector) bv"

text \<open>\<open>realloc(slots, n * sizeof(BvSlot))\<close>: the product wraps, the elements that fit are kept.\<close>

definition realloc_slots :: "BvSlot \<Rightarrow> BvSlot list option \<Rightarrow> nat \<Rightarrow> BvSlot list" where
  "realloc_slots junk slots n =
     (let m = wrap64 (n * BVSLOT_SIZE) div BVSLOT_SIZE;
          xs = (case slots of None \<Rightarrow> [] | Some xs \<Rightarrow> xs)
      in take m (xs @ replicate m junk))"

definition blockvector_append ::
    "bool \<Rightarrow> BvSlot \<Rightarrow> Blockvector option \<Rightarrow> nat \<Rightarrow> nat \<Rightarrow> ErasecureError \<times> Blockvector option" where
  "blockvector_append alloc_ok junk bv apparent actual =
     (case bv of None \<Rightarrow> (ERASECURE_ERR_INVALID_ARG, None)
      | Some v \<Rightarrow>
          let grow = bv_length v \<ge> bv_capacity v;
              dbl = wrap64 (bv_capacity v * 2);
              new_capacity = (if dbl = 0 then 16 else dbl);
              v1 = (if grow then v\<lparr>bv_slots := Some (realloc_slots junk (bv_slots v) new_capacity),
                                   bv_capacity := new_capacity\<rparr> else v);
              slot = \<lparr>bvs_apparent_block = apparent, bvs_actual_block = actual,
                      bvs_valid = False, bvs_tried = False\<rparr>
          in if grow \<and> \<not> alloc_ok then (ERASECURE_ERR_NO_MEM, Some v)
             else (ERASECURE_OK,
                   Some (v1\<lparr>bv_slots := map_option (\<lambda>xs. xs[bv_length v1 := slot]) (bv_slots v1),
                            bv_length := bv_length v1 + 1\<rparr>)))"

definition blockvector_remove_last ::
    "Blockvector option \<Rightarrow> ErasecureError \<times> Blockvector option" where
  "blockvector_remove_last bv =
     (case bv of None \<Rightarrow> (ERASECURE_ERR_INVALID_ARG, None)
      | Some v \<Rightarrow> if bv_length v = 0 then (ERASECURE_ERR_INVALID_ARG, Some v)
                 else (ERASECURE_OK, Some (v\<lparr>bv_length := bv_length v - 1\<rparr>)))"

definition blockvector_get :: "Blockvector option \<Rightarrow> nat \<Rightarrow> BvSlot option" where
  "blockvector_get bv index =
     (case bv of None \<Rightarrow> None
      | Some v \<Rightarrow> if index \<ge> bv_length v then None
                 else map_option (\<lambda>xs. xs ! index) (bv_slots v))"

definition update_slot ::
    "(BvSlot \<Rightarrow> BvSlot) \<Rightarrow> Blockvector option \<Rightarrow> nat \<Rightarrow> ErasecureError \<times> Blockvector option" where
  "update_slot f bv index =
     (case bv of None \<Rightarrow> (ERASECURE_ERR_INVALID_ARG, None)
      | Some v \<Rightarrow>
          if index \<ge> bv_length v then (ERASECURE_ERR_INVALID_ARG, Some v)
          else (ERASECURE_OK,
                Some (v\<lparr>bv_slots := map_option (\<lambda>xs. xs[index := f (xs ! index)]) (bv_slots v)\<rparr>)))"

definition blockvector_mark_tried where
  "blockvector_mark_tried = update_slot (\<lambda>s. s\<lparr>bvs_tried := True\<rparr>)"

definition blockvector_mark_valid where
  "blockvector_mark_valid = update_slot (\<lambda>s. s\<lparr>bvs_valid := True\<rparr>)"

definition blockvector_restore ::
    "Blockvector option \<Rightarrow> nat \<Rightarrow> ErasecureError \<times> Blockvector option" where
  "blockvector_restore bv len =
     (case bv of None \<Rightarrow> (ERASECURE_ERR_INVALID_ARG, None)
      | Some v \<Rightarrow> if len > bv_length v then (ERASECURE_ERR_INVALID_ARG, Some v)
                 else (ERASECURE_OK, Some (v\<lparr>bv_length := len\<rparr>)))"

definition blockvector_clone ::
    "bool \<Rightarrow> Blockvector option \<Rightarrow> Blockvector option \<Rightarrow> ErasecureError \<times> Blockvector option" where
  "blockvector_clone alloc_ok src dst =
     (case (src, dst) of
        (Some s, Some _) \<Rightarrow>
          (case blockvector_create alloc_ok dst (bv_capacity s) of
             (err, d) \<Rightarrow>
               if err \<noteq> ERASECURE_OK then (err, d)
               else (ERASECURE_OK, map_option (\<lambda>v. v\<lparr>bv_length := bv_length s,
                       bv_slots := (if bv_length s > 0
                         then map_option (\<lambda>xs. take (bv_length s) (case bv_slots s of None \<Rightarrow> [] | Some ys \<Rightarrow> ys)
                                               @ drop (bv_length s) xs) (bv_slots v)
                         else bv_slots v)\<rparr>) d))
      | _ \<Rightarrow> (ERASECURE_ERR_INVALID_ARG, dst))"

definition blockvector_length :: "Blockvector option \<Rightarrow> nat" where
  "blockvector_length bv = (case bv of None \<Rightarrow> 0 | Some v \<Rightarrow> bv_length v)"

section \<open>Identifiers\<close>

text \<open>\<open>urandom\<close> is what a read of 16 bytes from the random device delivers, \<open>None\<close> if it cannot be
  opened; \<open>buf_len\<close> is \<open>None\<close> for a NULL buffer.\<close>

definition uuid_stamp :: "byte list \<Rightarrow> byte list" where
  "uuid_stamp r = r[6 := or (and (r ! 6) 0x0F) 0x40, 8 := or (and (r ! 8) 0x3F) 0x80]"

definition uuid_text :: "byte list \<Rightarrow> string" where
  "uuid_text r =
     concat (map hex2 (take 4 r)) @ ''-'' @ concat (map hex2 (take 2 (drop 4 r))) @ ''-'' @
     concat (map hex2 (take 2 (drop 6 r))) @ ''-'' @ concat (map hex2 (take 2 (drop 8 r))) @ ''-'' @
     concat (map hex2 (take 6 (drop 10 r)))"

definition generate_uuid :: "byte list option \<Rightarrow> nat option \<Rightarrow> ErasecureError \<times> string option" where
  "generate_uuid urandom buf_len =
     (case buf_len of None \<Rightarrow> (ERASECURE_ERR_INVALID_ARG, None)
      | Some n \<Rightarrow>
          if n < 37 then (ERASECURE_ERR_INVALID_ARG, None)
          else (case urandom of
                  None \<Rightarrow> (ERASECURE_ERR_IO, None)
                | Some r \<Rightarrow> if length r \<noteq> 16 then (ERASECURE_ERR_IO, None)
                           else (ERASECURE_OK, Some (cstr n (uuid_text (uuid_stamp r))))))"

section \<open>Candidates\<close>

datatype CandidateStatus =
    CANDIDATE_STATUS_NEW | CANDIDATE_STATUS_SCANNING | CANDIDATE_STATUS_PROMISING
  | CANDIDATE_STATUS_VALIDATING | CANDIDATE_STATUS_VALIDATED | CANDIDATE_STATUS_FAILED
  | CANDIDATE_STATUS_CANCELLED

datatype ValidationResult =
    VALIDATION_RESULT_UNKNOWN | VALIDATION_RESULT_PROMISING | VALIDATION_RESULT_VALIDATES_TO
  | VALIDATION_RESULT_VALIDATES | VALIDATION_RESULT_INVALID

record CarveState =
  cs_uuid :: string
  cs_file_type :: string
  cs_start_block :: nat
  cs_blockvector :: Blockvector
  cs_candidate_length :: nat
  cs_status :: CandidateStatus
  cs_validation :: ValidationResult
  cs_confidence :: nat
  cs_priority :: nat
  cs_service_time_us :: nat
  cs_reassembly_pos :: nat
  cs_format_state :: "byte list option"
  cs_format_state_len :: nat
  cs_checkpoint_seq :: nat

definition zero_carve_state :: CarveState where
  "zero_carve_state =
     \<lparr>cs_uuid = [], cs_file_type = [], cs_start_block = 0, cs_blockvector = zero_blockvector,
      cs_candidate_length = 0, cs_status = CANDIDATE_STATUS_NEW,
      cs_validation = VALIDATION_RESULT_UNKNOWN, cs_confidence = 0, cs_priority = 0,
      cs_service_time_us = 0, cs_reassembly_pos = 0, cs_format_state = None,
      cs_format_state_len = 0, cs_checkpoint_seq = 0\<rparr>"

definition carve_state_create ::
    "byte list option \<Rightarrow> bool \<Rightarrow> CarveState option \<Rightarrow> string option \<Rightarrow> nat
     \<Rightarrow> ErasecureError \<times> CarveState option" where
  "carve_state_create urandom alloc_ok cs file_type start_block =
     (case (cs, file_type) of
        (Some _, Some ft) \<Rightarrow>
          (case generate_uuid urandom (Some 37) of
             (err, u) \<Rightarrow>
               if err \<noteq> ERASECURE_OK then (err, Some zero_carve_state)
               else
                 let c = zero_carve_state
                       \<lparr>cs_uuid := the_default [] u, cs_file_type := cstr 32 ft,
                        cs_start_block := start_block, cs_status := CANDIDATE_STATUS_NEW,
                        cs_validation := VALIDATION_RESULT_UNKNOWN\<rparr>
                 in case blockvector_create alloc_ok (Some (cs_blockvector c)) 16 of
                      (e, v) \<Rightarrow> (e, Some (c\<lparr>cs_blockvector := the_default (cs_blockvector c) v\<rparr>)))
      | _ \<Rightarrow> (ERASECURE_ERR_INVALID_ARG, cs))"

definition carve_state_free :: "CarveState option \<Rightarrow> CarveState option" where
  "carve_state_free cs = map_option (\<lambda>_. zero_carve_state) cs"

text \<open>\<open>data\<close> holds the bytes behind the pointer, at least \<open>len\<close> of them.\<close>

definition carve_state_set_format_state ::
    "bool \<Rightarrow> CarveState option \<Rightarrow> byte list option \<Rightarrow> nat \<Rightarrow> ErasecureError \<times> CarveState option" where
  "carve_state_set_format_state alloc_ok cs data len =
     (case cs of None \<Rightarrow> (ERASECURE_ERR_INVALID_ARG, None)
      | Some c \<Rightarrow>
          if data = None \<and> len > 0 then (ERASECURE_ERR_INVALID_ARG, Some c)
          else
            let c1 = c\<lparr>cs_format_state := None, cs_format_state_len := len\<rparr>
            in if len = 0 then (ERASECURE_OK, Some c1)
               else if \<not> alloc_ok then (ERASECURE_ERR_NO_MEM, Some c1)
               else (ERASECURE_OK, Some (c1\<lparr>cs_format_state := map_option (take len) data\<rparr>)))"

fun candidate_status_str :: "CandidateStatus \<Rightarrow> string" where
  "candidate_status_str CANDIDATE_STATUS_NEW = ''NEW''"
| "candidate_status_str CANDIDATE_STATUS_SCANNING = ''SCANNING''"
| "candidate_status_str CANDIDATE_STATUS_PROMISING = ''PROMISING''"
| "candidate_status_str CANDIDATE_STATUS_VALIDATING = ''VALIDATING''"
| "candidate_status_str CANDIDATE_STATUS_VALIDATED = ''VALIDATED''"
| "candidate_status_str CANDIDATE_STATUS_FAILED = ''FAILED''"
| "candidate_status_str CANDIDATE_STATUS_CANCELLED = ''CANCELLED''"

fun validation_result_str :: "ValidationResult \<Rightarrow> string" where
  "validation_result_str VALIDATION_RESULT_UNKNOWN = ''UNKNOWN''"
| "validation_result_str VALIDATION_RESULT_PROMISING = ''PROMISING''"
| "validation_result_str VALIDATION_RESULT_VALIDATES_TO = ''VALIDATES_TO''"
| "validation_result_str VALIDATION_RESULT_VALIDATES = ''VALIDATES''"
| "validation_result_str VALIDATION_RESULT_INVALID = ''INVALID''"

section \<open>Backtracking stacks\<close>

text \<open>
  What the reassembly needs of a block vector: appending to the end, and cutting back to an earlier
  length. \<open>push\<close> may fail (memory); \<open>cut\<close> may not, as long as the length is not beyond the end.
\<close>

locale backtrack_stack =
  fixes inv :: "'s \<Rightarrow> bool"
    and contents :: "'s \<Rightarrow> 'a list"
    and push :: "'s \<Rightarrow> 'a \<Rightarrow> 's option"
    and cut :: "'s \<Rightarrow> nat \<Rightarrow> 's option"
  assumes push_inv: "inv s \<Longrightarrow> push s x = Some s' \<Longrightarrow> inv s' \<and> contents s' = contents s @ [x]"
    and cut_inv: "inv s \<Longrightarrow> n \<le> length (contents s) \<Longrightarrow>
      \<exists>s'. cut s n = Some s' \<and> inv s' \<and> contents s' = take n (contents s)"
begin

primrec push_all :: "'s \<Rightarrow> 'a list \<Rightarrow> 's option" where
  "push_all s [] = Some s"
| "push_all s (x # xs) = Option.bind (push s x) (\<lambda>s'. push_all s' xs)"

lemma push_all_inv:
  "inv s \<Longrightarrow> push_all s xs = Some s' \<Longrightarrow> inv s' \<and> contents s' = contents s @ xs"
proof (induction xs arbitrary: s)
  case (Cons x xs)
  from Cons.prems obtain s1 where s1: "push s x = Some s1" "push_all s1 xs = Some s'"
    by (auto simp: bind_eq_Some_conv)
  with push_inv [OF Cons.prems(1)] Cons.IH [of s1] show ?case by auto
qed simp

text \<open>Whatever was tried after a choice point can be undone.\<close>

lemma backtrack:
  assumes "inv s" and "push_all s xs = Some s'"
  shows "\<exists>s''. cut s' (length (contents s)) = Some s'' \<and> inv s'' \<and> contents s'' = contents s"
  using push_all_inv [OF assms] cut_inv [of s' "length (contents s)"] by simp

end

text \<open>The block vector as such a stack.\<close>

definition bv_inv :: "Blockvector \<Rightarrow> bool" where
  "bv_inv v \<longleftrightarrow> (\<exists>xs. bv_slots v = Some xs \<and> length xs = bv_capacity v) \<and> bv_length v \<le> bv_capacity v"

definition bv_contents :: "Blockvector \<Rightarrow> BvSlot list" where
  "bv_contents v = take (bv_length v) (case bv_slots v of None \<Rightarrow> [] | Some xs \<Rightarrow> xs)"

text \<open>Appending a fresh slot, below the capacity at which the size computation would wrap.\<close>

definition bv_push :: "Blockvector \<Rightarrow> nat \<times> nat \<Rightarrow> Blockvector option" where
  "bv_push v ab =
     (if bv_capacity v < 2 ^ 58
      then (case blockvector_append True zero_slot (Some v) (fst ab) (snd ab) of
              (e, v') \<Rightarrow> if e = ERASECURE_OK then v' else None)
      else None)"

definition bv_cut :: "Blockvector \<Rightarrow> nat \<Rightarrow> Blockvector option" where
  "bv_cut v n = (case blockvector_restore (Some v) n of (e, v') \<Rightarrow> if e = ERASECURE_OK then v' else None)"

definition bv_pairs :: "Blockvector \<Rightarrow> (nat \<times> nat) list" where
  "bv_pairs v = map (\<lambda>s. (bvs_apparent_block s, bvs_actual_block s)) (bv_contents v)"

lemma length_realloc_slots:
  "n * BVSLOT_SIZE < 2 ^ 64 \<Longrightarrow> length (realloc_slots junk (Some xs) n) = n"
  by (simp add: realloc_slots_def Let_def BVSLOT_SIZE_def)

lemma take_realloc_slots:
  "n * BVSLOT_SIZE < 2 ^ 64 \<Longrightarrow> k \<le> n \<Longrightarrow> k \<le> length xs \<Longrightarrow>
   take k (realloc_slots junk (Some xs) n) = take k xs"
  by (simp add: realloc_slots_def Let_def BVSLOT_SIZE_def min_def)

lemma take_Suc_update: "k < length ys \<Longrightarrow> take (Suc k) (ys[k := x]) = take k ys @ [x]"
  by (simp add: take_Suc_conv_app_nth)

lemma bv_contents_length [simp]: "bv_inv v \<Longrightarrow> length (bv_contents v) = bv_length v"
  by (auto simp: bv_inv_def bv_contents_def)

lemma blockvector_append_ok:
  assumes "bv_inv v" and "bv_capacity v < 2 ^ 58"
    and "alloc_ok \<or> bv_length v < bv_capacity v"
  shows "\<exists>v'. blockvector_append alloc_ok junk (Some v) a b = (ERASECURE_OK, Some v') \<and> bv_inv v'
    \<and> bv_length v' = bv_length v + 1
    \<and> bv_contents v' = bv_contents v @
        [\<lparr>bvs_apparent_block = a, bvs_actual_block = b, bvs_valid = False, bvs_tried = False\<rparr>]"
proof -
  obtain xs where xs: "bv_slots v = Some xs" "length xs = bv_capacity v" "bv_length v \<le> bv_capacity v"
    using assms(1) by (auto simp: bv_inv_def)
  show ?thesis
  proof (cases "bv_length v < bv_capacity v")
    case True
    with xs show ?thesis
      by (auto simp: blockvector_append_def Let_def bv_inv_def bv_contents_def take_Suc_conv_app_nth)
  next
    case False
    with xs have len: "bv_length v = length xs" "bv_capacity v = length xs" by simp_all
    define n where "n = (if wrap64 (length xs * 2) = 0 then 16 else wrap64 (length xs * 2))"
    have n: "n * BVSLOT_SIZE < 2 ^ 64" "length xs < n"
      using assms(2) len by (auto simp: n_def BVSLOT_SIZE_def)
    let ?ys = "realloc_slots junk (Some xs) n"
    have ys: "length ?ys = n" "take (length xs) ?ys = xs"
      using length_realloc_slots take_realloc_slots [of n "length xs" xs junk] n by simp_all
    define slot where "slot = \<lparr>bvs_apparent_block = a, bvs_actual_block = b, bvs_valid = False,
        bvs_tried = False\<rparr>"
    have "blockvector_append alloc_ok junk (Some v) a b = (ERASECURE_OK,
        Some (v\<lparr>bv_slots := Some (?ys[length xs := slot]), bv_capacity := n,
               bv_length := length xs + 1\<rparr>))"
      using False assms(3) xs(1) len
      by (simp add: blockvector_append_def Let_def n_def slot_def)
    moreover have "take (Suc (length xs)) (?ys[length xs := slot]) = xs @ [slot]"
      using take_Suc_update [of "length xs" ?ys slot] ys n(2) by simp
    ultimately show ?thesis
      using ys(1) n(2) xs(1) len by (simp add: bv_inv_def bv_contents_def slot_def [symmetric])
  qed
qed

interpretation bvstack: backtrack_stack bv_inv bv_pairs bv_push bv_cut
proof
  fix s x s'
  assume "bv_inv s" and push: "bv_push s x = Some s'"
  then have cap: "bv_capacity s < 2 ^ 58" by (auto simp: bv_push_def split: if_splits)
  from blockvector_append_ok [OF \<open>bv_inv s\<close> cap, of True zero_slot "fst x" "snd x"] push cap
  show "bv_inv s' \<and> bv_pairs s' = bv_pairs s @ [x]"
    by (auto simp: bv_push_def bv_pairs_def)
next
  fix s n
  assume "bv_inv s" and "n \<le> length (bv_pairs s)"
  then have n: "n \<le> bv_length s" by (simp add: bv_pairs_def)
  then have "bv_cut s n = Some (s\<lparr>bv_length := n\<rparr>)"
    by (simp add: bv_cut_def blockvector_restore_def)
  moreover have "bv_inv (s\<lparr>bv_length := n\<rparr>)" using \<open>bv_inv s\<close> n by (auto simp: bv_inv_def)
  moreover have "bv_pairs (s\<lparr>bv_length := n\<rparr>) = take n (bv_pairs s)"
    using n by (simp add: bv_pairs_def bv_contents_def take_map min_def)
  ultimately show "\<exists>s'. bv_cut s n = Some s' \<and> bv_inv s' \<and> bv_pairs s' = take n (bv_pairs s)" by blast
qed


text \<open>Appending a whole list, and its agreement with the generic operation.\<close>

primrec append_all :: "Blockvector \<Rightarrow> (nat \<times> nat) list \<Rightarrow> Blockvector option" where
  "append_all v [] = Some v"
| "append_all v (x # xs) = (case bv_push v x of None \<Rightarrow> None | Some v' \<Rightarrow> append_all v' xs)"

lemma append_all_push_all: "append_all v xs = bvstack.push_all v xs"
  by (induction xs arbitrary: v) (auto split: option.splits)

lemma blockvector_create_inv:
  assumes "cap * BVSLOT_SIZE < 2 ^ 64"
  shows "\<exists>v. blockvector_create True (Some v0) cap = (ERASECURE_OK, Some v) \<and> bv_inv v \<and> bv_contents v = []"
  using assms by (auto simp: blockvector_create_def Let_def bv_inv_def bv_contents_def BVSLOT_SIZE_def)

section \<open>Properties\<close>

text \<open>
  A block vector grows without losing anything: appending to a well-formed vector succeeds when
  memory is there (or no growth is needed), keeps every earlier slot in its place, adds the new
  block pair unmarked at the end, and the vector stays well-formed.
\<close>

theorem blockvector_append_keeps:
  assumes v: "bv_inv v" "bv_capacity v < 2 ^ 58"
    and mem: "alloc_ok \<or> bv_length v < bv_capacity v"
  shows "\<exists>v'. blockvector_append alloc_ok junk (Some v) a b = (ERASECURE_OK, Some v') \<and> bv_inv v'
    \<and> blockvector_length (Some v') = blockvector_length (Some v) + 1
    \<and> (\<forall>i < bv_length v. blockvector_get (Some v') i = blockvector_get (Some v) i)
    \<and> blockvector_get (Some v') (bv_length v) =
        Some \<lparr>bvs_apparent_block = a, bvs_actual_block = b, bvs_valid = False, bvs_tried = False\<rparr>"
proof -
  have get: "blockvector_get (Some u) i = (if i < bv_length u then Some (bv_contents u ! i) else None)"
    if "bv_inv u" for u i
    using that by (auto simp: blockvector_get_def bv_contents_def bv_inv_def)
  from blockvector_append_ok [OF v mem, of junk a b] obtain v' where
    "blockvector_append alloc_ok junk (Some v) a b = (ERASECURE_OK, Some v')" "bv_inv v'"
    "bv_length v' = bv_length v + 1"
    "bv_contents v' = bv_contents v @
        [\<lparr>bvs_apparent_block = a, bvs_actual_block = b, bvs_valid = False, bvs_tried = False\<rparr>]" by blast
  then show ?thesis using get v(1) by (auto simp: blockvector_length_def nth_append)
qed

definition demo_vector :: Blockvector where
  "demo_vector = \<lparr>bv_slots = Some [zero_slot], bv_length = 1, bv_capacity = 1\<rparr>"

theorem blockvector_append_keeps_witness:
  "\<exists>v'. blockvector_append True zero_slot (Some demo_vector) 3 103 = (ERASECURE_OK, Some v')
    \<and> bv_inv v' \<and> blockvector_get (Some v') 0 = Some zero_slot"
proof -
  have demo: "bv_inv demo_vector" "bv_capacity demo_vector < 2 ^ 58" "bv_length demo_vector = 1"
    "blockvector_get (Some demo_vector) 0 = Some zero_slot"
    by (simp_all add: bv_inv_def demo_vector_def blockvector_get_def)
  from blockvector_append_keeps [OF demo(1,2) disjI1 [OF TrueI], of zero_slot 3 103] demo(3,4)
  show ?thesis by (metis zero_less_one)
qed

text \<open>
  C27. Backtracking is exact: after any number of successful appends to a well-formed vector,
  \<open>blockvector_restore\<close> to the earlier length succeeds and leaves exactly the block pairs that were
  there before the appends.
\<close>

theorem blockvector_backtracks:
  assumes v: "bv_inv v" and run: "append_all v xs = Some v'"
  shows "\<exists>v''. blockvector_restore (Some v') (blockvector_length (Some v)) = (ERASECURE_OK, Some v'')
    \<and> bv_inv v'' \<and> bv_pairs v'' = bv_pairs v"
proof -
  have "length (bv_pairs v) = bv_length v" using v by (simp add: bv_pairs_def)
  with bvstack.backtrack [OF v run [unfolded append_all_push_all]] show ?thesis
    by (auto simp: bv_cut_def blockvector_length_def blockvector_restore_def split: if_splits)
qed

theorem blockvector_backtracks_witness:
  "\<exists>v' v''. append_all demo_vector [(1, 100), (2, 101), (3, 102)] = Some v'
    \<and> blockvector_restore (Some v') 1 = (ERASECURE_OK, Some v'') \<and> bv_pairs v'' = [(0, 0)]"
proof -
  have inv: "bv_inv demo_vector" by (simp add: bv_inv_def demo_vector_def)
  have "append_all demo_vector [(1, 100), (2, 101), (3, 102)] \<noteq> None"
    by (simp add: demo_vector_def bv_push_def blockvector_append_def Let_def)
  then obtain v' where v': "append_all demo_vector [(1, 100), (2, 101), (3, 102)] = Some v'" by auto
  have "bv_pairs demo_vector = [(0, 0)]" "blockvector_length (Some demo_vector) = 1"
    by (simp_all add: blockvector_length_def demo_vector_def bv_pairs_def bv_contents_def zero_slot_def)
  with blockvector_backtracks [OF inv v'] v' show ?thesis by metis
qed

lemma uuid_text_explicit:
  assumes "length r = 16"
  shows "uuid_text r =
    hex2 (r ! 0) @ hex2 (r ! 1) @ hex2 (r ! 2) @ hex2 (r ! 3) @ ''-'' @ hex2 (r ! 4) @ hex2 (r ! 5) @
    ''-'' @ hex2 (r ! 6) @ hex2 (r ! 7) @ ''-'' @ hex2 (r ! 8) @ hex2 (r ! 9) @ ''-'' @
    hex2 (r ! 10) @ hex2 (r ! 11) @ hex2 (r ! 12) @ hex2 (r ! 13) @ hex2 (r ! 14) @ hex2 (r ! 15)"
proof -
  have slice: "take n (drop k r) = map (\<lambda>i. r ! (k + i)) [0..<n]" if "k + n \<le> 16" for k n
    using assms that by (intro nth_equalityI) simp_all
  have "take 4 r = [r ! 0, r ! 1, r ! 2, r ! 3]" "take 2 (drop 4 r) = [r ! 4, r ! 5]"
    "take 2 (drop 6 r) = [r ! 6, r ! 7]" "take 2 (drop 8 r) = [r ! 8, r ! 9]"
    "take 6 (drop 10 r) = [r ! 10, r ! 11, r ! 12, r ! 13, r ! 14, r ! 15]"
    using slice [of 0 4] slice [of 4 2] slice [of 6 2] slice [of 8 2] slice [of 10 6]
    by (simp_all add: upt_rec numeral_2_eq_2 numeral_3_eq_3)
  then show ?thesis by (simp add: uuid_text_def)
qed

definition uuid_chars :: string where
  "uuid_chars = ''0123456789abcdef-''"

lemma hex2_uuid_chars: "set (hex2 b) \<subseteq> set uuid_chars"
proof
  fix c assume "c \<in> set (hex2 b)"
  then have "c \<in> set ''0123456789abcdef''" by (rule hex2_chars)
  then have "c \<in> set (''0123456789abcdef'' @ ''-'')" unfolding set_append by (rule UnI1)
  then show "c \<in> set uuid_chars" by (simp add: uuid_chars_def)
qed

text \<open>
  Generated identifiers are version 4 UUIDs: with 16 random bytes and a buffer of at least 37
  bytes, \<open>generate_uuid\<close> succeeds and writes 36 characters, lower-case hexadecimal digits with
  dashes at positions 8, 13, 18 and 23, the version digit 4 at position 14 and a variant digit 8, 9,
  a or b at position 19.
\<close>

theorem generate_uuid_version_4:
  assumes rand: "length r = 16" and buf: "37 \<le> n"
  shows "\<exists>u. generate_uuid (Some r) (Some n) = (ERASECURE_OK, Some u) \<and> length u = 36
    \<and> set u \<subseteq> set uuid_chars \<and> u ! 14 = CHR ''4'' \<and> u ! 19 \<in> set ''89ab''
    \<and> u ! 8 = CHR ''-'' \<and> u ! 13 = CHR ''-'' \<and> u ! 18 = CHR ''-'' \<and> u ! 23 = CHR ''-''"
proof -
  let ?r = "uuid_stamp r"
  let ?u = "uuid_text ?r"
  have len: "length ?r = 16" using rand by (simp add: uuid_stamp_def)
  note u = uuid_text_explicit [OF len]
  have "length ?u = 36" unfolding u by simp
  moreover have "set ''-'' \<subseteq> set uuid_chars" by (simp add: uuid_chars_def)
  then have "set ?u \<subseteq> set uuid_chars"
    unfolding u set_append Un_subset_iff using hex2_uuid_chars by blast
  moreover have "?r ! 6 = or (and (r ! 6) 0x0F) 0x40" "?r ! 8 = or (and (r ! 8) 0x3F) 0x80"
    using rand by (simp_all add: uuid_stamp_def)
  then have digits: "unat (?r ! 6) div 16 = 4" "unat (?r ! 8) div 16 \<in> {8, 9, 10, 11}"
    using stamp_version [of "r ! 6"] stamp_variant [of "r ! 8"] by simp_all
  then have "?u ! 14 = CHR ''4''" unfolding u by (simp add: hex2_def digit_char_def)
  moreover have "?u ! 19 = digit_char (unat (?r ! 8) div 16)" unfolding u by (simp add: hex2_def)
  with digits(2) have "?u ! 19 \<in> set ''89ab''" by (auto simp: digit_char_def)
  moreover have "?u ! 8 = CHR ''-''" "?u ! 13 = CHR ''-''" "?u ! 18 = CHR ''-''" "?u ! 23 = CHR ''-''"
    unfolding u by (simp_all add: hex2_def)
  ultimately show ?thesis using rand buf by (auto simp: generate_uuid_def)
qed

theorem generate_uuid_version_4_witness:
  "\<exists>u. generate_uuid (Some (replicate 16 0xFF)) (Some 37) = (ERASECURE_OK, Some u) \<and> u ! 14 = CHR ''4''"
  using generate_uuid_version_4 [of "replicate 16 0xFF" 37] by auto

end
