(* ===== verification/Promising_Queue.thy ===== *)
theory Promising_Queue
  imports Carve_State "HOL-Library.Multiset"
begin

text \<open>
  The priority queue of recovery candidates, \<open>src/recovery/promising_queue.c\<close>: a binary heap of
  pointers ordered by the \<open>priority\<close> field of the candidates they point to. Candidates live in a
  store that maps addresses to \<open>CarveState\<close> records, so that a priority may change behind the
  queue's back. An entry array is the list of its first \<open>count\<close> pointers; locks make each operation
  atomic, and a \<open>dequeue\<close> that has to wait answers \<open>None\<close>.
\<close>

section \<open>Data\<close>

type_synonym ptr = nat
type_synonym store = "ptr \<Rightarrow> CarveState"

record PromisingQueue =
  pq_entries :: "ptr list"
  pq_capacity :: nat
  pq_shutdown :: bool

definition promising_queue_init ::
    "bool \<Rightarrow> PromisingQueue option \<Rightarrow> nat \<Rightarrow> ErasecureError \<times> PromisingQueue option" where
  "promising_queue_init alloc_ok pq initial_capacity =
     (case pq of None \<Rightarrow> (ERASECURE_ERROR_INVALID_ARGUMENT, None)
      | Some _ \<Rightarrow>
          (if alloc_ok then ERASECURE_SUCCESS else ERASECURE_ERROR_MEMORY,
           Some \<lparr>pq_entries = [], pq_capacity = (if initial_capacity > 0 then initial_capacity else 16),
                 pq_shutdown = False\<rparr>))"

section \<open>Heap helpers\<close>

definition swap :: "'a list \<Rightarrow> nat \<Rightarrow> nat \<Rightarrow> 'a list" where
  "swap xs i j = xs[i := xs ! j, j := xs ! i]"

text \<open>\<open>pr\<close> is the priority of a pointer.\<close>

function heapify_up :: "(ptr \<Rightarrow> nat) \<Rightarrow> ptr list \<Rightarrow> nat \<Rightarrow> ptr list" where
  "heapify_up pr xs index =
     (if index > 0 then
        let parent = (index - 1) div 2
        in if pr (xs ! index) < pr (xs ! parent)
           then heapify_up pr (swap xs index parent) parent
           else xs
      else xs)"
  by pat_completeness auto
termination by (relation "measure (\<lambda>(pr, xs, index). index)") auto

definition smallest_of :: "(ptr \<Rightarrow> nat) \<Rightarrow> ptr list \<Rightarrow> nat \<Rightarrow> nat" where
  "smallest_of pr xs index =
     (let left = 2 * index + 1;
          right = 2 * index + 2;
          s1 = (if left < length xs \<and> pr (xs ! left) < pr (xs ! index) then left else index)
      in if right < length xs \<and> pr (xs ! right) < pr (xs ! s1) then right else s1)"

function heapify_down :: "(ptr \<Rightarrow> nat) \<Rightarrow> ptr list \<Rightarrow> nat \<Rightarrow> ptr list" where
  "heapify_down pr xs index =
     (let smallest = smallest_of pr xs index
      in if smallest \<noteq> index then heapify_down pr (swap xs index smallest) smallest else xs)"
  by pat_completeness auto
termination
  by (relation "measure (\<lambda>(pr, xs, index). length xs - index)")
    (auto simp: smallest_of_def swap_def Let_def split: if_splits)

declare heapify_up.simps [simp del] heapify_down.simps [simp del]

section \<open>Operations\<close>

definition priority_in :: "store \<Rightarrow> ptr \<Rightarrow> nat" where
  "priority_in mem p = cs_priority (mem p)"

definition promising_queue_enqueue ::
    "bool \<Rightarrow> store \<Rightarrow> PromisingQueue option \<Rightarrow> ptr option \<Rightarrow> ErasecureError \<times> PromisingQueue option" where
  "promising_queue_enqueue alloc_ok mem pq candidate =
     (case (pq, candidate) of
        (Some q, Some c) \<Rightarrow>
          if pq_shutdown q then (ERASECURE_ERROR_INVALID_STATE, Some q)
          else
            let full = (length (pq_entries q) = pq_capacity q);
                q1 = (if full then q\<lparr>pq_capacity := pq_capacity q * 2\<rparr> else q)
            in if full \<and> \<not> alloc_ok then (ERASECURE_ERROR_MEMORY, Some q)
               else (ERASECURE_SUCCESS,
                     Some (q1\<lparr>pq_entries := heapify_up (priority_in mem) (pq_entries q1 @ [c])
                                              (length (pq_entries q1))\<rparr>))
      | _ \<Rightarrow> (ERASECURE_ERROR_INVALID_ARGUMENT, pq))"

text \<open>\<open>entries[i] = entries[count - 1]; count--;\<close>\<close>

definition drop_entry :: "ptr list \<Rightarrow> nat \<Rightarrow> ptr list" where
  "drop_entry xs i = butlast (xs[i := last xs])"

definition promising_queue_dequeue ::
    "store \<Rightarrow> PromisingQueue option \<Rightarrow> ptr option option
     \<Rightarrow> (ErasecureError \<times> PromisingQueue option \<times> ptr option option) option" where
  "promising_queue_dequeue mem pq out =
     (case (pq, out) of
        (Some q, Some _) \<Rightarrow>
          if pq_entries q = [] \<and> \<not> pq_shutdown q then None
          else if pq_shutdown q \<and> pq_entries q = []
          then Some (ERASECURE_ERROR_NOT_FOUND, Some q, out)
          else
            let xs = drop_entry (pq_entries q) 0
            in Some (ERASECURE_SUCCESS,
                     Some (q\<lparr>pq_entries := (if length xs > 0 then heapify_down (priority_in mem) xs 0
                                              else xs)\<rparr>),
                     Some (Some (pq_entries q ! 0)))
      | _ \<Rightarrow> Some (ERASECURE_ERROR_INVALID_ARGUMENT, pq, out))"

definition promising_queue_requeue where
  "promising_queue_requeue = promising_queue_enqueue"

text \<open>The scan for the first entry with a given identifier.\<close>

fun find_uuid :: "store \<Rightarrow> string \<Rightarrow> ptr list \<Rightarrow> nat option" where
  "find_uuid mem uuid [] = None"
| "find_uuid mem uuid (p # ps) =
     (if cs_uuid (mem p) = uuid then Some 0 else map_option Suc (find_uuid mem uuid ps))"

definition promising_queue_remove ::
    "store \<Rightarrow> PromisingQueue option \<Rightarrow> string option \<Rightarrow> ErasecureError \<times> PromisingQueue option" where
  "promising_queue_remove mem pq uuid =
     (case (pq, uuid) of
        (Some q, Some u) \<Rightarrow>
          (case find_uuid mem u (pq_entries q) of
             None \<Rightarrow> (ERASECURE_ERROR_NOT_FOUND, Some q)
           | Some i \<Rightarrow>
               let xs = drop_entry (pq_entries q) i;
                   ys = (if i < length xs
                         then heapify_up (priority_in mem) (heapify_down (priority_in mem) xs i) i
                         else xs)
               in (ERASECURE_SUCCESS, Some (q\<lparr>pq_entries := ys\<rparr>)))
      | _ \<Rightarrow> (ERASECURE_ERROR_INVALID_ARGUMENT, pq))"

definition promising_queue_kill where
  "promising_queue_kill = promising_queue_remove"

definition promising_queue_update_priority ::
    "store \<Rightarrow> PromisingQueue option \<Rightarrow> string option \<Rightarrow> nat
     \<Rightarrow> ErasecureError \<times> PromisingQueue option \<times> store" where
  "promising_queue_update_priority mem pq uuid new_priority =
     (case (pq, uuid) of
        (Some q, Some u) \<Rightarrow>
          (case find_uuid mem u (pq_entries q) of
             None \<Rightarrow> (ERASECURE_ERROR_NOT_FOUND, Some q, mem)
           | Some i \<Rightarrow>
               let p = pq_entries q ! i;
                   mem' = mem(p := (mem p)\<lparr>cs_priority := new_priority\<rparr>);
                   ys = heapify_up (priority_in mem')
                          (heapify_down (priority_in mem') (pq_entries q) i) i
               in (ERASECURE_SUCCESS, Some (q\<lparr>pq_entries := ys\<rparr>), mem'))
      | _ \<Rightarrow> (ERASECURE_ERROR_INVALID_ARGUMENT, pq, mem))"

definition promising_queue_size :: "PromisingQueue option \<Rightarrow> nat" where
  "promising_queue_size pq = (case pq of None \<Rightarrow> 0 | Some q \<Rightarrow> length (pq_entries q))"

definition promising_queue_is_empty :: "PromisingQueue option \<Rightarrow> bool" where
  "promising_queue_is_empty pq \<longleftrightarrow> promising_queue_size pq = 0"

definition promising_queue_shutdown :: "PromisingQueue option \<Rightarrow> PromisingQueue option" where
  "promising_queue_shutdown pq = map_option (\<lambda>q. q\<lparr>pq_shutdown := True\<rparr>) pq"

text \<open>The array is freed and its pointer NULL; the count and the capacity stay as they were.\<close>

record DestroyedQueue =
  dq_count :: nat
  dq_capacity :: nat
  dq_shutdown :: bool

definition promising_queue_destroy :: "PromisingQueue option \<Rightarrow> DestroyedQueue option" where
  "promising_queue_destroy pq =
     map_option (\<lambda>q. \<lparr>dq_count = length (pq_entries q), dq_capacity = pq_capacity q, dq_shutdown = True\<rparr>) pq"

section \<open>The heap property\<close>

definition parent_of :: "nat \<Rightarrow> nat" where "parent_of j = (j - 1) div 2"

definition edge_ok :: "(ptr \<Rightarrow> nat) \<Rightarrow> ptr list \<Rightarrow> nat \<Rightarrow> bool" where
  "edge_ok pr xs j \<longleftrightarrow> pr (xs ! parent_of j) \<le> pr (xs ! j)"

definition is_heap :: "(ptr \<Rightarrow> nat) \<Rightarrow> ptr list \<Rightarrow> bool" where
  "is_heap pr xs \<longleftrightarrow> (\<forall>j. 0 < j \<and> j < length xs \<longrightarrow> edge_ok pr xs j)"

text \<open>The children of \<open>i\<close> are not below the parent of \<open>i\<close>.\<close>

definition bridged :: "(ptr \<Rightarrow> nat) \<Rightarrow> ptr list \<Rightarrow> nat \<Rightarrow> bool" where
  "bridged pr xs i \<longleftrightarrow>
     (\<forall>j. 0 < j \<and> j < length xs \<and> parent_of j = i \<and> 0 < i \<longrightarrow> pr (xs ! parent_of i) \<le> pr (xs ! j))"

text \<open>A heap but for the edge above \<open>i\<close>, the edges below \<open>i\<close>, or both.\<close>

definition up_hole :: "(ptr \<Rightarrow> nat) \<Rightarrow> ptr list \<Rightarrow> nat \<Rightarrow> bool" where
  "up_hole pr xs i \<longleftrightarrow> bridged pr xs i \<and> (\<forall>j. 0 < j \<and> j < length xs \<and> j \<noteq> i \<longrightarrow> edge_ok pr xs j)"

definition down_hole :: "(ptr \<Rightarrow> nat) \<Rightarrow> ptr list \<Rightarrow> nat \<Rightarrow> bool" where
  "down_hole pr xs i \<longleftrightarrow>
     bridged pr xs i \<and> (\<forall>j. 0 < j \<and> j < length xs \<and> parent_of j \<noteq> i \<longrightarrow> edge_ok pr xs j)"

definition hole :: "(ptr \<Rightarrow> nat) \<Rightarrow> ptr list \<Rightarrow> nat \<Rightarrow> bool" where
  "hole pr xs i \<longleftrightarrow>
     bridged pr xs i
     \<and> (\<forall>j. 0 < j \<and> j < length xs \<and> j \<noteq> i \<and> parent_of j \<noteq> i \<longrightarrow> edge_ok pr xs j)"

lemmas heap_predicates = is_heap_def edge_ok_def bridged_def up_hole_def down_hole_def hole_def

lemma parent_less: "0 < j \<Longrightarrow> parent_of j < j"
  by (auto simp: parent_of_def)

lemma parent_children: "0 < j \<Longrightarrow> parent_of j = i \<longleftrightarrow> j = 2 * i + 1 \<or> j = 2 * i + 2"
  by (auto simp: parent_of_def)

lemma swap_props [simp]:
  "length (swap xs i j) = length xs"
  "i < length xs \<Longrightarrow> j < length xs \<Longrightarrow> mset (swap xs i j) = mset xs"
  "i < length xs \<Longrightarrow> j < length xs \<Longrightarrow> k < length xs \<Longrightarrow>
     swap xs i j ! k = (if k = i then xs ! j else if k = j then xs ! i else xs ! k)"
  by (auto simp: swap_def mset_swap nth_list_update)


lemma smallest_of_props:
  assumes "i < length xs"
  shows "smallest_of pr xs i < length xs"
    and "smallest_of pr xs i \<noteq> i \<Longrightarrow> 0 < smallest_of pr xs i \<and> parent_of (smallest_of pr xs i) = i
      \<and> pr (xs ! smallest_of pr xs i) < pr (xs ! i)"
    and "0 < j \<Longrightarrow> j < length xs \<Longrightarrow> parent_of j = i \<Longrightarrow> pr (xs ! smallest_of pr xs i) \<le> pr (xs ! j)"
proof -
  show "smallest_of pr xs i < length xs" using assms by (simp add: smallest_of_def Let_def)
next
  have "parent_of (2 * i + 1) = i" "parent_of (2 * i + 2) = i" by (simp_all add: parent_of_def)
  then show "smallest_of pr xs i \<noteq> i \<Longrightarrow> 0 < smallest_of pr xs i \<and> parent_of (smallest_of pr xs i) = i
      \<and> pr (xs ! smallest_of pr xs i) < pr (xs ! i)"
    by (simp add: smallest_of_def Let_def split: if_splits)
next
  assume "0 < j" "j < length xs" "parent_of j = i"
  moreover from this have "j = 2 * i + 1 \<or> j = 2 * i + 2" using parent_children by blast
  ultimately show "pr (xs ! smallest_of pr xs i) \<le> pr (xs ! j)"
    by (elim disjE) (simp_all add: smallest_of_def Let_def)
qed

text \<open>Sifting up.\<close>

lemma up_hole_step:
  assumes "up_hole pr xs i" and "0 < i" and "i < length xs"
    and less: "pr (xs ! i) < pr (xs ! parent_of i)"
  shows "up_hole pr (swap xs i (parent_of i)) (parent_of i)"
proof -
  let ?p = "parent_of i" and ?ys = "swap xs i (parent_of i)"
  have p: "?p < length xs" "?p \<noteq> i" using assms(2,3) parent_less [of i] by (simp_all add: less_imp_neq)
  have nth: "?ys ! k = (if k = i then xs ! ?p else if k = ?p then xs ! i else xs ! k)"
    if "k < length xs" for k using that p assms(3) by simp
  have edge: "pr (xs ! parent_of j) \<le> pr (xs ! j)" if "0 < j" "j < length xs" "j \<noteq> i" for j
    using assms(1) that by (simp add: up_hole_def edge_ok_def)
  have bridge: "pr (xs ! ?p) \<le> pr (xs ! j)" if "0 < j" "j < length xs" "parent_of j = i" for j
    using assms(1,2) that by (simp add: up_hole_def bridged_def)
  have par: "parent_of j < length xs" if "0 < j" "j < length xs" for j
    using that parent_less [of j] by simp
  have "edge_ok pr ?ys j" if j: "0 < j" "j < length xs" "j \<noteq> ?p" for j
  proof -
    consider "j = i" | "j \<noteq> i" "parent_of j = i" | "j \<noteq> i" "parent_of j = ?p" "parent_of j \<noteq> i"
      | "j \<noteq> i" "parent_of j \<noteq> i" "parent_of j \<noteq> ?p" by blast
    then show ?thesis
    proof cases
      case 1
      then show ?thesis using nth less p assms(3) by (simp add: edge_ok_def)
    next
      case 2
      then show ?thesis using nth j bridge p assms(3) by (simp add: edge_ok_def)
    next
      case 3
      then show ?thesis using nth j edge [OF j(1,2) 3(1)] less p par by (simp add: edge_ok_def)
    next
      case 4
      then show ?thesis using nth j edge [OF j(1,2) 4(1)] par [OF j(1,2)] by (simp add: edge_ok_def)
    qed
  qed
  moreover have "bridged pr ?ys ?p"
    unfolding bridged_def
  proof (intro allI impI)
    fix j assume j: "0 < j \<and> j < length ?ys \<and> parent_of j = ?p \<and> 0 < ?p"
    have pp: "parent_of ?p < length xs" "parent_of ?p \<noteq> ?p" "parent_of ?p \<noteq> i"
      using j p parent_less [of ?p] parent_less [of i] assms(2) by auto
    have up: "pr (xs ! parent_of ?p) \<le> pr (xs ! ?p)" using edge [of ?p] j p by simp
    show "pr (?ys ! parent_of ?p) \<le> pr (?ys ! j)"
    proof (cases "j = i")
      case True
      then show ?thesis using nth up pp assms(3) by simp
    next
      case False
      with edge [of j] j have "pr (xs ! ?p) \<le> pr (xs ! j)" by simp
      moreover have "j \<noteq> ?p" using j parent_less [of ?p] by auto
      ultimately show ?thesis using nth up pp j False by simp
    qed
  qed
  ultimately show ?thesis by (simp add: up_hole_def)
qed

lemma up_hole_done:
  assumes "up_hole pr xs i" and "i = 0 \<or> pr (xs ! parent_of i) \<le> pr (xs ! i)"
  shows "is_heap pr xs"
  using assms by (auto simp: up_hole_def is_heap_def edge_ok_def)

lemma heapify_up_heap:
  "i < length xs \<Longrightarrow> up_hole pr xs i \<Longrightarrow> is_heap pr (heapify_up pr xs i)"
proof (induction pr xs i rule: heapify_up.induct)
  case (1 pr xs i)
  show ?case
  proof (cases "0 < i \<and> pr (xs ! i) < pr (xs ! parent_of i)")
    case True
    have "parent_of i < length xs" using True 1(2) parent_less [of i] by simp
    then show ?thesis
      using 1(1) [OF _ refl] True 1(2) up_hole_step [OF 1(3)]
      by (subst heapify_up.simps) (simp add: parent_of_def Let_def)
  next
    case False
    with up_hole_done [OF 1(3)] show ?thesis
      by (subst heapify_up.simps) (auto simp: parent_of_def Let_def not_less)
  qed
qed

lemma heapify_up_mset: "i < length xs \<Longrightarrow> mset (heapify_up pr xs i) = mset xs"
proof (induction pr xs i rule: heapify_up.induct)
  case (1 pr xs i)
  show ?case
  proof (cases "0 < i \<and> pr (xs ! i) < pr (xs ! parent_of i)")
    case True
    then have "parent_of i < length xs" using 1(2) parent_less [of i] by simp
    with 1(1) [OF _ refl] True 1(2) show ?thesis
      by (subst heapify_up.simps) (simp add: parent_of_def Let_def)
  next
    case False
    then show ?thesis by (subst heapify_up.simps) (auto simp: parent_of_def Let_def)
  qed
qed

text \<open>Sifting down.\<close>

lemma down_hole_step:
  assumes "down_hole pr xs i" and "i < length xs" and "smallest_of pr xs i \<noteq> i"
  shows "down_hole pr (swap xs i (smallest_of pr xs i)) (smallest_of pr xs i)"
proof -
  define c where "c = smallest_of pr xs i"
  let ?ys = "swap xs i c"
  have c: "c < length xs" "0 < c" "parent_of c = i" "pr (xs ! c) < pr (xs ! i)" "c \<noteq> i"
    using smallest_of_props(1,2) [OF assms(2)] assms(3) by (auto simp: c_def)
  have least: "pr (xs ! c) \<le> pr (xs ! j)" if "0 < j" "j < length xs" "parent_of j = i" for j
    using smallest_of_props(3) [OF assms(2) that] by (simp add: c_def)
  have nth: "?ys ! k = (if k = i then xs ! c else if k = c then xs ! i else xs ! k)"
    if "k < length xs" for k using that c(1) assms(2) by simp
  have edge: "pr (xs ! parent_of j) \<le> pr (xs ! j)" if "0 < j" "j < length xs" "parent_of j \<noteq> i" for j
    using assms(1) that by (simp add: down_hole_def edge_ok_def)
  have bridge: "pr (xs ! parent_of i) \<le> pr (xs ! j)" if "0 < j" "j < length xs" "parent_of j = i" "0 < i" for j
    using assms(1) that by (simp add: down_hole_def bridged_def)
  have par: "parent_of j < length xs" if "0 < j" "j < length xs" for j
    using that parent_less [of j] by simp
  have "edge_ok pr ?ys j" if j: "0 < j" "j < length xs" "parent_of j \<noteq> c" for j
  proof -
    consider "j = c" | "j \<noteq> c" "parent_of j = i" | "j = i" "parent_of j \<noteq> i"
      | "j \<noteq> c" "j \<noteq> i" "parent_of j \<noteq> i" by blast
    then show ?thesis
    proof cases
      case 1
      then show ?thesis using nth c assms(2) by (simp add: edge_ok_def)
    next
      case 2
      then have "j \<noteq> i" using j parent_less [of i] by auto
      with 2 show ?thesis using nth j least assms(2) by (simp add: edge_ok_def)
    next
      case 3
      then show ?thesis using nth j bridge [of c] c par [OF j(1,2)] by (simp add: edge_ok_def)
    next
      case 4
      then show ?thesis using nth j edge [OF j(1,2) 4(3)] par [OF j(1,2)] by (simp add: edge_ok_def)
    qed
  qed
  moreover have "bridged pr ?ys c"
    unfolding bridged_def
  proof (intro allI impI)
    fix j assume j: "0 < j \<and> j < length ?ys \<and> parent_of j = c \<and> 0 < c"
    then have "j \<noteq> c" "j \<noteq> i" using parent_less [of j] parent_less [of c] c by auto
    moreover have "pr (xs ! c) \<le> pr (xs ! j)" using edge [of j] j c by simp
    ultimately show "pr (?ys ! parent_of c) \<le> pr (?ys ! j)" using nth j c assms(2) by simp
  qed
  ultimately show ?thesis by (simp add: down_hole_def c_def)
qed

lemma down_hole_done:
  assumes "down_hole pr xs i" and "i < length xs" and "smallest_of pr xs i = i"
  shows "is_heap pr xs"
  unfolding is_heap_def edge_ok_def
proof (intro allI impI)
  fix j assume j: "0 < j \<and> j < length xs"
  show "pr (xs ! parent_of j) \<le> pr (xs ! j)"
  proof (cases "parent_of j = i")
    case True
    with j smallest_of_props(3) [OF assms(2), of j pr] assms(3) show ?thesis by simp
  next
    case False
    with j assms(1) show ?thesis by (simp add: down_hole_def edge_ok_def)
  qed
qed

lemma heapify_down_heap:
  "i < length xs \<Longrightarrow> down_hole pr xs i \<Longrightarrow> is_heap pr (heapify_down pr xs i)"
proof (induction pr xs i rule: heapify_down.induct)
  case (1 pr xs i)
  show ?case
  proof (cases "smallest_of pr xs i = i")
    case True
    with down_hole_done [OF 1(3,2)] show ?thesis by (subst heapify_down.simps) simp
  next
    case False
    with 1(1) [OF refl False] smallest_of_props(1) [OF 1(2)] down_hole_step [OF 1(3,2)] show ?thesis
      by (subst heapify_down.simps) (simp add: Let_def)
  qed
qed

lemma heapify_down_mset: "i < length xs \<Longrightarrow> mset (heapify_down pr xs i) = mset xs"
proof (induction pr xs i rule: heapify_down.induct)
  case (1 pr xs i)
  show ?case
  proof (cases "smallest_of pr xs i = i")
    case False
    with 1(1) [OF refl False] smallest_of_props(1) [OF 1(2)] 1(2) show ?thesis
      by (subst heapify_down.simps) (simp add: Let_def)
  qed (subst heapify_down.simps, simp)
qed


text \<open>A heap with one arbitrary entry: sifting down and then up repairs it.\<close>

lemma hole_step:
  assumes "hole pr xs i" and "i < length xs" and "smallest_of pr xs i \<noteq> i"
  shows "down_hole pr (swap xs i (smallest_of pr xs i)) (smallest_of pr xs i)"
proof -
  define c where "c = smallest_of pr xs i"
  let ?ys = "swap xs i c"
  have c: "c < length xs" "0 < c" "parent_of c = i" "pr (xs ! c) < pr (xs ! i)" "c \<noteq> i"
    using smallest_of_props(1,2) [OF assms(2)] assms(3) by (auto simp: c_def)
  have least: "pr (xs ! c) \<le> pr (xs ! j)" if "0 < j" "j < length xs" "parent_of j = i" for j
    using smallest_of_props(3) [OF assms(2) that] by (simp add: c_def)
  have nth: "?ys ! k = (if k = i then xs ! c else if k = c then xs ! i else xs ! k)"
    if "k < length xs" for k using that c(1) assms(2) by simp
  have edge: "pr (xs ! parent_of j) \<le> pr (xs ! j)"
    if "0 < j" "j < length xs" "j \<noteq> i" "parent_of j \<noteq> i" for j
    using assms(1) that by (simp add: hole_def edge_ok_def)
  have bridge: "pr (xs ! parent_of i) \<le> pr (xs ! j)" if "0 < j" "j < length xs" "parent_of j = i" "0 < i" for j
    using assms(1) that by (simp add: hole_def bridged_def)
  have par: "parent_of j < length xs" "parent_of j \<noteq> j" if "0 < j" "j < length xs" for j
    using that parent_less [of j] by simp_all
  have "edge_ok pr ?ys j" if j: "0 < j" "j < length xs" "parent_of j \<noteq> c" for j
  proof -
    consider "j = c" | "j \<noteq> c" "j \<noteq> i" "parent_of j = i" | "j = i"
      | "j \<noteq> c" "j \<noteq> i" "parent_of j \<noteq> i" by blast
    then show ?thesis
    proof cases
      case 1
      then show ?thesis using nth c assms(2) by (simp add: edge_ok_def)
    next
      case 2
      then show ?thesis using nth j least assms(2) by (simp add: edge_ok_def)
    next
      case 3
      then show ?thesis using nth j bridge [of c] c par [of i] by (simp add: edge_ok_def)
    next
      case 4
      then show ?thesis using nth j edge [OF j(1,2) 4(2,3)] par [OF j(1,2)] by (simp add: edge_ok_def)
    qed
  qed
  moreover have "bridged pr ?ys c"
    unfolding bridged_def
  proof (intro allI impI)
    fix j assume j: "0 < j \<and> j < length ?ys \<and> parent_of j = c \<and> 0 < c"
    then have "j \<noteq> c" "j \<noteq> i" using parent_less [of j] parent_less [of c] c by auto
    moreover have "pr (xs ! c) \<le> pr (xs ! j)" using edge [of j] j c \<open>j \<noteq> i\<close> by simp
    ultimately show "pr (?ys ! parent_of c) \<le> pr (?ys ! j)" using nth j c assms(2) by simp
  qed
  ultimately show ?thesis by (simp add: down_hole_def c_def)
qed

lemma heap_up_hole:
  assumes "is_heap pr xs"
  shows "up_hole pr xs i"
proof -
  have edge: "pr (xs ! parent_of j) \<le> pr (xs ! j)" if "0 < j" "j < length xs" for j
    using assms that by (simp add: is_heap_def edge_ok_def)
  have "pr (xs ! parent_of i) \<le> pr (xs ! j)"
    if "0 < j" "j < length xs" "parent_of j = i" "0 < i" for j
    using edge [of j] edge [of i] that parent_less [of j] by simp
  with edge show ?thesis by (simp add: up_hole_def bridged_def edge_ok_def)
qed

lemma hole_repaired:
  assumes "i < length xs" and "hole pr xs i"
  shows "is_heap pr (heapify_up pr (heapify_down pr xs i) i)"
proof (cases "smallest_of pr xs i = i")
  case True
  then have "heapify_down pr xs i = xs" by (subst heapify_down.simps) simp
  moreover have "up_hole pr xs i"
    unfolding up_hole_def
  proof (intro conjI allI impI)
    show "bridged pr xs i" using assms(2) by (simp add: hole_def)
    fix j assume j: "0 < j \<and> j < length xs \<and> j \<noteq> i"
    show "edge_ok pr xs j"
    proof (cases "parent_of j = i")
      case True
      with j smallest_of_props(3) [OF assms(1), of j pr] \<open>smallest_of pr xs i = i\<close>
      show ?thesis by (simp add: edge_ok_def)
    next
      case False
      with j assms(2) show ?thesis by (simp add: hole_def)
    qed
  qed
  ultimately show ?thesis using heapify_up_heap [OF assms(1)] by simp
next
  case False
  let ?c = "smallest_of pr xs i"
  have eq: "heapify_down pr xs i = heapify_down pr (swap xs i ?c) ?c"
    using False by (subst heapify_down.simps) (simp add: Let_def)
  have "is_heap pr (heapify_down pr xs i)"
    unfolding eq using smallest_of_props(1) [OF assms(1)] hole_step [OF assms(2,1) False]
    by (intro heapify_down_heap) simp_all
  moreover have "length (heapify_down pr xs i) = length xs"
    using heapify_down_mset [OF assms(1)] by (metis size_mset)
  ultimately show ?thesis using heapify_up_heap heap_up_hole assms(1) by simp
qed

lemma heap_root_least:
  assumes "is_heap pr xs" and "i < length xs"
  shows "pr (xs ! 0) \<le> pr (xs ! i)"
  using assms(2)
proof (induction i rule: less_induct)
  case (less i)
  show ?case
  proof (cases "i = 0")
    case False
    then have p: "parent_of i < i" by (simp add: parent_less)
    with less.prems have "pr (xs ! 0) \<le> pr (xs ! parent_of i)" by (intro less.IH) simp_all
    also have "\<dots> \<le> pr (xs ! i)"
      using assms(1) less.prems False by (simp add: is_heap_def edge_ok_def)
    finally show ?thesis .
  qed simp
qed

lemma heap_butlast: "is_heap pr xs \<Longrightarrow> is_heap pr (butlast xs)"
proof (unfold is_heap_def edge_ok_def, intro allI impI)
  fix j assume heap: "\<forall>j. 0 < j \<and> j < length xs \<longrightarrow> pr (xs ! parent_of j) \<le> pr (xs ! j)"
    and j: "0 < j \<and> j < length (butlast xs)"
  then show "pr (butlast xs ! parent_of j) \<le> pr (butlast xs ! j)"
    using parent_less [of j] by (simp add: nth_butlast)
qed

text \<open>Replacing one entry of a heap makes a hole there; dropping the last entry keeps it.\<close>

lemma heap_replace_hole:
  assumes "is_heap pr xs" and "\<And>k. k < length ys \<Longrightarrow> k \<noteq> i \<Longrightarrow> ys ! k = xs ! k" and "length ys \<le> length xs"
  shows "hole pr ys i"
proof -
  have edge: "pr (xs ! parent_of j) \<le> pr (xs ! j)" if "0 < j" "j < length xs" for j
    using assms(1) that by (simp add: is_heap_def edge_ok_def)
  have "bridged pr ys i"
    unfolding bridged_def
  proof (intro allI impI)
    fix j assume j: "0 < j \<and> j < length ys \<and> parent_of j = i \<and> 0 < i"
    then have ij: "i < j" "parent_of i < i" using parent_less [of j] parent_less [of i] by auto
    have "ys ! parent_of i = xs ! parent_of i" using ij j by (intro assms(2)) simp_all
    moreover have "ys ! j = xs ! j" using ij j by (intro assms(2)) simp_all
    moreover have "pr (xs ! parent_of i) \<le> pr (xs ! i)" using edge [of i] j ij assms(3) by simp
    moreover have "pr (xs ! i) \<le> pr (xs ! j)" using edge [of j] j ij assms(3) by simp
    ultimately show "pr (ys ! parent_of i) \<le> pr (ys ! j)" by simp
  qed
  moreover have "edge_ok pr ys j" if j: "0 < j \<and> j < length ys \<and> j \<noteq> i \<and> parent_of j \<noteq> i" for j
  proof -
    have "ys ! j = xs ! j" using j by (intro assms(2)) simp_all
    moreover have "ys ! parent_of j = xs ! parent_of j"
      using j parent_less [of j] by (intro assms(2)) simp_all
    ultimately show ?thesis using edge [of j] j assms(3) by (simp add: edge_ok_def)
  qed
  ultimately show ?thesis by (simp add: hole_def)
qed

lemma drop_entry_nth:
  "k < length (drop_entry xs i) \<Longrightarrow> k \<noteq> i \<Longrightarrow> drop_entry xs i ! k = xs ! k"
  by (simp add: drop_entry_def nth_butlast)

lemma length_drop_entry [simp]: "length (drop_entry xs i) = length xs - 1"
  by (simp add: drop_entry_def)

lemma mset_drop_entry:
  assumes "i < length xs"
  shows "mset xs = add_mset (xs ! i) (mset (drop_entry xs i))"
proof (cases "i = length xs - 1")
  case True
  moreover from assms have "xs \<noteq> []" by auto
  ultimately have "drop_entry xs i = butlast xs" "xs ! i = last xs" "xs \<noteq> []"
    by (simp_all add: drop_entry_def last_conv_nth butlast_list_update)
  then show ?thesis by (metis append_butlast_last_id mset_append mset.simps union_code add_mset_add_single)
next
  case False
  define ys where "ys = xs[i := last xs]"
  have ne: "xs \<noteq> []" "ys \<noteq> []" using assms by (auto simp: ys_def)
  have "last ys = last xs" using False assms ne by (simp add: ys_def last_conv_nth)
  then have "mset ys = add_mset (last xs) (mset (butlast ys))"
    using ne(2) by (metis append_butlast_last_id mset_append mset.simps union_code add_mset_add_single)
  moreover have "mset ys = add_mset (last xs) (mset xs - {#xs ! i#})"
    using assms by (simp add: ys_def mset_update)
  ultimately have "mset (butlast ys) = mset xs - {#xs ! i#}" by simp
  then show ?thesis using assms by (simp add: drop_entry_def ys_def)
qed


section \<open>Minimum queues\<close>

text \<open>
  What the workers rely on: putting an element in, and taking out one whose key is least. The
  client drains the queue.
\<close>

locale min_queue =
  fixes inv :: "'s \<Rightarrow> bool"
    and elems :: "'s \<Rightarrow> 'a multiset"
    and key :: "'a \<Rightarrow> nat"
    and put :: "'s \<Rightarrow> 'a \<Rightarrow> 's"
    and take_least :: "'s \<Rightarrow> ('a \<times> 's) option"
  assumes put_inv: "inv s \<Longrightarrow> inv (put s x) \<and> elems (put s x) = add_mset x (elems s)"
    and take_None: "inv s \<Longrightarrow> take_least s = None \<longleftrightarrow> elems s = {#}"
    and take_Some: "inv s \<Longrightarrow> take_least s = Some (x, s') \<Longrightarrow>
      inv s' \<and> elems s = add_mset x (elems s') \<and> (\<forall>y \<in># elems s. key x \<le> key y)"
begin

primrec drain :: "nat \<Rightarrow> 's \<Rightarrow> 'a list" where
  "drain 0 s = []"
| "drain (Suc n) s = (case take_least s of None \<Rightarrow> [] | Some (x, s') \<Rightarrow> x # drain n s')"

lemma put_all_inv:
  "inv s \<Longrightarrow> inv (foldl put s xs) \<and> elems (foldl put s xs) = mset xs + elems s"
proof (induction xs arbitrary: s)
  case (Cons x xs)
  with put_inv [OF Cons.prems, of x] Cons.IH [of "put s x"] show ?case by simp
qed simp

lemma drain_sorted:
  "inv s \<Longrightarrow> size (elems s) \<le> n \<Longrightarrow> sorted (map key (drain n s)) \<and> mset (drain n s) = elems s"
proof (induction n arbitrary: s)
  case (Suc n)
  show ?case
  proof (cases "take_least s")
    case None
    with take_None [OF Suc.prems(1)] show ?thesis by simp
  next
    case (Some xs')
    then obtain x s' where t: "take_least s = Some (x, s')" by (cases xs') simp
    note step = take_Some [OF Suc.prems(1) t]
    with Suc.prems(2) Suc.IH [of s'] have IH: "sorted (map key (drain n s'))" "mset (drain n s') = elems s'"
      by simp_all
    from IH(2) step have "\<forall>y \<in> set (drain n s'). key x \<le> key y" by (metis insertCI set_mset_add_mset_insert set_mset_mset)
    with IH t step show ?thesis by simp
  qed
qed simp

end

section \<open>The operations keep the heap\<close>

definition pq_ok :: "store \<Rightarrow> PromisingQueue \<Rightarrow> bool" where
  "pq_ok mem q \<longleftrightarrow> is_heap (priority_in mem) (pq_entries q)"

definition pq_mset :: "PromisingQueue \<Rightarrow> ptr multiset" where
  "pq_mset q = mset (pq_entries q)"

lemma enqueue_heap:
  assumes "is_heap pr xs"
  shows "is_heap pr (heapify_up pr (xs @ [c]) (length xs))"
proof (rule heapify_up_heap)
  have "edge_ok pr (xs @ [c]) j" if "0 < j" "j < length xs" for j
    using assms that parent_less [of j] by (simp add: is_heap_def edge_ok_def nth_append)
  moreover have "bridged pr (xs @ [c]) (length xs)"
    unfolding bridged_def
  proof (intro allI impI)
    fix j assume "0 < j \<and> j < length (xs @ [c]) \<and> parent_of j = length xs \<and> 0 < length xs"
    then show "pr ((xs @ [c]) ! parent_of (length xs)) \<le> pr ((xs @ [c]) ! j)"
      using parent_less [of j] by simp
  qed
  ultimately show "up_hole pr (xs @ [c]) (length xs)" by (auto simp: up_hole_def less_Suc_eq)
qed simp

lemma dequeue_heap:
  assumes "is_heap pr xs" and "Suc 0 < length xs"
  shows "is_heap pr (heapify_down pr (drop_entry xs 0) 0)"
proof (rule heapify_down_heap)
  have "hole pr (drop_entry xs 0) 0"
    by (rule heap_replace_hole [OF assms(1)]) (simp_all add: drop_entry_nth)
  then show "down_hole pr (drop_entry xs 0) 0" by (auto simp: hole_def down_hole_def)
qed (use assms(2) in simp)

lemma enqueue_result:
  assumes "pq_ok mem q" and "\<not> pq_shutdown q" and "alloc_ok \<or> length (pq_entries q) \<noteq> pq_capacity q"
  shows "\<exists>q'. promising_queue_enqueue alloc_ok mem (Some q) (Some c) = (ERASECURE_SUCCESS, Some q')
    \<and> pq_ok mem q' \<and> pq_mset q' = add_mset c (pq_mset q) \<and> \<not> pq_shutdown q'"
  using assms enqueue_heap [of "priority_in mem" "pq_entries q" c]
    heapify_up_mset [of "length (pq_entries q)" "pq_entries q @ [c]" "priority_in mem"]
  by (auto simp: promising_queue_enqueue_def Let_def pq_ok_def pq_mset_def)

lemma dequeue_result:
  assumes "pq_ok mem q" and "pq_entries q \<noteq> []"
  shows "\<exists>c q'. promising_queue_dequeue mem (Some q) (Some out) = Some (ERASECURE_SUCCESS, Some q', Some (Some c))
    \<and> pq_ok mem q' \<and> pq_mset q = add_mset c (pq_mset q') \<and> pq_shutdown q' = pq_shutdown q
    \<and> (\<forall>y \<in># pq_mset q. priority_in mem c \<le> priority_in mem y)"
proof -
  let ?xs = "drop_entry (pq_entries q) 0"
  let ?ys = "if length ?xs > 0 then heapify_down (priority_in mem) ?xs 0 else ?xs"
  have heap: "is_heap (priority_in mem) (pq_entries q)" using assms(1) by (simp add: pq_ok_def)
  have "is_heap (priority_in mem) ?ys"
    using dequeue_heap [OF heap] by (simp add: is_heap_def)
  moreover have "mset ?ys = mset ?xs" using heapify_down_mset [of 0 ?xs "priority_in mem"] by simp
  moreover have "mset (pq_entries q) = add_mset (pq_entries q ! 0) (mset ?xs)"
    using mset_drop_entry assms(2) by blast
  moreover have "\<forall>y \<in># pq_mset q. priority_in mem (pq_entries q ! 0) \<le> priority_in mem y"
    using heap_root_least [OF heap] by (auto simp: pq_mset_def in_set_conv_nth)
  moreover have "promising_queue_dequeue mem (Some q) (Some out) = Some (ERASECURE_SUCCESS,
      Some (q\<lparr>pq_entries := ?ys\<rparr>), Some (Some (pq_entries q ! 0)))"
    using assms(2) by (simp only: promising_queue_dequeue_def Let_def option.case prod.case) simp
  ultimately show ?thesis by (auto simp: pq_ok_def pq_mset_def)
qed

lemma find_uuid_Some:
  "find_uuid mem u ps = Some i \<longleftrightarrow>
     i < length ps \<and> cs_uuid (mem (ps ! i)) = u \<and> (\<forall>j < i. cs_uuid (mem (ps ! j)) \<noteq> u)"
proof (induction ps arbitrary: i)
  case (Cons p ps)
  show ?case
  proof (cases i)
    case (Suc k)
    with Cons [of k] show ?thesis by (auto simp: less_Suc_eq_0_disj)
  qed simp
qed simp

lemma find_uuid_None: "find_uuid mem u ps = None \<longleftrightarrow> (\<forall>p \<in> set ps. cs_uuid (mem p) \<noteq> u)"
  by (induction ps) auto

text \<open>The queue as a minimum queue, for every store.\<close>

definition pq_put :: "store \<Rightarrow> PromisingQueue \<Rightarrow> ptr \<Rightarrow> PromisingQueue" where
  "pq_put mem q c = the_default q (snd (promising_queue_enqueue True mem (Some q) (Some c)))"

definition pq_take :: "store \<Rightarrow> PromisingQueue \<Rightarrow> (ptr \<times> PromisingQueue) option" where
  "pq_take mem q =
     (case promising_queue_dequeue mem (Some q) (Some None) of
        Some (ERASECURE_OK, Some q', Some (Some c)) \<Rightarrow> Some (c, q')
      | _ \<Rightarrow> None)"

definition pq_open :: "store \<Rightarrow> PromisingQueue \<Rightarrow> bool" where
  "pq_open mem q \<longleftrightarrow> pq_ok mem q \<and> \<not> pq_shutdown q"

interpretation pq: min_queue "pq_open mem" pq_mset "priority_in mem" "pq_put mem" "pq_take mem"
  for mem :: store
proof
  fix s x
  assume "pq_open mem s"
  then show "pq_open mem (pq_put mem s x) \<and> pq_mset (pq_put mem s x) = add_mset x (pq_mset s)"
    using enqueue_result [of mem s True x] by (auto simp: pq_open_def pq_put_def)
next
  fix s
  assume s: "pq_open mem s"
  show "pq_take mem s = None \<longleftrightarrow> pq_mset s = {#}"
  proof (cases "pq_entries s = []")
    case True
    with s show ?thesis by (simp add: pq_take_def promising_queue_dequeue_def pq_open_def pq_mset_def)
  next
    case False
    with s dequeue_result [of mem s None] show ?thesis
      by (auto simp: pq_take_def pq_open_def pq_mset_def)
  qed
next
  fix s x s'
  assume s: "pq_open mem s" and t: "pq_take mem s = Some (x, s')"
  have "pq_entries s \<noteq> []"
    using s t by (auto simp: pq_take_def promising_queue_dequeue_def pq_open_def)
  with s t dequeue_result [of mem s None]
  show "pq_open mem s' \<and> pq_mset s = add_mset x (pq_mset s')
      \<and> (\<forall>y \<in># pq_mset s. priority_in mem x \<le> priority_in mem y)"
    by (auto simp: pq_take_def pq_open_def)
qed


text \<open>Enqueuing a list and dequeuing until the queue is empty.\<close>

primrec enqueue_all :: "store \<Rightarrow> PromisingQueue \<Rightarrow> ptr list \<Rightarrow> PromisingQueue" where
  "enqueue_all mem q [] = q"
| "enqueue_all mem q (c # cs) =
     enqueue_all mem (the_default q (snd (promising_queue_enqueue True mem (Some q) (Some c)))) cs"

primrec dequeue_n :: "store \<Rightarrow> nat \<Rightarrow> PromisingQueue \<Rightarrow> ptr list" where
  "dequeue_n mem 0 q = []"
| "dequeue_n mem (Suc n) q =
     (case promising_queue_dequeue mem (Some q) (Some None) of
        Some (e, Some q', Some (Some c)) \<Rightarrow>
          if e = ERASECURE_OK then c # dequeue_n mem n q' else []
      | _ \<Rightarrow> [])"

lemma enqueue_all_foldl: "enqueue_all mem q cs = foldl (pq_put mem) q cs"
  by (induction cs arbitrary: q) (simp_all add: pq_put_def)

lemma dequeue_n_drain: "dequeue_n mem n q = pq.drain mem n q"
  by (induction n arbitrary: q)
    (auto simp: pq_take_def split: option.splits prod.splits ErasecureError.splits)

lemma repair_heap:
  assumes "i < length xs" and "hole pr xs i"
  shows "is_heap pr (heapify_up pr (heapify_down pr xs i) i)
    \<and> mset (heapify_up pr (heapify_down pr xs i) i) = mset xs"
proof -
  have m: "mset (heapify_down pr xs i) = mset xs" by (rule heapify_down_mset [OF assms(1)])
  then have "length (heapify_down pr xs i) = length xs" by (metis size_mset)
  with assms(1) have "i < length (heapify_down pr xs i)" by simp
  from heapify_up_mset [OF this, of pr] hole_repaired [OF assms] m show ?thesis by simp
qed

lemma empty_queue_open: "pq_open mem \<lparr>pq_entries = [], pq_capacity = c, pq_shutdown = False\<rparr>"
  by (simp add: pq_open_def pq_ok_def is_heap_def)

section \<open>Properties\<close>

text \<open>
  \<open>promising_queue_dequeue\<close> hands out a candidate of least priority number: on a heap-ordered
  queue that is not empty it succeeds, the candidate it returns is one of the entries and no entry
  has a smaller number, exactly that entry is removed, and the queue stays heap-ordered.
\<close>

theorem dequeue_returns_least:
  assumes heap: "is_heap (priority_in mem) (pq_entries q)" and some: "pq_entries q \<noteq> []"
  shows "\<exists>c q'. promising_queue_dequeue mem (Some q) (Some out)
      = Some (ERASECURE_SUCCESS, Some q', Some (Some c))
    \<and> mset (pq_entries q) = add_mset c (mset (pq_entries q'))
    \<and> (\<forall>y \<in> set (pq_entries q). cs_priority (mem c) \<le> cs_priority (mem y))
    \<and> is_heap (priority_in mem) (pq_entries q')"
  using dequeue_result [of mem q out] heap some
  by (auto simp: pq_ok_def pq_mset_def priority_in_def)

text \<open>A store of four candidates with priorities 30, 10, 20 and 10 for the witnesses.\<close>

definition demo_store :: store where
  "demo_store p = zero_carve_state\<lparr>cs_uuid := dec p, cs_priority := [30, 10, 20, 10] ! (p mod 4)\<rparr>"

definition demo_queue :: PromisingQueue where
  "demo_queue = \<lparr>pq_entries = [1, 0, 2], pq_capacity = 4, pq_shutdown = False\<rparr>"

lemma demo_queue_heap: "is_heap (priority_in demo_store) (pq_entries demo_queue)"
proof -
  have "edge_ok (priority_in demo_store) [1, 0, 2] j" if "j = 1 \<or> j = 2" for j
    using that by (auto simp: edge_ok_def parent_of_def priority_in_def demo_store_def)
  then show ?thesis by (auto simp: is_heap_def demo_queue_def less_Suc_eq numeral_3_eq_3)
qed

theorem dequeue_returns_least_witness:
  "\<exists>c q'. promising_queue_dequeue demo_store (Some demo_queue) (Some None)
      = Some (ERASECURE_SUCCESS, Some q', Some (Some c)) \<and> cs_priority (demo_store c) \<le> 10
    \<and> is_heap (priority_in demo_store) (pq_entries q')"
proof -
  have "pq_entries demo_queue \<noteq> []" "1 \<in> set (pq_entries demo_queue)"
    "cs_priority (demo_store 1) = 10" by (simp_all add: demo_queue_def demo_store_def)
  with dequeue_returns_least [OF demo_queue_heap, of None] show ?thesis by metis
qed

text \<open>
  C20. The queue sorts: whatever candidates are enqueued into a fresh queue, dequeuing them all
  returns exactly these candidates, each as often as it was enqueued, in order of non-decreasing
  priority number.
\<close>

theorem queue_sorts:
  "\<exists>q. promising_queue_init True (Some q0) cap = (ERASECURE_SUCCESS, Some q)
    \<and> mset (dequeue_n mem (length cs) (enqueue_all mem q cs)) = mset cs
    \<and> sorted (map (\<lambda>c. cs_priority (mem c)) (dequeue_n mem (length cs) (enqueue_all mem q cs)))"
proof -
  obtain q where q: "promising_queue_init True (Some q0) cap = (ERASECURE_SUCCESS, Some q)"
    and empty: "pq_open mem q" "pq_mset q = {#}"
    using empty_queue_open by (auto simp: promising_queue_init_def pq_mset_def)
  from pq.put_all_inv [OF empty(1), of cs] empty(2)
  have full: "pq_open mem (enqueue_all mem q cs)" "pq_mset (enqueue_all mem q cs) = mset cs"
    by (simp_all add: enqueue_all_foldl)
  have "(\<lambda>c. cs_priority (mem c)) = priority_in mem" by (simp add: fun_eq_iff priority_in_def)
  with pq.drain_sorted [OF full(1), of "length cs"] full(2) q show ?thesis
    by (auto simp: dequeue_n_drain)
qed

text \<open>
  C38. Removing by identifier is exact: on a heap-ordered queue \<open>promising_queue_remove\<close> fails with
  \<open>NOT_FOUND\<close> and changes nothing when no entry has the identifier; otherwise it removes exactly one
  entry, and that entry has the identifier, every other entry stays, and the queue stays heap-ordered.
\<close>

theorem queue_remove_exact:
  assumes heap: "is_heap (priority_in mem) (pq_entries q)"
  shows "if \<exists>p \<in> set (pq_entries q). cs_uuid (mem p) = u
    then (\<exists>c q'. promising_queue_remove mem (Some q) (Some u) = (ERASECURE_SUCCESS, Some q')
           \<and> cs_uuid (mem c) = u \<and> mset (pq_entries q) = add_mset c (mset (pq_entries q'))
           \<and> is_heap (priority_in mem) (pq_entries q'))
    else promising_queue_remove mem (Some q) (Some u) = (ERASECURE_ERROR_NOT_FOUND, Some q)"
proof (cases "find_uuid mem u (pq_entries q)")
  case None
  then have "\<forall>p \<in> set (pq_entries q). cs_uuid (mem p) \<noteq> u" by (simp add: find_uuid_None)
  with None show ?thesis by (simp add: promising_queue_remove_def)
next
  case (Some i)
  let ?xs = "drop_entry (pq_entries q) i" and ?pr = "priority_in mem"
  let ?ys = "if i < length ?xs then heapify_up ?pr (heapify_down ?pr ?xs i) i else ?xs"
  have i: "i < length (pq_entries q)" "cs_uuid (mem (pq_entries q ! i)) = u"
    using Some by (simp_all add: find_uuid_Some)
  have "hole ?pr ?xs i"
    by (rule heap_replace_hole [OF heap]) (simp_all add: drop_entry_nth)
  from repair_heap [OF _ this] have fixed: "i < length ?xs \<Longrightarrow> is_heap ?pr ?ys \<and> mset ?ys = mset ?xs" by simp
  have "is_heap ?pr ?ys \<and> mset ?ys = mset ?xs"
  proof (cases "i < length ?xs")
    case False
    then have "i = length (pq_entries q) - 1" using i(1) by simp
    then have "?xs = butlast (pq_entries q)" by (simp add: drop_entry_def butlast_list_update)
    with False heap_butlast [OF heap] show ?thesis by simp
  qed (use fixed in blast)
  moreover have "mset (pq_entries q) = add_mset (pq_entries q ! i) (mset ?xs)"
    by (rule mset_drop_entry [OF i(1)])
  moreover have "promising_queue_remove mem (Some q) (Some u) = (ERASECURE_SUCCESS, Some (q\<lparr>pq_entries := ?ys\<rparr>))"
    by (simp add: promising_queue_remove_def Some Let_def)
  moreover have "\<exists>p \<in> set (pq_entries q). cs_uuid (mem p) = u" using i by auto
  ultimately show ?thesis using i(2) by auto
qed

theorem queue_remove_exact_witness:
  "\<exists>c q'. promising_queue_remove demo_store (Some demo_queue) (Some (dec 0)) = (ERASECURE_SUCCESS, Some q')
    \<and> mset (pq_entries demo_queue) = add_mset c (mset (pq_entries q'))"
proof -
  have "\<exists>p \<in> set (pq_entries demo_queue). cs_uuid (demo_store p) = dec 0"
    by (auto simp: demo_queue_def demo_store_def)
  with queue_remove_exact [OF demo_queue_heap, of "dec 0"] show ?thesis by auto
qed

text \<open>
  C21. Changing a priority reorders the queue correctly when no candidate is queued twice: after
  \<open>promising_queue_update_priority\<close> finds the identifier, the same entries are in the queue, the
  queue is heap-ordered for the new priorities, and only the priority of one candidate, the first
  with that identifier, has changed in the store.
\<close>

theorem update_priority_keeps_heap:
  assumes heap: "is_heap (priority_in mem) (pq_entries q)" and dist: "distinct (pq_entries q)"
    and found: "\<exists>p \<in> set (pq_entries q). cs_uuid (mem p) = u"
  shows "\<exists>p q'. p \<in> set (pq_entries q) \<and> cs_uuid (mem p) = u
    \<and> promising_queue_update_priority mem (Some q) (Some u) n
        = (ERASECURE_SUCCESS, Some q', mem(p := (mem p)\<lparr>cs_priority := n\<rparr>))
    \<and> mset (pq_entries q') = mset (pq_entries q)
    \<and> is_heap (priority_in (mem(p := (mem p)\<lparr>cs_priority := n\<rparr>))) (pq_entries q')"
proof -
  obtain i where i: "find_uuid mem u (pq_entries q) = Some i"
    using found by (cases "find_uuid mem u (pq_entries q)") (auto simp: find_uuid_None)
  define p where "p = pq_entries q ! i"
  define mem' where "mem' = mem(p := (mem p)\<lparr>cs_priority := n\<rparr>)"
  let ?xs = "pq_entries q" and ?pr = "priority_in mem'"
  have len: "i < length ?xs" and uuid: "cs_uuid (mem p) = u"
    using i by (simp_all add: find_uuid_Some p_def)
  have other: "?pr (?xs ! k) = priority_in mem (?xs ! k)" if "k < length ?xs" "k \<noteq> i" for k
    using that len dist by (auto simp: mem'_def p_def priority_in_def nth_eq_iff_index_eq)
  have edge: "priority_in mem (?xs ! parent_of j) \<le> priority_in mem (?xs ! j)"
    if "0 < j" "j < length ?xs" for j using heap that by (simp add: is_heap_def edge_ok_def)
  have "hole ?pr ?xs i"
    unfolding hole_def bridged_def edge_ok_def
  proof (intro conjI allI impI)
    fix j assume j: "0 < j \<and> j < length ?xs \<and> parent_of j = i \<and> 0 < i"
    then have ij: "i < j" "parent_of i < i" using parent_less [of j] parent_less [of i] by auto
    have "priority_in mem (?xs ! parent_of i) \<le> priority_in mem (?xs ! j)"
      using edge [of i] edge [of j] j len by simp
    then show "?pr (?xs ! parent_of i) \<le> ?pr (?xs ! j)" using ij j other by simp
  next
    fix j assume j: "0 < j \<and> j < length ?xs \<and> j \<noteq> i \<and> parent_of j \<noteq> i"
    then show "?pr (?xs ! parent_of j) \<le> ?pr (?xs ! j)"
      using edge [of j] other parent_less [of j] by simp
  qed
  from repair_heap [OF len this] have
    "is_heap ?pr (heapify_up ?pr (heapify_down ?pr ?xs i) i)"
    "mset (heapify_up ?pr (heapify_down ?pr ?xs i) i) = mset ?xs" by blast+
  moreover have "promising_queue_update_priority mem (Some q) (Some u) n = (ERASECURE_SUCCESS,
      Some (q\<lparr>pq_entries := heapify_up ?pr (heapify_down ?pr ?xs i) i\<rparr>), mem')"
    by (simp add: promising_queue_update_priority_def i Let_def p_def [symmetric] mem'_def [symmetric])
  moreover have "p \<in> set ?xs" using len by (simp add: p_def)
  ultimately show ?thesis using uuid unfolding mem'_def by (metis PromisingQueue.select_convs(1) PromisingQueue.surjective PromisingQueue.update_convs(1))
qed

theorem update_priority_keeps_heap_witness:
  "\<exists>q' mem'. promising_queue_update_priority demo_store (Some demo_queue) (Some (dec 0)) 5
      = (ERASECURE_SUCCESS, Some q', mem') \<and> is_heap (priority_in mem') (pq_entries q')"
proof -
  have "\<exists>p \<in> set (pq_entries demo_queue). cs_uuid (demo_store p) = dec 0"
    by (auto simp: demo_queue_def demo_store_def)
  from update_priority_keeps_heap [OF demo_queue_heap _ this, of 5] show ?thesis
    by (auto simp: demo_queue_def)
qed

text \<open>
  A dequeue waits only for an open empty queue: it does not return exactly when the queue has no
  entry and is not shut down; after a shutdown the remaining entries are still handed out and only
  then the caller is told that nothing is left, while every enqueue is refused.
\<close>

theorem dequeue_waits_only_when_open_and_empty:
  "(promising_queue_dequeue mem (Some q) (Some out) = None \<longleftrightarrow> pq_entries q = [] \<and> \<not> pq_shutdown q)
   \<and> (pq_shutdown q \<longrightarrow>
        promising_queue_enqueue ok mem (Some q) (Some c) = (ERASECURE_ERROR_INVALID_STATE, Some q)
        \<and> ((\<exists>q'. promising_queue_dequeue mem (Some q) (Some out)
              = Some (ERASECURE_ERROR_NOT_FOUND, Some q', Some out)) \<longleftrightarrow> pq_entries q = []))"
  by (auto simp: promising_queue_dequeue_def promising_queue_enqueue_def Let_def)

theorem dequeue_waits_only_when_open_and_empty_witness:
  "promising_queue_enqueue True demo_store (promising_queue_shutdown (Some demo_queue)) (Some 3)
     = (ERASECURE_ERROR_INVALID_STATE, promising_queue_shutdown (Some demo_queue))"
  using dequeue_waits_only_when_open_and_empty [of demo_store "demo_queue\<lparr>pq_shutdown := True\<rparr>" None True 3]
  by (simp add: promising_queue_shutdown_def)

end
