(* ===== verification/Block_State.thy ===== *)
theory Block_State
  imports Errors
begin

text \<open>
  Per-block recovery state and its binary form, \<open>include/recovery/block_state.h\<close> and
  \<open>src/recovery/block_state.c\<close>. Integers are stored in the byte order of the machine (little
  endian). A buffer is the list of the bytes of the object a pointer points to; \<open>None\<close> as an outcome
  stands for an access outside it or through a NULL pointer.
\<close>

section \<open>Data\<close>

text \<open>
  The last constructor holds a value outside the enumeration, which the cast in
  \<open>block_state_deserialize\<close> lets in.
\<close>

datatype BlockValidation =
    BLOCK_VALIDATION_UNKNOWN | BLOCK_VALIDATION_INVALID | BLOCK_VALIDATION_VALID
  | Validation_Value nat

fun validation_code :: "BlockValidation \<Rightarrow> nat" where
  "validation_code BLOCK_VALIDATION_UNKNOWN = 0"
| "validation_code BLOCK_VALIDATION_INVALID = 1"
| "validation_code BLOCK_VALIDATION_VALID = 2"
| "validation_code (Validation_Value n) = n"

definition validation_of :: "nat \<Rightarrow> BlockValidation" where
  "validation_of n = (if n = 0 then BLOCK_VALIDATION_UNKNOWN else if n = 1 then BLOCK_VALIDATION_INVALID
     else if n = 2 then BLOCK_VALIDATION_VALID else Validation_Value n)"

text \<open>\<open>bks_file_type\<close> is the raw array of 32 bytes.\<close>

record BlockState =
  bks_block_number :: nat
  bks_confidence :: nat
  bks_validation :: BlockValidation
  bks_file_type :: "byte list"
  bks_format_data :: "byte list option"
  bks_format_data_len :: nat
  bks_offset_in_file :: nat
  bks_crc32 :: nat
  bks_crc_valid :: bool

definition zero_block_state :: BlockState where
  "zero_block_state =
     \<lparr>bks_block_number = 0, bks_confidence = 0, bks_validation = BLOCK_VALIDATION_UNKNOWN,
      bks_file_type = replicate 32 0, bks_format_data = None, bks_format_data_len = 0,
      bks_offset_in_file = 0, bks_crc32 = 0, bks_crc_valid = False\<rparr>"

definition BLOCK_STATE_MAGIC :: nat where "BLOCK_STATE_MAGIC = 0x424C4B53"

section \<open>Operations\<close>

definition block_state_create ::
    "BlockState option \<Rightarrow> nat \<Rightarrow> ErasecureError \<times> BlockState option" where
  "block_state_create bs block_number =
     (case bs of None \<Rightarrow> (ERASECURE_ERR_INVALID_ARG, None)
      | Some _ \<Rightarrow> (ERASECURE_OK,
          Some (zero_block_state\<lparr>bks_block_number := block_number, bks_confidence := 0,
                                 bks_validation := BLOCK_VALIDATION_UNKNOWN\<rparr>)))"

definition block_state_free :: "BlockState option \<Rightarrow> BlockState option" where
  "block_state_free bs = map_option (\<lambda>_. zero_block_state) bs"

definition block_state_set_format_data ::
    "bool \<Rightarrow> BlockState option \<Rightarrow> byte list option \<Rightarrow> nat
     \<Rightarrow> (ErasecureError \<times> BlockState option) option" where
  "block_state_set_format_data alloc_ok bs data len =
     (case bs of None \<Rightarrow> Some (ERASECURE_ERR_INVALID_ARG, None)
      | Some b \<Rightarrow>
          if data = None \<and> len > 0 then Some (ERASECURE_ERR_INVALID_ARG, Some b)
          else
            let b1 = b\<lparr>bks_format_data := None, bks_format_data_len := len\<rparr>
            in if len = 0 then Some (ERASECURE_OK, Some b1)
               else if \<not> alloc_ok then Some (ERASECURE_ERR_NO_MEM, Some b1)
               else if length (the data) < len then None
               else Some (ERASECURE_OK, Some (b1\<lparr>bks_format_data := Some (take len (the data))\<rparr>)))"

text \<open>\<open>out\<close> is whether \<open>out_data\<close> is not NULL, \<open>out_len\<close> whether the length pointer is not; the
  result holds the length and the copied bytes.\<close>

definition block_state_get_format_data ::
    "BlockState option \<Rightarrow> bool \<Rightarrow> bool \<Rightarrow> (ErasecureError \<times> nat \<times> byte list) option" where
  "block_state_get_format_data bs out out_len =
     (case bs of None \<Rightarrow> Some (ERASECURE_ERR_INVALID_ARG, 0, [])
      | Some b \<Rightarrow>
          if \<not> out_len then Some (ERASECURE_ERR_INVALID_ARG, 0, [])
          else if out \<and> bks_format_data_len b > 0
          then (case bks_format_data b of
                  None \<Rightarrow> None
                | Some d \<Rightarrow> if length d < bks_format_data_len b then None
                           else Some (ERASECURE_OK, bks_format_data_len b, take (bks_format_data_len b) d))
          else Some (ERASECURE_OK, bks_format_data_len b, []))"

definition BLOCK_STATE_HEADER :: nat where
  \<comment> \<open>the sizes of the fixed fields\<close>
  "BLOCK_STATE_HEADER = 4 + 8 + 4 + 4 + 32 + 8 + 4 + 1 + 8"

definition header_bytes :: "BlockState \<Rightarrow> byte list" where
  "header_bytes b =
     le_bytes 4 BLOCK_STATE_MAGIC @ le_bytes 8 (bks_block_number b) @ le_bytes 4 (bks_confidence b)
     @ le_bytes 4 (validation_code (bks_validation b)) @ take 32 (bks_file_type b)
     @ le_bytes 8 (bks_offset_in_file b) @ le_bytes 4 (bks_crc32 b)
     @ le_bytes 1 (if bks_crc_valid b then 1 else 0) @ le_bytes 8 (bks_format_data_len b)"

definition block_state_serialize ::
    "BlockState option \<Rightarrow> byte list option \<Rightarrow> nat \<Rightarrow> bool
     \<Rightarrow> (ErasecureError \<times> byte list option \<times> nat option) option" where
  "block_state_serialize bs buf buf_len written =
     (case (bs, buf) of
        (Some b, Some mem) \<Rightarrow>
          if \<not> written then Some (ERASECURE_ERR_INVALID_ARG, buf, None)
          else if buf_len < wrap64 (BLOCK_STATE_HEADER + bks_format_data_len b)
          then Some (ERASECURE_ERR_INVALID_ARG, buf, None)
          else
            (let fd_len = bks_format_data_len b;
                 payload = (if fd_len > 0
                            then (case bks_format_data b of None \<Rightarrow> None
                                  | Some d \<Rightarrow> if length d < fd_len then None else Some (take fd_len d))
                            else Some [])
             in case payload of None \<Rightarrow> None
                | Some p \<Rightarrow>
                    if length mem < BLOCK_STATE_HEADER + fd_len then None
                    else Some (ERASECURE_OK, Some (write_at mem 0 (header_bytes b @ p)),
                               Some (BLOCK_STATE_HEADER + fd_len)))
      | _ \<Rightarrow> Some (ERASECURE_ERR_INVALID_ARG, buf, None))"

text \<open>\<open>memcpy(&x, ptr, n)\<close> at an offset of the buffer.\<close>

definition field :: "byte list \<Rightarrow> nat \<Rightarrow> nat \<Rightarrow> nat" where
  "field buf off n = le_value (take n (drop off buf))"

text \<open>The state after the fixed fields have been read.\<close>

definition read_header :: "byte list \<Rightarrow> BlockState" where
  "read_header buf =
     zero_block_state
       \<lparr>bks_block_number := field buf 4 8, bks_confidence := field buf 12 4,
        bks_validation := validation_of (field buf 16 4), bks_file_type := take 32 (drop 20 buf),
        bks_offset_in_file := field buf 52 8, bks_crc32 := field buf 60 4,
        bks_crc_valid := (field buf 64 1 \<noteq> 0)\<rparr>"

definition block_state_deserialize ::
    "bool \<Rightarrow> BlockState option \<Rightarrow> byte list option \<Rightarrow> nat
     \<Rightarrow> (ErasecureError \<times> BlockState option) option" where
  "block_state_deserialize alloc_ok bs buf buf_len =
     (case (bs, buf) of
        (Some b, Some mem) \<Rightarrow>
          if buf_len < 4 then Some (ERASECURE_ERR_INVALID_ARG, bs)
          else if length mem < 4 then None
          else if field mem 0 4 \<noteq> BLOCK_STATE_MAGIC then Some (ERASECURE_ERR_INVALID_ARG, bs)
          else if length mem < BLOCK_STATE_HEADER then None
          else
            let b1 = read_header mem; fd_len = field mem 65 8
            in if fd_len = 0 then Some (ERASECURE_OK, Some b1)
               else if wrap64 (BLOCK_STATE_HEADER + fd_len) > buf_len
               then Some (ERASECURE_ERR_INVALID_ARG, Some b1)
               else if \<not> alloc_ok then Some (ERASECURE_ERR_NO_MEM, Some b1)
               else if length mem < BLOCK_STATE_HEADER + fd_len then None
               else Some (ERASECURE_OK,
                      Some (b1\<lparr>bks_format_data := Some (take fd_len (drop BLOCK_STATE_HEADER mem)),
                               bks_format_data_len := fd_len\<rparr>))
      | _ \<Rightarrow> Some (ERASECURE_ERR_INVALID_ARG, bs))"

section \<open>Lemmas\<close>

text \<open>States that the C types can hold.\<close>

definition block_state_wf :: "BlockState \<Rightarrow> bool" where
  "block_state_wf b \<longleftrightarrow>
     bks_block_number b < 2 ^ 64 \<and> bks_confidence b < 2 ^ 32
     \<and> validation_code (bks_validation b) < 2 ^ 32
     \<and> validation_of (validation_code (bks_validation b)) = bks_validation b
     \<and> length (bks_file_type b) = 32 \<and> bks_offset_in_file b < 2 ^ 64 \<and> bks_crc32 b < 2 ^ 32
     \<and> BLOCK_STATE_HEADER + bks_format_data_len b < 2 ^ 64
     \<and> bks_format_data b = (if bks_format_data_len b = 0 then None else bks_format_data b)
     \<and> (bks_format_data_len b > 0 \<longrightarrow>
          (\<exists>d. bks_format_data b = Some d \<and> length d = bks_format_data_len b))"

lemma length_header_bytes: "length (bks_file_type b) = 32 \<Longrightarrow> length (header_bytes b) = BLOCK_STATE_HEADER"
  by (simp add: header_bytes_def BLOCK_STATE_HEADER_def)

lemma field_le_bytes:
  "length pre = off \<Longrightarrow> v < 256 ^ n \<Longrightarrow> field (pre @ le_bytes n v @ rest) off n = v"
  by (simp add: field_def le_value_le_bytes)

lemma header_fields:
  assumes "block_state_wf b" and "mem = header_bytes b @ rest"
  shows "field mem 0 4 = BLOCK_STATE_MAGIC" "field mem 65 8 = bks_format_data_len b"
    "read_header mem = b\<lparr>bks_format_data := None, bks_format_data_len := 0\<rparr>"
proof -
  let ?M = "le_bytes 4 BLOCK_STATE_MAGIC" and ?B = "le_bytes 8 (bks_block_number b)"
    and ?C = "le_bytes 4 (bks_confidence b)" and ?V = "le_bytes 4 (validation_code (bks_validation b))"
    and ?F = "bks_file_type b" and ?O = "le_bytes 8 (bks_offset_in_file b)"
    and ?R = "le_bytes 4 (bks_crc32 b)" and ?K = "le_bytes 1 (if bks_crc_valid b then 1 else 0)"
    and ?L = "le_bytes 8 (bks_format_data_len b)"
  note wf = assms(1) [unfolded block_state_wf_def BLOCK_STATE_HEADER_def]
  have F: "length ?F = 32" "take 32 ?F = ?F" using wf by simp_all
  have mem: "mem = ?M @ ?B @ ?C @ ?V @ ?F @ ?O @ ?R @ ?K @ ?L @ rest"
    using F by (simp add: assms(2) header_bytes_def)
  show "field mem 0 4 = BLOCK_STATE_MAGIC"
    using field_le_bytes [of "[]" 0 BLOCK_STATE_MAGIC 4] by (simp add: mem BLOCK_STATE_MAGIC_def)
  show "field mem 65 8 = bks_format_data_len b"
    using field_le_bytes [of "?M @ ?B @ ?C @ ?V @ ?F @ ?O @ ?R @ ?K" 65 "bks_format_data_len b" 8 rest] F wf
    by (simp add: mem)
  have "field mem 4 8 = bks_block_number b"
    using field_le_bytes [of ?M 4 "bks_block_number b" 8] wf by (simp add: mem)
  moreover have "field mem 12 4 = bks_confidence b"
    using field_le_bytes [of "?M @ ?B" 12 "bks_confidence b" 4] wf by (simp add: mem)
  moreover have "field mem 16 4 = validation_code (bks_validation b)"
    using field_le_bytes [of "?M @ ?B @ ?C" 16 "validation_code (bks_validation b)" 4] wf by (simp add: mem)
  moreover have "take 32 (drop 20 mem) = ?F" using F by (simp add: mem)
  moreover have "field mem 52 8 = bks_offset_in_file b"
    using field_le_bytes [of "?M @ ?B @ ?C @ ?V @ ?F" 52 "bks_offset_in_file b" 8] F wf by (simp add: mem)
  moreover have "field mem 60 4 = bks_crc32 b"
    using field_le_bytes [of "?M @ ?B @ ?C @ ?V @ ?F @ ?O" 60 "bks_crc32 b" 4] F wf by (simp add: mem)
  moreover have "field mem 64 1 = (if bks_crc_valid b then 1 else 0)"
    using field_le_bytes [of "?M @ ?B @ ?C @ ?V @ ?F @ ?O @ ?R" 64 "if bks_crc_valid b then 1 else 0" 1] F
    by (simp add: mem)
  ultimately show "read_header mem = b\<lparr>bks_format_data := None, bks_format_data_len := 0\<rparr>"
    using wf by (simp add: read_header_def zero_block_state_def)
qed


section \<open>Properties\<close>

text \<open>
  C26. A block state survives its binary form: serializing a well-formed state into a buffer that is
  large enough succeeds, and deserializing the buffer, whatever follows the record in it, gives the
  same state back.
\<close>

theorem block_state_roundtrip:
  assumes wf: "block_state_wf b"
    and size: "BLOCK_STATE_HEADER + bks_format_data_len b \<le> length mem" "length mem < 2 ^ 64"
  shows "\<exists>mem'. block_state_serialize (Some b) (Some mem) (length mem) True
        = Some (ERASECURE_OK, Some mem', Some (BLOCK_STATE_HEADER + bks_format_data_len b))
    \<and> length mem' = length mem
    \<and> block_state_deserialize True (Some b0) (Some mem') (length mem') = Some (ERASECURE_OK, Some b)"
proof -
  define p where "p = the_default [] (bks_format_data b)"
  have p: "length p = bks_format_data_len b" "bks_format_data b = (if bks_format_data_len b = 0 then None else Some p)"
    using wf by (auto simp: block_state_wf_def p_def split: if_splits)
  have hdr: "length (header_bytes b) = BLOCK_STATE_HEADER"
    using wf by (simp add: block_state_wf_def length_header_bytes)
  define mem' where "mem' = write_at mem 0 (header_bytes b @ p)"
  define rest where "rest = drop (BLOCK_STATE_HEADER + bks_format_data_len b) mem"
  have mem': "mem' = header_bytes b @ (p @ rest)" by (simp add: mem'_def write_at_def hdr p(1) rest_def)
  have len: "length mem' = length mem" using size(1) hdr p(1) by (simp add: mem'_def)
  have "block_state_serialize (Some b) (Some mem) (length mem) True
      = Some (ERASECURE_OK, Some mem', Some (BLOCK_STATE_HEADER + bks_format_data_len b))"
  proof (cases "bks_format_data_len b = 0")
    case True
    with size p(1) show ?thesis by (simp add: block_state_serialize_def mem'_def)
  next
    case False
    then have "bks_format_data b = Some p" using p(2) by simp
    with False size p(1) show ?thesis by (simp add: block_state_serialize_def mem'_def)
  qed
  moreover have "block_state_deserialize True (Some b0) (Some mem') (length mem') = Some (ERASECURE_OK, Some b)"
  proof -
    note h = header_fields [OF wf mem']
    have "take (bks_format_data_len b) (drop BLOCK_STATE_HEADER mem') = p"
      by (simp add: mem' hdr p(1))
    moreover have "4 \<le> length mem'" "BLOCK_STATE_HEADER \<le> length mem'"
      "BLOCK_STATE_HEADER + bks_format_data_len b \<le> length mem'"
      using size(1) len by (simp_all add: BLOCK_STATE_HEADER_def)
    ultimately show ?thesis
      using p(2) size(2) len by (auto simp: block_state_deserialize_def Let_def h)
  qed
  ultimately show ?thesis using len by blast
qed

definition demo_block_state :: BlockState where
  "demo_block_state = zero_block_state\<lparr>bks_block_number := 7, bks_confidence := 90,
     bks_validation := BLOCK_VALIDATION_VALID, bks_format_data := Some [1, 2], bks_format_data_len := 2\<rparr>"

theorem block_state_roundtrip_witness:
  "\<exists>mem'. block_state_serialize (Some demo_block_state) (Some (replicate 100 0)) 100 True
      = Some (ERASECURE_OK, Some mem', Some 75)
    \<and> block_state_deserialize True (Some zero_block_state) (Some mem') 100
      = Some (ERASECURE_OK, Some demo_block_state)"
proof -
  have wf: "block_state_wf demo_block_state"
    by (simp add: block_state_wf_def demo_block_state_def zero_block_state_def validation_of_def
        BLOCK_STATE_HEADER_def)
  have size: "BLOCK_STATE_HEADER + bks_format_data_len demo_block_state = 75"
    by (simp add: BLOCK_STATE_HEADER_def demo_block_state_def)
  have "length (replicate 100 (0 :: byte)) = 100" by simp
  with block_state_roundtrip [OF wf, of "replicate 100 0" zero_block_state] size show ?thesis by auto
qed

text \<open>
  Deserializing trusts the buffer's length too little too late: only four bytes are checked for,
  so a record that is cut off anywhere inside its fixed fields (a buffer of 4 to 72 bytes that starts
  with the magic number) makes \<open>block_state_deserialize\<close> read past the end of the buffer.
\<close>

theorem deserialize_reads_past_end:
  assumes len: "4 \<le> length mem" "length mem < BLOCK_STATE_HEADER"
    and magic: "take 4 mem = le_bytes 4 BLOCK_STATE_MAGIC"
  shows "block_state_deserialize alloc_ok (Some b) (Some mem) (length mem) = None"
proof -
  have "field mem 0 4 = BLOCK_STATE_MAGIC"
    using magic le_value_le_bytes [of BLOCK_STATE_MAGIC 4] by (simp add: field_def BLOCK_STATE_MAGIC_def)
  with len show ?thesis by (simp add: block_state_deserialize_def)
qed

theorem deserialize_reads_past_end_witness:
  "block_state_deserialize True (Some zero_block_state) (Some (le_bytes 4 BLOCK_STATE_MAGIC)) 4 = None"
  using deserialize_reads_past_end [of "le_bytes 4 BLOCK_STATE_MAGIC" True zero_block_state]
  by (simp add: BLOCK_STATE_HEADER_def)

text \<open>
  A failed allocation leaves a broken state: when \<open>block_state_set_format_data\<close> runs out of
  memory it returns an error, but the state keeps the new length without data, and reading the data
  back dereferences the NULL pointer, as does serializing the state into a large enough buffer.
\<close>

theorem set_format_data_out_of_memory:
  assumes len: "0 < n" and fits: "BLOCK_STATE_HEADER + n \<le> buf_len" "buf_len < 2 ^ 64"
  shows "\<exists>b'. block_state_set_format_data False (Some b) (Some d) n = Some (ERASECURE_ERR_NO_MEM, Some b')
    \<and> bks_format_data_len b' = n \<and> bks_format_data b' = None
    \<and> block_state_get_format_data (Some b') True True = None
    \<and> block_state_serialize (Some b') (Some mem) buf_len True = None"
  using assms
  by (simp add: block_state_set_format_data_def block_state_get_format_data_def
      block_state_serialize_def Let_def)

theorem set_format_data_out_of_memory_witness:
  "\<exists>b'. block_state_set_format_data False (Some zero_block_state) (Some [5]) 1
      = Some (ERASECURE_ERR_NO_MEM, Some b') \<and> block_state_get_format_data (Some b') True True = None"
  using set_format_data_out_of_memory [of 1 100 zero_block_state "[5]"]
  by (auto simp: BLOCK_STATE_HEADER_def)

end
