(* ===== verification/File_Mirror.thy ===== *)
theory File_Mirror
  imports Crypto
begin

text \<open>
  The read-only view of an evidence image, \<open>include/recovery/file_mirror.h\<close> and
  \<open>src/recovery/file_mirror.c\<close>: blocks that have been recovered are covered, the others are numbered
  consecutively as apparent blocks. The bytes behind the descriptor and the answers of \<open>open\<close>,
  \<open>fstat\<close> and \<open>calloc\<close> are arguments. The source calls \<open>hash_digest_to_hex\<close> without the length of
  the digest, which its declaration does not allow; the model renders the 32 bytes of the digest.
\<close>

section \<open>Data\<close>

record FileMirror =
  fm_fd :: int
  fm_image_size :: nat
  fm_block_size :: nat
  fm_total_blocks :: nat
  fm_image_path :: string
  fm_evidence_hash :: string
  fm_hash_verified :: bool
  fm_covered_mask :: "bool list option"
  fm_apparent_blocks :: nat

definition zero_file_mirror :: FileMirror where
  "zero_file_mirror =
     \<lparr>fm_fd = 0, fm_image_size = 0, fm_block_size = 0, fm_total_blocks = 0, fm_image_path = [],
      fm_evidence_hash = [], fm_hash_verified = False, fm_covered_mask = None, fm_apparent_blocks = 0\<rparr>"

abbreviation NO_BLOCK :: nat where
  \<comment> \<open>\<open>(uint64_t)-1\<close>\<close>
  "NO_BLOCK \<equiv> UINT64_MAX"

definition ERASECURE_SHA256_DIGEST_LEN :: nat where "ERASECURE_SHA256_DIGEST_LEN = 32"

section \<open>Opening, reading, closing\<close>

text \<open>\<open>fd\<close> is what \<open>open\<close> returns, \<open>st_size\<close> what \<open>fstat\<close> reports, \<open>None\<close> when it fails.\<close>

definition file_mirror_open ::
    "'c evp \<Rightarrow> (string \<Rightarrow> (byte list \<times> bool) option) \<Rightarrow> int \<Rightarrow> nat option \<Rightarrow> bool
     \<Rightarrow> FileMirror option \<Rightarrow> string option \<Rightarrow> nat \<Rightarrow> ErasecureError \<times> FileMirror option" where
  "file_mirror_open sha256 open_read fd stat_size calloc_ok fm image_path block_size =
     (case (fm, image_path) of
        (Some m, Some path) \<Rightarrow>
          if block_size = 0 then (ERASECURE_ERR_INVALID_ARG, fm)
          else if fd < 0 then (ERASECURE_ERR_FILE_NOT_FOUND, Some (zero_file_mirror\<lparr>fm_fd := fd\<rparr>))
          else (case stat_size of
                  None \<Rightarrow> (ERASECURE_ERR_IO, Some (zero_file_mirror\<lparr>fm_fd := fd\<rparr>))
                | Some sz \<Rightarrow>
                    let total_blocks = sz div block_size;
                        m1 = zero_file_mirror\<lparr>fm_fd := fd, fm_image_size := sz,
                               fm_block_size := block_size, fm_total_blocks := total_blocks,
                               fm_apparent_blocks := total_blocks, fm_image_path := cstr 256 path\<rparr>
                    in if \<not> calloc_ok then (ERASECURE_ERR_NO_MEM, Some m1)
                       else
                         let m2 = m1\<lparr>fm_covered_mask := Some (replicate total_blocks False)\<rparr>
                         in case hash_file sha256 open_read (Some path)
                                   (Some (replicate ERASECURE_SHA256_DIGEST_LEN 0)) of
                              (e, digest) \<Rightarrow>
                                (ERASECURE_OK,
                                 Some (if e = ERASECURE_OK
                                       then m2\<lparr>fm_evidence_hash :=
                                                 the_default [] (hash_digest_to_hex digest
                                                   ERASECURE_SHA256_DIGEST_LEN (Some [])),
                                               fm_hash_verified := True\<rparr>
                                       else m2\<lparr>fm_hash_verified := False\<rparr>)))
      | _ \<Rightarrow> (ERASECURE_ERR_INVALID_ARG, fm))"

text \<open>\<open>pread off n\<close> are the bytes a positioned read delivers, \<open>None\<close> when it fails.\<close>

definition file_mirror_read_block ::
    "(nat \<Rightarrow> nat \<Rightarrow> byte list option) \<Rightarrow> FileMirror option \<Rightarrow> nat \<Rightarrow> byte list option
     \<Rightarrow> ErasecureError \<times> byte list option" where
  "file_mirror_read_block pread fm actual_block buf =
     (case (fm, buf) of
        (Some m, Some b) \<Rightarrow>
          if actual_block \<ge> fm_total_blocks m then (ERASECURE_ERR_INVALID_ARG, buf)
          else (case pread (wrap64 (actual_block * fm_block_size m)) (fm_block_size m) of
                  None \<Rightarrow> (ERASECURE_ERR_IO, buf)
                | Some bytes \<Rightarrow>
                    (if length bytes \<noteq> fm_block_size m then ERASECURE_ERR_IO else ERASECURE_OK,
                     Some (write_at b 0 bytes)))
      | _ \<Rightarrow> (ERASECURE_ERR_INVALID_ARG, buf))"

definition file_mirror_close :: "FileMirror option \<Rightarrow> FileMirror option" where
  "file_mirror_close fm = map_option (\<lambda>_. zero_file_mirror\<lparr>fm_fd := -1\<rparr>) fm"

section \<open>Covered blocks\<close>

text \<open>The element of the mask at a block below \<open>total_blocks\<close>.\<close>

definition mask_at :: "FileMirror \<Rightarrow> nat \<Rightarrow> bool" where
  "mask_at m i = (the_default [] (fm_covered_mask m)) ! i"

definition set_mask :: "FileMirror \<Rightarrow> nat \<Rightarrow> bool \<Rightarrow> FileMirror" where
  "set_mask m i v = m\<lparr>fm_covered_mask := map_option (\<lambda>xs. xs[i := v]) (fm_covered_mask m)\<rparr>"

definition file_mirror_mark_covered :: "FileMirror option \<Rightarrow> nat \<Rightarrow> FileMirror option" where
  "file_mirror_mark_covered fm actual_block =
     map_option (\<lambda>m.
       if actual_block < fm_total_blocks m \<and> \<not> mask_at m actual_block
       then let m1 = set_mask m actual_block True
            in if fm_apparent_blocks m1 > 0 then m1\<lparr>fm_apparent_blocks := fm_apparent_blocks m1 - 1\<rparr>
               else m1
       else m) fm"

definition file_mirror_unmark_covered :: "FileMirror option \<Rightarrow> nat \<Rightarrow> FileMirror option" where
  "file_mirror_unmark_covered fm actual_block =
     map_option (\<lambda>m.
       if actual_block < fm_total_blocks m \<and> mask_at m actual_block
       then (set_mask m actual_block False)\<lparr>fm_apparent_blocks := wrap64 (fm_apparent_blocks m + 1)\<rparr>
       else m) fm"

definition file_mirror_is_covered :: "FileMirror option \<Rightarrow> nat \<Rightarrow> bool" where
  "file_mirror_is_covered fm actual_block =
     (case fm of None \<Rightarrow> False
      | Some m \<Rightarrow> if actual_block < fm_total_blocks m then mask_at m actual_block else False)"

section \<open>Apparent block numbers\<close>

text \<open>The search loop over the rest of the mask: \<open>i\<close> is the block number of its head.\<close>

fun find_apparent :: "nat \<Rightarrow> nat \<Rightarrow> nat \<Rightarrow> bool list \<Rightarrow> nat" where
  "find_apparent i apparent_count apparent_block [] = NO_BLOCK"
| "find_apparent i apparent_count apparent_block (covered # cov) =
     (if \<not> covered then
        (if apparent_count = apparent_block then i
         else find_apparent (Suc i) (Suc apparent_count) apparent_block cov)
      else find_apparent (Suc i) apparent_count apparent_block cov)"

definition file_mirror_apparent_to_actual :: "FileMirror option \<Rightarrow> nat \<Rightarrow> nat" where
  "file_mirror_apparent_to_actual fm apparent_block =
     (case fm of None \<Rightarrow> NO_BLOCK
      | Some m \<Rightarrow>
          if apparent_block \<ge> fm_apparent_blocks m then NO_BLOCK
          else find_apparent 0 0 apparent_block
                 (take (fm_total_blocks m) (the_default [] (fm_covered_mask m))))"

fun count_uncovered :: "bool list \<Rightarrow> nat" where
  "count_uncovered [] = 0"
| "count_uncovered (covered # cov) = (if \<not> covered then Suc (count_uncovered cov) else count_uncovered cov)"

definition file_mirror_actual_to_apparent :: "FileMirror option \<Rightarrow> nat \<Rightarrow> nat" where
  "file_mirror_actual_to_apparent fm actual_block =
     (case fm of None \<Rightarrow> NO_BLOCK
      | Some m \<Rightarrow>
          if actual_block \<ge> fm_total_blocks m then NO_BLOCK
          else let apparent_count = count_uncovered (take actual_block (the_default [] (fm_covered_mask m)))
               in if mask_at m actual_block then NO_BLOCK else apparent_count)"

definition file_mirror_read_apparent_block ::
    "(nat \<Rightarrow> nat \<Rightarrow> byte list option) \<Rightarrow> FileMirror option \<Rightarrow> nat \<Rightarrow> byte list option
     \<Rightarrow> nat option \<Rightarrow> ErasecureError \<times> byte list option \<times> nat option" where
  "file_mirror_read_apparent_block pread fm apparent_block buf actual_block_out =
     (case (fm, buf) of
        (Some m, Some b) \<Rightarrow>
          if apparent_block \<ge> fm_apparent_blocks m then (ERASECURE_ERR_INVALID_ARG, buf, actual_block_out)
          else
            let actual_block = file_mirror_apparent_to_actual fm apparent_block
            in if actual_block = NO_BLOCK then (ERASECURE_ERR_INVALID_ARG, buf, actual_block_out)
               else (case file_mirror_read_block pread fm actual_block buf of
                       (e, buf') \<Rightarrow> (e, buf', map_option (\<lambda>_. actual_block) actual_block_out))
      | _ \<Rightarrow> (ERASECURE_ERR_INVALID_ARG, buf, actual_block_out))"

section \<open>Integrity\<close>

definition file_mirror_verify_integrity ::
    "'c evp \<Rightarrow> (string \<Rightarrow> (byte list \<times> bool) option) \<Rightarrow> FileMirror option \<Rightarrow> ErasecureError" where
  "file_mirror_verify_integrity sha256 open_read fm =
     (case fm of None \<Rightarrow> ERASECURE_ERR_INVALID_ARG
      | Some m \<Rightarrow>
          if \<not> fm_hash_verified m then ERASECURE_ERR_INVALID_ARG
          else (case hash_file sha256 open_read (Some (fm_image_path m))
                       (Some (replicate ERASECURE_SHA256_DIGEST_LEN 0)) of
                  (e, digest) \<Rightarrow>
                    if e \<noteq> ERASECURE_OK then ERASECURE_ERR_IO
                    else if fm_evidence_hash m \<noteq>
                              the_default [] (hash_digest_to_hex digest ERASECURE_SHA256_DIGEST_LEN (Some []))
                    then ERASECURE_ERR_EVIDENCE_MODIFIED
                    else ERASECURE_OK))"

section \<open>Lemmas\<close>

definition mirror_wf :: "FileMirror \<Rightarrow> bool" where
  "mirror_wf m \<longleftrightarrow>
     (\<exists>cov. fm_covered_mask m = Some cov \<and> length cov = fm_total_blocks m
        \<and> fm_apparent_blocks m = count_uncovered cov)
     \<and> fm_total_blocks m < NO_BLOCK"

lemma count_uncovered_length: "count_uncovered cov \<le> length cov"
  by (induction cov) auto

lemma count_uncovered_append: "count_uncovered (xs @ ys) = count_uncovered xs + count_uncovered ys"
  by (induction xs) auto

lemma count_uncovered_replicate [simp]: "count_uncovered (replicate n False) = n"
  by (induction n) auto

lemma count_uncovered_update:
  "i < length cov \<Longrightarrow>
   count_uncovered (cov[i := v]) + (if cov ! i then 0 else 1) = count_uncovered cov + (if v then 0 else 1)"
proof (induction cov arbitrary: i)
  case (Cons c cov)
  show ?case
  proof (cases i)
    case (Suc j)
    with Cons.IH [of j] Cons.prems show ?thesis by auto
  qed simp
qed simp

lemma find_apparent_Some:
  "apparent_count \<le> a \<Longrightarrow> a < apparent_count + count_uncovered cov \<Longrightarrow>
   \<exists>k < length cov. find_apparent i apparent_count a cov = i + k \<and> \<not> cov ! k
     \<and> apparent_count + count_uncovered (take k cov) = a"
proof (induction cov arbitrary: i apparent_count)
  case (Cons c cov)
  show ?case
  proof (cases "\<not> c \<and> apparent_count = a")
    case True
    then show ?thesis by (intro exI [of _ 0]) simp
  next
    case False
    define n where "n = (if c then apparent_count else Suc apparent_count)"
    have "n \<le> a" "a < n + count_uncovered cov" using Cons.prems False by (auto simp: n_def)
    from Cons.IH [OF this, of "Suc i"] obtain k where
      "k < length cov" "find_apparent (Suc i) n a cov = Suc i + k" "\<not> cov ! k"
      "n + count_uncovered (take k cov) = a" by blast
    with False show ?thesis by (intro exI [of _ "Suc k"]) (auto simp: n_def split: if_splits)
  qed
qed simp

lemma uncovered_positions_unique:
  assumes "j < length cov" "k < length cov" "\<not> cov ! j" "\<not> cov ! k"
    and "count_uncovered (take j cov) = count_uncovered (take k cov)"
  shows "j = k"
proof -
  have less: "count_uncovered (take x cov) < count_uncovered (take y cov)"
    if "x < y" "y \<le> length cov" "\<not> cov ! x" for x y
  proof -
    have "take y cov = take x (take y cov) @ take y cov ! x # drop (Suc x) (take y cov)"
      by (rule id_take_nth_drop) (use that in simp)
    then have "take y cov = take x cov @ cov ! x # drop (Suc x) (take y cov)"
      using that by (simp add: min_def)
    then have "count_uncovered (take y cov)
        = count_uncovered (take x cov) + count_uncovered (cov ! x # drop (Suc x) (take y cov))"
      by (metis count_uncovered_append)
    with that(3) show ?thesis by simp
  qed
  show ?thesis
    using less [of j k] less [of k j] assms by (cases j k rule: linorder_cases) auto
qed


lemma mirror_wf_parts:
  assumes "mirror_wf m"
  obtains cov where "fm_covered_mask m = Some cov" "length cov = fm_total_blocks m"
    "fm_apparent_blocks m = count_uncovered cov" "fm_total_blocks m < NO_BLOCK"
  using assms by (auto simp: mirror_wf_def)

section \<open>Properties\<close>

text \<open>
  Covering keeps the apparent count exact: in a well-formed mirror \<open>apparent_blocks\<close> is the number
  of uncovered blocks, and marking or unmarking any block keeps the mirror well-formed, changes the
  status of exactly that block, and does nothing when the block is out of range.
\<close>

theorem covering_keeps_count:
  assumes wf: "mirror_wf m"
  shows "\<exists>m1 m2. file_mirror_mark_covered (Some m) b = Some m1 \<and> mirror_wf m1
    \<and> file_mirror_unmark_covered (Some m) b = Some m2 \<and> mirror_wf m2
    \<and> (\<forall>i. file_mirror_is_covered (Some m1) i \<longleftrightarrow>
           file_mirror_is_covered (Some m) i \<or> (i = b \<and> b < fm_total_blocks m))
    \<and> (\<forall>i. file_mirror_is_covered (Some m2) i \<longleftrightarrow> file_mirror_is_covered (Some m) i \<and> i \<noteq> b)"
proof (cases "b < fm_total_blocks m")
  case False
  then show ?thesis using wf
    by (auto simp: file_mirror_mark_covered_def file_mirror_unmark_covered_def file_mirror_is_covered_def)
next
  case True
  obtain cov where cov: "fm_covered_mask m = Some cov" "length cov = fm_total_blocks m"
    "fm_apparent_blocks m = count_uncovered cov" "fm_total_blocks m < NO_BLOCK"
    using wf by (rule mirror_wf_parts)
  have fits: "count_uncovered cov + 1 < 2 ^ 64"
    using count_uncovered_length [of cov] cov(2,4) by (simp add: UINT64_MAX_def)
  have ma: "mask_at m i = cov ! i" for i using cov(1) by (simp add: mask_at_def)
  note up = count_uncovered_update [of b cov]
  have "file_mirror_mark_covered (Some m) b = Some (if cov ! b then m
      else m\<lparr>fm_covered_mask := Some (cov[b := True]), fm_apparent_blocks := count_uncovered (cov[b := True])\<rparr>)"
    using True cov up [of True] by (auto simp: file_mirror_mark_covered_def ma set_mask_def Let_def)
  moreover have "file_mirror_unmark_covered (Some m) b = Some (if cov ! b
      then m\<lparr>fm_covered_mask := Some (cov[b := False]), fm_apparent_blocks := count_uncovered (cov[b := False])\<rparr>
      else m)"
    using True cov up [of False] fits by (auto simp: file_mirror_unmark_covered_def ma set_mask_def)
  ultimately show ?thesis
    using wf True cov
    by (auto simp: mirror_wf_def file_mirror_is_covered_def mask_at_def nth_list_update)
qed

text \<open>A mirror of five blocks, the second and the fourth covered.\<close>

definition demo_mirror :: FileMirror where
  "demo_mirror = zero_file_mirror\<lparr>fm_fd := 3, fm_block_size := 512, fm_total_blocks := 5,
     fm_covered_mask := Some [False, True, False, True, False], fm_apparent_blocks := 3\<rparr>"

lemma demo_mirror_wf: "mirror_wf demo_mirror"
  by (simp add: mirror_wf_def demo_mirror_def UINT64_MAX_def)

theorem covering_keeps_count_witness:
  "\<exists>m1. file_mirror_mark_covered (Some demo_mirror) 2 = Some m1 \<and> mirror_wf m1
    \<and> file_mirror_is_covered (Some m1) 2"
  using covering_keeps_count [OF demo_mirror_wf, of 2] by (auto simp: demo_mirror_def zero_file_mirror_def)

text \<open>
  C28. Apparent and actual block numbers are inverse to each other: in a well-formed mirror every
  apparent number below \<open>apparent_blocks\<close> names an uncovered block that maps back to it, every
  uncovered block has an apparent number below \<open>apparent_blocks\<close> that maps back to it, and covered
  or out-of-range blocks have none.
\<close>

theorem apparent_actual_roundtrip:
  assumes wf: "mirror_wf m"
  shows "(\<forall>a < fm_apparent_blocks m. \<exists>b < fm_total_blocks m.
        file_mirror_apparent_to_actual (Some m) a = b \<and> \<not> file_mirror_is_covered (Some m) b
        \<and> file_mirror_actual_to_apparent (Some m) b = a)
    \<and> (\<forall>b < fm_total_blocks m. \<not> file_mirror_is_covered (Some m) b \<longrightarrow>
        file_mirror_actual_to_apparent (Some m) b < fm_apparent_blocks m
        \<and> file_mirror_apparent_to_actual (Some m) (file_mirror_actual_to_apparent (Some m) b) = b)
    \<and> (\<forall>b. file_mirror_is_covered (Some m) b \<or> fm_total_blocks m \<le> b \<longrightarrow>
        file_mirror_actual_to_apparent (Some m) b = NO_BLOCK)"
proof -
  obtain cov where cov: "fm_covered_mask m = Some cov" "length cov = fm_total_blocks m"
    "fm_apparent_blocks m = count_uncovered cov" using wf by (rule mirror_wf_parts)
  have ta: "file_mirror_apparent_to_actual (Some m) a
      = (if a < count_uncovered cov then find_apparent 0 0 a cov else NO_BLOCK)" for a
    using cov by (simp add: file_mirror_apparent_to_actual_def)
  have ma: "file_mirror_actual_to_apparent (Some m) b
      = (if b < length cov \<and> \<not> cov ! b then count_uncovered (take b cov) else NO_BLOCK)" for b
    using cov by (simp add: file_mirror_actual_to_apparent_def mask_at_def)
  have ic: "file_mirror_is_covered (Some m) b \<longleftrightarrow> b < length cov \<and> cov ! b" for b
    using cov by (simp add: file_mirror_is_covered_def mask_at_def)
  have fwd: "\<exists>b < length cov. find_apparent 0 0 a cov = b \<and> \<not> cov ! b \<and> count_uncovered (take b cov) = a"
    if "a < count_uncovered cov" for a
    using find_apparent_Some [of 0 a cov 0] that by simp
  have below: "count_uncovered (take b cov) < count_uncovered cov" if "b < length cov" "\<not> cov ! b" for b
  proof -
    have "count_uncovered cov = count_uncovered (take b cov) + count_uncovered (cov ! b # drop (Suc b) cov)"
      using that(1) by (metis count_uncovered_append id_take_nth_drop)
    with that(2) show ?thesis by simp
  qed
  have bwd: "find_apparent 0 0 (count_uncovered (take b cov)) cov = b" if "b < length cov" "\<not> cov ! b" for b
    using fwd [OF below [OF that]] uncovered_positions_unique that by blast
  show ?thesis
    unfolding cov(3) cov(2) [symmetric] ta ma ic using fwd below bwd by auto
qed

theorem apparent_actual_roundtrip_witness:
  "file_mirror_apparent_to_actual (Some demo_mirror) 2 = 4
    \<and> file_mirror_actual_to_apparent (Some demo_mirror) 4 = 2"
proof -
  have "\<not> file_mirror_is_covered (Some demo_mirror) 4" "4 < fm_total_blocks demo_mirror"
    by (simp_all add: file_mirror_is_covered_def demo_mirror_def mask_at_def)
  with apparent_actual_roundtrip [OF demo_mirror_wf] have
    "file_mirror_apparent_to_actual (Some demo_mirror) (file_mirror_actual_to_apparent (Some demo_mirror) 4) = 4"
    by blast
  moreover have "file_mirror_actual_to_apparent (Some demo_mirror) 4 = 2"
    by (simp add: file_mirror_actual_to_apparent_def demo_mirror_def mask_at_def)
  ultimately show ?thesis by simp
qed

text \<open>The value a digest library computes for a content.\<close>

definition sha_value :: "'c evp \<Rightarrow> byte list \<Rightarrow> byte list option" where
  "sha_value md content =
     (if evp_ctx_new_ok md then Option.bind (evp_init md)
        (\<lambda>c. Option.bind (evp_update md c content) (evp_final md)) else None)"

lemma hash_file_value:
  assumes "evp_incremental md" and "open_read path = Some (content, False)"
    and "sha_value md content = Some d"
  shows "hash_file md open_read (Some path) (Some out) = (ERASECURE_OK, Some d)"
  using assms(3)
  by (auto simp: hash_file_def evp_hash_file_def evp_read_loop_update [OF assms(1)] assms(2) sha_value_def
      bind_eq_Some_conv split: if_splits)


lemma hex_of_digest:
  "length d = ERASECURE_SHA256_DIGEST_LEN \<Longrightarrow>
   hash_digest_to_hex (Some d) ERASECURE_SHA256_DIGEST_LEN (Some []) = Some (concat (map hex2 d))"
  using hash_digest_to_hex_all [of d "[]"] by simp

lemma hex_injective: "concat (map hex2 d) = concat (map hex2 d') \<longleftrightarrow> d = d'"
  by (metis hex_decode_concat)

text \<open>
  The integrity check detects exactly the changes the digest can see: for a mirror opened on an
  image whose hash was taken, \<open>file_mirror_verify_integrity\<close> on a later readable content answers
  \<open>ERASECURE_OK\<close> when both contents have the same SHA-256 value and
  \<open>ERASECURE_ERR_EVIDENCE_MODIFIED\<close> otherwise.
\<close>

theorem verify_integrity_detects:
  assumes md: "evp_incremental md"
    and before: "read_then path = Some (c, False)" "sha_value md c = Some d" "length d = 32"
    and later: "read_now path = Some (c', False)" "sha_value md c' = Some d'" "length d' = 32"
    and opened: "file_mirror_open md read_then fd (Some (length c)) True (Some m0) (Some path) bs
      = (ERASECURE_OK, Some m)"
    and path: "length path < 256"
  shows "file_mirror_verify_integrity md read_now (Some m)
    = (if d' = d then ERASECURE_OK else ERASECURE_ERR_EVIDENCE_MODIFIED)"
proof -
  have len: "length d = ERASECURE_SHA256_DIGEST_LEN" "length d' = ERASECURE_SHA256_DIGEST_LEN"
    using before later by (simp_all add: ERASECURE_SHA256_DIGEST_LEN_def)
  have "fm_hash_verified m \<and> fm_image_path m = path \<and> fm_evidence_hash m = concat (map hex2 d)"
    using opened path
    by (auto simp: file_mirror_open_def Let_def hash_file_value [where open_read = read_then and path = path, OF md before(1,2)]
        hex_of_digest [OF len(1)] split: if_splits)
  then show ?thesis
    by (simp add: file_mirror_verify_integrity_def
        hash_file_value [where open_read = read_now and path = path, OF md later(1,2)]
        hex_of_digest [OF len(2)] hex_injective)
qed

text \<open>A digest of 32 equal bytes, the sum of the content, for the witness.\<close>

definition demo_sha :: "byte list evp" where
  "demo_sha = demo_evp\<lparr>evp_final := (\<lambda>c. Some (replicate 32 (fold (+) c 0)))\<rparr>"

theorem verify_integrity_detects_witness:
  "\<exists>m. file_mirror_open demo_sha (\<lambda>_. Some ([1, 2], False)) 3 (Some 2) True (Some zero_file_mirror)
      (Some ''e.img'') 1 = (ERASECURE_OK, Some m)
    \<and> file_mirror_verify_integrity demo_sha (\<lambda>_. Some ([1, 9], False)) (Some m)
      = ERASECURE_ERR_EVIDENCE_MODIFIED"
proof -
  have inc: "evp_incremental demo_sha" by (simp add: evp_incremental_def demo_sha_def demo_evp_def)
  have value1: "sha_value demo_sha [1, 2] = Some (replicate 32 3)"
    "sha_value demo_sha [1, 9] = Some (replicate 32 10)"
    by (simp_all add: sha_value_def demo_sha_def demo_evp_def)
  have "\<exists>m. file_mirror_open demo_sha (\<lambda>_. Some ([1, 2], False)) 3 (Some (length [1, 2 :: byte])) True
      (Some zero_file_mirror) (Some ''e.img'') 1 = (ERASECURE_OK, Some m)"
    by (simp add: file_mirror_open_def Let_def split: prod.split)
  then obtain m where m: "file_mirror_open demo_sha (\<lambda>_. Some ([1, 2], False)) 3
      (Some (length [1, 2 :: byte])) True (Some zero_file_mirror) (Some ''e.img'') 1 = (ERASECURE_OK, Some m)"
    by blast
  have "replicate 32 10 \<noteq> (replicate 32 3 :: byte list)" by (simp add: replicate_eq_replicate)
  with verify_integrity_detects [where read_then = "\<lambda>_. Some ([1, 2], False)" and read_now = "\<lambda>_. Some ([1, 9], False)"
      and path = "''e.img''", OF inc refl value1(1) _ refl value1(2) _ m] m
  show ?thesis by (auto simp: numeral_2_eq_2)
qed

end
