(* ===== verification/Blockmap.thy ===== *)
theory Blockmap
  imports File_Mirror
begin

text \<open>
  Block metadata with a committed and a working copy, \<open>include/recovery/blockmap.h\<close> and
  \<open>src/recovery/blockmap.c\<close>: workers change the shadow entries under a lock, a merge publishes them.
  Hashing uses the file mirror; sorting the hashes uses the C library's \<open>qsort\<close>, a parameter that
  promises \<open>qsort_result\<close>. As in \<open>File_Mirror\<close>, \<open>hash_digest_to_hex\<close> is called without the length of the digest.
  Record fields carry the prefixes \<open>bme_\<close> and \<open>bm_\<close>.
\<close>

section \<open>Data\<close>

record BlockmapEntry =
  bme_covered :: bool
  bme_is_duplicate :: bool
  bme_is_exemplar :: bool
  bme_is_zero :: bool
  bme_exemplar_block :: nat
  bme_reservation_count :: nat
  bme_hash :: string
  bme_hash_computed :: bool

record Blockmap =
  bm_primary :: "BlockmapEntry list"
  bm_shadow :: "BlockmapEntry list"
  bm_block_count :: nat

definition zero_entry :: BlockmapEntry where
  "zero_entry = \<lparr>bme_covered = False, bme_is_duplicate = False, bme_is_exemplar = False,
     bme_is_zero = False, bme_exemplar_block = 0, bme_reservation_count = 0, bme_hash = [],
     bme_hash_computed = False\<rparr>"

definition zero_blockmap :: Blockmap where
  "zero_blockmap = \<lparr>bm_primary = [], bm_shadow = [], bm_block_count = 0\<rparr>"

definition blockmap_create ::
    "bool \<Rightarrow> Blockmap option \<Rightarrow> nat \<Rightarrow> ErasecureError \<times> Blockmap option" where
  "blockmap_create calloc_ok bm block_count =
     (case bm of None \<Rightarrow> (ERASECURE_ERR_INVALID_ARG, None)
      | Some m \<Rightarrow>
          if block_count = 0 then (ERASECURE_ERR_INVALID_ARG, Some m)
          else if \<not> calloc_ok
          then (ERASECURE_ERR_NO_MEM, Some \<lparr>bm_primary = [], bm_shadow = [], bm_block_count = block_count\<rparr>)
          else (ERASECURE_OK, Some \<lparr>bm_primary = replicate block_count zero_entry,
                  bm_shadow = replicate block_count zero_entry, bm_block_count = block_count\<rparr>))"

definition blockmap_destroy :: "Blockmap option \<Rightarrow> Blockmap option" where
  "blockmap_destroy bm = map_option (\<lambda>_. zero_blockmap) bm"

definition blockmap_get :: "Blockmap option \<Rightarrow> nat \<Rightarrow> BlockmapEntry option" where
  "blockmap_get bm block =
     (case bm of None \<Rightarrow> None
      | Some m \<Rightarrow> if block \<ge> bm_block_count m then None else Some (bm_primary m ! block))"

section \<open>Changing the shadow\<close>

text \<open>The common shape of the setters: a range check, then a change of one shadow entry.\<close>

definition set_shadow :: "Blockmap \<Rightarrow> nat \<Rightarrow> (BlockmapEntry \<Rightarrow> BlockmapEntry) \<Rightarrow> Blockmap" where
  "set_shadow m block f = m\<lparr>bm_shadow := (bm_shadow m)[block := f (bm_shadow m ! block)]\<rparr>"

definition shadow_op ::
    "(BlockmapEntry \<Rightarrow> BlockmapEntry) \<Rightarrow> Blockmap option \<Rightarrow> nat \<Rightarrow> ErasecureError \<times> Blockmap option" where
  "shadow_op f bm block =
     (case bm of None \<Rightarrow> (ERASECURE_ERR_INVALID_ARG, None)
      | Some m \<Rightarrow> if block \<ge> bm_block_count m then (ERASECURE_ERR_INVALID_ARG, Some m)
                 else (ERASECURE_OK, Some (set_shadow m block f)))"

definition blockmap_shadow_set_covered where
  "blockmap_shadow_set_covered bm block covered = shadow_op (\<lambda>e. e\<lparr>bme_covered := covered\<rparr>) bm block"

definition blockmap_shadow_set_hash ::
    "Blockmap option \<Rightarrow> nat \<Rightarrow> string option \<Rightarrow> ErasecureError \<times> Blockmap option" where
  "blockmap_shadow_set_hash bm block hash_hex =
     (case hash_hex of
        None \<Rightarrow> (ERASECURE_ERR_INVALID_ARG, bm)
      | Some h \<Rightarrow> shadow_op (\<lambda>e. e\<lparr>bme_hash := cstr 65 h, bme_hash_computed := True\<rparr>) bm block)"

definition blockmap_shadow_set_zero where
  "blockmap_shadow_set_zero bm block is_zero = shadow_op (\<lambda>e. e\<lparr>bme_is_zero := is_zero\<rparr>) bm block"

definition blockmap_shadow_set_duplicate ::
    "Blockmap option \<Rightarrow> nat \<Rightarrow> nat \<Rightarrow> ErasecureError \<times> Blockmap option" where
  "blockmap_shadow_set_duplicate bm block exemplar =
     (case bm of
        Some m \<Rightarrow> if exemplar \<ge> bm_block_count m then (ERASECURE_ERR_INVALID_ARG, bm)
                  else shadow_op (\<lambda>e. e\<lparr>bme_is_duplicate := True, bme_exemplar_block := exemplar\<rparr>) bm block
      | None \<Rightarrow> (ERASECURE_ERR_INVALID_ARG, None))"

definition blockmap_reserve where
  "blockmap_reserve bm block =
     shadow_op (\<lambda>e. e\<lparr>bme_reservation_count := wrap32 (bme_reservation_count e + 1)\<rparr>) bm block"

definition blockmap_release where
  "blockmap_release bm block =
     shadow_op (\<lambda>e. if bme_reservation_count e > 0
                    then e\<lparr>bme_reservation_count := bme_reservation_count e - 1\<rparr> else e) bm block"

definition blockmap_reservation_count :: "Blockmap option \<Rightarrow> nat \<Rightarrow> nat" where
  "blockmap_reservation_count bm block =
     (case bm of None \<Rightarrow> 0
      | Some m \<Rightarrow> if block \<ge> bm_block_count m then 0 else bme_reservation_count (bm_shadow m ! block))"

definition blockmap_merge_shadow :: "Blockmap option \<Rightarrow> ErasecureError \<times> Blockmap option" where
  "blockmap_merge_shadow bm =
     (case bm of None \<Rightarrow> (ERASECURE_ERR_INVALID_ARG, None)
      | Some m \<Rightarrow> (ERASECURE_OK,
          Some (m\<lparr>bm_primary := take (bm_block_count m) (bm_shadow m)
                    @ drop (bm_block_count m) (bm_primary m)\<rparr>)))"

section \<open>Hashing the blocks\<close>

text \<open>
  One iteration; the state is the block map, the read buffer and the digest array. The result of
  hashing is not looked at, so a failure leaves the digest of an earlier block in place.
\<close>

definition hash_step ::
    "'c evp \<Rightarrow> (nat \<Rightarrow> nat \<Rightarrow> byte list option) \<Rightarrow> FileMirror \<Rightarrow> nat
     \<Rightarrow> Blockmap \<times> byte list \<times> byte list \<Rightarrow> Blockmap \<times> byte list \<times> byte list" where
  "hash_step sha256 pread fm i st =
     (case st of (m, buf, digest) \<Rightarrow>
        case file_mirror_read_block pread (Some fm) i (Some buf) of
          (e, buf') \<Rightarrow>
            let b = the_default buf buf'
            in if e \<noteq> ERASECURE_OK then (m, b, digest)
               else
                 let d = the_default digest (snd (hash_buffer sha256 (Some (take (fm_block_size fm) b))
                                                   (Some digest)));
                     hex_hash = the_default [] (hash_digest_to_hex (Some d) ERASECURE_SHA256_DIGEST_LEN
                                                 (Some []));
                     is_zero = list_all (\<lambda>x. x = 0) (take (fm_block_size fm) b);
                     m1 = the_default m (snd (blockmap_shadow_set_hash (Some m) i (Some hex_hash)));
                     m2 = the_default m1 (snd (blockmap_shadow_set_zero (Some m1) i is_zero))
                 in (m2, b, d))"

definition blockmap_compute_hashes ::
    "'c evp \<Rightarrow> (nat \<Rightarrow> nat \<Rightarrow> byte list option) \<Rightarrow> bool \<Rightarrow> byte list \<Rightarrow> byte list
     \<Rightarrow> Blockmap option \<Rightarrow> FileMirror option \<Rightarrow> ErasecureError \<times> Blockmap option" where
  "blockmap_compute_hashes sha256 pread malloc_ok buf0 digest0 bm fm =
     (case (bm, fm) of
        (Some m, Some f) \<Rightarrow>
          if \<not> malloc_ok then (ERASECURE_ERR_NO_MEM, bm)
          else blockmap_merge_shadow
                 (Some (fst (fold (hash_step sha256 pread f) [0..<bm_block_count m] (m, buf0, digest0))))
      | _ \<Rightarrow> (ERASECURE_ERR_INVALID_ARG, bm))"

section \<open>Duplicates\<close>

type_synonym HashEntry = "nat \<times> string"

definition compare_hashes :: "HashEntry \<Rightarrow> HashEntry \<Rightarrow> int" where
  "compare_hashes a b = strcmp (snd a) (snd b)"

definition hash_entries :: "Blockmap \<Rightarrow> HashEntry list" where
  "hash_entries m =
     map (\<lambda>i. (i, bme_hash (bm_primary m ! i)))
       (List.filter (\<lambda>i. bme_hash_computed (bm_primary m ! i) \<and> \<not> bme_is_zero (bm_primary m ! i))
          [0..<bm_block_count m])"

text \<open>The loop over neighbours of the sorted array.\<close>

fun mark_duplicates :: "HashEntry list \<Rightarrow> Blockmap \<Rightarrow> Blockmap" where
  "mark_duplicates (prev # cur # rest) m =
     mark_duplicates (cur # rest)
       (if snd cur = snd prev
        then set_shadow (set_shadow m (fst prev) (\<lambda>e. e\<lparr>bme_is_exemplar := True\<rparr>)) (fst cur)
               (\<lambda>e. e\<lparr>bme_is_duplicate := True, bme_exemplar_block := fst prev\<rparr>)
        else m)"
| "mark_duplicates _ m = m"

definition blockmap_find_duplicates ::
    "(HashEntry list \<Rightarrow> HashEntry list) \<Rightarrow> bool \<Rightarrow> Blockmap option \<Rightarrow> ErasecureError \<times> Blockmap option" where
  "blockmap_find_duplicates qsort malloc_ok bm =
     (case bm of None \<Rightarrow> (ERASECURE_ERR_INVALID_ARG, None)
      | Some m \<Rightarrow>
          if \<not> malloc_ok then (ERASECURE_ERR_NO_MEM, Some m)
          else blockmap_merge_shadow (Some (mark_duplicates (qsort (hash_entries m)) m)))"

definition count_primary :: "(BlockmapEntry \<Rightarrow> bool) \<Rightarrow> Blockmap option \<Rightarrow> nat" where
  "count_primary f bm =
     (case bm of None \<Rightarrow> 0
      | Some m \<Rightarrow> length (List.filter (\<lambda>i. f (bm_primary m ! i)) [0..<bm_block_count m]))"

definition blockmap_covered_count where
  "blockmap_covered_count = count_primary bme_covered"

definition blockmap_zero_count where
  "blockmap_zero_count = count_primary bme_is_zero"

definition blockmap_duplicate_count where
  "blockmap_duplicate_count = count_primary bme_is_duplicate"

section \<open>Lemmas\<close>

definition blockmap_wf :: "Blockmap \<Rightarrow> bool" where
  "blockmap_wf m \<longleftrightarrow> length (bm_primary m) = bm_block_count m \<and> length (bm_shadow m) = bm_block_count m"

lemma set_shadow_simps [simp]:
  "bm_primary (set_shadow m b f) = bm_primary m" "bm_block_count (set_shadow m b f) = bm_block_count m"
  "length (bm_shadow (set_shadow m b f)) = length (bm_shadow m)"
  "blockmap_wf (set_shadow m b f) = blockmap_wf m"
  by (simp_all add: set_shadow_def blockmap_wf_def)

lemma set_shadow_nth:
  "b < length (bm_shadow m) \<Longrightarrow>
   bm_shadow (set_shadow m b f) ! i = (if i = b then f (bm_shadow m ! b) else bm_shadow m ! i)"
  by (simp add: set_shadow_def nth_list_update)

text \<open>The blocks a sorted array marks: the second of two equal neighbours, with the first as exemplar.\<close>

definition dup_pair :: "HashEntry list \<Rightarrow> nat \<Rightarrow> nat \<Rightarrow> bool" where
  "dup_pair es x y \<longleftrightarrow>
     (\<exists>k. Suc k < length es \<and> fst (es ! Suc k) = x \<and> fst (es ! k) = y \<and> snd (es ! Suc k) = snd (es ! k))"

lemma dup_pair_Cons:
  "dup_pair (p # c # es) x y \<longleftrightarrow> (fst c = x \<and> fst p = y \<and> snd c = snd p) \<or> dup_pair (c # es) x y"
proof
  assume "dup_pair (p # c # es) x y"
  then obtain k where "Suc k < length (p # c # es)" "fst ((p # c # es) ! Suc k) = x"
    "fst ((p # c # es) ! k) = y" "snd ((p # c # es) ! Suc k) = snd ((p # c # es) ! k)"
    by (auto simp: dup_pair_def)
  then show "(fst c = x \<and> fst p = y \<and> snd c = snd p) \<or> dup_pair (c # es) x y"
    by (cases k) (auto simp: dup_pair_def)
next
  assume "(fst c = x \<and> fst p = y \<and> snd c = snd p) \<or> dup_pair (c # es) x y"
  then show "dup_pair (p # c # es) x y"
  proof
    assume "fst c = x \<and> fst p = y \<and> snd c = snd p"
    then show ?thesis unfolding dup_pair_def by (intro exI [of _ 0]) simp
  next
    assume "dup_pair (c # es) x y"
    then obtain k where "Suc k < length (c # es)" "fst ((c # es) ! Suc k) = x"
      "fst ((c # es) ! k) = y" "snd ((c # es) ! Suc k) = snd ((c # es) ! k)"
      by (auto simp: dup_pair_def)
    then show ?thesis unfolding dup_pair_def by (intro exI [of _ "Suc k"]) simp
  qed
qed

lemma dup_pair_short [simp]: "\<not> dup_pair [] x y" "\<not> dup_pair [p] x y"
  by (simp_all add: dup_pair_def)


lemma dup_pair_tail:
  assumes "distinct (map fst (c # es))" and "dup_pair (c # es) x y"
  shows "x \<noteq> fst c \<and> x \<in> fst ` set es"
proof -
  from assms(2) obtain k where "k < length es" "fst (es ! k) = x" by (auto simp: dup_pair_def)
  then have "x \<in> fst ` set es" by force
  moreover from assms(1) have "fst c \<notin> fst ` set es" by simp
  ultimately show ?thesis by blast
qed

lemma mark_duplicates_frame [simp]:
  "bm_primary (mark_duplicates es m) = bm_primary m"
  "bm_block_count (mark_duplicates es m) = bm_block_count m"
  "length (bm_shadow (mark_duplicates es m)) = length (bm_shadow m)"
  by (induction es m rule: mark_duplicates.induct) simp_all

lemma mark_duplicates_keeps:
  assumes "\<forall>e \<in> set es. fst e < length (bm_shadow m)"
  shows "bme_hash (bm_shadow (mark_duplicates es m) ! x) = bme_hash (bm_shadow m ! x)
    \<and> bme_hash_computed (bm_shadow (mark_duplicates es m) ! x) = bme_hash_computed (bm_shadow m ! x)
    \<and> bme_is_zero (bm_shadow (mark_duplicates es m) ! x) = bme_is_zero (bm_shadow m ! x)"
  using assms
proof (induction es m rule: mark_duplicates.induct)
  case (1 p c es m)
  then show ?case by (simp add: set_shadow_nth)
qed simp_all

lemma mark_duplicates_effect:
  assumes "distinct (map fst es)" and "\<forall>e \<in> set es. fst e < length (bm_shadow m)"
  shows "(bme_is_duplicate (bm_shadow (mark_duplicates es m) ! x)
           \<longleftrightarrow> bme_is_duplicate (bm_shadow m ! x) \<or> (\<exists>y. dup_pair es x y))
    \<and> (bme_is_exemplar (bm_shadow (mark_duplicates es m) ! x)
           \<longleftrightarrow> bme_is_exemplar (bm_shadow m ! x) \<or> (\<exists>z. dup_pair es z x))
    \<and> (\<forall>y. dup_pair es x y \<longrightarrow> bme_exemplar_block (bm_shadow (mark_duplicates es m) ! x) = y)
    \<and> ((\<forall>y. \<not> dup_pair es x y) \<longrightarrow>
         bme_exemplar_block (bm_shadow (mark_duplicates es m) ! x) = bme_exemplar_block (bm_shadow m ! x))"
  using assms
proof (induction es m rule: mark_duplicates.induct)
  case (1 p c es m)
  define m1 where "m1 = (if snd c = snd p
        then set_shadow (set_shadow m (fst p) (\<lambda>e. e\<lparr>bme_is_exemplar := True\<rparr>)) (fst c)
               (\<lambda>e. e\<lparr>bme_is_duplicate := True, bme_exemplar_block := fst p\<rparr>)
        else m)"
  have dist: "distinct (map fst (c # es))" and bound: "\<forall>e \<in> set (c # es). fst e < length (bm_shadow m1)"
    using 1(2,3) by (auto simp: m1_def)
  have pc: "fst p < length (bm_shadow m)" "fst c < length (bm_shadow m)" "fst p \<noteq> fst c"
    using 1(2,3) by auto
  have step: "bm_shadow m1 ! x = (if snd c = snd p
      then (if x = fst c then (bm_shadow m ! x)\<lparr>bme_is_duplicate := True, bme_exemplar_block := fst p\<rparr>
            else if x = fst p then (bm_shadow m ! x)\<lparr>bme_is_exemplar := True\<rparr> else bm_shadow m ! x)
      else bm_shadow m ! x)" for x
    using pc by (auto simp: m1_def set_shadow_nth)
  have IH: "(bme_is_duplicate (bm_shadow (mark_duplicates (c # es) m1) ! x)
           \<longleftrightarrow> bme_is_duplicate (bm_shadow m1 ! x) \<or> (\<exists>y. dup_pair (c # es) x y))
    \<and> (bme_is_exemplar (bm_shadow (mark_duplicates (c # es) m1) ! x)
           \<longleftrightarrow> bme_is_exemplar (bm_shadow m1 ! x) \<or> (\<exists>z. dup_pair (c # es) z x))
    \<and> (\<forall>y. dup_pair (c # es) x y \<longrightarrow> bme_exemplar_block (bm_shadow (mark_duplicates (c # es) m1) ! x) = y)
    \<and> ((\<forall>y. \<not> dup_pair (c # es) x y) \<longrightarrow>
         bme_exemplar_block (bm_shadow (mark_duplicates (c # es) m1) ! x) = bme_exemplar_block (bm_shadow m1 ! x))"
    using 1(1) dist bound unfolding m1_def by blast
  have eq: "mark_duplicates (p # c # es) m = mark_duplicates (c # es) m1" by (simp add: m1_def)
  show ?case
    unfolding eq dup_pair_Cons
    using IH step [of x] pc(3) dup_pair_tail [OF dist, of x] by (auto split: if_splits)
qed (auto simp: dup_pair_def)

text \<open>The sorted array: equal hashes are neighbours.\<close>

lemma hash_entries_props:
  "distinct (map fst (hash_entries m))"
  "(b, h) \<in> set (hash_entries m) \<longleftrightarrow> b < bm_block_count m \<and> h = bme_hash (bm_primary m ! b)
     \<and> bme_hash_computed (bm_primary m ! b) \<and> \<not> bme_is_zero (bm_primary m ! b)"
  by (auto simp: hash_entries_def comp_def)

lemma sorted_equal_between:
  assumes "sorted_wrt (\<lambda>a b. compare_hashes a b \<le> 0) es" and "i < j" "j \<le> k" "k < length es"
    and "snd (es ! i) = snd (es ! k)"
  shows "snd (es ! j) = snd (es ! k)"
proof (cases "j = k")
  case False
  have "strcmp (snd (es ! i)) (snd (es ! j)) \<le> 0" "strcmp (snd (es ! j)) (snd (es ! k)) \<le> 0"
    using assms(1-4) False by (auto simp: sorted_wrt_iff_nth_less compare_hashes_def)
  with assms(5) strcmp_swap [of "snd (es ! j)" "snd (es ! k)"] have "strcmp (snd (es ! j)) (snd (es ! k)) = 0"
    by simp
  then show ?thesis by simp
qed simp

lemma qsort_entries:
  assumes "qsort_result compare_hashes xs es" and "distinct (map fst xs)"
  shows "set es = set xs" "distinct (map fst es)" "sorted_wrt (\<lambda>a b. compare_hashes a b \<le> 0) es"
proof -
  have "mset es = mset xs" using assms(1) by (simp add: qsort_result_def)
  then show "set es = set xs" by (metis set_mset_mset)
  show "distinct (map fst es)" using \<open>mset es = mset xs\<close> assms(2) by (metis mset_eq_imp_distinct_iff mset_map)
  show "sorted_wrt (\<lambda>a b. compare_hashes a b \<le> 0) es" using assms(1) by (simp add: qsort_result_def)
qed

lemma dup_pair_of_later:
  assumes "sorted_wrt (\<lambda>a b. compare_hashes a b \<le> 0) es" and "i < k" "k < length es"
    and "snd (es ! i) = snd (es ! k)"
  shows "\<exists>y. dup_pair es (fst (es ! k)) y"
proof -
  obtain j where k: "k = Suc j" using assms(2) by (cases k) auto
  have "snd (es ! j) = snd (es ! k)"
  proof (cases "i = j")
    case False
    with assms k show ?thesis by (intro sorted_equal_between [of es i j k]) simp_all
  qed (use assms(4) in simp)
  then show ?thesis unfolding dup_pair_def using k assms(3) by (intro exI [of _ "fst (es ! j)"] exI [of _ j]) simp
qed

text \<open>The candidates: hashed blocks that are not all zero.\<close>

definition dup_candidate :: "Blockmap \<Rightarrow> nat \<Rightarrow> bool" where
  "dup_candidate m b \<longleftrightarrow> b < bm_block_count m \<and> bme_hash_computed (bm_primary m ! b)
     \<and> \<not> bme_is_zero (bm_primary m ! b)"

definition shadow_unflagged :: "Blockmap \<Rightarrow> bool" where
  "shadow_unflagged m \<longleftrightarrow> (\<forall>e \<in> set (bm_shadow m). \<not> bme_is_duplicate e \<and> \<not> bme_is_exemplar e)"

lemma hash_entries_nth:
  assumes "set es = set (hash_entries m)" and "k < length es"
  shows "dup_candidate m (fst (es ! k)) \<and> snd (es ! k) = bme_hash (bm_primary m ! fst (es ! k))"
proof -
  have "es ! k \<in> set (hash_entries m)" using assms nth_mem by blast
  then have "(fst (es ! k), snd (es ! k)) \<in> set (hash_entries m)" by simp
  then show ?thesis unfolding hash_entries_props(2) dup_candidate_def by simp
qed

lemma candidate_indexed:
  assumes "set es = set (hash_entries m)" and "dup_candidate m b"
  obtains k where "k < length es" and "es ! k = (b, bme_hash (bm_primary m ! b))"
proof -
  have "(b, bme_hash (bm_primary m ! b)) \<in> set es"
    using assms by (simp add: hash_entries_props(2) dup_candidate_def)
  then show thesis using that by (auto simp: in_set_conv_nth)
qed

lemma find_duplicates_flags:
  assumes wf: "blockmap_wf m" and fresh: "shadow_unflagged m"
    and sorted: "qsort_result compare_hashes (hash_entries m) es" and b: "b < bm_block_count m"
  shows "let p = bm_primary (the (snd (blockmap_merge_shadow (Some (mark_duplicates es m))))) ! b in
     (bme_is_duplicate p \<longleftrightarrow> (\<exists>y. dup_pair es b y)) \<and> (bme_is_exemplar p \<longleftrightarrow> (\<exists>z. dup_pair es z b))
     \<and> (\<forall>y. dup_pair es b y \<longrightarrow> bme_exemplar_block p = y)"
proof -
  have es: "set es = set (hash_entries m)" "distinct (map fst es)"
    by (rule qsort_entries [OF sorted hash_entries_props(1)])+
  have bound: "\<forall>e \<in> set es. fst e < length (bm_shadow m)"
    using wf hash_entries_props(2) unfolding es(1) blockmap_wf_def by auto
  have "\<not> bme_is_duplicate (bm_shadow m ! b) \<and> \<not> bme_is_exemplar (bm_shadow m ! b)"
    using wf fresh b by (simp add: blockmap_wf_def shadow_unflagged_def)
  moreover have "bm_primary (the (snd (blockmap_merge_shadow (Some (mark_duplicates es m))))) ! b
      = bm_shadow (mark_duplicates es m) ! b"
    using wf b by (simp add: blockmap_merge_shadow_def blockmap_wf_def nth_append)
  ultimately show ?thesis
    using mark_duplicates_effect [OF es(2) bound, of b] unfolding Let_def by metis
qed

lemma dup_pair_sound:
  assumes "set es = set (hash_entries m)" "distinct (map fst es)" and "dup_pair es x y"
  shows "dup_candidate m x \<and> dup_candidate m y \<and> x \<noteq> y
    \<and> bme_hash (bm_primary m ! y) = bme_hash (bm_primary m ! x)"
proof -
  obtain k where k: "Suc k < length es" "fst (es ! Suc k) = x" "fst (es ! k) = y" "snd (es ! Suc k) = snd (es ! k)"
    using assms(3) by (auto simp: dup_pair_def)
  have "fst (es ! Suc k) \<noteq> fst (es ! k)"
    using assms(2) k(1) nth_eq_iff_index_eq [of "map fst es" "Suc k" k] by simp
  with k hash_entries_nth [OF assms(1), of "Suc k"] hash_entries_nth [OF assms(1), of k] show ?thesis by auto
qed

lemma dup_pair_complete:
  assumes es: "set es = set (hash_entries m)" "sorted_wrt (\<lambda>a b. compare_hashes a b \<le> 0) es"
    and "dup_candidate m a" "dup_candidate m b" "a \<noteq> b"
    and eq: "bme_hash (bm_primary m ! a) = bme_hash (bm_primary m ! b)"
  shows "(\<exists>y. dup_pair es a y) \<or> (\<exists>y. dup_pair es b y)"
proof -
  obtain i where i: "i < length es" "es ! i = (a, bme_hash (bm_primary m ! a))"
    using candidate_indexed [OF es(1) assms(3)] by blast
  obtain k where k: "k < length es" "es ! k = (b, bme_hash (bm_primary m ! b))"
    using candidate_indexed [OF es(1) assms(4)] by blast
  have "i \<noteq> k" using i(2) k(2) \<open>a \<noteq> b\<close> by auto
  then show ?thesis
    using dup_pair_of_later [OF es(2), of i k] dup_pair_of_later [OF es(2), of k i] i k eq
    by (cases "i < k") auto
qed

text \<open>The first block of a class in the sorted array is not the second of any pair.\<close>

lemma dup_pair_representative:
  assumes es: "set es = set (hash_entries m)" "distinct (map fst es)" and b: "dup_candidate m b"
  shows "\<exists>r. dup_candidate m r \<and> bme_hash (bm_primary m ! r) = bme_hash (bm_primary m ! b)
    \<and> (\<forall>y. \<not> dup_pair es r y)"
proof -
  define h where "h = bme_hash (bm_primary m ! b)"
  define P where "P = (\<lambda>k. k < length es \<and> snd (es ! k) = h)"
  obtain k where "k < length es" "es ! k = (b, h)"
    using candidate_indexed [OF es(1) b] unfolding h_def by blast
  then have "P k" by (simp add: P_def)
  then have first: "P (LEAST k. P k)" "\<And>j. P j \<Longrightarrow> (LEAST k. P k) \<le> j" by (auto intro: LeastI Least_le)
  define l where "l = (LEAST k. P k)"
  have l: "l < length es" "snd (es ! l) = h" using first(1) by (simp_all add: P_def l_def)
  have "\<not> dup_pair es (fst (es ! l)) y" for y
  proof
    assume "dup_pair es (fst (es ! l)) y"
    then obtain j where j: "Suc j < length es" "fst (es ! Suc j) = fst (es ! l)" "snd (es ! Suc j) = snd (es ! j)"
      by (auto simp: dup_pair_def)
    have "Suc j = l" using es(2) j(1,2) l(1) nth_eq_iff_index_eq [of "map fst es" "Suc j" l] by simp
    with j l(2) have "P j" by (simp add: P_def)
    then have "l \<le> j" unfolding l_def by (rule first(2))
    with \<open>Suc j = l\<close> show False by simp
  qed
  moreover have "dup_candidate m (fst (es ! l))" "bme_hash (bm_primary m ! fst (es ! l)) = h"
    using hash_entries_nth [OF es(1) l(1)] l(2) by auto
  ultimately show ?thesis unfolding h_def by blast
qed

text \<open>
  C24. Finding duplicates is exact on a map whose working copy carries no flags yet. After
  \<open>blockmap_find_duplicates\<close> succeeds, a block of the map that is flagged as a duplicate is a hashed,
  non-zero block whose recorded exemplar is a different such block with the same hash; one flagged as
  an exemplar is a hashed, non-zero block recorded by a duplicate. No other block is flagged. Of two
  hashed, non-zero blocks with the same hash at least one is flagged as a duplicate; and every class of
  equal blocks keeps one that is not, so discarding the flagged blocks loses no content.
\<close>

theorem find_duplicates_exact:
  assumes wf: "blockmap_wf m" and fresh: "shadow_unflagged m"
    and sorts: "qsort_result compare_hashes (hash_entries m) (qsort (hash_entries m))"
    and run: "blockmap_find_duplicates qsort True (Some m) = (ERASECURE_OK, Some m')"
    and b: "b < bm_block_count m"
  shows "(bme_is_duplicate (bm_primary m' ! b) \<longrightarrow>
            (let x = bme_exemplar_block (bm_primary m' ! b)
             in dup_candidate m b \<and> x \<noteq> b \<and> dup_candidate m x \<and> bme_is_exemplar (bm_primary m' ! x)
                \<and> bme_hash (bm_primary m ! x) = bme_hash (bm_primary m ! b)))
    \<and> (bme_is_exemplar (bm_primary m' ! b) \<longrightarrow>
          dup_candidate m b
          \<and> (\<exists>z. z < bm_block_count m \<and> bme_is_duplicate (bm_primary m' ! z) \<and> bme_exemplar_block (bm_primary m' ! z) = b))
    \<and> (\<forall>a. dup_candidate m a \<and> dup_candidate m b \<and> a \<noteq> b
            \<and> bme_hash (bm_primary m ! a) = bme_hash (bm_primary m ! b)
          \<longrightarrow> bme_is_duplicate (bm_primary m' ! a) \<or> bme_is_duplicate (bm_primary m' ! b))
    \<and> (dup_candidate m b \<longrightarrow>
          (\<exists>r. dup_candidate m r \<and> bme_hash (bm_primary m ! r) = bme_hash (bm_primary m ! b)
             \<and> \<not> bme_is_duplicate (bm_primary m' ! r)))"
proof -
  let ?es = "qsort (hash_entries m)"
  note es = qsort_entries [OF sorts hash_entries_props(1)]
  have m': "m' = the (snd (blockmap_merge_shadow (Some (mark_duplicates ?es m))))"
    using run by (simp add: blockmap_find_duplicates_def)
  have flags: "(bme_is_duplicate (bm_primary m' ! x) \<longleftrightarrow> (\<exists>y. dup_pair ?es x y))
      \<and> (bme_is_exemplar (bm_primary m' ! x) \<longleftrightarrow> (\<exists>z. dup_pair ?es z x))
      \<and> (\<forall>y. dup_pair ?es x y \<longrightarrow> bme_exemplar_block (bm_primary m' ! x) = y)"
    if "x < bm_block_count m" for x
    using find_duplicates_flags [OF wf fresh sorts that] unfolding m' Let_def by blast
  note sound = dup_pair_sound [OF es(1,2)]
  have small: "x < bm_block_count m" if "dup_candidate m x" for x using that by (simp add: dup_candidate_def)
  show ?thesis
  proof (intro conjI)
    show "bme_is_duplicate (bm_primary m' ! b) \<longrightarrow>
        (let x = bme_exemplar_block (bm_primary m' ! b)
         in dup_candidate m b \<and> x \<noteq> b \<and> dup_candidate m x \<and> bme_is_exemplar (bm_primary m' ! x)
            \<and> bme_hash (bm_primary m ! x) = bme_hash (bm_primary m ! b))"
      unfolding Let_def using flags sound small b by metis
    show "bme_is_exemplar (bm_primary m' ! b) \<longrightarrow> dup_candidate m b
        \<and> (\<exists>z. z < bm_block_count m \<and> bme_is_duplicate (bm_primary m' ! z) \<and> bme_exemplar_block (bm_primary m' ! z) = b)"
      using flags sound small b by metis
    show "\<forall>a. dup_candidate m a \<and> dup_candidate m b \<and> a \<noteq> b
          \<and> bme_hash (bm_primary m ! a) = bme_hash (bm_primary m ! b)
        \<longrightarrow> bme_is_duplicate (bm_primary m' ! a) \<or> bme_is_duplicate (bm_primary m' ! b)"
      using flags small b dup_pair_complete [OF es(1,3)] by blast
    show "dup_candidate m b \<longrightarrow> (\<exists>r. dup_candidate m r \<and> bme_hash (bm_primary m ! r) = bme_hash (bm_primary m ! b)
        \<and> \<not> bme_is_duplicate (bm_primary m' ! r))"
      using flags small dup_pair_representative [OF es(1,2)] by metis
  qed
qed

text \<open>Three blocks with the same hash and a zero block, for the witnesses.\<close>

definition demo_blockmap :: Blockmap where
  "demo_blockmap =
     (let e = zero_entry\<lparr>bme_hash := ''ab'', bme_hash_computed := True\<rparr>;
          z = e\<lparr>bme_is_zero := True\<rparr>
      in \<lparr>bm_primary = [e, z, e, e], bm_shadow = [e, z, e, e], bm_block_count = 4\<rparr>)"

lemma demo_blockmap_entries: "hash_entries demo_blockmap = [(0, ''ab''), (2, ''ab''), (3, ''ab'')]"
  by (simp add: hash_entries_def demo_blockmap_def zero_entry_def upt_rec Let_def)

lemma demo_blockmap_ready:
  "blockmap_wf demo_blockmap" "shadow_unflagged demo_blockmap"
  "qsort_result compare_hashes (hash_entries demo_blockmap) (hash_entries demo_blockmap)"
  by (simp_all add: demo_blockmap_entries)
    (simp_all add: blockmap_wf_def shadow_unflagged_def qsort_result_def compare_hashes_def
      demo_blockmap_def zero_entry_def Let_def)

theorem find_duplicates_exact_witness:
  "\<exists>m'. blockmap_find_duplicates (\<lambda>es. es) True (Some demo_blockmap) = (ERASECURE_OK, Some m')
    \<and> (bme_is_duplicate (bm_primary m' ! 0) \<or> bme_is_duplicate (bm_primary m' ! 2))
    \<and> \<not> bme_is_duplicate (bm_primary m' ! 1) \<and> \<not> bme_is_exemplar (bm_primary m' ! 1)"
proof -
  obtain m' where m': "blockmap_find_duplicates (\<lambda>es. es) True (Some demo_blockmap) = (ERASECURE_OK, Some m')"
    by (simp add: blockmap_find_duplicates_def blockmap_merge_shadow_def)
  have cand: "dup_candidate demo_blockmap 0" "dup_candidate demo_blockmap 2" "\<not> dup_candidate demo_blockmap 1"
      "bme_hash (bm_primary demo_blockmap ! 0) = bme_hash (bm_primary demo_blockmap ! 2)"
    by (simp_all add: dup_candidate_def demo_blockmap_def zero_entry_def Let_def)
  have "1 < bm_block_count demo_blockmap" "2 < bm_block_count demo_blockmap" by (simp_all add: demo_blockmap_def Let_def)
  from find_duplicates_exact [OF demo_blockmap_ready m' this(1)] find_duplicates_exact [OF demo_blockmap_ready m' this(2)]
  show ?thesis using cand m' by (auto simp: Let_def)
qed

text \<open>
  A duplicate can itself be an exemplar: neighbours are compared in pairs, so of three blocks
  with the same hash the middle one of the sorted order is flagged as a duplicate and named as the
  exemplar of the third. Following exemplar links once does not reach a block that is kept.
\<close>

theorem find_duplicates_chain:
  assumes wf: "blockmap_wf m" and fresh: "shadow_unflagged m"
    and sorts: "qsort_result compare_hashes (hash_entries m) (qsort (hash_entries m))"
    and run: "blockmap_find_duplicates qsort True (Some m) = (ERASECURE_OK, Some m')"
    and three: "qsort (hash_entries m) = us @ (x, h) # (y, h) # (z, h) # vs"
  shows "bme_is_duplicate (bm_primary m' ! z) \<and> bme_exemplar_block (bm_primary m' ! z) = y
    \<and> bme_is_duplicate (bm_primary m' ! y) \<and> bme_exemplar_block (bm_primary m' ! y) = x"
proof -
  let ?es = "qsort (hash_entries m)"
  note es = qsort_entries [OF sorts hash_entries_props(1)]
  have m': "m' = the (snd (blockmap_merge_shadow (Some (mark_duplicates ?es m))))"
    using run by (simp add: blockmap_find_duplicates_def)
  have "dup_pair ?es y x" unfolding dup_pair_def three
    by (intro exI [of _ "length us"]) (simp add: nth_append)
  moreover have "dup_pair ?es z y" unfolding dup_pair_def three
    by (intro exI [of _ "Suc (length us)"]) (simp add: nth_append)
  moreover have "y < bm_block_count m" "z < bm_block_count m"
    using dup_pair_sound [OF es(1,2)] calculation by (auto simp: dup_candidate_def)
  ultimately show ?thesis
    using find_duplicates_flags [OF wf fresh sorts, of y] find_duplicates_flags [OF wf fresh sorts, of z]
    unfolding m' Let_def by blast
qed

theorem find_duplicates_chain_witness:
  "\<exists>m'. blockmap_find_duplicates (\<lambda>es. es) True (Some demo_blockmap) = (ERASECURE_OK, Some m')
    \<and> bme_is_duplicate (bm_primary m' ! 2) \<and> bme_exemplar_block (bm_primary m' ! 3) = 2"
proof -
  obtain m' where m': "blockmap_find_duplicates (\<lambda>es. es) True (Some demo_blockmap) = (ERASECURE_OK, Some m')"
    by (simp add: blockmap_find_duplicates_def blockmap_merge_shadow_def)
  have "hash_entries demo_blockmap = [] @ (0, ''ab'') # (2, ''ab'') # (3, ''ab'') # []"
    by (simp add: demo_blockmap_entries)
  from find_duplicates_chain [OF demo_blockmap_ready m' this] m' show ?thesis by blast
qed

end
