(* ===== verification/Worker_Pool.thy ===== *)
theory Worker_Pool
  imports Errors "HOL-Library.Multiset"
begin

text \<open>
  The thread pool of \<open>include/recovery/worker_pool.h\<close> and \<open>src/recovery/worker_pool.c\<close>: a bounded
  ring of tasks under one mutex with three condition variables. The code between two points where
  the mutex is free is one atomic step: \<open>worker_take\<close>, \<open>worker_finish\<close>, \<open>submit_check\<close>,
  \<open>wait_idle_check\<close> and \<open>destroy_request\<close> are those sections as functions on the pool, and
  \<open>pool_step\<close> interleaves them over a list of threads. A thread is known by where it stands: about to
  take the mutex (\<open>_top\<close>), blocked in \<open>pthread_cond_wait\<close> (\<open>_wait\<close>), running a task, or returned. A
  signal wakes one waiting thread, whichever; a wait may also end without a signal, as POSIX allows.
  A task is an arbitrary value here, the function pointer with its argument. Record fields carry the
  prefixes \<open>wp_\<close> and \<open>ps_\<close>; \<open>ps_accepted\<close>, \<open>ps_started\<close> and \<open>ps_finished\<close> only record what happened.
\<close>

section \<open>The pool\<close>

record 't WorkerPool =
  wp_num_threads :: nat
  wp_queue :: "'t list"
  wp_queue_size :: nat
  wp_head :: nat
  wp_tail :: nat
  wp_count :: nat
  wp_shutdown :: bool
  wp_active_tasks :: nat

text \<open>The array comes from \<open>malloc\<close>: \<open>junk\<close> is what it holds.\<close>

definition worker_pool_create ::
    "bool \<Rightarrow> bool \<Rightarrow> bool \<Rightarrow> (nat \<Rightarrow> 't list) \<Rightarrow> nat \<Rightarrow> nat \<Rightarrow> 't WorkerPool option" where
  "worker_pool_create malloc_pool malloc_queue malloc_threads junk num_threads max_queue_size =
     (if num_threads = 0 \<or> max_queue_size = 0 then None
      else if \<not> malloc_pool then None
      else if \<not> malloc_queue then None
      else if \<not> malloc_threads then None
      else Some \<lparr>wp_num_threads = num_threads, wp_queue = junk max_queue_size,
             wp_queue_size = max_queue_size, wp_head = 0, wp_tail = 0, wp_count = 0,
             wp_shutdown = False, wp_active_tasks = 0\<rparr>)"

text \<open>The two ends of the ring.\<close>

definition ring_put :: "'t \<Rightarrow> 't WorkerPool \<Rightarrow> 't WorkerPool" where
  "ring_put t p = p\<lparr>wp_queue := (wp_queue p)[wp_tail p := t],
     wp_tail := (wp_tail p + 1) mod wp_queue_size p, wp_count := wp_count p + 1\<rparr>"

definition ring_get :: "'t WorkerPool \<Rightarrow> 't \<times> 't WorkerPool" where
  "ring_get p = (wp_queue p ! wp_head p,
     p\<lparr>wp_head := (wp_head p + 1) mod wp_queue_size p, wp_count := wp_count p - 1\<rparr>)"

text \<open>What a thread does once it holds the mutex: block, return, or go on with a changed pool.\<close>

datatype ('r, 'p) section_result = Block | Return 'r | Continue 'p

definition worker_take :: "'t WorkerPool \<Rightarrow> (unit, 't \<times> 't WorkerPool) section_result" where
  "worker_take p =
     (if wp_count p = 0 \<and> \<not> wp_shutdown p then Block
      else if wp_shutdown p \<and> wp_count p = 0 then Return ()
      else (case ring_get p of (t, p') \<Rightarrow> Continue (t, p'\<lparr>wp_active_tasks := wp_active_tasks p' + 1\<rparr>)))"

definition worker_finish :: "'t WorkerPool \<Rightarrow> 't WorkerPool \<times> bool" where
  "worker_finish p =
     (let p' = p\<lparr>wp_active_tasks := wp_active_tasks p - 1\<rparr>
      in (p', wp_count p' = 0 \<and> wp_active_tasks p' = 0))"

definition submit_check :: "'t \<Rightarrow> 't WorkerPool \<Rightarrow> (ErasecureError, 't WorkerPool) section_result" where
  "submit_check t p =
     (if wp_count p = wp_queue_size p \<and> \<not> wp_shutdown p then Block
      else if wp_shutdown p then Return ERASECURE_ERR_GENERIC
      else Continue (ring_put t p))"

definition wait_idle_check :: "'t WorkerPool \<Rightarrow> bool" where
  "wait_idle_check p \<longleftrightarrow> \<not> (wp_count p > 0 \<or> wp_active_tasks p > 0)"

definition destroy_request :: "'t WorkerPool \<Rightarrow> 't WorkerPool" where
  "destroy_request p = p\<lparr>wp_shutdown := True\<rparr>"

section \<open>Threads and condition variables\<close>

datatype 't phase =
    Work_top | Work_wait | Work_run 't | Work_exit
  | Sub_top 't | Sub_wait 't | Sub_done ErasecureError
  | Idle_top | Idle_wait | Idle_done
  | Dest_top | Dest_join | Dest_done

datatype cond = Not_empty | Not_full | Is_idle

fun waits_on :: "cond \<Rightarrow> 't phase \<Rightarrow> bool" where
  "waits_on Not_empty Work_wait = True"
| "waits_on Not_full (Sub_wait t) = True"
| "waits_on Is_idle Idle_wait = True"
| "waits_on _ _ = False"

fun resume :: "'t phase \<Rightarrow> 't phase" where
  "resume Work_wait = Work_top"
| "resume (Sub_wait t) = Sub_top t"
| "resume Idle_wait = Idle_top"
| "resume ph = ph"

inductive signals :: "cond \<Rightarrow> 't phase list \<Rightarrow> 't phase list \<Rightarrow> bool" where
  nobody: "\<forall>ph \<in> set ths. \<not> waits_on c ph \<Longrightarrow> signals c ths ths"
| somebody: "i < length ths \<Longrightarrow> waits_on c (ths ! i) \<Longrightarrow> signals c ths (ths[i := resume (ths ! i)])"

definition broadcast :: "cond \<Rightarrow> 't phase list \<Rightarrow> 't phase list" where
  "broadcast c ths = map (\<lambda>ph. if waits_on c ph then resume ph else ph) ths"

record 't psys =
  ps_pool :: "'t WorkerPool"
  ps_threads :: "'t phase list"
  ps_accepted :: "'t list"
  ps_started :: "'t list"
  ps_finished :: "'t list"

definition workers_exited :: "'t psys \<Rightarrow> bool" where
  "workers_exited s \<longleftrightarrow> (\<forall>i < wp_num_threads (ps_pool s). ps_threads s ! i = Work_exit)"

inductive pool_step :: "'t psys \<Rightarrow> 't psys \<Rightarrow> bool" where
  take_wait: "i < length (ps_threads s) \<Longrightarrow> ps_threads s ! i = Work_top \<Longrightarrow> worker_take (ps_pool s) = Block
    \<Longrightarrow> pool_step s (s\<lparr>ps_threads := (ps_threads s)[i := Work_wait]\<rparr>)"
| take_exit: "i < length (ps_threads s) \<Longrightarrow> ps_threads s ! i = Work_top \<Longrightarrow> worker_take (ps_pool s) = Return ()
    \<Longrightarrow> pool_step s (s\<lparr>ps_threads := (ps_threads s)[i := Work_exit]\<rparr>)"
| take_task: "i < length (ps_threads s) \<Longrightarrow> ps_threads s ! i = Work_top
    \<Longrightarrow> worker_take (ps_pool s) = Continue (t, p) \<Longrightarrow> signals Not_full ((ps_threads s)[i := Work_run t]) ths
    \<Longrightarrow> pool_step s (s\<lparr>ps_pool := p, ps_threads := ths, ps_started := ps_started s @ [t]\<rparr>)"
| finish: "i < length (ps_threads s) \<Longrightarrow> ps_threads s ! i = Work_run t \<Longrightarrow> worker_finish (ps_pool s) = (p, idle)
    \<Longrightarrow> (if idle then signals Is_idle ((ps_threads s)[i := Work_top]) ths else ths = (ps_threads s)[i := Work_top])
    \<Longrightarrow> pool_step s (s\<lparr>ps_pool := p, ps_threads := ths, ps_finished := ps_finished s @ [t]\<rparr>)"
| submit_wait: "i < length (ps_threads s) \<Longrightarrow> ps_threads s ! i = Sub_top t \<Longrightarrow> submit_check t (ps_pool s) = Block
    \<Longrightarrow> pool_step s (s\<lparr>ps_threads := (ps_threads s)[i := Sub_wait t]\<rparr>)"
| submit_fail: "i < length (ps_threads s) \<Longrightarrow> ps_threads s ! i = Sub_top t \<Longrightarrow> submit_check t (ps_pool s) = Return e
    \<Longrightarrow> pool_step s (s\<lparr>ps_threads := (ps_threads s)[i := Sub_done e]\<rparr>)"
| submit_put: "i < length (ps_threads s) \<Longrightarrow> ps_threads s ! i = Sub_top t \<Longrightarrow> submit_check t (ps_pool s) = Continue p
    \<Longrightarrow> signals Not_empty ((ps_threads s)[i := Sub_done ERASECURE_SUCCESS]) ths
    \<Longrightarrow> pool_step s (s\<lparr>ps_pool := p, ps_threads := ths, ps_accepted := ps_accepted s @ [t]\<rparr>)"
| idle_wait: "i < length (ps_threads s) \<Longrightarrow> ps_threads s ! i = Idle_top \<Longrightarrow> \<not> wait_idle_check (ps_pool s)
    \<Longrightarrow> pool_step s (s\<lparr>ps_threads := (ps_threads s)[i := Idle_wait]\<rparr>)"
| idle_return: "i < length (ps_threads s) \<Longrightarrow> ps_threads s ! i = Idle_top \<Longrightarrow> wait_idle_check (ps_pool s)
    \<Longrightarrow> pool_step s (s\<lparr>ps_threads := (ps_threads s)[i := Idle_done]\<rparr>)"
| destroy: "i < length (ps_threads s) \<Longrightarrow> ps_threads s ! i = Dest_top
    \<Longrightarrow> pool_step s (s\<lparr>ps_pool := destroy_request (ps_pool s),
          ps_threads := broadcast Not_empty ((ps_threads s)[i := Dest_join])\<rparr>)"
| join: "i < length (ps_threads s) \<Longrightarrow> ps_threads s ! i = Dest_join \<Longrightarrow> workers_exited s
    \<Longrightarrow> pool_step s (s\<lparr>ps_threads := (ps_threads s)[i := Dest_done]\<rparr>)"
| spurious: "i < length (ps_threads s) \<Longrightarrow> waits_on c (ps_threads s ! i)
    \<Longrightarrow> pool_step s (s\<lparr>ps_threads := (ps_threads s)[i := resume (ps_threads s ! i)]\<rparr>)"

text \<open>A pool just created, with its workers at the top of their loop and any number of callers.\<close>

fun is_call :: "'t phase \<Rightarrow> bool" where
  "is_call (Sub_top t) = True"
| "is_call Idle_top = True"
| "is_call Dest_top = True"
| "is_call _ = False"

definition pool_start :: "'t WorkerPool \<Rightarrow> 't phase list \<Rightarrow> 't psys" where
  "pool_start p calls =
     \<lparr>ps_pool = p, ps_threads = replicate (wp_num_threads p) Work_top @ calls,
      ps_accepted = [], ps_started = [], ps_finished = []\<rparr>"

inductive pool_reachable :: "'t WorkerPool \<Rightarrow> 't phase list \<Rightarrow> 't psys \<Rightarrow> bool" for p calls where
  start: "pool_reachable p calls (pool_start p calls)"
| step: "pool_reachable p calls s \<Longrightarrow> pool_step s s' \<Longrightarrow> pool_reachable p calls s'"

inductive_simps signals_iff: "signals c ths ths'"
inductive_cases pool_stepE: "pool_step s s'"

section \<open>The ring is a bounded queue\<close>

text \<open>
  What the pool relies on: putting and getting on a queue with \<open>contents\<close>. The client keeps two
  histories, what went in and what came out; the laws keep them in step with the contents.
\<close>

locale bounded_fifo =
  fixes ok :: "'q \<Rightarrow> bool" and capacity :: "'q \<Rightarrow> nat" and contents :: "'q \<Rightarrow> 'a list"
    and put :: "'a \<Rightarrow> 'q \<Rightarrow> 'q" and get :: "'q \<Rightarrow> 'a \<times> 'q"
  assumes bounded: "ok q \<Longrightarrow> length (contents q) \<le> capacity q"
    and put_ok: "ok q \<Longrightarrow> length (contents q) < capacity q \<Longrightarrow> ok (put x q)"
    and put_contents: "ok q \<Longrightarrow> length (contents q) < capacity q \<Longrightarrow> contents (put x q) = contents q @ [x]"
    and put_capacity: "capacity (put x q) = capacity q"
    and get_ok: "ok q \<Longrightarrow> contents q \<noteq> [] \<Longrightarrow> ok (snd (get q))"
    and get_contents: "ok q \<Longrightarrow> contents q \<noteq> [] \<Longrightarrow> fst (get q) # contents (snd (get q)) = contents q"
    and get_capacity: "capacity (snd (get q)) = capacity q"
begin

definition in_step :: "'a list \<Rightarrow> 'a list \<Rightarrow> 'q \<Rightarrow> bool" where
  "in_step ins outs q \<longleftrightarrow> ok q \<and> ins = outs @ contents q"

lemma in_step_put:
  "in_step ins outs q \<Longrightarrow> length (contents q) < capacity q \<Longrightarrow> in_step (ins @ [x]) outs (put x q)"
  by (simp add: in_step_def put_ok put_contents)

lemma in_step_get:
  "in_step ins outs q \<Longrightarrow> contents q \<noteq> [] \<Longrightarrow> in_step ins (outs @ [fst (get q)]) (snd (get q))"
  by (simp add: in_step_def get_ok get_contents)

lemma in_step_lag: "in_step ins outs q \<Longrightarrow> length ins \<le> length outs + capacity q"
  using bounded by (simp add: in_step_def)

end

definition ring_ok :: "'t WorkerPool \<Rightarrow> bool" where
  "ring_ok p \<longleftrightarrow> 0 < wp_queue_size p \<and> length (wp_queue p) = wp_queue_size p \<and> wp_head p < wp_queue_size p
     \<and> wp_count p \<le> wp_queue_size p \<and> wp_tail p = (wp_head p + wp_count p) mod wp_queue_size p"

definition ring_contents :: "'t WorkerPool \<Rightarrow> 't list" where
  "ring_contents p = map (\<lambda>i. wp_queue p ! ((wp_head p + i) mod wp_queue_size p)) [0..<wp_count p]"

lemma length_ring_contents [simp]: "length (ring_contents p) = wp_count p"
  by (simp add: ring_contents_def)

lemma ring_contents_Nil [simp]: "ring_contents p = [] \<longleftrightarrow> wp_count p = 0"
  by (simp add: ring_contents_def)

lemma ring_slot_free:
  assumes "i < c" "c < (n :: nat)" shows "(h + i) mod n \<noteq> (h + c) mod n"
proof
  assume "(h + i) mod n = (h + c) mod n"
  then have "(h + c) mod n = (h + i) mod n" by simp
  then have "n dvd h + c - (h + i)" using assms by (subst (asm) mod_eq_dvd_iff_nat) simp_all
  moreover have "0 < h + c - (h + i)" "h + c - (h + i) < n" using assms by simp_all
  ultimately show False by (meson nat_dvd_not_less)
qed

lemma ring_put_contents:
  assumes "ring_ok p" "wp_count p < wp_queue_size p"
  shows "ring_contents (ring_put t p) = ring_contents p @ [t]"
proof -
  have "wp_tail p < length (wp_queue p)" using assms by (simp add: ring_ok_def)
  moreover have "wp_tail p \<noteq> (wp_head p + i) mod wp_queue_size p" if "i < wp_count p" for i
    using assms ring_slot_free [OF that, of "wp_queue_size p" "wp_head p"] by (simp add: ring_ok_def)
  ultimately show ?thesis
    using assms(1) by (simp add: ring_contents_def ring_put_def nth_list_update) (simp add: ring_ok_def)
qed

lemma ring_get_contents:
  assumes "ring_ok p" "wp_count p \<noteq> 0"
  shows "fst (ring_get p) # ring_contents (snd (ring_get p)) = ring_contents p"
proof (rule nth_equalityI)
  fix i assume "i < length (fst (ring_get p) # ring_contents (snd (ring_get p)))"
  then show "(fst (ring_get p) # ring_contents (snd (ring_get p))) ! i = ring_contents p ! i"
    using assms by (cases i) (simp_all add: ring_get_def ring_contents_def ring_ok_def mod_add_left_eq)
qed (use assms in \<open>simp add: ring_get_def\<close>)

lemma ring_put_ok: "ring_ok p \<Longrightarrow> wp_count p < wp_queue_size p \<Longrightarrow> ring_ok (ring_put t p)"
  by (simp add: ring_ok_def ring_put_def mod_Suc_eq)

lemma ring_get_ok:
  assumes "ring_ok p" "wp_count p \<noteq> 0" shows "ring_ok (snd (ring_get p))"
proof -
  obtain k where "wp_count p = Suc k" using assms(2) by (cases "wp_count p") auto
  then show ?thesis using assms by (simp add: ring_ok_def ring_get_def mod_add_left_eq)
qed

interpretation ring: bounded_fifo ring_ok wp_queue_size ring_contents ring_put ring_get
proof
  fix p :: "'a WorkerPool" and t
  show "ring_ok p \<Longrightarrow> length (ring_contents p) \<le> wp_queue_size p" by (simp add: ring_ok_def)
  show "ring_ok p \<Longrightarrow> length (ring_contents p) < wp_queue_size p \<Longrightarrow> ring_ok (ring_put t p)"
    by (simp add: ring_put_ok)
  show "ring_ok p \<Longrightarrow> length (ring_contents p) < wp_queue_size p
      \<Longrightarrow> ring_contents (ring_put t p) = ring_contents p @ [t]"
    by (simp add: ring_put_contents)
  show "ring_ok p \<Longrightarrow> ring_contents p \<noteq> [] \<Longrightarrow> ring_ok (snd (ring_get p))"
    by (simp add: ring_get_ok)
  show "ring_ok p \<Longrightarrow> ring_contents p \<noteq> []
      \<Longrightarrow> fst (ring_get p) # ring_contents (snd (ring_get p)) = ring_contents p"
    by (simp add: ring_get_contents)
qed (simp_all add: ring_put_def ring_get_def)

section \<open>What every step keeps\<close>

fun is_worker :: "'t phase \<Rightarrow> bool" where
  "is_worker Work_top = True"
| "is_worker Work_wait = True"
| "is_worker (Work_run t) = True"
| "is_worker Work_exit = True"
| "is_worker _ = False"

fun run_of :: "'t phase \<Rightarrow> 't multiset" where
  "run_of (Work_run t) = {#t#}"
| "run_of _ = {#}"

definition running :: "'t phase list \<Rightarrow> 't multiset" where
  "running ths = sum_list (map run_of ths)"

lemma resume_keeps [simp]:
  "is_worker (resume ph) = is_worker ph" "run_of (resume ph) = run_of ph"
  "resume ph = Work_exit \<longleftrightarrow> ph = Work_exit" "resume ph = Dest_done \<longleftrightarrow> ph = Dest_done"
  "resume ph = Dest_join \<longleftrightarrow> ph = Dest_join" "resume ph = Idle_done \<longleftrightarrow> ph = Idle_done"
  by (cases ph; simp)+

lemma running_update:
  "i < length ths \<Longrightarrow> running (ths[i := ph]) + run_of (ths ! i) = running ths + run_of ph"
proof (induction ths arbitrary: i)
  case (Cons a ths)
  then show ?case by (cases i) (auto simp: running_def add_ac)
qed simp

lemma running_same [simp]:
  "i < length ths \<Longrightarrow> run_of ph = run_of (ths ! i) \<Longrightarrow> running (ths[i := ph]) = running ths"
  using running_update [of i ths ph] by simp

text \<open>
  What the invariant needs of the threads: who is a worker, what is running, whether a worker or the
  destroyer has returned, and whether every worker has. Waking threads changes none of it.
\<close>

definition quiet :: "'t phase list \<Rightarrow> bool" where
  "quiet ths \<longleftrightarrow> (\<forall>ph \<in> set ths. is_worker ph \<longrightarrow> ph = Work_exit)"

definition view :: "'t phase list \<Rightarrow> bool list \<times> 't multiset \<times> bool \<times> bool \<times> bool" where
  "view ths = (map is_worker ths, running ths, Work_exit \<in> set ths, Dest_done \<in> set ths, quiet ths)"

lemma view_resume: "list_all2 (\<lambda>a b. b = a \<or> b = resume a) ths ths' \<Longrightarrow> view ths' = view ths"
proof (induction rule: list_all2_induct)
  case (Cons a as b bs)
  from Cons.hyps(1) have "is_worker b = is_worker a" "run_of b = run_of a"
    "b = Work_exit \<longleftrightarrow> a = Work_exit" "b = Dest_done \<longleftrightarrow> a = Dest_done" by auto
  with Cons.IH show ?case by (auto simp: view_def running_def quiet_def)
qed simp

lemma view_signals: "signals c ths ths' \<Longrightarrow> view ths' = view ths"
  by (rule view_resume) (auto simp: list_all2_conv_all_nth nth_list_update elim!: signals.cases)

lemma view_broadcast: "view (broadcast c ths) = view ths"
  by (rule view_resume) (simp add: broadcast_def list_all2_conv_all_nth)

lemma view_update_resume: "i < length ths \<Longrightarrow> view (ths[i := resume (ths ! i)]) = view ths"
  by (rule view_resume) (simp add: list_all2_conv_all_nth nth_list_update)

text \<open>The invariant, on the view and the pool.\<close>

definition view_inv :: "bool list \<times> 't multiset \<times> bool \<times> bool \<times> bool \<Rightarrow> 't psys \<Rightarrow> bool" where
  "view_inv v s \<longleftrightarrow>
     (case v of (w, r, ex, dd, q) \<Rightarrow>
        wp_num_threads (ps_pool s) \<le> length w \<and> (\<forall>i < length w. w ! i \<longleftrightarrow> i < wp_num_threads (ps_pool s))
        \<and> wp_active_tasks (ps_pool s) = size r \<and> mset (ps_started s) = mset (ps_finished s) + r
        \<and> (ex \<longrightarrow> wp_shutdown (ps_pool s) \<and> wp_count (ps_pool s) = 0) \<and> (dd \<longrightarrow> q))"

definition pool_inv :: "'t psys \<Rightarrow> bool" where
  "pool_inv s \<longleftrightarrow> ring.in_step (ps_accepted s) (ps_started s) (ps_pool s)
     \<and> 0 < wp_num_threads (ps_pool s) \<and> view_inv (view (ps_threads s)) s"

lemma view_simps:
  "view_inv (view ths) s \<longleftrightarrow>
     wp_num_threads (ps_pool s) \<le> length ths
     \<and> (\<forall>i < length ths. is_worker (ths ! i) \<longleftrightarrow> i < wp_num_threads (ps_pool s))
     \<and> wp_active_tasks (ps_pool s) = size (running ths)
     \<and> mset (ps_started s) = mset (ps_finished s) + running ths
     \<and> (Work_exit \<in> set ths \<longrightarrow> wp_shutdown (ps_pool s) \<and> wp_count (ps_pool s) = 0)
     \<and> (Dest_done \<in> set ths \<longrightarrow> quiet ths)"
  by (simp add: view_inv_def view_def cong: conj_cong)

lemma member_update:
  "i < length xs \<Longrightarrow> a \<noteq> x \<Longrightarrow> a \<in> set (xs[i := x]) \<Longrightarrow> a \<in> set xs"
  by (auto dest: set_update_subset_insert [THEN subsetD])

lemma quiet_update:
  "quiet ths \<Longrightarrow> (is_worker ph \<Longrightarrow> ph = Work_exit) \<Longrightarrow> quiet (ths[i := ph])"
  using set_update_subset_insert [of ths i ph] by (auto simp: quiet_def)

lemma quiet_not_running: "quiet ths \<Longrightarrow> running ths = {#}"
proof (induction ths)
  case (Cons a ths)
  then show ?case by (cases a) (auto simp: quiet_def running_def)
qed (simp add: running_def)

text \<open>A thread that moves within its role, neither starting nor ending a task nor returning for good.\<close>

lemma view_inv_move:
  assumes "view_inv (view (ps_threads s)) s" and "i < length (ps_threads s)"
    and "is_worker ph = is_worker (ps_threads s ! i)" and "run_of ph = run_of (ps_threads s ! i)"
    and "ph = Work_exit \<Longrightarrow> wp_shutdown (ps_pool s) \<and> wp_count (ps_pool s) = 0"
    and "ph = Dest_done \<Longrightarrow> quiet (ps_threads s)" and "ps_threads s ! i \<noteq> Work_exit"
  shows "view_inv (view ((ps_threads s)[i := ph])) s"
proof -
  have "quiet ((ps_threads s)[i := ph])" if "quiet (ps_threads s)"
  proof (rule quiet_update [OF that])
    assume "is_worker ph"
    with assms(2,3,7) that show "ph = Work_exit" by (auto simp: quiet_def)
  qed
  moreover have "Work_exit \<in> set ((ps_threads s)[i := ph]) \<Longrightarrow> ph = Work_exit \<or> Work_exit \<in> set (ps_threads s)"
    "Dest_done \<in> set ((ps_threads s)[i := ph]) \<Longrightarrow> ph = Dest_done \<or> Dest_done \<in> set (ps_threads s)"
    using member_update [OF assms(2)] by metis+
  ultimately show ?thesis
    using assms unfolding view_simps by (auto simp: nth_list_update)
qed

lemma view_inv_threads [simp]: "view_inv v (s\<lparr>ps_threads := x\<rparr>) = view_inv v s"
  by (simp add: view_inv_def)

lemma worker_take_simps:
  "worker_take p = Block \<longleftrightarrow> wp_count p = 0 \<and> \<not> wp_shutdown p"
  "worker_take p = Return u \<longleftrightarrow> wp_count p = 0 \<and> wp_shutdown p"
  "worker_take p = Continue (t, p') \<longleftrightarrow> wp_count p \<noteq> 0 \<and> t = fst (ring_get p)
     \<and> p' = (snd (ring_get p))\<lparr>wp_active_tasks := wp_active_tasks p + 1\<rparr>"
  by (auto simp: worker_take_def ring_get_def)

lemma submit_check_simps:
  "submit_check t p = Block \<longleftrightarrow> wp_count p = wp_queue_size p \<and> \<not> wp_shutdown p"
  "submit_check t p = Return e \<longleftrightarrow> wp_shutdown p \<and> e = ERASECURE_ERR_GENERIC"
  "submit_check t p = Continue p' \<longleftrightarrow> \<not> wp_shutdown p \<and> wp_count p \<noteq> wp_queue_size p \<and> p' = ring_put t p"
  by (auto simp: submit_check_def)

lemma in_step_active [simp]:
  "ring.in_step a b (p\<lparr>wp_active_tasks := x\<rparr>) = ring.in_step a b p"
  "ring.in_step a b (p\<lparr>wp_shutdown := y\<rparr>) = ring.in_step a b p"
  by (simp_all add: ring.in_step_def ring_ok_def ring_contents_def)

lemma ring_fields [simp]:
  "wp_num_threads (ring_put t p) = wp_num_threads p" "wp_shutdown (ring_put t p) = wp_shutdown p"
  "wp_active_tasks (ring_put t p) = wp_active_tasks p" "wp_num_threads (snd (ring_get p)) = wp_num_threads p"
  "wp_shutdown (snd (ring_get p)) = wp_shutdown p" "wp_active_tasks (snd (ring_get p)) = wp_active_tasks p"
  by (simp_all add: ring_put_def ring_get_def)

lemma role_update: "is_worker ph = is_worker (ths ! i) \<Longrightarrow> is_worker (ths[i := ph] ! j) = is_worker (ths ! j)"
  by (cases "i < length ths") (auto simp: nth_list_update list_update_beyond)

lemma pool_inv_take:
  assumes inv: "pool_inv s" and i: "i < length (ps_threads s)" "ps_threads s ! i = Work_top"
    and t: "worker_take (ps_pool s) = Continue (t, p)"
    and sig: "signals Not_full ((ps_threads s)[i := Work_run t]) ths"
  shows "pool_inv (s\<lparr>ps_pool := p, ps_threads := ths, ps_started := ps_started s @ [t]\<rparr>)"
proof -
  have v: "view_inv (view (ps_threads s)) s" and q: "ring.in_step (ps_accepted s) (ps_started s) (ps_pool s)"
    using inv by (simp_all add: pool_inv_def)
  have p: "wp_count (ps_pool s) \<noteq> 0" "t = fst (ring_get (ps_pool s))"
    "p = (snd (ring_get (ps_pool s)))\<lparr>wp_active_tasks := wp_active_tasks (ps_pool s) + 1\<rparr>"
    using t by (simp_all add: worker_take_simps)
  have "Work_top \<in> set (ps_threads s)" using i by (metis nth_mem)
  then have "Dest_done \<notin> set (ps_threads s)" "Work_exit \<notin> set (ps_threads s)"
    using v p(1) by (auto simp: view_simps quiet_def)
  then have no: "Dest_done \<notin> set ((ps_threads s)[i := Work_run t])"
    "Work_exit \<notin> set ((ps_threads s)[i := Work_run t])"
    using member_update [OF i(1)] by blast+
  have "running ((ps_threads s)[i := Work_run t]) = add_mset t (running (ps_threads s))"
    using running_update [OF i(1), of "Work_run t"] i(2) by simp
  then have "view_inv (view ((ps_threads s)[i := Work_run t]))
      (s\<lparr>ps_pool := p, ps_threads := ths, ps_started := ps_started s @ [t]\<rparr>)"
    using v no role_update [of "Work_run t" "ps_threads s" i] i(2) unfolding view_simps by (auto simp: p(3))
  moreover have "ring.in_step (ps_accepted s) (ps_started s @ [t]) p"
    using ring.in_step_get [OF q] p by simp
  ultimately show ?thesis
    using inv by (simp add: pool_inv_def view_signals [OF sig] p(3))
qed

lemma pool_inv_finish:
  assumes inv: "pool_inv s" and i: "i < length (ps_threads s)" "ps_threads s ! i = Work_run t"
    and f: "worker_finish (ps_pool s) = (p, idle)"
    and view: "view ths = view ((ps_threads s)[i := Work_top])"
  shows "pool_inv (s\<lparr>ps_pool := p, ps_threads := ths, ps_finished := ps_finished s @ [t]\<rparr>)"
proof -
  have v: "view_inv (view (ps_threads s)) s" using inv by (simp add: pool_inv_def)
  have p: "p = (ps_pool s)\<lparr>wp_active_tasks := wp_active_tasks (ps_pool s) - 1\<rparr>"
    using f by (simp add: worker_finish_def Let_def)
  have "Work_run t \<in> set (ps_threads s)" using i by (metis nth_mem)
  then have "Dest_done \<notin> set (ps_threads s)" using v by (auto simp: view_simps quiet_def)
  then have no: "Dest_done \<notin> set ((ps_threads s)[i := Work_top])"
    "Work_exit \<in> set ((ps_threads s)[i := Work_top]) \<Longrightarrow> Work_exit \<in> set (ps_threads s)"
    using member_update [OF i(1)] by blast+
  have "running (ps_threads s) = add_mset t (running ((ps_threads s)[i := Work_top]))"
    using running_update [OF i(1), of Work_top] i(2) by simp
  then have "view_inv (view ((ps_threads s)[i := Work_top]))
      (s\<lparr>ps_pool := p, ps_threads := ths, ps_finished := ps_finished s @ [t]\<rparr>)"
    using v no role_update [of Work_top "ps_threads s" i] i(2) unfolding view_simps by (auto simp: p)
  with inv show ?thesis by (simp add: pool_inv_def view p)
qed

lemma pool_inv_put:
  assumes inv: "pool_inv s" and i: "i < length (ps_threads s)" "ps_threads s ! i = Sub_top t"
    and c: "submit_check t (ps_pool s) = Continue p"
    and sig: "signals Not_empty ((ps_threads s)[i := Sub_done ERASECURE_SUCCESS]) ths"
  shows "pool_inv (s\<lparr>ps_pool := p, ps_threads := ths, ps_accepted := ps_accepted s @ [t]\<rparr>)"
proof -
  have v: "view_inv (view (ps_threads s)) s" and q: "ring.in_step (ps_accepted s) (ps_started s) (ps_pool s)"
    using inv by (simp_all add: pool_inv_def)
  have p: "\<not> wp_shutdown (ps_pool s)" "wp_count (ps_pool s) \<noteq> wp_queue_size (ps_pool s)" "p = ring_put t (ps_pool s)"
    using c by (simp_all add: submit_check_simps)
  have "Work_exit \<notin> set (ps_threads s)" using v p(1) by (auto simp: view_simps)
  then have "Work_exit \<notin> set ((ps_threads s)[i := Sub_done ERASECURE_SUCCESS])"
    using member_update [OF i(1)] by blast
  then have "view_inv (view ((ps_threads s)[i := Sub_done ERASECURE_SUCCESS]))
      (s\<lparr>ps_pool := p, ps_threads := ths, ps_accepted := ps_accepted s @ [t]\<rparr>)"
    using view_inv_move [OF v i(1), of "Sub_done ERASECURE_SUCCESS"] i(2)
    unfolding view_simps by (auto simp: p(3))
  moreover have "wp_count (ps_pool s) < wp_queue_size (ps_pool s)"
    using q p(2) ring.bounded [of "ps_pool s"] by (simp add: ring.in_step_def)
  then have "ring.in_step (ps_accepted s @ [t]) (ps_started s) p"
    using ring.in_step_put [OF q] p(3) by simp
  ultimately show ?thesis using inv by (simp add: pool_inv_def view_signals [OF sig] p(3))
qed

lemma pool_inv_move:
  assumes "pool_inv s" and "i < length (ps_threads s)"
    and "is_worker ph = is_worker (ps_threads s ! i)" and "run_of ph = run_of (ps_threads s ! i)"
    and "ph = Work_exit \<Longrightarrow> wp_shutdown (ps_pool s) \<and> wp_count (ps_pool s) = 0"
    and "ph = Dest_done \<Longrightarrow> quiet (ps_threads s)" and "ps_threads s ! i \<noteq> Work_exit"
  shows "pool_inv (s\<lparr>ps_threads := (ps_threads s)[i := ph]\<rparr>)"
  using view_inv_move [OF _ assms(2-7)] assms(1) by (simp add: pool_inv_def)

lemma workers_exited_quiet: "pool_inv s \<Longrightarrow> workers_exited s \<Longrightarrow> quiet (ps_threads s)"
  by (auto simp: pool_inv_def view_simps workers_exited_def quiet_def in_set_conv_nth)

lemma pool_step_inv: "pool_step s s' \<Longrightarrow> pool_inv s \<Longrightarrow> pool_inv s'"
proof (induction rule: pool_step.induct)
  case (take_wait i s)
  then show ?case by (intro pool_inv_move) simp_all
next
  case (take_exit i s)
  have "wp_shutdown (ps_pool s) \<and> wp_count (ps_pool s) = 0"
    using take_exit(3) unfolding worker_take_simps by blast
  then show ?case
    using pool_inv_move [OF take_exit(4,1), of Work_exit] unfolding take_exit(2) by simp
next
  case (take_task i s t p ths)
  show ?case by (rule pool_inv_take [OF take_task(5,1,2,3,4)])
next
  case (finish i s t p idle ths)
  then have "view ths = view ((ps_threads s)[i := Work_top])" by (auto simp: view_signals split: if_splits)
  then show ?case by (rule pool_inv_finish [OF finish(5,1,2,3)])
next
  case (submit_wait i s t)
  then show ?case by (intro pool_inv_move) simp_all
next
  case (submit_fail i s t e)
  then show ?case by (intro pool_inv_move) simp_all
next
  case (submit_put i s t p ths)
  show ?case by (rule pool_inv_put [OF submit_put(5,1,2,3,4)])
next
  case (idle_wait i s)
  then show ?case by (intro pool_inv_move) simp_all
next
  case (idle_return i s)
  then show ?case by (intro pool_inv_move) simp_all
next
  case (destroy i s)
  then have "pool_inv (s\<lparr>ps_threads := (ps_threads s)[i := Dest_join]\<rparr>)"
    by (intro pool_inv_move) simp_all
  then show ?case by (simp add: pool_inv_def view_broadcast destroy_request_def view_simps)
next
  case (join i s)
  then show ?case using workers_exited_quiet [of s] by (intro pool_inv_move) simp_all
next
  case (spurious i s c)
  then show ?case by (simp add: pool_inv_def view_update_resume)
qed

lemma pool_start_inv:
  assumes "worker_pool_create a b c junk n q = Some p" and "length (junk q) = q"
    and "\<forall>ph \<in> set calls. is_call ph"
  shows "pool_inv (pool_start p calls)"
proof -
  have "\<not> is_worker ph \<and> run_of ph = {#} \<and> ph \<noteq> Work_exit \<and> ph \<noteq> Dest_done" if "ph \<in> set calls" for ph
    using assms(3) that by (cases ph) auto
  note calls = this
  have "sum_list (map run_of calls) = {#}" using calls by (induction calls) auto
  then have "running (replicate n Work_top @ calls) = {#}"
    by (induction n) (simp_all add: running_def)
  moreover have "is_worker ((replicate n Work_top @ calls) ! i) \<longleftrightarrow> i < n" if "i < n + length calls" for i
    using that calls [OF nth_mem, of "i - n"] by (auto simp: nth_append)
  ultimately show ?thesis
    using assms(1,2) calls
    by (auto simp: worker_pool_create_def pool_start_def pool_inv_def ring.in_step_def ring_ok_def
        ring_contents_def view_simps split: if_splits)
qed

lemma pool_reachable_inv:
  assumes "pool_reachable p calls s" and "worker_pool_create a b c junk n q = Some p" and "length (junk q) = q"
    and "\<forall>ph \<in> set calls. is_call ph"
  shows "pool_inv s"
  using assms(1)
  by induction (use pool_start_inv [OF assms(2-4)] pool_step_inv in blast)+

text \<open>
  C22. The pool runs tasks first in, first out and exactly once. In every state the threads can reach,
  whatever the interleaving, the tasks accepted by \<open>worker_pool_submit\<close> are those started, in the
  order of their start, followed by the content of the ring; the ring holds no more than its
  capacity; and the tasks started are those finished together with those running, one for each unit
  of \<open>active_tasks\<close>.
\<close>

theorem pool_runs_in_order:
  assumes "worker_pool_create a b c junk n q = Some p" and "length (junk q) = q"
    and "\<forall>ph \<in> set calls. is_call ph" and "pool_reachable p calls s"
  shows "ps_accepted s = ps_started s @ ring_contents (ps_pool s)
    \<and> wp_count (ps_pool s) \<le> wp_queue_size (ps_pool s)
    \<and> mset (ps_started s) = mset (ps_finished s) + running (ps_threads s)
    \<and> size (running (ps_threads s)) = wp_active_tasks (ps_pool s)"
proof -
  have "pool_inv s" by (rule pool_reachable_inv [OF assms(4,1-3)])
  then show ?thesis
    using ring.bounded [of "ps_pool s"] by (simp add: pool_inv_def ring.in_step_def view_simps)
qed

text \<open>
  \<open>worker_pool_wait_idle\<close> keeps its promise: at the step in which a call of it returns, every
  task accepted so far has finished.
\<close>

theorem wait_idle_returns_when_done:
  assumes "worker_pool_create a b c junk n q = Some p" and "length (junk q) = q"
    and "\<forall>ph \<in> set calls. is_call ph" and "pool_reachable p calls s"
    and returns: "pool_step s s'" "ps_threads s ! i = Idle_top" "ps_threads s' ! i = Idle_done"
    and i: "i < length (ps_threads s)"
  shows "mset (ps_finished s') = mset (ps_accepted s')"
proof -
  have inv: "pool_inv s" by (rule pool_reachable_inv [OF assms(4,1-3)])
  have woken: "ths ! i \<noteq> Idle_done" if "signals cd ((ps_threads s)[j := ph]) ths" "ph \<noteq> Idle_done" for cd j ph ths
  proof -
    have "(ps_threads s)[j := ph] ! i \<noteq> Idle_done"
      using that(2) i returns(2) by (cases "j = i") simp_all
    then show ?thesis using that(1) i by (auto simp: nth_list_update elim!: signals.cases split: if_splits)
  qed
  have "wait_idle_check (ps_pool s) \<and> ps_finished s' = ps_finished s \<and> ps_accepted s' = ps_accepted s"
    using returns i
  proof (cases rule: pool_step.cases)
    case (destroy j)
    then show ?thesis using returns(2,3) i by (auto simp: broadcast_def nth_list_update split: if_splits)
  qed (auto simp: nth_list_update dest!: woken split: if_splits)
  moreover from this have "wp_count (ps_pool s) = 0" "running (ps_threads s) = {#}"
    using inv by (auto simp: wait_idle_check_def pool_inv_def view_simps)
  ultimately show ?thesis
    using inv by (simp add: pool_inv_def view_simps ring.in_step_def ring_contents_def)
qed

text \<open>
  C23. \<open>worker_pool_destroy\<close> drains the pool: once a call of it has returned, every worker has returned
  and every task that was ever accepted has finished.
\<close>

theorem destroy_finishes_accepted:
  assumes "worker_pool_create a b c junk n q = Some p" and "length (junk q) = q"
    and "\<forall>ph \<in> set calls. is_call ph" and "pool_reachable p calls s"
    and destroyed: "Dest_done \<in> set (ps_threads s)"
  shows "workers_exited s \<and> mset (ps_finished s) = mset (ps_accepted s)"
proof -
  have inv: "pool_inv s" by (rule pool_reachable_inv [OF assms(4,1-3)])
  then have quiet: "quiet (ps_threads s)" using destroyed by (simp add: pool_inv_def view_simps)
  have exited: "workers_exited s"
    using inv quiet by (auto simp: workers_exited_def pool_inv_def view_simps quiet_def)
  then have "Work_exit \<in> set (ps_threads s)"
    using inv unfolding workers_exited_def pool_inv_def view_simps by (metis less_le_trans nth_mem)
  then have "wp_count (ps_pool s) = 0" using inv by (simp add: pool_inv_def view_simps)
  with exited show ?thesis
    using inv quiet_not_running [OF quiet]
    by (simp add: pool_inv_def view_simps ring.in_step_def ring_contents_def)
qed

text \<open>A pool of one worker and one slot; three submitters and a destroyer.\<close>

definition demo_pool :: "nat WorkerPool" where
  "demo_pool = the (worker_pool_create True True True (\<lambda>n. replicate n 0) 1 1)"

definition demo_calls :: "nat phase list" where
  "demo_calls = [Sub_top 7, Sub_top 8, Sub_top 9, Dest_top]"

lemma demo_pool_ready:
  "worker_pool_create True True True (\<lambda>n. replicate n 0) 1 1 = Some demo_pool"
  "length (replicate 1 (0 :: nat)) = 1" "\<forall>ph \<in> set demo_calls. is_call ph"
  by (simp_all add: demo_pool_def demo_calls_def worker_pool_create_def)

definition demo_state ::
    "nat list \<Rightarrow> nat \<Rightarrow> bool \<Rightarrow> nat \<Rightarrow> nat phase list \<Rightarrow> nat list \<Rightarrow> nat list \<Rightarrow> nat list \<Rightarrow> nat psys" where
  "demo_state q k down act ths acc started fin =
     \<lparr>ps_pool = \<lparr>wp_num_threads = 1, wp_queue = q, wp_queue_size = 1, wp_head = 0, wp_tail = 0,
        wp_count = k, wp_shutdown = down, wp_active_tasks = act\<rparr>,
      ps_threads = ths, ps_accepted = acc, ps_started = started, ps_finished = fin\<rparr>"

text \<open>Worker, then the callers in order; the worker is at its loop top until the queue is shut down.\<close>

lemma demo_run_start:
  "pool_reachable demo_pool demo_calls
     (demo_state [7] 1 False 0 [Work_top, Sub_done ERASECURE_SUCCESS, Sub_wait 8, Sub_wait 9, Dest_top] [7] [] [])"
proof -
  note defs = demo_state_def pool_start_def demo_pool_def demo_calls_def worker_pool_create_def
    submit_check_def ring_put_def
  have s0: "pool_reachable demo_pool demo_calls
      (demo_state [0] 0 False 0 [Work_top, Sub_top 7, Sub_top 8, Sub_top 9, Dest_top] [] [] [])"
    using pool_reachable.start [of demo_pool demo_calls] by (simp add: defs)
  have s1: "pool_reachable demo_pool demo_calls
      (demo_state [7] 1 False 0 [Work_top, Sub_done ERASECURE_SUCCESS, Sub_top 8, Sub_top 9, Dest_top] [7] [] [])"
    using pool_reachable.step [OF s0 pool_step.submit_put [of 1 _ 7 _ "[Work_top, Sub_done ERASECURE_SUCCESS, Sub_top 8, Sub_top 9, Dest_top]"]]
    by (simp add: defs signals.nobody)
  have s2: "pool_reachable demo_pool demo_calls
      (demo_state [7] 1 False 0 [Work_top, Sub_done ERASECURE_SUCCESS, Sub_wait 8, Sub_top 9, Dest_top] [7] [] [])"
    using pool_reachable.step [OF s1 pool_step.submit_wait [of 2 _ 8]] by (simp add: defs)
  show ?thesis
    using pool_reachable.step [OF s2 pool_step.submit_wait [of 3 _ 9]] by (simp add: defs)
qed

lemma demo_run_destroyed:
  "pool_reachable demo_pool demo_calls
     (demo_state [7] 0 True 0
       [Work_top, Sub_done ERASECURE_SUCCESS, Sub_done ERASECURE_ERR_GENERIC, Sub_wait 9, Dest_join] [7] [7] [7])"
proof -
  note defs = demo_state_def demo_pool_def demo_calls_def worker_pool_create_def
    submit_check_def ring_get_def worker_take_def worker_finish_def destroy_request_def broadcast_def
  have s4: "pool_reachable demo_pool demo_calls
      (demo_state [7] 1 True 0 [Work_top, Sub_done ERASECURE_SUCCESS, Sub_wait 8, Sub_wait 9, Dest_join] [7] [] [])"
    using pool_reachable.step [OF demo_run_start pool_step.destroy [of 4]] by (simp add: defs)
  have "signals Not_full [Work_run 7, Sub_done ERASECURE_SUCCESS, Sub_wait 8, Sub_wait 9, Dest_join]
      [Work_run 7, Sub_done ERASECURE_SUCCESS, Sub_top (8 :: nat), Sub_wait 9, Dest_join]"
    using signals.somebody [of 2 "[Work_run 7, Sub_done ERASECURE_SUCCESS, Sub_wait 8, Sub_wait 9, Dest_join]" Not_full]
    by simp
  then have s5: "pool_reachable demo_pool demo_calls
      (demo_state [7] 0 True 1 [Work_run 7, Sub_done ERASECURE_SUCCESS, Sub_top 8, Sub_wait 9, Dest_join] [7] [7] [])"
    using pool_reachable.step [OF s4 pool_step.take_task [of 0 _ 7 _
        "[Work_run 7, Sub_done ERASECURE_SUCCESS, Sub_top 8, Sub_wait 9, Dest_join]"]] by (simp add: defs)
  have s6: "pool_reachable demo_pool demo_calls
      (demo_state [7] 0 True 1
        [Work_run 7, Sub_done ERASECURE_SUCCESS, Sub_done ERASECURE_ERR_GENERIC, Sub_wait 9, Dest_join] [7] [7] [])"
    using pool_reachable.step [OF s5 pool_step.submit_fail [of 2 _ 8]] by (simp add: defs)
  show ?thesis
    using pool_reachable.step [OF s6 pool_step.finish [of 0 _ 7 _ _
        "[Work_top, Sub_done ERASECURE_SUCCESS, Sub_done ERASECURE_ERR_GENERIC, Sub_wait 9, Dest_join]"]]
    by (simp add: defs signals.nobody)
qed

lemma demo_run_end:
  "pool_reachable demo_pool demo_calls
     (demo_state [7] 0 True 0
       [Work_exit, Sub_done ERASECURE_SUCCESS, Sub_done ERASECURE_ERR_GENERIC, Sub_wait 9, Dest_done] [7] [7] [7])"
proof -
  note defs = demo_state_def demo_pool_def demo_calls_def worker_pool_create_def worker_take_def
    workers_exited_def
  have s8: "pool_reachable demo_pool demo_calls
      (demo_state [7] 0 True 0
        [Work_exit, Sub_done ERASECURE_SUCCESS, Sub_done ERASECURE_ERR_GENERIC, Sub_wait 9, Dest_join] [7] [7] [7])"
    using pool_reachable.step [OF demo_run_destroyed pool_step.take_exit [of 0]] by (simp add: defs)
  show ?thesis using pool_reachable.step [OF s8 pool_step.join [of 4]] by (simp add: defs)
qed

theorem pool_runs_in_order_witness:
  "wp_count (ps_pool (demo_state [7] 1 False 0
     [Work_top, Sub_done ERASECURE_SUCCESS, Sub_wait 8, Sub_wait 9, Dest_top] [7] [] [])) \<le> 1"
  using pool_runs_in_order [OF demo_pool_ready demo_run_start] by (simp add: demo_state_def)

theorem destroy_finishes_accepted_witness:
  "mset [7 :: nat] = mset (ps_accepted (demo_state [7] 0 True 0
     [Work_exit, Sub_done ERASECURE_SUCCESS, Sub_done ERASECURE_ERR_GENERIC, Sub_wait 9, Dest_done] [7] [7] [7]))"
  using destroy_finishes_accepted [OF demo_pool_ready demo_run_end] by (simp add: demo_state_def)

text \<open>A caller of \<open>worker_pool_wait_idle\<close> on an idle pool, for the witness.\<close>

theorem wait_idle_returns_when_done_witness:
  "\<exists>s s'. pool_reachable demo_pool [Idle_top] s \<and> pool_step s s' \<and> ps_threads s' ! 1 = Idle_done
     \<and> mset (ps_finished s') = mset (ps_accepted s')"
proof -
  define s where "s = pool_start demo_pool [Idle_top]"
  define s' where "s' = s\<lparr>ps_threads := (ps_threads s)[1 := Idle_done]\<rparr>"
  have at: "1 < length (ps_threads s)" "ps_threads s ! 1 = Idle_top" "ps_threads s' ! 1 = Idle_done"
    by (simp_all add: s_def s'_def pool_start_def demo_pool_def worker_pool_create_def)
  have reach: "pool_reachable demo_pool [Idle_top] s" unfolding s_def by (rule pool_reachable.start)
  have step: "pool_step s s'" unfolding s'_def
    by (rule pool_step.idle_return [OF at(1,2)])
      (simp add: s_def pool_start_def demo_pool_def worker_pool_create_def wait_idle_check_def)
  have "mset (ps_finished s') = mset (ps_accepted s')"
    by (rule wait_idle_returns_when_done [OF demo_pool_ready(1,2) _ reach step at(2,3,1)]) simp
  with reach step at show ?thesis by blast
qed

text \<open>
  \<open>worker_pool_destroy\<close> does not wake callers of \<open>worker_pool_submit\<close> that wait for a free slot: with
  one worker, one slot and three submitters there is a run in which the destroyer has returned, and
  with it freed the pool, while a submitter is still blocked on \<open>not_full\<close> inside it.
\<close>

theorem destroy_strands_submitter:
  "\<exists>p s. worker_pool_create True True True (\<lambda>n. replicate n (0 :: nat)) 1 1 = Some p
    \<and> pool_reachable p [Sub_top 7, Sub_top 8, Sub_top 9, Dest_top] s
    \<and> Dest_done \<in> set (ps_threads s) \<and> Sub_wait 9 \<in> set (ps_threads s)"
proof -
  define s where "s = demo_state [7] 0 True 0
    [Work_exit, Sub_done ERASECURE_SUCCESS, Sub_done ERASECURE_ERR_GENERIC, Sub_wait 9, Dest_done] [7] [7] [7]"
  have "pool_reachable demo_pool [Sub_top 7, Sub_top 8, Sub_top 9, Dest_top] s"
    using demo_run_end by (simp add: s_def demo_calls_def)
  moreover have "Dest_done \<in> set (ps_threads s)" "Sub_wait 9 \<in> set (ps_threads s)"
    by (simp_all add: s_def demo_state_def)
  ultimately show ?thesis using demo_pool_ready(1) by blast
qed

text \<open>
  The last task to finish signals \<open>is_idle\<close>, which wakes one caller of \<open>worker_pool_wait_idle\<close>. With two callers
  there is a run in which the pool is idle, every task has finished and one caller has returned, while the other is
  still blocked and no step is left but a wakeup without a signal.
\<close>

lemma demo_run_idle:
  "pool_reachable demo_pool [Sub_top 7, Idle_top, Idle_top]
     (demo_state [7] 0 False 0 [Work_top, Sub_done ERASECURE_SUCCESS, Idle_top, Idle_wait] [7] [7] [7])"
proof -
  let ?calls = "[Sub_top 7, Idle_top, Idle_top] :: nat phase list"
  note defs = demo_state_def pool_start_def demo_pool_def worker_pool_create_def submit_check_def ring_put_def
    ring_get_def worker_take_def worker_finish_def wait_idle_check_def
  have s0: "pool_reachable demo_pool ?calls (demo_state [0] 0 False 0 [Work_top, Sub_top 7, Idle_top, Idle_top] [] [] [])"
    using pool_reachable.start [of demo_pool ?calls] by (simp add: defs)
  have s1: "pool_reachable demo_pool ?calls
      (demo_state [7] 1 False 0 [Work_top, Sub_done ERASECURE_SUCCESS, Idle_top, Idle_top] [7] [] [])"
    using pool_reachable.step [OF s0 pool_step.submit_put
        [of 1 _ 7 _ "[Work_top, Sub_done ERASECURE_SUCCESS, Idle_top, Idle_top]"]]
    by (simp add: defs signals.nobody)
  have s2: "pool_reachable demo_pool ?calls
      (demo_state [7] 1 False 0 [Work_top, Sub_done ERASECURE_SUCCESS, Idle_wait, Idle_top] [7] [] [])"
    using pool_reachable.step [OF s1 pool_step.idle_wait [of 2]] by (simp add: defs)
  have s3: "pool_reachable demo_pool ?calls
      (demo_state [7] 1 False 0 [Work_top, Sub_done ERASECURE_SUCCESS, Idle_wait, Idle_wait] [7] [] [])"
    using pool_reachable.step [OF s2 pool_step.idle_wait [of 3]] by (simp add: defs)
  have s4: "pool_reachable demo_pool ?calls
      (demo_state [7] 0 False 1 [Work_run 7, Sub_done ERASECURE_SUCCESS, Idle_wait, Idle_wait] [7] [7] [])"
    using pool_reachable.step [OF s3 pool_step.take_task
        [of 0 _ 7 _ "[Work_run 7, Sub_done ERASECURE_SUCCESS, Idle_wait, Idle_wait]"]]
    by (simp add: defs signals.nobody)
  have "signals Is_idle [Work_top, Sub_done ERASECURE_SUCCESS, Idle_wait, Idle_wait]
      [Work_top, Sub_done ERASECURE_SUCCESS, Idle_top, Idle_wait :: nat phase]"
    using signals.somebody [of 2 "[Work_top, Sub_done ERASECURE_SUCCESS, Idle_wait, Idle_wait]" Is_idle] by simp
  then show ?thesis
    using pool_reachable.step [OF s4 pool_step.finish
        [of 0 _ 7 _ _ "[Work_top, Sub_done ERASECURE_SUCCESS, Idle_top, Idle_wait]"]]
    by (simp add: defs)
qed

theorem wait_idle_strands_caller:
  "\<exists>p s. worker_pool_create True True True (\<lambda>n. replicate n (0 :: nat)) 1 1 = Some p
    \<and> pool_reachable p [Sub_top 7, Idle_top, Idle_top] s
    \<and> wait_idle_check (ps_pool s) \<and> ps_finished s = ps_accepted s
    \<and> Idle_done \<in> set (ps_threads s) \<and> Idle_wait \<in> set (ps_threads s)
    \<and> {s'. pool_step s s'} = {s\<lparr>ps_threads := (ps_threads s)[0 := Work_top]\<rparr>, s\<lparr>ps_threads := (ps_threads s)[3 := Idle_top]\<rparr>}"
proof -
  let ?calls = "[Sub_top 7, Idle_top, Idle_top] :: nat phase list"
  define s where "s = demo_state [7] 0 False 0 [Work_wait, Sub_done ERASECURE_SUCCESS, Idle_done, Idle_wait] [7] [7] [7]"
  have s6: "pool_reachable demo_pool ?calls
      (demo_state [7] 0 False 0 [Work_top, Sub_done ERASECURE_SUCCESS, Idle_done, Idle_wait] [7] [7] [7])"
    using pool_reachable.step [OF demo_run_idle pool_step.idle_return [of 2]] by (simp add: demo_state_def wait_idle_check_def)
  have reach: "pool_reachable demo_pool ?calls s"
    using pool_reachable.step [OF s6 pool_step.take_wait [of 0]] by (simp add: s_def demo_state_def worker_take_def)
  have ths: "ps_threads s = [Work_wait, Sub_done ERASECURE_SUCCESS, Idle_done, Idle_wait]"
    by (simp add: s_def demo_state_def)
  have "pool_step s s' \<longleftrightarrow> s' = s\<lparr>ps_threads := (ps_threads s)[0 := Work_top]\<rparr>
      \<or> s' = s\<lparr>ps_threads := (ps_threads s)[3 := Idle_top]\<rparr>" for s'
  proof
    assume "pool_step s s'"
    then show "s' = s\<lparr>ps_threads := (ps_threads s)[0 := Work_top]\<rparr> \<or> s' = s\<lparr>ps_threads := (ps_threads s)[3 := Idle_top]\<rparr>"
      by (cases rule: pool_step.cases) (auto simp: ths less_Suc_eq numeral_eq_Suc)
  next
    have "pool_step s (s\<lparr>ps_threads := (ps_threads s)[0 := Work_top]\<rparr>)"
      using pool_step.spurious [of 0 s Not_empty] by (simp add: ths)
    moreover have "pool_step s (s\<lparr>ps_threads := (ps_threads s)[3 := Idle_top]\<rparr>)"
      using pool_step.spurious [of 3 s Is_idle] by (simp add: ths)
    moreover assume "s' = s\<lparr>ps_threads := (ps_threads s)[0 := Work_top]\<rparr> \<or> s' = s\<lparr>ps_threads := (ps_threads s)[3 := Idle_top]\<rparr>"
    ultimately show "pool_step s s'" by blast
  qed
  then have "{s'. pool_step s s'} = {s\<lparr>ps_threads := (ps_threads s)[0 := Work_top]\<rparr>, s\<lparr>ps_threads := (ps_threads s)[3 := Idle_top]\<rparr>}"
    by blast
  moreover have "wait_idle_check (ps_pool s)" "ps_finished s = ps_accepted s"
      "Idle_done \<in> set (ps_threads s)" "Idle_wait \<in> set (ps_threads s)"
    by (simp_all add: s_def demo_state_def wait_idle_check_def)
  ultimately show ?thesis using reach demo_pool_ready(1) by blast
qed

end
