(* ===== verification/Discovery.thy ===== *)
theory Discovery
  imports File_Mirror
begin

text \<open>
  The search for file signatures, \<open>include/recovery/discovery.h\<close> and \<open>src/recovery/discovery.c\<close>:
  patterns are registered as deep copies and looked for in every block of the mirror. The scan calls
  \<open>file_mirror_read_block\<close> with five arguments, a routine that the sources do not have (the one in
  \<open>file_mirror.h\<close> takes three), so it is a parameter here: the error code, what the buffer holds
  afterwards and the number of bytes read. Record fields carry the prefixes \<open>sp_\<close>, \<open>sh_\<close> and \<open>de_\<close>.
\<close>

section \<open>Data\<close>

text \<open>\<open>sp_bytes\<close> is the object the pointer points to, \<open>sp_offset\<close> a signed 64-bit number.\<close>

record SignaturePattern =
  sp_bytes :: "byte list option"
  sp_length :: nat
  sp_offset :: int
  sp_is_footer :: bool
  sp_type_name :: "string option"

record SignatureHit =
  sh_block :: nat
  sh_byte_offset :: nat
  sh_type_name :: string
  sh_is_footer :: bool

text \<open>The two arrays up to their counts, with the capacities.\<close>

record DiscoveryEngine =
  de_patterns :: "SignaturePattern list"
  de_pattern_capacity :: nat
  de_hits :: "SignatureHit list"
  de_hit_capacity :: nat

definition zero_engine :: DiscoveryEngine where
  "zero_engine = \<lparr>de_patterns = [], de_pattern_capacity = 0, de_hits = [], de_hit_capacity = 0\<rparr>"

section \<open>Operations\<close>

definition memmem_fallback :: "byte list \<Rightarrow> nat \<Rightarrow> byte list \<Rightarrow> nat \<Rightarrow> nat option" where
  "memmem_fallback h haystack_len n needle_len =
     (if needle_len = 0 then Some 0
      else if haystack_len < needle_len then None
      else List.find (\<lambda>i. h ! i = n ! 0 \<and> take needle_len (drop i h) = take needle_len n)
             [0..<haystack_len - needle_len + 1])"

definition discovery_init ::
    "bool \<Rightarrow> bool \<Rightarrow> DiscoveryEngine option \<Rightarrow> ErasecureError \<times> DiscoveryEngine option" where
  "discovery_init malloc_patterns malloc_hits engine =
     (case engine of None \<Rightarrow> (ERASECURE_ERROR_INVALID_ARGUMENT, None)
      | Some e \<Rightarrow>
          let e1 = e\<lparr>de_patterns := [], de_pattern_capacity := 16\<rparr>
          in if \<not> malloc_patterns then (ERASECURE_ERROR_MEMORY, Some e1)
             else
               let e2 = e1\<lparr>de_hits := [], de_hit_capacity := 64\<rparr>
               in if \<not> malloc_hits then (ERASECURE_ERROR_MEMORY, Some e2)
                  else (ERASECURE_SUCCESS, Some e2))"

definition discovery_destroy :: "DiscoveryEngine option \<Rightarrow> DiscoveryEngine option" where
  "discovery_destroy engine = map_option (\<lambda>_. zero_engine) engine"

definition discovery_register_signature ::
    "bool \<Rightarrow> bool \<Rightarrow> bool \<Rightarrow> DiscoveryEngine option \<Rightarrow> SignaturePattern option
     \<Rightarrow> ErasecureError \<times> DiscoveryEngine option" where
  "discovery_register_signature realloc_ok malloc_ok strdup_ok engine pattern =
     (case (engine, pattern) of
        (Some e, Some p) \<Rightarrow>
          let full = (length (de_patterns e) = de_pattern_capacity e)
          in if full \<and> \<not> realloc_ok then (ERASECURE_ERROR_MEMORY, engine)
             else
               let e1 = (if full then e\<lparr>de_pattern_capacity := de_pattern_capacity e * 2\<rparr> else e)
               in if \<not> malloc_ok then (ERASECURE_ERROR_MEMORY, Some e1)
                  else if \<not> strdup_ok then (ERASECURE_ERROR_MEMORY, Some e1)
                  else
                    let dest = \<lparr>sp_bytes = Some (take (sp_length p) (the (sp_bytes p))),
                                sp_length = sp_length p, sp_offset = sp_offset p,
                                sp_is_footer = sp_is_footer p,
                                sp_type_name = Some (the_default [] (sp_type_name p))\<rparr>
                    in (ERASECURE_SUCCESS, Some (e1\<lparr>de_patterns := de_patterns e1 @ [dest]\<rparr>))
      | _ \<Rightarrow> (ERASECURE_ERROR_INVALID_ARGUMENT, engine))"

text \<open>\<open>alloc\<close> answers the call of \<open>realloc\<close> and the one of \<open>strdup\<close>.\<close>

definition add_hit ::
    "bool \<times> bool \<Rightarrow> DiscoveryEngine \<Rightarrow> nat \<Rightarrow> nat \<Rightarrow> string \<Rightarrow> bool \<Rightarrow> ErasecureError \<times> DiscoveryEngine" where
  "add_hit alloc engine block byte_offset type_name is_footer =
     (let full = (length (de_hits engine) = de_hit_capacity engine)
      in if full \<and> \<not> fst alloc then (ERASECURE_ERROR_MEMORY, engine)
         else
           let e1 = (if full then engine\<lparr>de_hit_capacity := de_hit_capacity engine * 2\<rparr> else engine)
           in if \<not> snd alloc then (ERASECURE_ERROR_MEMORY, e1)
              else (ERASECURE_SUCCESS, e1\<lparr>de_hits := de_hits e1 @
                      [\<lparr>sh_block = block, sh_byte_offset = byte_offset, sh_type_name = type_name,
                        sh_is_footer = is_footer\<rparr>]\<rparr>))"

text \<open>Where a pattern matches in a block: the place inside the block, if any.\<close>

definition match_pattern :: "byte list \<Rightarrow> nat \<Rightarrow> SignaturePattern \<Rightarrow> nat option" where
  "match_pattern buffer block_size pat =
     (if sp_offset pat \<ge> 0 then
        (if wrap64 (nat (sp_offset pat) + sp_length pat) \<le> block_size
            \<and> take (sp_length pat) (drop (nat (sp_offset pat)) buffer)
              = take (sp_length pat) (the (sp_bytes pat))
         then Some (nat (sp_offset pat)) else None)
      else memmem_fallback buffer block_size (the (sp_bytes pat)) (sp_length pat))"

text \<open>The loop over the patterns for one block that was read; the result of \<open>add_hit\<close> is not looked at.\<close>

definition scan_pattern ::
    "(nat \<Rightarrow> nat \<Rightarrow> bool \<times> bool) \<Rightarrow> byte list \<Rightarrow> nat \<Rightarrow> nat \<Rightarrow> nat \<Rightarrow> DiscoveryEngine \<Rightarrow> DiscoveryEngine" where
  "scan_pattern alloc buffer block_size block i engine =
     (let pat = de_patterns engine ! i
      in case match_pattern buffer block_size pat of
           None \<Rightarrow> engine
         | Some pos \<Rightarrow> snd (add_hit (alloc block i) engine block (wrap64 (block * block_size + pos))
                              (the (sp_type_name pat)) (sp_is_footer pat)))"

definition scan_block ::
    "(nat \<Rightarrow> nat \<Rightarrow> ErasecureError \<times> byte list \<times> nat) \<Rightarrow> (nat \<Rightarrow> nat \<Rightarrow> bool \<times> bool) \<Rightarrow> nat \<Rightarrow> nat
     \<Rightarrow> DiscoveryEngine \<Rightarrow> DiscoveryEngine" where
  "scan_block read_block alloc block_size block engine =
     (case read_block block block_size of (err, buffer, bytes_read) \<Rightarrow>
        if err \<noteq> ERASECURE_SUCCESS then engine
        else if bytes_read < block_size then engine
        else fold (scan_pattern alloc buffer block_size block) [0..<length (de_patterns engine)] engine)"

definition discovery_scan ::
    "(nat \<Rightarrow> nat \<Rightarrow> ErasecureError \<times> byte list \<times> nat) \<Rightarrow> bool \<Rightarrow> (nat \<Rightarrow> nat \<Rightarrow> bool \<times> bool)
     \<Rightarrow> DiscoveryEngine option \<Rightarrow> FileMirror option \<Rightarrow> ErasecureError \<times> DiscoveryEngine option" where
  "discovery_scan read_block malloc_ok alloc engine fm =
     (case (engine, fm) of
        (Some e, Some m) \<Rightarrow>
          if \<not> malloc_ok then (ERASECURE_ERROR_MEMORY, engine)
          else (ERASECURE_SUCCESS,
                Some (fold (scan_block read_block alloc (fm_block_size m)) [0..<fm_total_blocks m] e))
      | _ \<Rightarrow> (ERASECURE_ERROR_INVALID_ARGUMENT, engine))"

definition discovery_hit_count :: "DiscoveryEngine option \<Rightarrow> nat" where
  "discovery_hit_count engine = (case engine of None \<Rightarrow> 0 | Some e \<Rightarrow> length (de_hits e))"

definition discovery_get_hit :: "DiscoveryEngine option \<Rightarrow> nat \<Rightarrow> SignatureHit option" where
  "discovery_get_hit engine index =
     (case engine of None \<Rightarrow> None
      | Some e \<Rightarrow> if index \<ge> length (de_hits e) then None else Some (de_hits e ! index))"

text \<open>The output parameters: \<open>None\<close> for a NULL pointer, else their content.\<close>

definition discovery_get_headers_for_type ::
    "bool \<Rightarrow> DiscoveryEngine option \<Rightarrow> string option \<Rightarrow> SignatureHit list option option \<Rightarrow> nat option
     \<Rightarrow> ErasecureError \<times> SignatureHit list option option \<times> nat option" where
  "discovery_get_headers_for_type malloc_ok engine type_name out_hits out_count =
     (case (engine, type_name, out_hits, out_count) of
        (Some e, Some t, Some _, Some _) \<Rightarrow>
          if \<not> malloc_ok then (ERASECURE_ERROR_MEMORY, out_hits, Some 0)
          else
            let filtered = List.filter (\<lambda>h. \<not> sh_is_footer h \<and> strcmp (sh_type_name h) t = 0) (de_hits e)
            in (ERASECURE_SUCCESS, Some (Some filtered), Some (length filtered))
      | _ \<Rightarrow> (ERASECURE_ERROR_INVALID_ARGUMENT, out_hits, out_count))"

definition discovery_get_footers_for_type ::
    "bool \<Rightarrow> DiscoveryEngine option \<Rightarrow> string option \<Rightarrow> SignatureHit list option option \<Rightarrow> nat option
     \<Rightarrow> ErasecureError \<times> SignatureHit list option option \<times> nat option" where
  "discovery_get_footers_for_type malloc_ok engine type_name out_hits out_count =
     (case (engine, type_name, out_hits, out_count) of
        (Some e, Some t, Some _, Some _) \<Rightarrow>
          if \<not> malloc_ok then (ERASECURE_ERROR_MEMORY, out_hits, Some 0)
          else
            let filtered = List.filter (\<lambda>h. sh_is_footer h \<and> strcmp (sh_type_name h) t = 0) (de_hits e)
            in (ERASECURE_SUCCESS, Some (Some filtered), Some (length filtered))
      | _ \<Rightarrow> (ERASECURE_ERROR_INVALID_ARGUMENT, out_hits, out_count))"

section \<open>Lemmas\<close>

lemma memmem_fallback_strstr:
  assumes "length n = k" "0 < k"
  shows "memmem_fallback h (length h) n k = strstr h n"
proof -
  have eq: "h ! i = n ! 0 \<and> take k (drop i h) = take k n \<longleftrightarrow> prefix n (drop i h)"
    if "i \<le> length h - k" "k \<le> length h" for i
  proof
    assume "h ! i = n ! 0 \<and> take k (drop i h) = take k n"
    then have "take k (drop i h) = n" using assms(1) by simp
    then show "prefix n (drop i h)" by (metis take_is_prefix)
  next
    assume "prefix n (drop i h)"
    then obtain zs where zs: "drop i h = n @ zs" by (auto simp: prefix_def)
    then have "h ! i = (n @ zs) ! 0" using that assms by (metis add.right_neutral diff_le_self le_trans nth_drop)
    with zs assms show "h ! i = n ! 0 \<and> take k (drop i h) = take k n" by (simp add: nth_append)
  qed
  show ?thesis
  proof (cases "length h < k")
    case True
    then have "\<not> prefix n (drop i h)" for i using assms by (auto dest: prefix_length_le)
    then have "strstr h n = None" by (simp add: strstr_None_iff)
    with True assms show ?thesis by (simp add: memmem_fallback_def)
  next
    case False
    have inside: "prefix n (drop i h) \<Longrightarrow> i \<le> length h - k" for i
      using prefix_length_le [of n "drop i h"] assms by auto
    have find_eq: "List.find (\<lambda>i. h ! i = n ! 0 \<and> take k (drop i h) = take k n) [0..<Suc (length h - k)]
        = List.find (\<lambda>i. prefix n (drop i h)) [0..<Suc (length h - k)]"
      using False by (intro find_cong refl eq) auto
    show ?thesis
    proof (cases "strstr h n")
      case None
      then have "List.find (\<lambda>i. prefix n (drop i h)) [0..<Suc (length h - k)] = None"
        by (auto simp: find_None_iff strstr_None_iff)
      with None False assms find_eq show ?thesis by (simp add: memmem_fallback_def)
    next
      case (Some i)
      then have i: "prefix n (drop i h)" "\<forall>j < i. \<not> prefix n (drop j h)" by (simp_all add: strstr_Some_iff)
      then have "List.find (\<lambda>i. prefix n (drop i h)) [0..<Suc (length h - k)] = Some i"
        unfolding find_Some_iff by (intro exI [of _ i]) (use inside [OF i(1)] in \<open>auto simp: less_Suc_eq_le simp del: upt_Suc\<close>)
      with Some False assms find_eq show ?thesis by (simp add: memmem_fallback_def)
    qed
  qed
qed

text \<open>Every allocation succeeds.\<close>

abbreviation no_failures :: "nat \<Rightarrow> nat \<Rightarrow> bool \<times> bool" where
  "no_failures \<equiv> (\<lambda>_ _. (True, True))"

text \<open>The hits of one block, and the scan as a concatenation of them when memory lasts.\<close>

definition hit_at :: "nat \<Rightarrow> nat \<Rightarrow> SignaturePattern \<Rightarrow> nat \<Rightarrow> SignatureHit" where
  "hit_at block_size block pat pos =
     \<lparr>sh_block = block, sh_byte_offset = wrap64 (block * block_size + pos),
      sh_type_name = the (sp_type_name pat), sh_is_footer = sp_is_footer pat\<rparr>"

definition pattern_hits :: "byte list \<Rightarrow> nat \<Rightarrow> nat \<Rightarrow> SignaturePattern \<Rightarrow> SignatureHit list" where
  "pattern_hits buffer block_size block pat =
     (case match_pattern buffer block_size pat of None \<Rightarrow> []
      | Some pos \<Rightarrow> [hit_at block_size block pat pos])"

lemma scan_pattern_patterns [simp]:
  "de_patterns (scan_pattern alloc buf bs block i e) = de_patterns e"
  by (simp add: scan_pattern_def add_hit_def Let_def split: option.split)

lemma scan_pattern_hits:
  "de_hits (scan_pattern no_failures buf bs block i e)
     = de_hits e @ pattern_hits buf bs block (de_patterns e ! i)"
  by (simp add: scan_pattern_def add_hit_def pattern_hits_def hit_at_def Let_def split: option.split)

lemma scan_patterns_hits:
  "de_patterns (fold (scan_pattern no_failures buf bs block) ks e) = de_patterns e
    \<and> de_hits (fold (scan_pattern no_failures buf bs block) ks e)
      = de_hits e @ concat (map (\<lambda>i. pattern_hits buf bs block (de_patterns e ! i)) ks)"
  by (induction ks arbitrary: e) (simp_all add: scan_pattern_hits)

definition block_read :: "nat \<Rightarrow> ErasecureError \<times> byte list \<times> nat \<Rightarrow> bool" where
  "block_read bs r \<longleftrightarrow> fst r = ERASECURE_SUCCESS \<and> bs \<le> snd (snd r)"

definition block_hits ::
    "(nat \<Rightarrow> nat \<Rightarrow> ErasecureError \<times> byte list \<times> nat) \<Rightarrow> SignaturePattern list \<Rightarrow> nat \<Rightarrow> nat \<Rightarrow> SignatureHit list" where
  "block_hits read_block pats bs block =
     (if block_read bs (read_block block bs)
      then concat (map (pattern_hits (fst (snd (read_block block bs))) bs block) pats) else [])"

lemma scan_block_hits:
  "de_patterns (scan_block read_block no_failures bs block e) = de_patterns e
    \<and> de_hits (scan_block read_block no_failures bs block e)
      = de_hits e @ block_hits read_block (de_patterns e) bs block"
proof -
  have "map (\<lambda>i. pattern_hits buf bs block (de_patterns e ! i)) [0..<length (de_patterns e)]
      = map (pattern_hits buf bs block) (de_patterns e)" for buf
    by (rule nth_equalityI) simp_all
  then show ?thesis
    using scan_patterns_hits
    by (simp add: scan_block_def block_hits_def block_read_def split: prod.split)
qed

lemma scan_blocks_hits:
  "de_patterns (fold (scan_block read_block no_failures bs) blocks e) = de_patterns e
    \<and> de_hits (fold (scan_block read_block no_failures bs) blocks e)
      = de_hits e @ concat (map (block_hits read_block (de_patterns e) bs) blocks)"
  by (induction blocks arbitrary: e) (simp_all add: scan_block_hits)

section \<open>What a match means for the image\<close>

definition signature_ok :: "SignaturePattern \<Rightarrow> bool" where
  "signature_ok p \<longleftrightarrow> (\<exists>bs. sp_bytes p = Some bs \<and> length bs = sp_length p) \<and> 0 < sp_length p
     \<and> sp_length p < 2 ^ 63 \<and> sp_offset p < 2 ^ 63"

text \<open>The pattern lies at place \<open>pos\<close> of the block, and the scan looks there.\<close>

definition found_at :: "byte list \<Rightarrow> nat \<Rightarrow> nat \<Rightarrow> SignaturePattern \<Rightarrow> nat \<Rightarrow> bool" where
  "found_at disk bs block pat pos \<longleftrightarrow>
     pos + sp_length pat \<le> bs \<and> prefix (the (sp_bytes pat)) (drop (block * bs + pos) disk)
     \<and> (if sp_offset pat \<ge> 0 then pos = nat (sp_offset pat)
        else \<forall>q < pos. \<not> prefix (the (sp_bytes pat)) (drop (block * bs + q) disk))"

lemma prefix_iff_take: "prefix n xs \<longleftrightarrow> take (length n) xs = n"
  by (metis append_eq_conv_conj append_take_drop_id prefix_def)

lemma prefix_in_block:
  assumes "block * bs + bs \<le> length disk" "n \<noteq> []"
  shows "prefix n (drop i (take bs (drop (block * bs) disk)))
    \<longleftrightarrow> i + length n \<le> bs \<and> prefix n (drop (block * bs + i) disk)"
proof -
  have "drop i (take bs (drop (block * bs) disk)) = take (bs - i) (drop (block * bs + i) disk)"
    by (simp add: drop_take add.commute)
  moreover have "prefix n (take (bs - i) xs) \<longleftrightarrow> length n \<le> bs - i \<and> prefix n xs" for xs
  proof (cases "length n \<le> bs - i")
    case True
    then show ?thesis by (simp add: prefix_iff_take min_absorb1)
  next
    case False
    then show ?thesis using prefix_length_le [of n "take (bs - i) xs"] by auto
  qed
  moreover have "0 < length n" using assms(2) by simp
  then have "length n \<le> bs - i \<longleftrightarrow> i + length n \<le> bs" by arith
  ultimately show ?thesis by auto
qed

lemma match_pattern_found:
  assumes ok: "signature_ok pat" and fits: "block * bs + bs \<le> length disk"
  shows "match_pattern (take bs (drop (block * bs) disk)) bs pat = Some pos
    \<longleftrightarrow> found_at disk bs block pat pos"
proof -
  obtain n where n: "sp_bytes pat = Some n" "length n = sp_length pat" "n \<noteq> []"
    using ok by (fastforce simp: signature_ok_def)
  let ?buf = "take bs (drop (block * bs) disk)"
  have len: "length ?buf = bs" using fits by simp
  note in_block = prefix_in_block [OF fits n(3)]
  show ?thesis
  proof (cases "sp_offset pat \<ge> 0")
    case True
    then have "nat (sp_offset pat) + sp_length pat < 2 ^ 64" using ok by (auto simp: signature_ok_def)
    moreover have "take (sp_length pat) (drop o' ?buf) = n \<longleftrightarrow> prefix n (drop o' ?buf)" for o'
      using n(2) by (simp add: prefix_iff_take)
    ultimately show ?thesis
      using True n in_block [of "nat (sp_offset pat)"] by (auto simp: match_pattern_def found_at_def)
  next
    case False
    have "match_pattern ?buf bs pat = strstr ?buf n"
      using False n memmem_fallback_strstr [of n "sp_length pat" ?buf] ok len
      by (simp add: match_pattern_def signature_ok_def)
    moreover have "strstr ?buf n = Some pos \<longleftrightarrow> pos + length n \<le> bs
        \<and> prefix n (drop (block * bs + pos) disk)
        \<and> (\<forall>q < pos. \<not> (q + length n \<le> bs \<and> prefix n (drop (block * bs + q) disk)))"
      unfolding strstr_Some_iff in_block using fits by (auto simp: len)
    ultimately show ?thesis using False n by (auto simp: found_at_def)
  qed
qed

text \<open>A block that lies in the image gives the hits of a pattern that the image has there.\<close>

lemma pattern_hits_found:
  assumes ok: "signature_ok pat" and buf: "buf = take bs (drop (b * bs) disk)"
    and fits: "b * bs + bs \<le> length disk" "length disk < 2 ^ 64"
  shows "h \<in> set (pattern_hits buf bs b pat) \<longleftrightarrow>
      (\<exists>pos. found_at disk bs b pat pos \<and> h = \<lparr>sh_block = b, sh_byte_offset = b * bs + pos,
         sh_type_name = the (sp_type_name pat), sh_is_footer = sp_is_footer pat\<rparr>)"
proof -
  have match: "match_pattern buf bs pat = Some pos \<longleftrightarrow> found_at disk bs b pat pos" for pos
    using match_pattern_found fits(1) ok buf by simp
  have "wrap64 (b * bs + pos) = b * bs + pos" if "match_pattern buf bs pat = Some pos" for pos
    using that [unfolded match] fits by (simp add: found_at_def)
  then show ?thesis
    by (cases "match_pattern buf bs pat") (auto simp: pattern_hits_def hit_at_def match [symmetric])
qed

text \<open>
  C25. A scan finds exactly the signatures that lie inside one block. When every allocation succeeds and
  the blocks that can be read carry the image, \<open>discovery_scan\<close> returns success and adds a hit for a
  pattern at a byte offset if and only if the image has the pattern there, the whole of it in the
  block, at the pattern's fixed offset or, for a negative one, at its first occurrence in the block.
\<close>

theorem discovery_scan_exact:
  assumes pats: "\<forall>pat \<in> set (de_patterns e). signature_ok pat"
    and disk: "\<And>b. block_read (fm_block_size m) (read_block b (fm_block_size m)) \<Longrightarrow>
        fst (snd (read_block b (fm_block_size m))) = take (fm_block_size m) (drop (b * fm_block_size m) disk)"
    and size: "fm_total_blocks m * fm_block_size m \<le> length disk" "length disk < 2 ^ 64"
  shows "\<exists>e'. discovery_scan read_block True no_failures (Some e) (Some m) = (ERASECURE_SUCCESS, Some e')
    \<and> (\<forall>h. h \<in> set (de_hits e') \<longleftrightarrow> h \<in> set (de_hits e)
        \<or> (\<exists>b pat pos. b < fm_total_blocks m \<and> pat \<in> set (de_patterns e)
             \<and> block_read (fm_block_size m) (read_block b (fm_block_size m))
             \<and> found_at disk (fm_block_size m) b pat pos
             \<and> h = \<lparr>sh_block = b, sh_byte_offset = b * fm_block_size m + pos,
                    sh_type_name = the (sp_type_name pat), sh_is_footer = sp_is_footer pat\<rparr>))"
proof -
  let ?bs = "fm_block_size m"
  define e' where "e' = fold (scan_block read_block no_failures ?bs) [0..<fm_total_blocks m] e"
  have run: "discovery_scan read_block True no_failures (Some e) (Some m) = (ERASECURE_SUCCESS, Some e')"
    by (simp add: discovery_scan_def e'_def)
  have hits: "de_hits e' = de_hits e @ concat (map (block_hits read_block (de_patterns e) ?bs) [0..<fm_total_blocks m])"
    using scan_blocks_hits unfolding e'_def by blast
  have fits: "b * ?bs + ?bs \<le> length disk" if "b < fm_total_blocks m" for b
    using mult_le_mono1 [of "Suc b" "fm_total_blocks m" ?bs] that size(1) by simp
  have "h \<in> set (de_hits e') \<longleftrightarrow> h \<in> set (de_hits e)
      \<or> (\<exists>b pat pos. b < fm_total_blocks m \<and> pat \<in> set (de_patterns e)
           \<and> block_read ?bs (read_block b ?bs) \<and> found_at disk ?bs b pat pos
           \<and> h = \<lparr>sh_block = b, sh_byte_offset = b * ?bs + pos,
                  sh_type_name = the (sp_type_name pat), sh_is_footer = sp_is_footer pat\<rparr>)" for h
  proof -
    define P where "P = (\<lambda>b pat. h \<in> set (pattern_hits (fst (snd (read_block b ?bs))) ?bs b pat))"
    define Q where "Q = (\<lambda>b pat. \<exists>pos. found_at disk ?bs b pat pos
      \<and> h = \<lparr>sh_block = b, sh_byte_offset = b * ?bs + pos,
             sh_type_name = the (sp_type_name pat), sh_is_footer = sp_is_footer pat\<rparr>)"
    have PQ: "P b pat = Q b pat"
      if "b < fm_total_blocks m" "pat \<in> set (de_patterns e)" "block_read ?bs (read_block b ?bs)" for b pat
      unfolding P_def Q_def
      by (rule pattern_hits_found [OF bspec [OF pats that(2)] disk [OF that(3)] fits [OF that(1)] size(2)])
    have "h \<in> set (de_hits e') \<longleftrightarrow> h \<in> set (de_hits e)
        \<or> (\<exists>b < fm_total_blocks m. block_read ?bs (read_block b ?bs) \<and> (\<exists>pat \<in> set (de_patterns e). P b pat))"
      unfolding hits P_def by (auto simp: block_hits_def)
    also have "\<dots> \<longleftrightarrow> h \<in> set (de_hits e) \<or> (\<exists>b pat. b < fm_total_blocks m \<and> pat \<in> set (de_patterns e)
        \<and> block_read ?bs (read_block b ?bs) \<and> Q b pat)"
      using PQ by blast
    finally show ?thesis unfolding Q_def by blast
  qed
  with run show ?thesis by blast
qed

text \<open>Two blocks of four bytes and one pattern that may lie anywhere, for the witness.\<close>

definition demo_pattern :: SignaturePattern where
  "demo_pattern = \<lparr>sp_bytes = Some [0xFF, 0xD8], sp_length = 2, sp_offset = -1, sp_is_footer = False,
     sp_type_name = Some ''JPEG''\<rparr>"

definition demo_disk :: "byte list" where
  "demo_disk = [0, 0, 0, 0xFF, 0xD8, 0xFF, 0xD8, 0]"

theorem discovery_scan_exact_witness:
  "\<exists>e'. discovery_scan (\<lambda>b n. (ERASECURE_SUCCESS, take n (drop (b * n) demo_disk), n)) True no_failures
      (Some (zero_engine\<lparr>de_patterns := [demo_pattern]\<rparr>))
      (Some (zero_file_mirror\<lparr>fm_block_size := 4, fm_total_blocks := 2\<rparr>)) = (ERASECURE_SUCCESS, Some e')
    \<and> (\<forall>h. h \<in> set (de_hits e') \<longrightarrow> sh_byte_offset h \<noteq> 3)
    \<and> \<lparr>sh_block = 1, sh_byte_offset = 5, sh_type_name = ''JPEG'', sh_is_footer = False\<rparr> \<in> set (de_hits e')"
proof -
  let ?rd = "\<lambda>b n. (ERASECURE_SUCCESS, take n (drop (b * n) demo_disk), n)"
  let ?e = "zero_engine\<lparr>de_patterns := [demo_pattern]\<rparr>"
  let ?m = "zero_file_mirror\<lparr>fm_block_size := 4, fm_total_blocks := 2\<rparr>"
  have ok: "\<forall>pat \<in> set (de_patterns ?e). signature_ok pat"
    by (simp add: signature_ok_def demo_pattern_def)
  have rd: "fst (snd (?rd b (fm_block_size ?m))) = take (fm_block_size ?m) (drop (b * fm_block_size ?m) demo_disk)" for b
    by simp
  have size: "fm_total_blocks ?m * fm_block_size ?m \<le> length demo_disk" "length demo_disk < 2 ^ 64"
    by (simp_all add: demo_disk_def)
  obtain e' where e': "discovery_scan ?rd True no_failures (Some ?e) (Some ?m) = (ERASECURE_SUCCESS, Some e')"
    and hits: "\<And>h. h \<in> set (de_hits e') \<longleftrightarrow> h \<in> set (de_hits ?e)
        \<or> (\<exists>b pat pos. b < fm_total_blocks ?m \<and> pat \<in> set (de_patterns ?e)
             \<and> block_read (fm_block_size ?m) (?rd b (fm_block_size ?m))
             \<and> found_at demo_disk (fm_block_size ?m) b pat pos
             \<and> h = \<lparr>sh_block = b, sh_byte_offset = b * fm_block_size ?m + pos,
                    sh_type_name = the (sp_type_name pat), sh_is_footer = sp_is_footer pat\<rparr>)"
    using discovery_scan_exact [where e = ?e and m = ?m and read_block = ?rd and disk = demo_disk, OF ok rd size]
    by blast
  have "\<not> found_at demo_disk 4 b demo_pattern pos" if "b * 4 + pos = 3" for b pos
  proof -
    have "\<not> pos \<le> 2" using that by presburger
    then show ?thesis by (simp add: found_at_def demo_pattern_def)
  qed
  then have no: "sh_byte_offset h \<noteq> 3" if "h \<in> set (de_hits e')" for h
    using that unfolding hits by (auto simp: zero_engine_def)
  have at: "found_at demo_disk 4 1 demo_pattern 1"
    by (simp add: found_at_def demo_pattern_def demo_disk_def)
  have "\<lparr>sh_block = 1, sh_byte_offset = 5, sh_type_name = ''JPEG'', sh_is_footer = False\<rparr> \<in> set (de_hits e')"
    unfolding hits
    by (intro disjI2 exI [of _ 1] exI [of _ demo_pattern]) (use at in \<open>simp add: block_read_def, simp add: demo_pattern_def\<close>)
  with e' no show ?thesis by blast
qed

end
