(* ===== verification/File_Type_Registry.thy ===== *)
theory File_Type_Registry
  imports Discovery
begin

text \<open>
  The registry of file types, \<open>include/recovery/file_type_registry.h\<close> and
  \<open>src/recovery/file_type_registry.c\<close>: descriptors are copied in with deep copies of their signatures,
  found by name without regard to case, and seven built-in types are registered. Validator callbacks
  are kept as they are, so their types are parameters. Record fields carry the prefixes \<open>ft_\<close> and
  \<open>fr_\<close>; the array is the list of its first \<open>count\<close> entries.
\<close>

section \<open>Data\<close>

record ('bv, 'fv) FileTypeDescriptor =
  ft_name :: string
  ft_extension :: string
  ft_mime_type :: string
  ft_category :: string
  ft_min_size :: nat
  ft_max_size :: nat
  ft_headers :: "SignaturePattern list option"
  ft_header_count :: nat
  ft_footers :: "SignaturePattern list option"
  ft_footer_count :: nat
  ft_search_direction :: int
  ft_block_validator :: "'bv option"
  ft_file_validator :: "'fv option"
  ft_fragmented_recovery_enabled :: bool
  ft_enabled :: bool

record ('bv, 'fv) FileTypeRegistry =
  fr_types :: "('bv, 'fv) FileTypeDescriptor list"
  fr_capacity :: nat

section \<open>Operations\<close>

definition file_type_registry_init ::
    "bool \<Rightarrow> ('bv, 'fv) FileTypeRegistry option \<Rightarrow> ErasecureError \<times> ('bv, 'fv) FileTypeRegistry option" where
  "file_type_registry_init calloc_ok reg =
     (case reg of None \<Rightarrow> (ERASECURE_ERROR_INVALID_ARGUMENT, None)
      | Some _ \<Rightarrow> (if calloc_ok then ERASECURE_SUCCESS else ERASECURE_ERROR_MEMORY,
                   Some \<lparr>fr_types = [], fr_capacity = 16\<rparr>))"

definition file_type_registry_destroy ::
    "('bv, 'fv) FileTypeRegistry option \<Rightarrow> ('bv, 'fv) FileTypeRegistry option" where
  "file_type_registry_destroy reg = map_option (\<lambda>_. \<lparr>fr_types = [], fr_capacity = 0\<rparr>) reg"

text \<open>Whether the array is allocated, and the bytes and the name of each entry.\<close>

type_synonym sig_alloc = "bool \<times> (nat \<Rightarrow> bool) \<times> (nat \<Rightarrow> bool)"

definition copy_signature :: "bool \<Rightarrow> bool \<Rightarrow> SignaturePattern \<Rightarrow> SignaturePattern" where
  "copy_signature malloc_ok strdup_ok s =
     \<lparr>sp_bytes = (if malloc_ok then Some (take (sp_length s) (the (sp_bytes s))) else None),
      sp_length = sp_length s, sp_offset = sp_offset s, sp_is_footer = sp_is_footer s,
      sp_type_name = (if sp_type_name s \<noteq> None \<and> strdup_ok then sp_type_name s else None)\<rparr>"

definition copy_signatures ::
    "sig_alloc \<Rightarrow> SignaturePattern list option \<Rightarrow> nat \<Rightarrow> SignaturePattern list option" where
  "copy_signatures alloc src n =
     (case src of None \<Rightarrow> None
      | Some ss \<Rightarrow>
          if n = 0 then None
          else if \<not> fst alloc then None
          else Some (map (\<lambda>i. copy_signature (fst (snd alloc) i) (snd (snd alloc) i) (ss ! i)) [0..<n]))"

definition file_type_registry_register ::
    "bool \<Rightarrow> sig_alloc \<Rightarrow> sig_alloc \<Rightarrow> ('bv, 'fv) FileTypeRegistry option
     \<Rightarrow> ('bv, 'fv) FileTypeDescriptor option \<Rightarrow> ErasecureError \<times> ('bv, 'fv) FileTypeRegistry option" where
  "file_type_registry_register realloc_ok alloc_headers alloc_footers reg desc =
     (case (reg, desc) of
        (Some r, Some d) \<Rightarrow>
          let full = (length (fr_types r) \<ge> fr_capacity r)
          in if full \<and> \<not> realloc_ok then (ERASECURE_ERROR_MEMORY, reg)
             else
               let r1 = (if full then r\<lparr>fr_capacity := fr_capacity r * 2\<rparr> else r);
                   dest = d\<lparr>ft_headers := copy_signatures alloc_headers (ft_headers d) (ft_header_count d),
                            ft_footers := copy_signatures alloc_footers (ft_footers d) (ft_footer_count d)\<rparr>
               in (ERASECURE_SUCCESS, Some (r1\<lparr>fr_types := fr_types r1 @ [dest]\<rparr>))
      | _ \<Rightarrow> (ERASECURE_ERROR_INVALID_ARGUMENT, reg))"

definition file_type_registry_find ::
    "('bv, 'fv) FileTypeRegistry option \<Rightarrow> string option \<Rightarrow> ('bv, 'fv) FileTypeDescriptor option" where
  "file_type_registry_find reg name =
     (case (reg, name) of
        (Some r, Some n) \<Rightarrow> List.find (\<lambda>d. strcasecmp_eq (ft_name d) n) (fr_types r)
      | _ \<Rightarrow> None)"

definition file_type_registry_count :: "('bv, 'fv) FileTypeRegistry option \<Rightarrow> nat" where
  "file_type_registry_count reg = (case reg of None \<Rightarrow> 0 | Some r \<Rightarrow> length (fr_types r))"

definition file_type_registry_get ::
    "('bv, 'fv) FileTypeRegistry option \<Rightarrow> nat \<Rightarrow> ('bv, 'fv) FileTypeDescriptor option" where
  "file_type_registry_get reg index =
     (case reg of None \<Rightarrow> None
      | Some r \<Rightarrow> if index \<ge> length (fr_types r) then None else Some (fr_types r ! index))"

section \<open>The built-in types\<close>

definition builtin_type ::
    "byte list \<Rightarrow> string \<Rightarrow> string \<Rightarrow> string \<Rightarrow> string \<Rightarrow> nat \<Rightarrow> nat \<Rightarrow> ('bv, 'fv) FileTypeDescriptor" where
  "builtin_type magic name extension mime_type category min_size max_size =
     \<lparr>ft_name = name, ft_extension = extension, ft_mime_type = mime_type, ft_category = category,
      ft_min_size = min_size, ft_max_size = max_size,
      ft_headers = Some [\<lparr>sp_bytes = Some magic, sp_length = length magic, sp_offset = 0,
                          sp_is_footer = False, sp_type_name = Some name\<rparr>],
      ft_header_count = 1, ft_footers = None, ft_footer_count = 0, ft_search_direction = 1,
      ft_block_validator = None, ft_file_validator = None,
      ft_fragmented_recovery_enabled = True, ft_enabled = True\<rparr>"

definition default_types :: "('bv, 'fv) FileTypeDescriptor list" where
  "default_types =
     [builtin_type [0xFF, 0xD8, 0xFF] ''JPEG'' ''jpg'' ''image/jpeg'' ''Image'' 128 (100 * 1024 * 1024),
      builtin_type [0x89, 0x50, 0x4E, 0x47, 0x0D, 0x0A, 0x1A, 0x0A] ''PNG'' ''png'' ''image/png'' ''Image''
        64 (100 * 1024 * 1024),
      builtin_type [0x25, 0x50, 0x44, 0x46, 0x2D] ''PDF'' ''pdf'' ''application/pdf'' ''Document'' 64 0,
      builtin_type [0x50, 0x4B, 0x03, 0x04] ''ZIP'' ''zip'' ''application/zip'' ''Archive'' 22 0,
      builtin_type [0x47, 0x49, 0x46, 0x38, 0x39, 0x61] ''GIF'' ''gif'' ''image/gif'' ''Image'' 32 (50 * 1024 * 1024),
      builtin_type [0xFF, 0xFB] ''MP3'' ''mp3'' ''audio/mpeg'' ''Audio'' 128 (100 * 1024 * 1024),
      builtin_type [0x7F, 0x45, 0x4C, 0x46] ''ELF'' ''elf'' ''application/x-executable'' ''Executable'' 52 0]"

text \<open>\<open>alloc\<close> answers the allocations of each registration; results are not looked at.\<close>

definition file_type_registry_register_defaults ::
    "(string \<Rightarrow> bool \<times> sig_alloc \<times> sig_alloc) \<Rightarrow> ('bv, 'fv) FileTypeRegistry option
     \<Rightarrow> ErasecureError \<times> ('bv, 'fv) FileTypeRegistry option" where
  "file_type_registry_register_defaults alloc reg =
     (case reg of None \<Rightarrow> (ERASECURE_ERROR_INVALID_ARGUMENT, None)
      | Some r \<Rightarrow>
          (ERASECURE_SUCCESS,
           fold (\<lambda>d rr. case alloc (ft_name d) of (re, ah, af) \<Rightarrow>
                     snd (file_type_registry_register re ah af rr (Some d)))
             default_types (Some r)))"

section \<open>Lemmas\<close>

lemma strcasecmp_eq_equiv:
  "strcasecmp_eq s s" "strcasecmp_eq s t \<Longrightarrow> strcasecmp_eq t s"
  "strcasecmp_eq s t \<Longrightarrow> strcasecmp_eq t u \<Longrightarrow> strcasecmp_eq s u"
  by (simp_all add: strcasecmp_eq_def)

lemma find_append:
  "List.find P (xs @ ys) = (case List.find P xs of None \<Rightarrow> List.find P ys | Some x \<Rightarrow> Some x)"
  by (induction xs) simp_all

lemma find_by_key:
  "distinct (map f xs) \<Longrightarrow> x \<in> set xs \<Longrightarrow> List.find (\<lambda>y. f y = f x) xs = Some x"
  by (induction xs) (auto simp: image_iff)

lemma copy_signature_ok:
  "signature_ok s \<Longrightarrow> sp_type_name s \<noteq> None \<Longrightarrow> copy_signature True True s = s"
  by (auto simp: copy_signature_def signature_ok_def)

lemma copy_signatures_ok:
  assumes "\<forall>s \<in> set ss. signature_ok s \<and> sp_type_name s \<noteq> None" and "length ss = n" "0 < n"
  shows "copy_signatures (True, \<lambda>_. True, \<lambda>_. True) (Some ss) n = Some ss"
  using assms by (auto simp: copy_signatures_def copy_signature_ok map_nth intro!: nth_equalityI)

text \<open>
  Registering makes a type findable and hides nothing. After a successful registration with
  working memory, looking up any spelling of the new name gives the descriptor with its signatures
  copied in full, unless an earlier entry has the same name up to case, which is found first as
  before; every other name is looked up as before, and the number of entries grows by one.
\<close>

theorem registry_register_find:
  assumes headers: "ft_headers d = Some hs" "length hs = ft_header_count d" "0 < ft_header_count d"
      "\<forall>s \<in> set hs. signature_ok s \<and> sp_type_name s \<noteq> None"
    and footers: "ft_footers d = None"
    and run: "file_type_registry_register realloc_ok (True, \<lambda>_. True, \<lambda>_. True) af (Some r) (Some d)
      = (ERASECURE_SUCCESS, Some r')"
  shows "file_type_registry_find (Some r') (Some name) =
      (case file_type_registry_find (Some r) (Some name) of
         Some d' \<Rightarrow> Some d'
       | None \<Rightarrow> if strcasecmp_eq (ft_name d) name then Some d else None)
    \<and> file_type_registry_count (Some r') = file_type_registry_count (Some r) + 1"
proof -
  have copy: "copy_signatures (True, \<lambda>_. True, \<lambda>_. True) (ft_headers d) (ft_header_count d) = ft_headers d"
    "copy_signatures af (ft_footers d) (ft_footer_count d) = ft_footers d"
    using copy_signatures_ok [OF headers(4,2,3)] by (simp_all add: headers(1) footers copy_signatures_def)
  have "fr_types r' = fr_types r @ [d]"
    using run copy by (auto simp: file_type_registry_register_def Let_def split: if_splits)
  then show ?thesis
    by (simp add: file_type_registry_find_def file_type_registry_count_def find_append split: option.split)
qed

definition empty_registry :: "(unit, unit) FileTypeRegistry" where
  "empty_registry = \<lparr>fr_types = [], fr_capacity = 16\<rparr>"

theorem registry_register_find_witness:
  "\<exists>r'. file_type_registry_register True (True, \<lambda>_. True, \<lambda>_. True) (True, \<lambda>_. True, \<lambda>_. True)
      (Some empty_registry) (Some (default_types ! 1)) = (ERASECURE_SUCCESS, Some r')
    \<and> map_option ft_mime_type (file_type_registry_find (Some r') (Some ''png'')) = Some ''image/png''"
proof -
  let ?d = "default_types ! 1 :: (unit, unit) FileTypeDescriptor"
  let ?hs = "[\<lparr>sp_bytes = Some [0x89, 0x50, 0x4E, 0x47, 0x0D, 0x0A, 0x1A, 0x0A], sp_length = 8, sp_offset = 0,
    sp_is_footer = False, sp_type_name = Some ''PNG''\<rparr>]"
  have d: "ft_headers ?d = Some ?hs" "length ?hs = ft_header_count ?d" "0 < ft_header_count ?d"
    "ft_footers ?d = None" "ft_mime_type ?d = ''image/png''" "ft_name ?d = ''PNG''"
    by (simp_all add: default_types_def builtin_type_def)
  have ok: "\<forall>s \<in> set ?hs. signature_ok s \<and> sp_type_name s \<noteq> None" by (simp add: signature_ok_def)
  obtain r' where r': "file_type_registry_register True (True, \<lambda>_. True, \<lambda>_. True) (True, \<lambda>_. True, \<lambda>_. True)
      (Some empty_registry) (Some ?d) = (ERASECURE_SUCCESS, Some r')"
    by (simp add: file_type_registry_register_def empty_registry_def Let_def)
  have "strcasecmp_eq ''PNG'' ''png''" by (simp add: strcasecmp_eq_def to_lower_def)
  with registry_register_find [OF d(1-3) ok d(4) r', of "''png''"] d(5,6) r'
  have "file_type_registry_find (Some r') (Some ''png'') = Some ?d"
    by (simp add: file_type_registry_find_def empty_registry_def)
  with r' d(5) show ?thesis by (intro exI [of _ r']) simp
qed

definition registry_allocs :: "string \<Rightarrow> bool \<times> sig_alloc \<times> sig_alloc" where
  "registry_allocs = (\<lambda>_. (True, (True, \<lambda>_. True, \<lambda>_. True), (True, \<lambda>_. True, \<lambda>_. True)))"

lemma registry_defaults_run:
  "file_type_registry_register_defaults registry_allocs (snd (file_type_registry_init True (Some r)))
    = (ERASECURE_SUCCESS, Some \<lparr>fr_types = default_types, fr_capacity = 16\<rparr>)"
  for r :: "('bv, 'fv) FileTypeRegistry"
proof -
  have reg: "file_type_registry_register True (True, \<lambda>_. True, \<lambda>_. True) (True, \<lambda>_. True, \<lambda>_. True) (Some rr)
      (Some (builtin_type magic name ext mime cat lo hi))
    = (ERASECURE_SUCCESS, Some (rr\<lparr>fr_types := fr_types rr @ [builtin_type magic name ext mime cat lo hi]\<rparr>))"
    if "length (fr_types rr) < fr_capacity rr" for rr :: "('bv, 'fv) FileTypeRegistry" and magic name ext mime cat lo hi
    using that by (simp add: file_type_registry_register_def builtin_type_def copy_signatures_def
        copy_signature_def Let_def)
  show ?thesis
    by (simp add: file_type_registry_register_defaults_def file_type_registry_init_def default_types_def reg registry_allocs_def)
qed

text \<open>
  The seven built-in types are all there: on a registry just initialised
  \<open>file_type_registry_register_defaults\<close> leaves exactly the seven descriptors of the table, in order and
  with their magic bytes, and each is found under any spelling of its name.
\<close>

theorem registry_defaults_found:
  "\<exists>r'. file_type_registry_register_defaults (\<lambda>_. (True, (True, \<lambda>_. True, \<lambda>_. True), (True, \<lambda>_. True, \<lambda>_. True)))
      (snd (file_type_registry_init True (Some r))) = (ERASECURE_SUCCESS, Some r')
    \<and> fr_types r' = default_types
    \<and> (\<forall>d \<in> set (default_types :: ('bv, 'fv) FileTypeDescriptor list).
         \<forall>name. map to_lower name = map to_lower (ft_name d)
           \<longrightarrow> file_type_registry_find (Some r') (Some name) = Some d)"
  for r :: "('bv, 'fv) FileTypeRegistry"
proof -
  let ?alloc = "\<lambda>_ :: string. (True, (True, \<lambda>_ :: nat. True, \<lambda>_ :: nat. True), (True, \<lambda>_ :: nat. True, \<lambda>_ :: nat. True))"
  define r' where "r' = \<lparr>fr_types = default_types :: ('bv, 'fv) FileTypeDescriptor list, fr_capacity = 16\<rparr>"
  have run: "file_type_registry_register_defaults ?alloc (snd (file_type_registry_init True (Some r)))
      = (ERASECURE_SUCCESS, Some r')"
    using registry_defaults_run by (simp add: registry_allocs_def r'_def)
  have names: "map ft_name (default_types :: ('bv, 'fv) FileTypeDescriptor list)
      = [''JPEG'', ''PNG'', ''PDF'', ''ZIP'', ''GIF'', ''MP3'', ''ELF'']"
    by (simp add: default_types_def builtin_type_def)
  have dist: "distinct (map (map to_lower) [''JPEG'', ''PNG'', ''PDF'', ''ZIP'', ''GIF'', ''MP3'', ''ELF''])"
    by (simp add: to_lower_def)
  have "distinct (map (\<lambda>d. map to_lower (ft_name d)) (default_types :: ('bv, 'fv) FileTypeDescriptor list))"
    using dist unfolding names [symmetric] by (simp add: comp_def)
  from find_by_key [OF this]
  have "List.find (\<lambda>d. map to_lower (ft_name d) = map to_lower name) default_types = Some d"
    if "d \<in> set (default_types :: ('bv, 'fv) FileTypeDescriptor list)" "map to_lower name = map to_lower (ft_name d)" for d name
    using that by simp
  then show ?thesis using run
    by (intro exI [of _ r']) (simp add: file_type_registry_find_def strcasecmp_eq_def r'_def)
qed

theorem registry_defaults_found_witness:
  "\<exists>r'. file_type_registry_register_defaults (\<lambda>_. (True, (True, \<lambda>_. True, \<lambda>_. True), (True, \<lambda>_. True, \<lambda>_. True)))
      (snd (file_type_registry_init True (Some empty_registry))) = (ERASECURE_SUCCESS, Some r')
    \<and> map_option ft_extension (file_type_registry_find (Some r') (Some ''pDf'')) = Some ''pdf''"
proof -
  let ?d = "default_types ! 2 :: (unit, unit) FileTypeDescriptor"
  have "?d \<in> set default_types" "ft_extension ?d = ''pdf''" "map to_lower ''pDf'' = map to_lower (ft_name ?d)"
    by (simp_all add: default_types_def builtin_type_def to_lower_def)
  with registry_defaults_found [of empty_registry] show ?thesis by (metis option.map(2))
qed

end
