(* ===== verification/File_Eraser.thy ===== *)
theory File_Eraser
  imports Block_Erase
begin

text \<open>
  Erasing single files and whole folders, \<open>src/file_eraser/file_eraser.c\<close>, \<open>file_verify.c\<close>,
  \<open>folder_eraser.c\<close> and \<open>metadata_eraser.c\<close> with their headers. The answers of the system are
  \<open>file_env\<close>: per path, and where a call is repeated also per call. \<open>fsync\<close> results are ignored by the
  code and change no content, and wall-clock times are left out. \<open>lseek\<close> to the start of a regular
  file does not fail. The code \<open>-1\<close> is \<open>ERASECURE_ERR_GENERIC\<close>. Record fields carry the prefixes
  \<open>feo_\<close>, \<open>fer_\<close>, \<open>fvr_\<close>, \<open>doo_\<close>, \<open>dor_\<close>, \<open>mer_\<close>, \<open>fe_\<close> and \<open>fw_\<close>.
\<close>

section \<open>Data\<close>

datatype FileEraseScope = FILE_ERASE_SCOPE_LOGICAL | FILE_ERASE_SCOPE_DEVICE

record FileEraseOptions =
  feo_pattern :: ErasePattern
  feo_passes :: nat
  feo_verify_after :: bool
  feo_remove_file :: bool
  feo_sync_parent :: bool

record FileEraseResult =
  fer_result_code :: ErasecureError
  fer_scope :: FileEraseScope
  fer_path :: string
  fer_original_size :: nat
  fer_bytes_written :: nat
  fer_passes_completed :: nat
  fer_file_removed :: bool
  fer_verified :: bool
  fer_verification_passed :: bool
  fer_pre_hash_sha256 :: string
  fer_post_hash_sha256 :: string
  fer_error_message :: string
  fer_scope_note :: string

record FileVerifyResult =
  fvr_passed :: bool
  fvr_bytes_checked :: nat
  fvr_bytes_mismatched :: nat
  fvr_expected_pattern :: ErasePattern
  fvr_note :: string

text \<open>
  A write or read answers \<open>None\<close> for an error and otherwise how many bytes it is willing to transfer;
  \<open>fe_rand\<close> is what \<open>RAND_bytes\<close> delivers for a chunk. \<open>fe_readdir\<close> is the directory stream, \<open>None\<close>
  when \<open>opendir\<close> fails.
\<close>

record file_env =
  fe_lstat_ok :: "string \<Rightarrow> bool"
  fe_open_write :: "string \<Rightarrow> bool"
  fe_open_read :: "string \<Rightarrow> bool"
  fe_malloc :: "string \<Rightarrow> bool"
  fe_malloc_verify :: "string \<Rightarrow> bool"
  fe_write :: "string \<Rightarrow> nat \<Rightarrow> nat option"
  fe_read :: "string \<Rightarrow> nat \<Rightarrow> nat option"
  fe_rand :: "string \<Rightarrow> nat \<Rightarrow> (nat \<Rightarrow> byte) option"
  fe_unlink :: "string \<Rightarrow> bool"
  fe_readdir :: "string \<Rightarrow> string list option"
  fe_dev :: "string \<Rightarrow> nat"
  fe_ino :: "string \<Rightarrow> nat"
  fe_rmdir :: "string \<Rightarrow> bool"

definition lstat :: "file_env \<Rightarrow> filesys \<Rightarrow> string \<Rightarrow> node option" where
  "lstat env fs path = (if fe_lstat_ok env path then fs path else None)"

definition CHUNK_SIZE :: nat where "CHUNK_SIZE = 4096"

definition file_erase_options_init :: "FileEraseOptions option \<Rightarrow> FileEraseOptions option" where
  "file_erase_options_init opts =
     map_option (\<lambda>_. \<lparr>feo_pattern = ERASE_PATTERN_RANDOM, feo_passes = 3, feo_verify_after = True,
                      feo_remove_file = True, feo_sync_parent = True\<rparr>) opts"

definition is_dangerous_path :: "string \<Rightarrow> bool" where
  "is_dangerous_path path \<longleftrightarrow>
     strstr path ''/dev/'' = Some 0 \<or> strstr path ''/proc/'' = Some 0 \<or> strstr path ''/sys/'' = Some 0"

section \<open>Verification by reading back\<close>

definition zero_verify_result :: "FileVerifyResult" where
  "zero_verify_result = \<lparr>fvr_passed = False, fvr_bytes_checked = 0, fvr_bytes_mismatched = 0,
     fvr_expected_pattern = ERASE_PATTERN_ZERO, fvr_note = []\<rparr>"

text \<open>
  The read loop over the rest of the file, with the call number and the counts of bytes checked and
  mismatched. A read that does not fail returns at least one byte before the end of the file.
\<close>

function verify_reads :: "(nat \<Rightarrow> nat option) \<Rightarrow> byte \<Rightarrow> nat \<Rightarrow> byte list \<Rightarrow> nat \<times> nat \<Rightarrow> nat \<times> nat" where
  "verify_reads rd expected calls content counts =
     (if content = [] then counts
      else case rd calls of
             None \<Rightarrow> counts
           | Some n \<Rightarrow>
               let chunk = take (max 1 (min n CHUNK_SIZE)) content
               in verify_reads rd expected (calls + 1) (drop (max 1 (min n CHUNK_SIZE)) content)
                    (wrap64 (fst counts + length chunk),
                     wrap64 (snd counts + length (List.filter (\<lambda>b. b \<noteq> expected) chunk))))"
  by pat_completeness auto
termination
  by (relation "measure (\<lambda>(rd, expected, calls, content, counts). length content)") auto

declare verify_reads.simps [simp del]

definition expected_byte :: "ErasePattern \<Rightarrow> byte" where
  "expected_byte pattern = (if pattern = ERASE_PATTERN_ZERO then 0 else 0xFF)"

definition file_verify_pattern ::
    "file_env \<Rightarrow> filesys \<Rightarrow> string option \<Rightarrow> ErasePattern \<Rightarrow> FileVerifyResult option
     \<Rightarrow> ErasecureError \<times> FileVerifyResult option" where
  "file_verify_pattern env fs path pattern result =
     (case (path, result) of
        (Some p, Some _) \<Rightarrow>
          let r = zero_verify_result\<lparr>fvr_expected_pattern := pattern\<rparr>
          in if pattern = ERASE_PATTERN_RANDOM
             then (ERASECURE_OK, Some (r\<lparr>fvr_note := ''Random pattern not verifiable by readback'',
                                         fvr_passed := True\<rparr>))
             else (case lstat env fs p of
                     Some (Reg content) \<Rightarrow>
                       if \<not> fe_open_read env p then (ERASECURE_ERR_GENERIC, Some r)
                       else if \<not> fe_malloc_verify env p then (ERASECURE_ERR_GENERIC, Some r)
                       else (case verify_reads (fe_read env p) (expected_byte pattern) 0 content (0, 0) of
                               (checked, mismatched) \<Rightarrow>
                                 (ERASECURE_OK,
                                  Some (r\<lparr>fvr_bytes_checked := checked, fvr_bytes_mismatched := mismatched,
                                          fvr_passed := (mismatched = 0)\<rparr>)))
                   | _ \<Rightarrow> (ERASECURE_ERR_GENERIC, Some r))
      | _ \<Rightarrow> (ERASECURE_ERR_GENERIC, result))"

section \<open>Erasing one file\<close>

record fw_state =
  fw_content :: "byte list"
  fw_buf :: "byte list"
  fw_pos :: nat
  fw_calls :: nat
  fw_written :: nat

text \<open>The buffer at the start of a pass and before a chunk; a failing \<open>RAND_bytes\<close> leaves it as it is.\<close>

definition pass_buffer :: "ErasePattern \<Rightarrow> byte list \<Rightarrow> byte list" where
  "pass_buffer pattern buf =
     (if pattern = ERASE_PATTERN_ZERO then replicate CHUNK_SIZE 0
      else if pattern = ERASE_PATTERN_ONE then replicate CHUNK_SIZE 0xFF else buf)"

definition chunk_buffer :: "(nat \<Rightarrow> byte) option \<Rightarrow> ErasePattern \<Rightarrow> nat \<Rightarrow> byte list \<Rightarrow> byte list" where
  "chunk_buffer rand pattern to_write buf =
     (if pattern = ERASE_PATTERN_RANDOM
      then (case rand of None \<Rightarrow> buf | Some f \<Rightarrow> map f [0..<to_write] @ drop to_write buf) else buf)"

text \<open>One round of the write loop: how many bytes went out, \<open>None\<close> for an error.\<close>

definition file_chunk ::
    "file_env \<Rightarrow> string \<Rightarrow> ErasePattern \<Rightarrow> nat \<Rightarrow> fw_state \<Rightarrow> nat option \<times> fw_state" where
  "file_chunk env path pattern bytes_left st =
     (let to_write = (if bytes_left < CHUNK_SIZE then bytes_left else CHUNK_SIZE);
          buf = chunk_buffer (fe_rand env path (fw_calls st)) pattern to_write (fw_buf st);
          st1 = st\<lparr>fw_buf := buf, fw_calls := fw_calls st + 1\<rparr>
      in case fe_write env path (fw_calls st) of
           None \<Rightarrow> (None, st1)
         | Some n \<Rightarrow>
             let written = min n to_write
             in (Some written,
                 st1\<lparr>fw_content := write_at (fw_content st) (fw_pos st) (take written buf),
                     fw_pos := fw_pos st + written, fw_written := wrap64 (fw_written st + written)\<rparr>))"

partial_function (option) file_write_loop ::
    "file_env \<Rightarrow> string \<Rightarrow> ErasePattern \<Rightarrow> nat \<Rightarrow> fw_state \<Rightarrow> (bool \<times> fw_state) option" where
  "file_write_loop env path pattern bytes_left st =
     (if bytes_left = 0 then Some (True, st)
      else case file_chunk env path pattern bytes_left st of
             (None, st1) \<Rightarrow> Some (False, st1)
           | (Some written, st1) \<Rightarrow> file_write_loop env path pattern (bytes_left - written) st1)"

text \<open>\<open>n\<close> passes to go, \<open>completed\<close> passes done.\<close>

primrec file_passes ::
    "nat \<Rightarrow> file_env \<Rightarrow> string \<Rightarrow> ErasePattern \<Rightarrow> nat \<Rightarrow> nat \<Rightarrow> fw_state \<Rightarrow> (bool \<times> nat \<times> fw_state) option" where
  "file_passes 0 env path pattern fsize completed st = Some (True, completed, st)"
| "file_passes (Suc n) env path pattern fsize completed st =
     (case file_write_loop env path pattern fsize
             (st\<lparr>fw_pos := 0, fw_buf := pass_buffer pattern (fw_buf st)\<rparr>) of
        None \<Rightarrow> None
      | Some (ok, st1) \<Rightarrow>
          if ok then file_passes n env path pattern fsize (completed + 1) st1
          else Some (False, completed, st1))"

definition fresh_file_result :: "string \<Rightarrow> FileEraseResult" where
  "fresh_file_result path =
     \<lparr>fer_result_code = ERASECURE_OK, fer_scope = FILE_ERASE_SCOPE_LOGICAL, fer_path = cstr 256 path,
      fer_original_size = 0, fer_bytes_written = 0, fer_passes_completed = 0, fer_file_removed = False,
      fer_verified = False, fer_verification_passed = False, fer_pre_hash_sha256 = [],
      fer_post_hash_sha256 = [], fer_error_message = [],
      fer_scope_note = ''Logical overwrite; NAND not guaranteed''\<rparr>"

type_synonym file_outcome = "ErasecureError \<times> FileEraseResult \<times> filesys"

definition file_fail :: "ErasecureError \<Rightarrow> string \<Rightarrow> FileEraseResult \<Rightarrow> filesys \<Rightarrow> file_outcome" where
  "file_fail e msg r fs = (e, r\<lparr>fer_result_code := e, fer_error_message := msg\<rparr>, fs)"

text \<open>The steps after the overwrite: reading back and removing the file.\<close>

definition file_finish ::
    "file_env \<Rightarrow> string \<Rightarrow> FileEraseOptions \<Rightarrow> FileEraseResult \<Rightarrow> filesys \<Rightarrow> file_outcome" where
  "file_finish env path opts r fs =
     (let r1 = (if feo_verify_after opts
                then r\<lparr>fer_verified := True,
                       fer_verification_passed :=
                         fvr_passed (the (snd (file_verify_pattern env fs (Some path) (feo_pattern opts)
                                                 (Some zero_verify_result))))\<rparr>
                else r);
          removed = (feo_remove_file opts \<and> fe_unlink env path);
          r2 = r1\<lparr>fer_file_removed := removed, fer_result_code := ERASECURE_OK\<rparr>
      in (ERASECURE_OK, r2, if removed then fs(path := None) else fs))"

definition file_overwrite ::
    "file_env \<Rightarrow> filesys \<Rightarrow> string \<Rightarrow> FileEraseOptions \<Rightarrow> FileEraseResult \<Rightarrow> byte list \<Rightarrow> byte list
     \<Rightarrow> file_outcome option" where
  "file_overwrite env fs path opts r content junk =
     (case file_passes (feo_passes opts) env path (feo_pattern opts) (length content) 0
             \<lparr>fw_content = content, fw_buf = junk, fw_pos = 0, fw_calls = 0, fw_written = 0\<rparr> of
        None \<Rightarrow> None
      | Some (ok, completed, st) \<Rightarrow>
          let r1 = r\<lparr>fer_bytes_written := fw_written st, fer_passes_completed := completed\<rparr>;
              fs1 = fs(path \<mapsto> Reg (fw_content st))
          in if \<not> ok then Some (file_fail ERASECURE_ERR_GENERIC ''Write failed'' r1 fs1)
             else Some (file_finish env path opts r1 fs1))"

text \<open>\<open>junk\<close> is what \<open>malloc\<close> returns, \<open>CHUNK_SIZE\<close> bytes.\<close>

definition file_erase ::
    "file_env \<Rightarrow> byte list \<Rightarrow> filesys \<Rightarrow> string option \<Rightarrow> FileEraseOptions option \<Rightarrow> FileEraseResult option
     \<Rightarrow> (ErasecureError \<times> FileEraseResult option \<times> filesys) option" where
  "file_erase env junk fs path opts result =
     (case (path, opts, result) of
        (Some p, Some opts, Some _) \<Rightarrow>
          let r = fresh_file_result p
          in map_option (\<lambda>(e, r', fs'). (e, Some r', fs'))
               (if is_dangerous_path p
                then Some (file_fail ERASECURE_ERR_DANGEROUS_PATH ''Dangerous path rejected'' r fs)
                else case lstat env fs p of
                       None \<Rightarrow> Some (file_fail ERASECURE_ERR_GENERIC ''lstat failed'' r fs)
                     | Some (Reg content) \<Rightarrow>
                         let r1 = r\<lparr>fer_original_size := length content\<rparr>
                         in if \<not> fe_open_write env p
                            then Some (file_fail ERASECURE_ERR_GENERIC ''Failed to open file'' r1 fs)
                            else if \<not> fe_malloc env p
                            then Some (file_fail ERASECURE_ERR_GENERIC [] r1 fs)
                            else file_overwrite env fs p opts r1 content junk
                     | Some _ \<Rightarrow> Some (file_fail ERASECURE_ERR_SYMLINK_ATTACK
                                   ''Not a regular file (symlink or special)'' r fs))
      | _ \<Rightarrow> Some (ERASECURE_ERR_GENERIC, result, fs))"

text \<open>The batch: the outcomes of the single erasures are not looked at.\<close>

fun erase_each ::
    "file_env \<Rightarrow> byte list \<Rightarrow> FileEraseOptions \<Rightarrow> (string option \<times> FileEraseResult) list \<Rightarrow> filesys
     \<Rightarrow> (FileEraseResult list \<times> filesys) option" where
  "erase_each env junk opts [] fs = Some ([], fs)"
| "erase_each env junk opts ((p, r0) # ps) fs =
     (case file_erase env junk fs p (Some opts) (Some r0) of
        None \<Rightarrow> None
      | Some (e, r, fs1) \<Rightarrow>
          map_option (\<lambda>(rs, fs2). (the_default r0 r # rs, fs2)) (erase_each env junk opts ps fs1))"

text \<open>Both arrays have at least \<open>n\<close> entries.\<close>

definition file_erase_batch ::
    "file_env \<Rightarrow> byte list \<Rightarrow> filesys \<Rightarrow> string option list option \<Rightarrow> nat \<Rightarrow> FileEraseOptions option
     \<Rightarrow> FileEraseResult list option
     \<Rightarrow> (ErasecureError \<times> FileEraseResult list option \<times> filesys) option" where
  "file_erase_batch env junk fs paths n opts results =
     (case (paths, opts, results) of
        (Some ps, Some opts, Some rs) \<Rightarrow>
          map_option (\<lambda>(rs', fs'). (ERASECURE_OK, Some (rs' @ drop n rs), fs'))
            (erase_each env junk opts (zip (take n ps) (take n rs)) fs)
      | _ \<Rightarrow> Some (ERASECURE_ERR_GENERIC, results, fs))"

section \<open>Lemmas\<close>

lemma verify_reads_step:
  assumes "content \<noteq> []" and "rd calls = Some n"
  shows "verify_reads rd expected calls content (a, b)
    = verify_reads rd expected (calls + 1) (drop (max 1 (min n CHUNK_SIZE)) content)
        (wrap64 (a + length (take (max 1 (min n CHUNK_SIZE)) content)),
         wrap64 (b + length (List.filter (\<lambda>b. b \<noteq> expected) (take (max 1 (min n CHUNK_SIZE)) content))))"
  using assms by (subst verify_reads.simps) (simp add: Let_def)

lemma verify_reads_result:
  assumes "\<And>k. rd k \<noteq> None" and "a + length content < 2 ^ 64" "b + length content < 2 ^ 64"
  shows "verify_reads rd expected calls content (a, b)
    = (a + length content, b + length (List.filter (\<lambda>x. x \<noteq> expected) content))"
  using assms(2,3)
proof (induction "length content" arbitrary: calls content a b rule: less_induct)
  case less
  show ?case
  proof (cases "content = []")
    case True
    then show ?thesis by (simp add: verify_reads.simps)
  next
    case False
    obtain n where n: "rd calls = Some n" using assms(1) by blast
    define xs ys where "xs = take (max 1 (min n CHUNK_SIZE)) content"
      and "ys = drop (max 1 (min n CHUNK_SIZE)) content"
    define wrong where "wrong = (\<lambda>xs. length (List.filter (\<lambda>b. b \<noteq> expected) xs))"
    have split: "content = xs @ ys" by (simp add: xs_def ys_def)
    have "length ys < length content" using False by (simp add: ys_def)
    moreover have wrong_le: "wrong xs \<le> length xs" unfolding wrong_def by (rule length_filter_le)
    then have "b + wrong xs + length ys < 2 ^ 64" using less.prems(2) unfolding split length_append by linarith
    ultimately have "verify_reads rd expected (calls + 1) ys (a + length xs, b + wrong xs)
        = (a + length xs + length ys, b + wrong xs + wrong ys)"
      using less.hyps [of ys "a + length xs" "b + wrong xs"] less.prems split by (simp add: wrong_def)
    moreover have "wrap64 (a + length xs) = a + length xs" "wrap64 (b + wrong xs) = b + wrong xs"
      using less.prems wrong_le unfolding split length_append by (intro wrap64_less; linarith)+
    ultimately show ?thesis
      unfolding verify_reads_step [where rd = rd, OF False n]
      unfolding xs_def [symmetric] ys_def [symmetric] wrong_def [symmetric]
      by (simp add: split wrong_def)
  qed
qed

text \<open>While a constant pattern is written: what is behind the position, and the buffer.\<close>

definition write_inv :: "byte \<Rightarrow> nat \<Rightarrow> nat \<Rightarrow> fw_state \<Rightarrow> bool" where
  "write_inv eb len bytes_left st \<longleftrightarrow> fw_pos st + bytes_left = len \<and> length (fw_content st) = len
     \<and> take (fw_pos st) (fw_content st) = replicate (fw_pos st) eb \<and> fw_buf st = replicate CHUNK_SIZE eb"

lemma file_chunk_keeps:
  assumes "write_inv eb len bytes_left st" and "pattern \<noteq> ERASE_PATTERN_RANDOM"
    and "file_chunk env path pattern bytes_left st = (out, st1)"
  shows "case out of None \<Rightarrow> fw_content st1 = fw_content st
    | Some w \<Rightarrow> w \<le> bytes_left \<and> write_inv eb len (bytes_left - w) st1
        \<and> fw_written st1 = wrap64 (fw_written st + w)"
proof (cases out)
  case None
  then show ?thesis using assms(3) by (auto simp: file_chunk_def Let_def split: option.splits)
next
  case (Some w)
  then have w: "w \<le> bytes_left" "w \<le> CHUNK_SIZE" "fw_pos st1 = fw_pos st + w"
    "fw_written st1 = wrap64 (fw_written st + w)" "fw_buf st1 = fw_buf st"
    "fw_content st1 = write_at (fw_content st) (fw_pos st) (take w (fw_buf st))"
    using assms(2,3) by (auto simp: file_chunk_def chunk_buffer_def Let_def split: option.splits if_splits)
  have fits: "fw_pos st + length (take w (fw_buf st)) \<le> length (fw_content st)" "length (take w (fw_buf st)) = w"
    using w(1,2) assms(1) by (simp_all add: write_inv_def)
  have "take (fw_pos st + w) (fw_content st1) = take (fw_pos st) (fw_content st) @ take w (fw_buf st)"
    using take_write_at [of "fw_pos st" "fw_content st" "take w (fw_buf st)"] fits w(6) by simp
  also have "\<dots> = replicate (fw_pos st + w) eb"
    using assms(1) w(2) by (simp add: write_inv_def replicate_add min_def)
  finally show ?thesis
    using Some w fits assms(1) by (auto simp: write_inv_def)
qed

lemma file_write_loop_keeps:
  assumes "file_write_loop env path pattern bytes_left st = Some y"
    and "write_inv eb len bytes_left st" and "pattern \<noteq> ERASE_PATTERN_RANDOM" and "fw_written st < 2 ^ 64"
  shows "fst y \<longrightarrow> write_inv eb len 0 (snd y) \<and> fw_written (snd y) = wrap64 (fw_written st + bytes_left)"
proof -
  let ?P = "\<lambda>env path pattern bytes_left st y. write_inv eb len bytes_left st \<longrightarrow> pattern \<noteq> ERASE_PATTERN_RANDOM \<longrightarrow>
    fw_written st < 2 ^ 64 \<longrightarrow> fst y \<longrightarrow> write_inv eb len 0 (snd y) \<and> fw_written (snd y) = wrap64 (fw_written st + bytes_left)"
  have "?P env path pattern bytes_left st y"
  proof (rule file_write_loop.raw_induct [where P = ?P, OF _ assms(1)], intro impI)
    fix f env path pattern bytes_left st y
    assume IH: "\<And>env path pattern bytes_left st y. f env path pattern bytes_left st = Some y
        \<Longrightarrow> ?P env path pattern bytes_left st y"
      and eq: "(if bytes_left = 0 then Some (True, st)
        else case file_chunk env path pattern bytes_left st of
             (None, st1) \<Rightarrow> Some (False, st1)
           | (Some written, st1) \<Rightarrow> f env path pattern (bytes_left - written) st1) = Some y"
      and inv: "write_inv eb len bytes_left st" and pat: "pattern \<noteq> ERASE_PATTERN_RANDOM"
      and small: "fw_written st < 2 ^ 64" and ok: "fst y"
    show "write_inv eb len 0 (snd y) \<and> fw_written (snd y) = wrap64 (fw_written st + bytes_left)"
    proof (cases "bytes_left = 0")
      case True
      then show ?thesis using eq inv small by auto
    next
      case False
      obtain out st1 where c: "file_chunk env path pattern bytes_left st = (out, st1)" by fastforce
      with eq ok False obtain w where w: "out = Some w" "f env path pattern (bytes_left - w) st1 = Some y"
        by (cases out) auto
      from file_chunk_keeps [OF inv pat c] w(1) have k: "w \<le> bytes_left" "write_inv eb len (bytes_left - w) st1"
        "fw_written st1 = wrap64 (fw_written st + w)" by simp_all
      have "fw_written st1 < 2 ^ 64" unfolding k(3) by (rule wrap64_bound)
      with IH [OF w(2)] k(1,2) pat ok have "write_inv eb len 0 (snd y)"
        "fw_written (snd y) = wrap64 (fw_written st1 + (bytes_left - w))" by simp_all
      moreover obtain d where "bytes_left = w + d" using k(1) by (auto simp: le_iff_add)
      ultimately show ?thesis using k(3) by (simp add: add.assoc)
    qed
  qed
  with assms show ?thesis by blast
qed

lemma file_write_loop_returns:
  assumes "\<And>k. fe_write env path k \<noteq> Some 0"
  shows "\<exists>y. file_write_loop env path pattern bytes_left st = Some y"
proof (induction bytes_left arbitrary: st rule: less_induct)
  case (less n)
  obtain out st1 where c: "file_chunk env path pattern n st = (out, st1)" by fastforce
  show ?case
  proof (cases "n = 0 \<or> out = None")
    case True
    then show ?thesis using c by (subst file_write_loop.simps) auto
  next
    case False
    then obtain w where w: "out = Some w" by blast
    have "0 < w" using c w False assms [of "fw_calls st"]
      by (auto simp: file_chunk_def Let_def CHUNK_SIZE_def split: option.splits if_splits)
    with less.IH [of "n - w" st1] False w c show ?thesis by (subst file_write_loop.simps) auto
  qed
qed

lemma file_passes_returns:
  assumes "\<And>k. fe_write env path k \<noteq> Some 0"
  shows "file_passes n env path pattern len completed st \<noteq> None"
proof (induction n arbitrary: completed st)
  case (Suc n)
  let ?st = "st\<lparr>fw_pos := 0, fw_buf := pass_buffer pattern (fw_buf st)\<rparr>"
  obtain ok st1 where "file_write_loop env path pattern len ?st = Some (ok, st1)"
    using file_write_loop_returns [where env = env, OF assms, of pattern len ?st] by auto
  with Suc.IH [of "completed + 1" st1] show ?case by (cases ok) simp_all
qed simp

text \<open>Overwriting depends on the answers of \<open>write\<close> and \<open>RAND_bytes\<close> only.\<close>

lemma file_write_loop_env:
  assumes "file_write_loop env path pattern n st = Some y"
    and "fe_write env' = fe_write env" "fe_rand env' = fe_rand env"
  shows "file_write_loop env' path pattern n st = Some y"
proof -
  let ?P = "\<lambda>env path pattern n st y. fe_write env' = fe_write env \<longrightarrow> fe_rand env' = fe_rand env \<longrightarrow>
    file_write_loop env' path pattern n st = Some y"
  have "?P env path pattern n st y"
  proof (rule file_write_loop.raw_induct [where P = ?P, OF _ assms(1)], intro impI)
    fix f env path pattern n st y
    assume IH: "\<And>env path pattern n st y. f env path pattern n st = Some y \<Longrightarrow> ?P env path pattern n st y"
      and eq: "(if n = 0 then Some (True, st)
        else case file_chunk env path pattern n st of
             (None, st1) \<Rightarrow> Some (False, st1)
           | (Some written, st1) \<Rightarrow> f env path pattern (n - written) st1) = Some y"
      and env: "fe_write env' = fe_write env" "fe_rand env' = fe_rand env"
    have "file_chunk env' path pattern n st = file_chunk env path pattern n st"
      by (simp add: file_chunk_def env)
    then show "file_write_loop env' path pattern n st = Some y"
      using eq IH env by (subst file_write_loop.simps) (auto split: if_splits prod.splits option.splits)
  qed
  with assms show ?thesis by blast
qed

lemma file_passes_env:
  assumes "file_passes n env path pattern len k st = Some y"
    and "fe_write env' = fe_write env" "fe_rand env' = fe_rand env"
  shows "file_passes n env' path pattern len k st = Some y"
  using assms(1)
proof (induction n arbitrary: k st)
  case (Suc n)
  then obtain ok st1 where "file_write_loop env path pattern len
      (st\<lparr>fw_pos := 0, fw_buf := pass_buffer pattern (fw_buf st)\<rparr>) = Some (ok, st1)"
    by (auto split: option.splits)
  with file_write_loop_env [OF this assms(2,3)] Suc show ?case by (cases ok) auto
qed simp

lemma file_passes_overwrites:
  assumes "file_passes n env path pattern len completed st = Some (True, k, st')"
    and "pattern \<noteq> ERASE_PATTERN_RANDOM" and "length (fw_content st) = len" and "fw_written st < 2 ^ 64"
  shows "k = completed + n \<and> fw_written st' = wrap64 (fw_written st + n * len) \<and> length (fw_content st') = len
    \<and> (0 < n \<longrightarrow> fw_content st' = replicate len (expected_byte pattern))"
  using assms
proof (induction n arbitrary: completed st)
  case 0
  then show ?case by simp
next
  case (Suc n)
  let ?st = "st\<lparr>fw_pos := 0, fw_buf := pass_buffer pattern (fw_buf st)\<rparr>"
  obtain st1 where st1: "file_write_loop env path pattern len ?st = Some (True, st1)"
    "file_passes n env path pattern len (completed + 1) st1 = Some (True, k, st')"
    using Suc.prems(1) by (auto split: option.splits if_splits)
  have "write_inv (expected_byte pattern) len len ?st"
    using Suc.prems by (cases pattern) (simp_all add: write_inv_def pass_buffer_def expected_byte_def)
  from file_write_loop_keeps [OF st1(1) this Suc.prems(2)] Suc.prems(4)
  have a: "write_inv (expected_byte pattern) len 0 st1" "fw_written st1 = wrap64 (fw_written st + len)" by simp_all
  then have "take len (fw_content st1) = replicate len (expected_byte pattern)" and c1: "length (fw_content st1) = len"
    by (auto simp: write_inv_def)
  then have c: "length (fw_content st1) = len" "fw_content st1 = replicate len (expected_byte pattern)"
    by simp_all
  have "fw_written st1 < 2 ^ 64" unfolding a(2) by (rule wrap64_bound)
  note IH = Suc.IH [OF st1(2) Suc.prems(2) c(1) this]
  have "wrap64 (fw_written st1 + n * len) = wrap64 (fw_written st + Suc n * len)"
    by (simp add: a(2) add.assoc)
  moreover have "n = 0 \<Longrightarrow> st' = st1" using st1(2) by simp
  ultimately show ?case using IH c(2) by auto
qed

section \<open>Properties of file erasure\<close>

lemma lstat_Some: "lstat env fs p = Some n \<longleftrightarrow> fe_lstat_ok env p \<and> fs p = Some n"
  by (simp add: lstat_def)

text \<open>The shape of a call that gets past the checks.\<close>

lemma file_erase_Reg:
  assumes "\<not> is_dangerous_path p" "lstat env fs p = Some (Reg content)" "fe_open_write env p" "fe_malloc env p"
  shows "file_erase env junk fs (Some p) (Some opts) (Some r0)
    = map_option (\<lambda>(e, r', fs'). (e, Some r', fs'))
        (file_overwrite env fs p opts ((fresh_file_result p)\<lparr>fer_original_size := length content\<rparr>) content junk)"
  using assms by (simp add: file_erase_def Let_def)

text \<open>
  C10. A file erasure with a constant pattern that is not followed by removal overwrites the whole file:
  when it returns success, with at least one pass, the file has its old length and every byte is the
  pattern's, no other path has changed, and the counts of passes and of bytes written (modulo the
  width of the counter) are right.
\<close>

theorem file_erase_overwrites:
  assumes run: "file_erase env junk fs (Some p) (Some opts) (Some r0) = Some (ERASECURE_OK, Some r, fs')"
    and reg: "fs p = Some (Reg content)" and pat: "feo_pattern opts \<noteq> ERASE_PATTERN_RANDOM"
    and keep: "\<not> feo_remove_file opts" and pass: "0 < feo_passes opts"
  shows "fs' = fs(p \<mapsto> Reg (replicate (length content) (expected_byte (feo_pattern opts))))
    \<and> fer_passes_completed r = feo_passes opts
    \<and> fer_bytes_written r = wrap64 (feo_passes opts * length content)"
proof -
  have open_ok: "\<not> is_dangerous_path p" "lstat env fs p = Some (Reg content)" "fe_open_write env p" "fe_malloc env p"
    using run reg by (auto simp: file_erase_def Let_def file_fail_def lstat_def split: if_splits)
  obtain ok k st where st: "file_passes (feo_passes opts) env p (feo_pattern opts) (length content) 0
      \<lparr>fw_content = content, fw_buf = junk, fw_pos = 0, fw_calls = 0, fw_written = 0\<rparr> = Some (ok, k, st)"
    using run unfolding file_erase_Reg [OF open_ok] file_overwrite_def by (auto split: option.splits)
  have ok: ok
    using run unfolding file_erase_Reg [OF open_ok] file_overwrite_def
    by (auto simp: st file_fail_def Let_def split: if_splits)
  from file_passes_overwrites [OF st [unfolded eqTrueI [OF ok]] pat] pass
  have res: "k = feo_passes opts" "fw_written st = wrap64 (feo_passes opts * length content)"
    "fw_content st = replicate (length content) (expected_byte (feo_pattern opts))" by simp_all
  show ?thesis
    using run keep unfolding file_erase_Reg [OF open_ok] file_overwrite_def
    by (auto simp: st ok res file_finish_def Let_def)
qed

text \<open>A cooperative system with one file of three bytes, for the witnesses.\<close>

definition demo_file_env :: file_env where
  "demo_file_env = \<lparr>fe_lstat_ok = \<lambda>_. True, fe_open_write = \<lambda>_. True, fe_open_read = \<lambda>_. True,
     fe_malloc = \<lambda>_. True, fe_malloc_verify = \<lambda>_. True, fe_write = \<lambda>_ _. Some 4096,
     fe_read = \<lambda>_ _. Some 4096, fe_rand = \<lambda>_ _. None, fe_unlink = \<lambda>_. True,
     fe_readdir = \<lambda>p. if p = ''/d'' then Some [''.'', ''f'', ''l''] else None, fe_dev = \<lambda>_. 1, fe_ino = length,
     fe_rmdir = \<lambda>_. True\<rparr>"

definition demo_file_opts :: FileEraseOptions where
  "demo_file_opts = \<lparr>feo_pattern = ERASE_PATTERN_ONE, feo_passes = 2, feo_verify_after = True,
     feo_remove_file = False, feo_sync_parent = False\<rparr>"

definition demo_file_fs :: filesys where
  "demo_file_fs = [''/d'' \<mapsto> DirNode, ''/d/f'' \<mapsto> Reg [1, 2, 3], ''/d/l'' \<mapsto> LnkNode]"

lemma file_erase_returns_lemma:
  assumes "\<And>k. fe_write env p k \<noteq> Some 0"
  shows "file_erase env junk fs (Some p) (Some opts) (Some r0) \<noteq> None"
proof -
  have "file_overwrite env fs p opts r c junk \<noteq> None" for r c
  proof -
    obtain ok k st where "file_passes (feo_passes opts) env p (feo_pattern opts) (length c) 0
        \<lparr>fw_content = c, fw_buf = junk, fw_pos = 0, fw_calls = 0, fw_written = 0\<rparr> = Some (ok, k, st)"
      using file_passes_returns [where env = env, OF assms, of "feo_passes opts" "feo_pattern opts" "length c" 0] by fast
    then show ?thesis by (cases ok) (simp_all add: file_overwrite_def Let_def)
  qed
  then show ?thesis by (auto simp: file_erase_def file_fail_def Let_def split: option.splits node.splits)
qed

text \<open>
  C14. A file erasure returns as long as \<open>write\<close> makes progress: if no call answers 0 bytes, the call
  comes back with some code, whatever fails along the way. A \<open>write\<close> that keeps answering 0 is
  retried for ever: then the erasure of a non-empty file never returns.
\<close>

theorem file_erase_returns:
  "((\<forall>k. fe_write env p k \<noteq> Some 0) \<longrightarrow> file_erase env junk fs (Some p) (Some opts) (Some r0) \<noteq> None)
   \<and> ((\<forall>k. fe_write env p k = Some 0) \<and> \<not> is_dangerous_path p \<and> lstat env fs p = Some (Reg content)
      \<and> content \<noteq> [] \<and> fe_open_write env p \<and> fe_malloc env p \<and> 0 < feo_passes opts
      \<longrightarrow> file_erase env junk fs (Some p) (Some opts) (Some r0) = None)"
proof (intro conjI impI)
  show "file_erase env junk fs (Some p) (Some opts) (Some r0) \<noteq> None" if "\<forall>k. fe_write env p k \<noteq> Some 0"
    using that by (intro file_erase_returns_lemma) blast
next
  assume *: "(\<forall>k. fe_write env p k = Some 0) \<and> \<not> is_dangerous_path p \<and> lstat env fs p = Some (Reg content)
      \<and> content \<noteq> [] \<and> fe_open_write env p \<and> fe_malloc env p \<and> 0 < feo_passes opts"
  have hang: "file_write_loop env p pattern n st = Some y \<Longrightarrow> n = 0" for pattern n st y
  proof -
    let ?P = "\<lambda>env path pattern bytes_left st y. (\<forall>k. fe_write env path k = Some 0) \<longrightarrow> bytes_left = (0 :: nat)"
    have "?P env p pattern n st y" if "file_write_loop env p pattern n st = Some y"
    proof (rule file_write_loop.raw_induct [where P = ?P, OF _ that], intro impI)
      fix f env path pattern n st y
      assume IH: "\<And>env path pattern n st y. f env path pattern n st = Some y \<Longrightarrow> ?P env path pattern n st y"
        and eq: "(if n = 0 then Some (True, st)
          else case file_chunk env path pattern n st of
               (None, st1) \<Rightarrow> Some (False, st1)
             | (Some written, st1) \<Rightarrow> f env path pattern (n - written) st1) = Some y"
        and zero: "\<forall>k. fe_write env path k = Some 0"
      obtain st1 where "file_chunk env path pattern n st = (Some 0, st1)"
        using zero by (simp add: file_chunk_def Let_def)
      with eq IH [of env path pattern n st1 y] zero show "n = 0" by (cases "n = 0") simp_all
    qed
    with * show "file_write_loop env p pattern n st = Some y \<Longrightarrow> n = 0" by blast
  qed
  obtain m where m: "feo_passes opts = Suc m" using * by (cases "feo_passes opts") auto
  have "file_passes (feo_passes opts) env p (feo_pattern opts) (length content) 0 st = None" for st
  proof (cases "file_write_loop env p (feo_pattern opts) (length content)
      (st\<lparr>fw_pos := 0, fw_buf := pass_buffer (feo_pattern opts) (fw_buf st)\<rparr>)")
    case (Some y)
    then show ?thesis using hang * by blast
  qed (simp add: m)
  then show "file_erase env junk fs (Some p) (Some opts) (Some r0) = None"
    using * by (simp add: file_erase_Reg file_overwrite_def)
qed

lemma file_finish_effect:
  "snd (snd (file_finish env p opts r fs)) = fs \<or> snd (snd (file_finish env p opts r fs)) = fs(p := None)"
  by (simp add: file_finish_def Let_def)

lemma file_overwrite_effect:
  assumes "file_overwrite env fs p opts r content junk = Some (e, r', fs')"
  shows "fs' = fs(p := None) \<or> (\<exists>c. fs' = fs(p \<mapsto> Reg c))"
proof -
  obtain ok k st where st: "file_passes (feo_passes opts) env p (feo_pattern opts) (length content) 0
      \<lparr>fw_content = content, fw_buf = junk, fw_pos = 0, fw_calls = 0, fw_written = 0\<rparr> = Some (ok, k, st)"
    using assms by (auto simp: file_overwrite_def split: option.splits)
  let ?fs = "fs(p \<mapsto> Reg (fw_content st))"
  from assms have "fs' = ?fs \<or> fs' = ?fs(p := None)"
    unfolding file_overwrite_def st
    using file_finish_effect [of env p opts "r\<lparr>fer_bytes_written := fw_written st, fer_passes_completed := k\<rparr>" ?fs]
    by (auto simp: Let_def file_fail_def split: if_splits)
  then show ?thesis by auto
qed

lemma file_erase_effect:
  assumes "file_erase env junk fs (Some p) (Some opts) (Some r0) = Some (e, r, fs')"
  shows "fs' = fs \<or> (\<exists>c. fs p = Some (Reg c)) \<and> (fs' = fs(p := None) \<or> (\<exists>c. fs' = fs(p \<mapsto> Reg c)))"
proof (cases "\<not> is_dangerous_path p \<and> (\<exists>c. lstat env fs p = Some (Reg c)) \<and> fe_open_write env p \<and> fe_malloc env p")
  case True
  then obtain c where c: "lstat env fs p = Some (Reg c)" by blast
  with True assms obtain r' where "file_overwrite env fs p opts ((fresh_file_result p)\<lparr>fer_original_size := length c\<rparr>) c junk
      = Some (e, r', fs')" by (auto simp: file_erase_Reg)
  from file_overwrite_effect [OF this] c show ?thesis by (auto simp: lstat_Some)
next
  case False
  then have "fs' = fs"
    using assms by (auto simp: file_erase_def Let_def file_fail_def split: if_splits option.splits node.splits)
  then show ?thesis ..
qed

text \<open>
  A file erasure touches one regular file only: whatever it returns, no other path changes, and a
  path under \<open>/dev/\<close>, \<open>/proc/\<close> or \<open>/sys/\<close>, a symbolic link, a directory or a device is refused with a
  non-zero code and left alone.
\<close>

theorem file_erase_safe:
  assumes run: "file_erase env junk fs (Some p) (Some opts) (Some r0) = Some (e, r, fs')"
  shows "(\<forall>q. q \<noteq> p \<longrightarrow> fs' q = fs q)
    \<and> (is_dangerous_path p \<or> (\<forall>c. fs p \<noteq> Some (Reg c)) \<longrightarrow> fs' = fs \<and> e \<noteq> ERASECURE_OK)"
  using run
  by (auto simp: file_erase_def Let_def file_fail_def file_overwrite_def file_finish_def lstat_def
      split: if_splits option.splits node.splits)

text \<open>
  Reading back decides exactly when it can read: for a constant pattern and reads that do not
  fail, \<open>file_verify_pattern\<close> on a readable regular file counts every byte and passes if and only if
  each is the pattern's. The random pattern passes without looking at the file.
\<close>

theorem file_verify_exact:
  assumes "lstat env fs p = Some (Reg content)" "fe_open_read env p" "fe_malloc_verify env p"
    and "\<And>k. fe_read env p k \<noteq> None" and "length content < 2 ^ 64"
  shows "\<exists>r. file_verify_pattern env fs (Some p) pattern (Some r0) = (ERASECURE_OK, Some r)
    \<and> (if pattern = ERASE_PATTERN_RANDOM then fvr_passed r \<and> fvr_bytes_checked r = 0
       else fvr_bytes_checked r = length content
         \<and> (fvr_passed r \<longleftrightarrow> (\<forall>b \<in> set content. b = expected_byte pattern)))"
proof -
  have "verify_reads (fe_read env p) (expected_byte pattern) 0 content (0, 0)
      = (length content, length (List.filter (\<lambda>b. b \<noteq> expected_byte pattern) content))"
    using verify_reads_result [where rd = "fe_read env p", OF assms(4), of 0 content 0] assms(5) by simp
  then show ?thesis using assms(1-3)
    by (auto simp: file_verify_pattern_def zero_verify_result_def Let_def filter_empty_conv)
qed

text \<open>
  The readback and the removal do not influence the result code: if a file erasure succeeds, it
  also succeeds when every read shows other bytes or fails and when the file cannot be removed; the
  failures are visible in the result's flags only.
\<close>

theorem file_erase_ignores_later_failures:
  assumes run: "file_erase env junk fs (Some p) (Some opts) (Some r0) = Some (ERASECURE_OK, Some r, fs')"
    and reg: "fs p = Some (Reg content)"
  shows "\<exists>r1 fs1. file_erase (env\<lparr>fe_open_read := (\<lambda>_. False), fe_unlink := (\<lambda>_. False)\<rparr>) junk fs (Some p) (Some opts) (Some r0)
      = Some (ERASECURE_OK, Some r1, fs1) \<and> \<not> fer_file_removed r1
    \<and> (feo_verify_after opts \<and> feo_pattern opts \<noteq> ERASE_PATTERN_RANDOM \<longrightarrow> \<not> fer_verification_passed r1)"
proof -
  let ?env = "env\<lparr>fe_open_read := (\<lambda>_. False), fe_unlink := (\<lambda>_. False)\<rparr>"
  have open_ok: "\<not> is_dangerous_path p" "lstat env fs p = Some (Reg content)" "fe_open_write env p" "fe_malloc env p"
    using run reg by (auto simp: file_erase_def Let_def file_fail_def lstat_def split: if_splits)
  have open_ok': "\<not> is_dangerous_path p" "lstat ?env fs p = Some (Reg content)" "fe_open_write ?env p" "fe_malloc ?env p"
    using open_ok by (simp_all add: lstat_def)
  obtain k st where st: "file_passes (feo_passes opts) env p (feo_pattern opts) (length content) 0
      \<lparr>fw_content = content, fw_buf = junk, fw_pos = 0, fw_calls = 0, fw_written = 0\<rparr> = Some (True, k, st)"
    using run unfolding file_erase_Reg [OF open_ok] file_overwrite_def
    by (auto simp: file_fail_def Let_def split: option.splits if_splits)
  have st': "file_passes (feo_passes opts) ?env p (feo_pattern opts) (length content) 0
      \<lparr>fw_content = content, fw_buf = junk, fw_pos = 0, fw_calls = 0, fw_written = 0\<rparr> = Some (True, k, st)"
    by (rule file_passes_env [OF st]) simp_all
  have fail: "feo_pattern opts \<noteq> ERASE_PATTERN_RANDOM \<Longrightarrow>
      \<not> fvr_passed (the (snd (file_verify_pattern ?env fs1 (Some p) (feo_pattern opts) (Some zero_verify_result))))" for fs1
    by (simp add: file_verify_pattern_def zero_verify_result_def Let_def split: option.split node.split)
  show ?thesis
    unfolding file_erase_Reg [OF open_ok'] file_overwrite_def st'
    by (auto simp: file_finish_def Let_def fail)
qed

text \<open>
  A read that fails ends the loop of the read-back like the end of the file: when the first one fails, nothing has
  been compared and the file counts as verified.
\<close>

theorem file_verify_passes_unread:
  assumes "lstat env fs p = Some (Reg content)" "pattern \<noteq> ERASE_PATTERN_RANDOM"
    "fe_open_read env p" "fe_malloc_verify env p" "fe_read env p 0 = None"
  shows "\<exists>r. file_verify_pattern env fs (Some p) pattern (Some r0) = (ERASECURE_OK, Some r)
    \<and> fvr_passed r \<and> fvr_bytes_checked r = 0"
proof -
  have "verify_reads (fe_read env p) (expected_byte pattern) 0 content (0, 0) = (0, 0)"
    using assms(5) by (subst verify_reads.simps) simp
  with assms(1-4) show ?thesis by (simp add: file_verify_pattern_def)
qed

text \<open>
  The list of \<open>common/constants.h\<close> is not looked at: of its thirteen paths none is refused itself, and of the files
  below them only those under \<open>/dev\<close>, \<open>/proc\<close> and \<open>/sys\<close>.
\<close>

definition ERASECURE_DANGEROUS_PATHS :: "string list" where
  "ERASECURE_DANGEROUS_PATHS =
     [''/'', ''/boot'', ''/etc'', ''/usr'', ''/bin'', ''/sbin'', ''/lib'', ''/lib64'', ''/proc'', ''/sys'', ''/dev'',
      ''/run'', ''/var'']"

theorem listed_paths_checked:
  assumes "d \<in> set ERASECURE_DANGEROUS_PATHS"
  shows "\<not> is_dangerous_path d"
    and "is_dangerous_path (d @ ''/'' @ rest) \<longleftrightarrow> d \<in> {''/dev'', ''/proc'', ''/sys''}"
proof -
  have checks: "is_dangerous_path path \<longleftrightarrow> prefix ''/dev/'' path \<or> prefix ''/proc/'' path \<or> prefix ''/sys/'' path" for path
    by (simp add: is_dangerous_path_def strstr_0_iff)
  have "\<forall>d \<in> set ERASECURE_DANGEROUS_PATHS. \<not> is_dangerous_path d" by (simp add: ERASECURE_DANGEROUS_PATHS_def checks)
  with assms show "\<not> is_dangerous_path d" by blast
  have "\<forall>d \<in> set ERASECURE_DANGEROUS_PATHS. is_dangerous_path (d @ ''/'' @ rest) \<longleftrightarrow> d \<in> {''/dev'', ''/proc'', ''/sys''}"
    by (simp add: ERASECURE_DANGEROUS_PATHS_def checks)
  with assms show "is_dangerous_path (d @ ''/'' @ rest) \<longleftrightarrow> d \<in> {''/dev'', ''/proc'', ''/sys''}" by blast
qed

section \<open>Witnesses\<close>

lemma demo_loop:
  "file_write_loop demo_file_env p ERASE_PATTERN_ONE 3 st
    = Some (True, snd (file_chunk demo_file_env p ERASE_PATTERN_ONE 3 st))"
  by (subst file_write_loop.simps, subst file_write_loop.simps)
    (simp add: file_chunk_def demo_file_env_def chunk_buffer_def CHUNK_SIZE_def Let_def)

lemma demo_checks:
  "\<not> is_dangerous_path ''/d/f''" "lstat demo_file_env demo_file_fs ''/d/f'' = Some (Reg [1, 2, 3])"
  "fe_open_write demo_file_env p" "fe_malloc demo_file_env p" "fe_open_read demo_file_env p"
  "fe_malloc_verify demo_file_env p" "fe_read demo_file_env p k \<noteq> None" "demo_file_fs ''/d/f'' = Some (Reg [1, 2, 3])"
  by (simp_all add: is_dangerous_path_def lstat_def demo_file_env_def demo_file_fs_def)

lemma demo_run:
  "\<exists>r fs'. file_erase demo_file_env [] demo_file_fs (Some ''/d/f'') (Some demo_file_opts) (Some r0)
    = Some (ERASECURE_OK, Some r, fs')"
proof -
  obtain k st where "file_passes 2 demo_file_env ''/d/f'' ERASE_PATTERN_ONE (length [1, 2, 3 :: byte]) 0
      \<lparr>fw_content = [1, 2, 3], fw_buf = [], fw_pos = 0, fw_calls = 0, fw_written = 0\<rparr> = Some (True, k, st)"
    by (simp add: numeral_2_eq_2 demo_loop [unfolded numeral_3_eq_3])
  then show ?thesis
    by (simp add: file_erase_Reg [OF demo_checks(1,2,3,4)] file_overwrite_def demo_file_opts_def file_finish_def Let_def)
qed

theorem file_erase_overwrites_witness:
  "\<exists>r. file_erase demo_file_env [] demo_file_fs (Some ''/d/f'') (Some demo_file_opts) (Some (fresh_file_result []))
    = Some (ERASECURE_OK, Some r, demo_file_fs(''/d/f'' \<mapsto> Reg [0xFF, 0xFF, 0xFF])) \<and> fer_passes_completed r = 2"
proof -
  obtain r fs' where run: "file_erase demo_file_env [] demo_file_fs (Some ''/d/f'') (Some demo_file_opts) (Some (fresh_file_result []))
    = Some (ERASECURE_OK, Some r, fs')" using demo_run by blast
  have "fs' = demo_file_fs(''/d/f'' \<mapsto> Reg (replicate (length [1, 2, 3 :: byte]) (expected_byte (feo_pattern demo_file_opts))))
      \<and> fer_passes_completed r = feo_passes demo_file_opts"
    using file_erase_overwrites [OF run demo_checks(8)] by (simp add: demo_file_opts_def)
  then show ?thesis using run by (simp add: demo_file_opts_def expected_byte_def numeral_3_eq_3)
qed

theorem file_erase_returns_witness:
  "file_erase demo_file_env [] demo_file_fs (Some ''/d/f'') (Some demo_file_opts) (Some (fresh_file_result [])) \<noteq> None
   \<and> file_erase (demo_file_env\<lparr>fe_write := (\<lambda>_ _. Some 0)\<rparr>) [] demo_file_fs (Some ''/d/f'') (Some demo_file_opts)
       (Some (fresh_file_result [])) = None"
proof -
  have "\<forall>k. fe_write demo_file_env ''/d/f'' k \<noteq> Some 0" by (simp add: demo_file_env_def)
  moreover have "(\<forall>k. fe_write (demo_file_env\<lparr>fe_write := (\<lambda>_ _. Some 0)\<rparr>) ''/d/f'' k = Some 0)
      \<and> lstat (demo_file_env\<lparr>fe_write := (\<lambda>_ _. Some 0)\<rparr>) demo_file_fs ''/d/f'' = Some (Reg [1, 2, 3])
      \<and> [1, 2, 3 :: byte] \<noteq> [] \<and> 0 < feo_passes demo_file_opts"
    using demo_checks(2) by (simp add: lstat_def demo_file_opts_def)
  ultimately show ?thesis
    using file_erase_returns [of demo_file_env "''/d/f''" "[]" demo_file_fs demo_file_opts "fresh_file_result []" "[1, 2, 3]"]
      file_erase_returns [of "demo_file_env\<lparr>fe_write := (\<lambda>_ _. Some 0)\<rparr>" "''/d/f''" "[]" demo_file_fs demo_file_opts "fresh_file_result []" "[1, 2, 3]"]
      demo_checks(1,3,4) by simp
qed

theorem file_erase_safe_witness:
  "\<exists>e r. file_erase demo_file_env [] demo_file_fs (Some ''/d/l'') (Some demo_file_opts) (Some (fresh_file_result [])) = Some (e, r, demo_file_fs)
    \<and> e \<noteq> ERASECURE_OK"
proof -
  have "file_erase demo_file_env [] demo_file_fs (Some ''/d/l'') (Some demo_file_opts) (Some (fresh_file_result [])) \<noteq> None"
    by (rule file_erase_returns_lemma) (simp add: demo_file_env_def)
  then obtain e r fs' where run: "file_erase demo_file_env [] demo_file_fs (Some ''/d/l'') (Some demo_file_opts) (Some (fresh_file_result []))
    = Some (e, r, fs')" by auto
  have "\<forall>c. demo_file_fs ''/d/l'' \<noteq> Some (Reg c)" by (simp add: demo_file_fs_def)
  with file_erase_safe [OF run] run show ?thesis by blast
qed

theorem file_verify_exact_witness:
  "\<exists>r. file_verify_pattern demo_file_env demo_file_fs (Some ''/d/f'') ERASE_PATTERN_ONE (Some zero_verify_result)
      = (ERASECURE_OK, Some r) \<and> fvr_bytes_checked r = 3 \<and> \<not> fvr_passed r"
  using file_verify_exact [OF demo_checks(2,5,6,7), of ERASE_PATTERN_ONE zero_verify_result]
  by (simp add: expected_byte_def numeral_3_eq_3)

theorem file_erase_ignores_later_failures_witness:
  "\<exists>r1 fs1. file_erase (demo_file_env\<lparr>fe_open_read := (\<lambda>_. False), fe_unlink := (\<lambda>_. False)\<rparr>) [] demo_file_fs
      (Some ''/d/f'') (Some demo_file_opts) (Some (fresh_file_result [])) = Some (ERASECURE_OK, Some r1, fs1)
    \<and> \<not> fer_verification_passed r1"
proof -
  obtain r fs' where run: "file_erase demo_file_env [] demo_file_fs (Some ''/d/f'') (Some demo_file_opts) (Some (fresh_file_result []))
    = Some (ERASECURE_OK, Some r, fs')" using demo_run by blast
  have "feo_verify_after demo_file_opts \<and> feo_pattern demo_file_opts \<noteq> ERASE_PATTERN_RANDOM"
    by (simp add: demo_file_opts_def)
  with file_erase_ignores_later_failures [OF run demo_checks(8)] show ?thesis by blast
qed

theorem file_verify_passes_unread_witness:
  "\<exists>r. file_verify_pattern (demo_file_env\<lparr>fe_read := (\<lambda>_ _. None)\<rparr>) demo_file_fs (Some ''/d/f'') ERASE_PATTERN_ONE
      (Some zero_verify_result) = (ERASECURE_OK, Some r) \<and> fvr_passed r \<and> fvr_bytes_checked r = 0"
  by (rule file_verify_passes_unread [of _ _ _ "[1, 2, 3]"]) (use demo_checks in \<open>simp_all add: lstat_def\<close>)

end
