(* ===== verification/Folder_Eraser.thy ===== *)
theory Folder_Eraser
  imports File_Eraser
begin

text \<open>
  Erasing the files of a folder tree, \<open>src/file_eraser/folder_eraser.c\<close>, and resetting the metadata of
  a file, \<open>src/file_eraser/metadata_eraser.c\<close>. The recursion carries the file system, the result under
  construction, the depth, a \<open>uint32_t\<close>, and the inodes seen so far; it need not end, so its value is an
  option, and \<open>folder_erase_returns\<close> says when it does. The entries of a directory are those its
  stream delivers. Counters are unbounded here: they count steps.
\<close>

section \<open>Data\<close>

record FolderEraseOptions =
  doo_file_opts :: FileEraseOptions
  doo_remove_dirs :: bool
  doo_follow_mount :: bool
  doo_max_depth :: nat

record FolderEraseResult =
  dor_result_code :: ErasecureError
  dor_path :: string
  dor_files_processed :: nat
  dor_files_succeeded :: nat
  dor_files_failed :: nat
  dor_dirs_removed :: nat
  dor_symlinks_skipped :: nat
  dor_total_bytes_written :: nat
  dor_error_message :: string

text \<open>An inode is a device and a number.\<close>

type_synonym InodeRecord = "nat \<times> nat"

record folder_state =
  fd_fs :: filesys
  fd_result :: FolderEraseResult
  fd_seen :: "InodeRecord list"

definition MAX_SEEN_INODES :: nat where "MAX_SEEN_INODES = 1024"

definition folder_erase_options_init :: "FolderEraseOptions option \<Rightarrow> FolderEraseOptions option" where
  "folder_erase_options_init opts =
     map_option (\<lambda>d. d\<lparr>doo_file_opts := the (file_erase_options_init (Some (doo_file_opts d))),
                       doo_remove_dirs := True, doo_follow_mount := False, doo_max_depth := 128\<rparr>) opts"

section \<open>The recursion\<close>

primrec fold_option :: "('a \<Rightarrow> 's \<Rightarrow> 's option) \<Rightarrow> 'a list \<Rightarrow> 's \<Rightarrow> 's option" where
  "fold_option f [] s = Some s"
| "fold_option f (x # xs) s = Option.bind (f x s) (fold_option f xs)"

definition set_message :: "string \<Rightarrow> folder_state \<Rightarrow> folder_state" where
  "set_message msg st = st\<lparr>fd_result := (fd_result st)\<lparr>dor_error_message := msg\<rparr>\<rparr>"

definition entry_path :: "string \<Rightarrow> string \<Rightarrow> string" where
  "entry_path dir name = cstr 1024 (dir @ ''/'' @ name)"

text \<open>A regular file among the entries.\<close>

definition folder_file ::
    "file_env \<Rightarrow> byte list \<Rightarrow> FolderEraseOptions \<Rightarrow> string \<Rightarrow> folder_state \<Rightarrow> folder_state option" where
  "folder_file env junk opts path st =
     (let r = fd_result st; r1 = r\<lparr>dor_files_processed := dor_files_processed r + 1\<rparr>
      in case file_erase env junk (fd_fs st) (Some path) (Some (doo_file_opts opts)) (Some (fresh_file_result [])) of
           None \<Rightarrow> None
         | Some (e, f_res, fs') \<Rightarrow>
             Some (st\<lparr>fd_fs := fs',
                      fd_result :=
                        (if e = ERASECURE_OK
                         then r1\<lparr>dor_files_succeeded := dor_files_succeeded r1 + 1,
                                 dor_total_bytes_written :=
                                   wrap64 (dor_total_bytes_written r1 + fer_bytes_written (the f_res))\<rparr>
                         else r1\<lparr>dor_files_failed := dor_files_failed r1 + 1\<rparr>)\<rparr>))"

text \<open>One round of the \<open>readdir\<close> loop; \<open>recurse\<close> is the recursive call, whose code is not looked at.\<close>

definition folder_entry ::
    "file_env \<Rightarrow> byte list \<Rightarrow> FolderEraseOptions
     \<Rightarrow> (string \<Rightarrow> folder_state \<Rightarrow> (ErasecureError \<times> folder_state) option)
     \<Rightarrow> string \<Rightarrow> string \<Rightarrow> folder_state \<Rightarrow> folder_state option" where
  "folder_entry env junk opts recurse dir name st =
     (if name = ''.'' \<or> name = ''..'' then Some st
      else case lstat env (fd_fs st) (entry_path dir name) of
             None \<Rightarrow> Some st
           | Some LnkNode \<Rightarrow>
               Some (st\<lparr>fd_result := (fd_result st)
                  \<lparr>dor_symlinks_skipped := dor_symlinks_skipped (fd_result st) + 1\<rparr>\<rparr>)
           | Some (Reg c) \<Rightarrow> folder_file env junk opts (entry_path dir name) st
           | Some DirNode \<Rightarrow> map_option snd (recurse (entry_path dir name) st)
           | Some _ \<Rightarrow> Some st)"

definition remove_dir :: "file_env \<Rightarrow> FolderEraseOptions \<Rightarrow> string \<Rightarrow> folder_state \<Rightarrow> folder_state" where
  "remove_dir env opts dir st =
     (if doo_remove_dirs opts \<and> fe_rmdir env dir
      then st\<lparr>fd_fs := (fd_fs st)(dir := None),
              fd_result := (fd_result st)\<lparr>dor_dirs_removed := dor_dirs_removed (fd_result st) + 1\<rparr>\<rparr>
      else st)"

text \<open>The two functions above pass the recursive call on, so they are monotone in it.\<close>

lemma fold_option_mono [partial_function_mono]:
  assumes "\<And>x s. mono_option (\<lambda>f. G f x s)" shows "mono_option (\<lambda>f. fold_option (G f) xs s)"
proof (induction xs arbitrary: s)
  case (Cons x xs)
  show ?case unfolding fold_option.simps by (intro bind_mono assms Cons.IH)
qed (simp add: option.const_mono)

lemma folder_entry_mono [partial_function_mono]:
  assumes "\<And>p s. mono_option (\<lambda>f. R f p s)"
  shows "mono_option (\<lambda>f. folder_entry env junk opts (R f) dir name s)"
proof -
  have rec: "mono_option (\<lambda>f. map_option snd (R f p s))" for p
  proof -
    have "mono_option (\<lambda>f. Option.bind (R f p s) (\<lambda>r. Some (snd r)))"
      by (intro bind_mono assms option.const_mono)
    then show ?thesis by (simp add: map_conv_bind_option comp_def)
  qed
  show ?thesis
  proof (cases "name = ''.'' \<or> name = ''..''")
    case True
    then show ?thesis unfolding folder_entry_def by (simp only: if_True) (rule option.const_mono)
  next
    case False
    show ?thesis unfolding folder_entry_def if_not_P [OF False]
    proof (cases "lstat env (fd_fs s) (entry_path dir name)")
      case (Some n)
      then show "mono_option (\<lambda>f. case lstat env (fd_fs s) (entry_path dir name) of
             None \<Rightarrow> Some s
           | Some LnkNode \<Rightarrow>
               Some (s\<lparr>fd_result := (fd_result s)
                  \<lparr>dor_symlinks_skipped := dor_symlinks_skipped (fd_result s) + 1\<rparr>\<rparr>)
           | Some (Reg c) \<Rightarrow> folder_file env junk opts (entry_path dir name) s
           | Some DirNode \<Rightarrow> map_option snd (R f (entry_path dir name) s)
           | Some _ \<Rightarrow> Some s)"
        using rec by (cases n) (simp_all add: option.const_mono)
    qed (simp add: option.const_mono)
  qed
qed

text \<open>\<open>depth\<close> is a \<open>uint32_t\<close>: \<open>depth + 1\<close> wraps.\<close>

partial_function (option) folder_erase_recursive ::
    "file_env \<Rightarrow> byte list \<Rightarrow> FolderEraseOptions \<Rightarrow> nat \<Rightarrow> nat \<Rightarrow> string \<Rightarrow> folder_state
     \<Rightarrow> (ErasecureError \<times> folder_state) option" where
  "folder_erase_recursive env junk opts depth initial_dev dir st =
     (if depth > doo_max_depth opts
      then Some (ERASECURE_ERR_GENERIC, set_message ''Max depth exceeded'' st)
      else if lstat env (fd_fs st) dir \<noteq> Some DirNode then Some (ERASECURE_ERR_GENERIC, st)
      else if \<not> doo_follow_mount opts \<and> fe_dev env dir \<noteq> initial_dev then Some (ERASECURE_OK, st)
      else if (fe_dev env dir, fe_ino env dir) \<in> set (fd_seen st)
      then Some (ERASECURE_ERR_CYCLE_DETECTED, set_message ''Cycle detected'' st)
      else
        let st1 = (if length (fd_seen st) < MAX_SEEN_INODES
                   then st\<lparr>fd_seen := fd_seen st @ [(fe_dev env dir, fe_ino env dir)]\<rparr> else st)
        in case fe_readdir env dir of
             None \<Rightarrow> Some (ERASECURE_ERR_GENERIC, st1)
           | Some entries \<Rightarrow>
               Option.bind
                 (fold_option (folder_entry env junk opts
                      (folder_erase_recursive env junk opts (wrap32 (depth + 1)) initial_dev) dir) entries st1)
                 (\<lambda>st2. Some (ERASECURE_OK, remove_dir env opts dir st2)))"

definition fresh_folder_result :: "string \<Rightarrow> FolderEraseResult" where
  "fresh_folder_result dir =
     \<lparr>dor_result_code = ERASECURE_OK, dor_path = cstr 256 dir, dor_files_processed = 0,
      dor_files_succeeded = 0, dor_files_failed = 0, dor_dirs_removed = 0, dor_symlinks_skipped = 0,
      dor_total_bytes_written = 0, dor_error_message = []\<rparr>"

definition folder_erase ::
    "file_env \<Rightarrow> byte list \<Rightarrow> filesys \<Rightarrow> string option \<Rightarrow> FolderEraseOptions option
     \<Rightarrow> FolderEraseResult option \<Rightarrow> (ErasecureError \<times> FolderEraseResult option \<times> filesys) option" where
  "folder_erase env junk fs dir_path opts result =
     (case (dir_path, opts, result) of
        (Some dir, Some opts, Some _) \<Rightarrow>
          let r = fresh_folder_result dir
          in if is_dangerous_path dir
             then Some (ERASECURE_ERR_DANGEROUS_PATH,
                    Some (r\<lparr>dor_error_message := ''Dangerous path rejected'',
                            dor_result_code := ERASECURE_ERR_DANGEROUS_PATH\<rparr>), fs)
             else if lstat env fs dir \<noteq> Some DirNode
             then Some (ERASECURE_ERR_GENERIC,
                    Some (r\<lparr>dor_error_message := ''Not a directory'',
                            dor_result_code := ERASECURE_ERR_GENERIC\<rparr>), fs)
             else map_option (\<lambda>(e, st). (e, Some ((fd_result st)\<lparr>dor_result_code := e\<rparr>), fd_fs st))
                    (folder_erase_recursive env junk opts 0 (fe_dev env dir) dir
                       \<lparr>fd_fs = fs, fd_result = r, fd_seen = []\<rparr>)
      | _ \<Rightarrow> Some (ERASECURE_ERR_GENERIC, result, fs))"

section \<open>Metadata\<close>

record MetadataEraseResult =
  mer_timestamps_cleared :: bool
  mer_name_removed :: bool
  mer_xattrs_cleared :: bool
  mer_limitation_note :: string

text \<open>The names in the buffer of \<open>llistxattr\<close>: each ends at a NUL.\<close>

function xattr_names :: "byte list \<Rightarrow> byte list list" where
  "xattr_names bs =
     (if bs = [] then []
      else takeWhile (\<lambda>b. b \<noteq> 0) bs # xattr_names (drop (length (takeWhile (\<lambda>b. b \<noteq> 0) bs) + 1) bs))"
  by pat_completeness auto
termination by (relation "measure length") auto

declare xattr_names.simps [simp del]

text \<open>
  \<open>list_size\<close> is the first answer of \<open>llistxattr\<close>, \<open>listing\<close> the second with the bytes it delivers
  (\<open>None\<close> when it fails); \<open>remove\<close> answers \<open>lremovexattr\<close>, and \<open>attrs\<close> are the file's attributes.
\<close>

definition metadata_erase ::
    "bool \<Rightarrow> bool \<Rightarrow> int \<Rightarrow> bool \<Rightarrow> byte list option \<Rightarrow> (byte list \<Rightarrow> bool) \<Rightarrow> byte list list
     \<Rightarrow> string option \<Rightarrow> MetadataEraseResult option
     \<Rightarrow> ErasecureError \<times> MetadataEraseResult option \<times> byte list list" where
  "metadata_erase lstat_ok utimens_ok list_size malloc_ok listing remove attrs path result =
     (case (path, result) of
        (Some _, Some _) \<Rightarrow>
          let r = \<lparr>mer_timestamps_cleared = False, mer_name_removed = False, mer_xattrs_cleared = False,
                   mer_limitation_note = ''Filesystem journal, inode table, block allocation bitmaps are NOT controlled by userspace''\<rparr>
          in if \<not> lstat_ok then (ERASECURE_ERR_GENERIC, Some r, attrs)
             else
               let r1 = r\<lparr>mer_timestamps_cleared := utimens_ok\<rparr>
               in if list_size > 0 \<and> malloc_ok
                  then (ERASECURE_OK, Some (r1\<lparr>mer_xattrs_cleared := True\<rparr>),
                        List.filter (\<lambda>a. \<not> (a \<in> set (xattr_names (the_default [] listing)) \<and> remove a)) attrs)
                  else (ERASECURE_OK, Some r1, attrs)
      | _ \<Rightarrow> (ERASECURE_ERR_GENERIC, result, attrs))"

section \<open>What an erasure of a folder keeps\<close>

text \<open>
  The paths the recursion may act on: the root, and an entry other than \<open>.\<close> and \<open>..\<close> of a directory it
  lists. It lists directories only, no symbolic link to one, and without \<open>follow_mount\<close> only those on the
  root's device. The path of an entry is formed by \<open>snprintf\<close> in 1024 characters.
\<close>

inductive reached :: "file_env \<Rightarrow> bool \<Rightarrow> filesys \<Rightarrow> string \<Rightarrow> string \<Rightarrow> bool" for env follow_mount fs root where
  root: "reached env follow_mount fs root root"
| entry: "\<lbrakk>reached env follow_mount fs root d; fs d = Some DirNode;
    follow_mount \<or> fe_dev env d = fe_dev env root; fe_readdir env d = Some names; name \<in> set names;
    name \<noteq> ''.''; name \<noteq> ''..''\<rbrakk> \<Longrightarrow> reached env follow_mount fs root (cstr 1024 (d @ ''/'' @ name))"

text \<open>
  A path that has changed was reached and was a regular file, now overwritten or gone, or a directory,
  now gone.
\<close>

definition change_ok :: "node option \<Rightarrow> node option \<Rightarrow> bool" where
  "change_ok old new \<longleftrightarrow> (\<exists>c. old = Some (Reg c)) \<and> (new = None \<or> (\<exists>c. new = Some (Reg c)))
     \<or> old = Some DirNode \<and> new = None"

definition confined :: "(string \<Rightarrow> bool) \<Rightarrow> filesys \<Rightarrow> filesys \<Rightarrow> bool" where
  "confined ok fs fs' \<longleftrightarrow> (\<forall>p. fs' p = fs p \<or> ok p \<and> change_ok (fs p) (fs' p))"

definition counts_ok :: "FolderEraseResult \<Rightarrow> bool" where
  "counts_ok r \<longleftrightarrow> dor_files_processed r = dor_files_succeeded r + dor_files_failed r"

definition dir_inodes :: "file_env \<Rightarrow> bool \<Rightarrow> filesys \<Rightarrow> string \<Rightarrow> InodeRecord set" where
  "dir_inodes env follow fs root =
     {(fe_dev env p, fe_ino env p) | p. reached env follow fs root p \<and> fs p = Some DirNode}"

text \<open>
  The invariant of the recursion: the changes are confined, the counts consistent, and the inodes seen
  are distinct inodes of directories reached, those of \<open>A\<close> among them.
\<close>

definition tree_inv :: "file_env \<Rightarrow> bool \<Rightarrow> filesys \<Rightarrow> string \<Rightarrow> InodeRecord set \<Rightarrow> folder_state \<Rightarrow> bool" where
  "tree_inv env follow fs root A st \<longleftrightarrow> confined (reached env follow fs root) fs (fd_fs st)
     \<and> counts_ok (fd_result st) \<and> distinct (fd_seen st) \<and> set (fd_seen st) \<subseteq> dir_inodes env follow fs root
     \<and> A \<subseteq> set (fd_seen st)"

lemma confined_refl [simp]: "confined ok fs fs"
  by (simp add: confined_def)

lemma change_ok_trans: "change_ok a b \<Longrightarrow> change_ok b c \<Longrightarrow> change_ok a c"
  by (auto simp: change_ok_def)

lemma confined_trans: "confined ok fs fs' \<Longrightarrow> confined ok fs' fs'' \<Longrightarrow> confined ok fs fs''"
  unfolding confined_def using change_ok_trans by metis

lemma confined_dir: "confined ok fs fs' \<Longrightarrow> fs' p = Some DirNode \<Longrightarrow> fs p = Some DirNode"
  by (drule confined_def [THEN iffD1, THEN spec, of _ _ _ p]) (auto simp: change_ok_def)

lemma confined_dir_left: "confined ok fs fs' \<Longrightarrow> fs p = Some DirNode \<Longrightarrow> fs' p = Some DirNode \<or> fs' p = None"
  by (drule confined_def [THEN iffD1, THEN spec, of _ _ _ p]) (auto simp: change_ok_def)

lemma fold_option_inv:
  assumes "fold_option f xs s = Some s'" and "J s"
    and "\<And>x s s'. x \<in> set xs \<Longrightarrow> J s \<Longrightarrow> f x s = Some s' \<Longrightarrow> J s'"
  shows "J s'"
  using assms
proof (induction xs arbitrary: s)
  case (Cons x xs)
  from Cons.prems(1) obtain s1 where s1: "f x s = Some s1" "fold_option f xs s1 = Some s'"
    by (auto simp: bind_eq_Some_conv)
  have "J s1" by (rule Cons.prems(3) [OF _ Cons.prems(2) s1(1)]) simp
  then show ?case by (rule Cons.IH [OF s1(2)]) (rule Cons.prems(3), simp_all)
qed simp

lemma fold_option_total:
  assumes "J s" and "\<And>x s. x \<in> set xs \<Longrightarrow> J s \<Longrightarrow> f x s \<noteq> None"
    and "\<And>x s s'. x \<in> set xs \<Longrightarrow> J s \<Longrightarrow> f x s = Some s' \<Longrightarrow> J s'"
  shows "fold_option f xs s \<noteq> None"
  using assms
proof (induction xs arbitrary: s)
  case (Cons x xs)
  obtain s' where s': "f x s = Some s'" using Cons.prems(2) [of x s] Cons.prems(1) by auto
  have "J s'" using Cons.prems(3) [OF _ Cons.prems(1) s'] by simp
  then have "fold_option f xs s' \<noteq> None"
  proof (rule Cons.IH)
    show "f y t \<noteq> None" if "y \<in> set xs" "J t" for y t using Cons.prems(2) [of y t] that by simp
    show "J t'" if "y \<in> set xs" "J t" "f y t = Some t'" for y t t' using Cons.prems(3) [of y t t'] that by simp
  qed
  then show ?case by (simp add: s')
qed simp

text \<open>What is reached lies under the root.\<close>

lemma reached_under_aux:
  "reached env follow fs root p \<Longrightarrow> length root < 1024
    \<Longrightarrow> length p < 1024 \<and> (p = root \<or> prefix (root @ ''/'') p)"
proof (induction rule: reached.induct)
  case (entry d names name)
  have len: "length (cstr 1024 (d @ ''/'' @ name)) < 1024" by (simp add: length_cstr)
  have d: "length d < 1024" "d = root \<or> prefix (root @ ''/'') d" using entry by auto
  consider "length d = 1023" | "length d < 1023" using d(1) by linarith
  then show ?case
  proof cases
    case 1
    then have "cstr 1024 (d @ ''/'' @ name) = d" by (simp add: cstr_def)
    then show ?thesis using d by simp
  next
    case 2
    then have "cstr 1024 (d @ ''/'' @ name) = (d @ ''/'') @ take (1022 - length d) name"
      by (simp add: cstr_def take_Cons' numeral_eq_Suc)
    then have "prefix (d @ ''/'') (cstr 1024 (d @ ''/'' @ name))" by (metis prefixI)
    then show ?thesis using d len prefix_order.trans by (metis prefixI prefix_prefix)
  qed
qed simp

lemmas reached_under = conjunct2 [OF reached_under_aux]

text \<open>The steps of the recursion keep the invariant.\<close>

lemma folder_file_inv:
  assumes "folder_file env junk opts path st = Some st'" and "reached env follow fs root path"
    and "tree_inv env follow fs root A st"
  shows "tree_inv env follow fs root A st'"
proof -
  obtain e r fs' where run: "file_erase env junk (fd_fs st) (Some path) (Some (doo_file_opts opts))
      (Some (fresh_file_result [])) = Some (e, r, fs')"
    using assms(1) by (auto simp: folder_file_def Let_def split: option.splits)
  then have st': "fd_fs st' = fs'" "fd_seen st' = fd_seen st"
      "counts_ok (fd_result st) \<Longrightarrow> counts_ok (fd_result st')"
    using assms(1) by (auto simp: folder_file_def Let_def counts_ok_def)
  have "confined (reached env follow fs root) (fd_fs st) fs'"
    using file_erase_effect [OF run] assms(2) by (auto simp: confined_def change_ok_def split: if_splits)
  then show ?thesis using assms(3) st' confined_trans unfolding tree_inv_def by metis
qed

lemma folder_entry_cases:
  assumes "folder_entry env junk opts recurse dir name st = Some st'"
  obtains "st' = st"
    | "st' = st\<lparr>fd_result := (fd_result st)\<lparr>dor_symlinks_skipped := dor_symlinks_skipped (fd_result st) + 1\<rparr>\<rparr>"
    | "name \<noteq> ''.''" "name \<noteq> ''..''" "folder_file env junk opts (entry_path dir name) st = Some st'"
    | e where "name \<noteq> ''.''" "name \<noteq> ''..''" "recurse (entry_path dir name) st = Some (e, st')"
proof (cases "name = ''.'' \<or> name = ''..''")
  case True
  with assms have "Some st = Some st'" unfolding folder_entry_def by (simp only: if_True)
  then show ?thesis using that(1) by simp
next
  case False
  note run = assms [unfolded folder_entry_def if_not_P [OF False]]
  show ?thesis
  proof (cases "lstat env (fd_fs st) (entry_path dir name)")
    case None
    with run that(1) show ?thesis by simp
  next
    case (Some n)
    with run that False show ?thesis by (cases n) auto
  qed
qed

lemma tree_inv_steps:
  assumes "tree_inv env follow fs root A st"
  shows "tree_inv env follow fs root A (set_message msg st)"
    and "tree_inv env follow fs root A
      (st\<lparr>fd_result := (fd_result st)\<lparr>dor_symlinks_skipped := dor_symlinks_skipped (fd_result st) + 1\<rparr>\<rparr>)"
    and "fs d = Some DirNode \<Longrightarrow> reached env follow fs root d
      \<Longrightarrow> tree_inv env follow fs root A (remove_dir env opts d st)"
    and "fs d = Some DirNode \<Longrightarrow> reached env follow fs root d \<Longrightarrow> (fe_dev env d, fe_ino env d) \<notin> set (fd_seen st)
      \<Longrightarrow> tree_inv env follow fs root (insert (fe_dev env d, fe_ino env d) A)
            (st\<lparr>fd_seen := fd_seen st @ [(fe_dev env d, fe_ino env d)]\<rparr>)"
  using assms
  by (auto simp: tree_inv_def set_message_def remove_dir_def counts_ok_def confined_def change_ok_def dir_inodes_def)

lemma tree_inv_mono: "tree_inv env follow fs root B st \<Longrightarrow> A \<subseteq> B \<Longrightarrow> tree_inv env follow fs root A st"
  by (auto simp: tree_inv_def)

lemma folder_entry_inv:
  assumes "folder_entry env junk opts recurse dir name st = Some st'"
    and inv: "tree_inv env follow fs root A st"
    and path: "name \<noteq> ''.'' \<Longrightarrow> name \<noteq> ''..'' \<Longrightarrow> reached env follow fs root (entry_path dir name)"
    and recurse: "\<And>p e s s'. reached env follow fs root p \<Longrightarrow> tree_inv env follow fs root A s
      \<Longrightarrow> recurse p s = Some (e, s') \<Longrightarrow> tree_inv env follow fs root A s'"
  shows "tree_inv env follow fs root A st'"
  using assms(1)
proof (cases rule: folder_entry_cases)
  case 2
  then show ?thesis using tree_inv_steps(2) [OF inv] by simp
next
  case 3
  then show ?thesis using folder_file_inv [OF 3(3) path inv] by blast
next
  case (4 e)
  then show ?thesis using recurse [OF path inv] by blast
qed (use inv in simp)

text \<open>
  The state in which a directory's entries are visited: its inode is recorded while the table has room.
\<close>

definition note_inode :: "file_env \<Rightarrow> string \<Rightarrow> folder_state \<Rightarrow> folder_state" where
  "note_inode env dir st = (if length (fd_seen st) < MAX_SEEN_INODES
     then st\<lparr>fd_seen := fd_seen st @ [(fe_dev env dir, fe_ino env dir)]\<rparr> else st)"

lemma note_inode_inv:
  assumes "tree_inv env follow fs root A st" "fs dir = Some DirNode" "reached env follow fs root dir"
    and "(fe_dev env dir, fe_ino env dir) \<notin> set (fd_seen st)"
  shows "tree_inv env follow fs root A (note_inode env dir st)"
  using tree_inv_mono [OF tree_inv_steps(4) [OF assms]] assms(1) by (auto simp: note_inode_def)

lemma folder_entries_inv:
  assumes "fold_option (folder_entry env junk opts recurse dir) names st = Some st'"
    and dir: "reached env follow fs root dir" "fs dir = Some DirNode" "follow \<or> fe_dev env dir = fe_dev env root"
      "fe_readdir env dir = Some names"
    and inv: "tree_inv env follow fs root A st"
    and recurse: "\<And>p e s s'. reached env follow fs root p \<Longrightarrow> tree_inv env follow fs root A s
      \<Longrightarrow> recurse p s = Some (e, s') \<Longrightarrow> tree_inv env follow fs root A s'"
  shows "tree_inv env follow fs root A st'"
proof (rule fold_option_inv [where J = "tree_inv env follow fs root A", OF assms(1) inv])
  fix name s s' assume name: "name \<in> set names" and s: "tree_inv env follow fs root A s"
    and step: "folder_entry env junk opts recurse dir name s = Some s'"
  show "tree_inv env follow fs root A s'"
  proof (rule folder_entry_inv [OF step s _ recurse])
    show "reached env follow fs root (entry_path dir name)" if "name \<noteq> ''.''" "name \<noteq> ''..''"
      unfolding entry_path_def using reached.entry [OF dir name that] .
  qed
qed

lemma folder_erase_recursive_inv:
  assumes "folder_erase_recursive env junk opts depth (fe_dev env root) dir st = Some (e, st')"
    and "reached env (doo_follow_mount opts) fs root dir"
    and "tree_inv env (doo_follow_mount opts) fs root A st"
  shows "tree_inv env (doo_follow_mount opts) fs root A st'"
proof -
  let ?P = "\<lambda>env junk opts depth idev dir st (r :: ErasecureError \<times> folder_state). idev = fe_dev env root
    \<longrightarrow> reached env (doo_follow_mount opts) fs root dir \<longrightarrow> tree_inv env (doo_follow_mount opts) fs root A st
    \<longrightarrow> tree_inv env (doo_follow_mount opts) fs root A (snd r)"
  have "?P env junk opts depth (fe_dev env root) dir st (e, st')"
  proof (rule folder_erase_recursive.raw_induct [where P = ?P, OF _ assms(1)], intro impI)
    fix rec env junk and opts :: FolderEraseOptions and depth idev :: nat and dir and st :: folder_state
      and r :: "ErasecureError \<times> folder_state"
    let ?follow = "doo_follow_mount opts"
    let ?J = "tree_inv env ?follow fs root A" and ?st1 = "note_inode env dir st"
      and ?f = "folder_entry env junk opts (rec env junk opts (wrap32 (depth + 1)) idev) dir"
    assume rec: "\<And>env junk opts depth idev dir st r. rec env junk opts depth idev dir st = Some r
        \<Longrightarrow> ?P env junk opts depth idev dir st r"
      and run: "(if depth > doo_max_depth opts
         then Some (ERASECURE_ERR_GENERIC, set_message ''Max depth exceeded'' st)
         else if lstat env (fd_fs st) dir \<noteq> Some DirNode then Some (ERASECURE_ERR_GENERIC, st)
         else if \<not> ?follow \<and> fe_dev env dir \<noteq> idev then Some (ERASECURE_OK, st)
         else if (fe_dev env dir, fe_ino env dir) \<in> set (fd_seen st)
         then Some (ERASECURE_ERR_CYCLE_DETECTED, set_message ''Cycle detected'' st)
         else let st1 = (if length (fd_seen st) < MAX_SEEN_INODES
                   then st\<lparr>fd_seen := fd_seen st @ [(fe_dev env dir, fe_ino env dir)]\<rparr> else st)
           in case fe_readdir env dir of
             None \<Rightarrow> Some (ERASECURE_ERR_GENERIC, st1)
           | Some entries \<Rightarrow> Option.bind (fold_option ?f entries st1)
                 (\<lambda>st2. Some (ERASECURE_OK, remove_dir env opts dir st2))) = Some r"
      and idev: "idev = fe_dev env root" and dir: "reached env ?follow fs root dir" and inv: "?J st"
    note run = run [folded note_inode_def, unfolded Let_def]
    show "?J (snd r)"
    proof (cases "depth > doo_max_depth opts \<or> lstat env (fd_fs st) dir \<noteq> Some DirNode
        \<or> \<not> ?follow \<and> fe_dev env dir \<noteq> idev \<or> (fe_dev env dir, fe_ino env dir) \<in> set (fd_seen st)")
      case True
      then have "snd r \<in> {set_message ''Max depth exceeded'' st, st, set_message ''Cycle detected'' st}"
        using run by (auto split: if_splits)
      then show ?thesis using tree_inv_steps(1) [OF inv] inv by auto
    next
      case False
      then have lst: "fs dir = Some DirNode" "?follow \<or> fe_dev env dir = fe_dev env root"
        using inv confined_dir idev by (auto simp: tree_inv_def lstat_Some)
      have st1: "?J ?st1" using note_inode_inv [OF inv lst(1) dir] False by blast
      show ?thesis
      proof (cases "fe_readdir env dir")
        case None
        then show ?thesis using run False st1 by auto
      next
        case (Some entries)
        then obtain st2 where st2: "fold_option ?f entries ?st1 = Some st2" "snd r = remove_dir env opts dir st2"
          using run False by (auto simp: bind_eq_Some_conv)
        have "?J st2"
          by (rule folder_entries_inv [OF st2(1) dir lst Some st1]) (use rec idev in force)
        then show ?thesis using tree_inv_steps(3) [OF _ lst(1) dir] st2(2) by simp
      qed
    qed
  qed
  then show ?thesis using assms(2,3) by simp
qed

section \<open>When the recursion ends\<close>

lemma folder_entry_total:
  assumes "\<And>p k. fe_write env p k \<noteq> Some 0"
    and "name \<noteq> ''.'' \<Longrightarrow> name \<noteq> ''..'' \<Longrightarrow> recurse (entry_path dir name) s \<noteq> None"
  shows "folder_entry env junk opts recurse dir name s \<noteq> None"
proof -
  have "folder_file env junk opts p s \<noteq> None" for p
    using file_erase_returns_lemma [where env = env and p = p, OF assms(1), of junk "fd_fs s" "doo_file_opts opts" "fresh_file_result []"]
    by (auto simp: folder_file_def Let_def)
  then show ?thesis
    using assms(2) by (simp add: folder_entry_def del: not_None_eq split: option.split node.split)
qed

lemma folder_erase_recursive_step:
  assumes "\<And>names. \<lbrakk>depth \<le> doo_max_depth opts; fd_fs st dir = Some DirNode;
      doo_follow_mount opts \<or> fe_dev env dir = idev; (fe_dev env dir, fe_ino env dir) \<notin> set (fd_seen st);
      fe_readdir env dir = Some names\<rbrakk> \<Longrightarrow>
      fold_option (folder_entry env junk opts (folder_erase_recursive env junk opts (wrap32 (depth + 1)) idev) dir)
        names (note_inode env dir st) \<noteq> None"
  shows "folder_erase_recursive env junk opts depth idev dir st \<noteq> None"
  using assms
  by (subst folder_erase_recursive.simps)
    (auto simp: Let_def note_inode_def lstat_Some split: option.split simp del: not_None_eq)

text \<open>With a depth limit below the greatest \<open>uint32_t\<close> the depth never wraps.\<close>

lemma depth_bounds_recursion:
  assumes "\<And>p k. fe_write env p k \<noteq> Some 0" and max: "doo_max_depth opts < 2 ^ 32 - 1"
  shows "folder_erase_recursive env junk opts depth idev dir st \<noteq> None"
proof (induction "doo_max_depth opts + 1 - depth" arbitrary: depth dir st rule: less_induct)
  case less
  show ?case
  proof (rule folder_erase_recursive_step)
    fix names assume depth: "depth \<le> doo_max_depth opts"
    then have "wrap32 (depth + 1) = depth + 1" using max by simp
    then have "folder_erase_recursive env junk opts (wrap32 (depth + 1)) idev p s \<noteq> None" for p s
      using less.hyps [of "depth + 1"] depth by simp
    then show "fold_option (folder_entry env junk opts (folder_erase_recursive env junk opts (wrap32 (depth + 1)) idev) dir)
        names (note_inode env dir st) \<noteq> None"
      by (intro fold_option_total [where J = "\<lambda>_. True"] folder_entry_total assms(1)) simp_all
  qed
qed

text \<open>While the table has room for every directory, each round enters one that was not seen.\<close>

lemma seen_bounds_recursion:
  assumes "\<And>p k. fe_write env p k \<noteq> Some 0"
    and D: "finite (dir_inodes env (doo_follow_mount opts) fs root)"
      "card (dir_inodes env (doo_follow_mount opts) fs root) \<le> MAX_SEEN_INODES"
    and "reached env (doo_follow_mount opts) fs root dir" "tree_inv env (doo_follow_mount opts) fs root {} st"
  shows "folder_erase_recursive env junk opts depth (fe_dev env root) dir st \<noteq> None"
  using assms(4,5)
proof (induction "card (dir_inodes env (doo_follow_mount opts) fs root - set (fd_seen st))"
    arbitrary: depth dir st rule: less_induct)
  case less
  let ?D = "dir_inodes env (doo_follow_mount opts) fs root" and ?i = "(fe_dev env dir, fe_ino env dir)"
  let ?reached = "reached env (doo_follow_mount opts) fs root"
  show ?case
  proof (rule folder_erase_recursive_step)
    fix names assume lst: "fd_fs st dir = Some DirNode" "doo_follow_mount opts \<or> fe_dev env dir = fe_dev env root"
      and new: "?i \<notin> set (fd_seen st)" and names: "fe_readdir env dir = Some names"
    have dirnode: "fs dir = Some DirNode" using lst(1) less.prems(2) confined_dir by (auto simp: tree_inv_def)
    then have i: "?i \<in> ?D" using less.prems(1) by (auto simp: dir_inodes_def)
    have seen: "distinct (fd_seen st)" "set (fd_seen st) \<subseteq> ?D" using less.prems(2) by (auto simp: tree_inv_def)
    have "set (fd_seen st) \<subset> ?D" using seen(2) i new by auto
    then have "length (fd_seen st) < card ?D" using psubset_card_mono [OF D(1)] distinct_card [OF seen(1)] by metis
    then have room: "length (fd_seen st) < MAX_SEEN_INODES" using D(2) by simp
    let ?J = "tree_inv env (doo_follow_mount opts) fs root (insert ?i (set (fd_seen st)))"
    have "tree_inv env (doo_follow_mount opts) fs root (set (fd_seen st)) st"
      using less.prems(2) by (simp add: tree_inv_def)
    from tree_inv_steps(4) [OF this dirnode less.prems(1) new] have st1: "?J (note_inode env dir st)"
      using room by (simp add: note_inode_def)
    have rec: "folder_erase_recursive env junk opts (wrap32 (depth + 1)) (fe_dev env root) p s \<noteq> None"
      if "?reached p" "?J s" for p s
    proof (rule less.hyps)
      have "?D - set (fd_seen s) \<subset> ?D - set (fd_seen st)"
        using that(2) i new by (auto simp: tree_inv_def)
      then show "card (?D - set (fd_seen s)) < card (?D - set (fd_seen st))"
        using psubset_card_mono D(1) by blast
      show "tree_inv env (doo_follow_mount opts) fs root {} s" using that(2) tree_inv_mono by blast
    qed (rule that(1))
    have path: "?reached (entry_path dir name)" if "name \<in> set names" "name \<noteq> ''.''" "name \<noteq> ''..''" for name
      unfolding entry_path_def using reached.entry [OF less.prems(1) dirnode lst(2) names that] .
    show "fold_option (folder_entry env junk opts
        (folder_erase_recursive env junk opts (wrap32 (depth + 1)) (fe_dev env root)) dir)
        names (note_inode env dir st) \<noteq> None"
    proof (rule fold_option_total [where J = ?J, OF st1])
      fix name s assume name: "name \<in> set names" and s: "?J s"
      show "folder_entry env junk opts (folder_erase_recursive env junk opts (wrap32 (depth + 1)) (fe_dev env root)) dir name s
          \<noteq> None"
        by (intro folder_entry_total assms(1) rec path name s)
      fix s' assume step: "folder_entry env junk opts
          (folder_erase_recursive env junk opts (wrap32 (depth + 1)) (fe_dev env root)) dir name s = Some s'"
      show "?J s'"
        by (rule folder_entry_inv [OF step s path [OF name] folder_erase_recursive_inv])
    qed
  qed
qed

text \<open>
  Outside both bounds it need not end: with the greatest \<open>uint32_t\<close> as depth limit, a full table and a
  directory not in it whose path has 1023 characters, the path of every entry is cut to that of the
  directory itself, which is visited again.
\<close>

lemma folder_erase_recursive_diverges:
  assumes "doo_max_depth opts = 2 ^ 32 - 1" "depth < 2 ^ 32" "lstat env (fd_fs st) dir = Some DirNode"
    and "doo_follow_mount opts \<or> fe_dev env dir = idev" "(fe_dev env dir, fe_ino env dir) \<notin> set (fd_seen st)"
    and "MAX_SEEN_INODES \<le> length (fd_seen st)" "fe_readdir env dir = Some (name # names)"
    and "name \<noteq> ''.''" "name \<noteq> ''..''" "length dir = 1023"
  shows "folder_erase_recursive env junk opts depth idev dir st = None"
proof (rule ccontr)
  have path: "entry_path dir name = dir" using assms(10) by (simp add: entry_path_def cstr_def)
  let ?P = "\<lambda>env' junk' opts' d i p s (r :: ErasecureError \<times> folder_state).
    \<not> (env' = env \<and> opts' = opts \<and> d < 2 ^ 32 \<and> i = idev \<and> p = dir \<and> s = st)"
  assume "folder_erase_recursive env junk opts depth idev dir st \<noteq> None"
  then obtain r where run: "folder_erase_recursive env junk opts depth idev dir st = Some r" by auto
  have "?P env junk opts depth idev dir st r"
  proof (rule folder_erase_recursive.raw_induct [where P = ?P, OF _ run], intro notI, elim conjE, goal_cases)
    case (1 rec env' junk' opts' d i p s y)
    then have "d \<le> doo_max_depth opts" using assms(1) by simp
    with 1 obtain s2 where "fold_option (folder_entry env junk' opts (rec env junk' opts (wrap32 (d + 1)) idev) dir)
        (name # names) st = Some s2"
      using assms by (auto simp: bind_eq_Some_conv)
    then obtain s1 where "folder_entry env junk' opts (rec env junk' opts (wrap32 (d + 1)) idev) dir name st = Some s1"
      by (auto simp: bind_eq_Some_conv)
    then obtain y' where "rec env junk' opts (wrap32 (d + 1)) idev dir st = Some y'"
      using assms(3,8,9) path by (auto simp: folder_entry_def)
    from 1(1) [OF this] show ?case using wrap32_bound by blast
  qed
  then show False using assms(2) by simp
qed

section \<open>Properties\<close>

text \<open>
  C11. A folder erasure stays inside the folder: for a path of less than 1024 characters, whatever the
  tree, the links and mounts in it and the answers of the system, a path that changes is the folder's or
  begins with the folder's and a slash, and it was found by listing directories from the folder down,
  following no symbolic link and, without \<open>follow_mount\<close>, listing no directory of another device. Only
  regular files are overwritten or removed and only directories removed; symbolic links and devices are
  never touched. Each file processed is counted as either succeeded or failed. Paths are the strings the
  code passes to the system; an entry's is cut at 1023 characters.
\<close>

theorem folder_erase_confined:
  assumes "folder_erase env junk fs (Some dir) (Some opts) (Some r0) = Some (e, Some r, fs')"
    and "length dir < 1024"
  shows "(\<forall>p. fs' p \<noteq> fs p \<longrightarrow> (p = dir \<or> prefix (dir @ ''/'') p)
      \<and> reached env (doo_follow_mount opts) fs dir p
      \<and> ((\<exists>c. fs p = Some (Reg c)) \<and> (fs' p = None \<or> (\<exists>c. fs' p = Some (Reg c)))
         \<or> fs p = Some DirNode \<and> fs' p = None))
    \<and> dor_files_processed r = dor_files_succeeded r + dor_files_failed r"
proof -
  let ?ok = "reached env (doo_follow_mount opts) fs dir"
  have "confined ?ok fs fs' \<and> counts_ok r"
  proof (cases "is_dangerous_path dir \<or> lstat env fs dir \<noteq> Some DirNode")
    case True
    then show ?thesis using assms(1)
      by (auto simp: folder_erase_def Let_def fresh_folder_result_def counts_ok_def split: if_splits)
  next
    case False
    let ?st = "\<lparr>fd_fs = fs, fd_result = fresh_folder_result dir, fd_seen = []\<rparr>"
    from False assms(1) obtain st where st: "folder_erase_recursive env junk opts 0 (fe_dev env dir) dir ?st
        = Some (e, st)" "fs' = fd_fs st" "r = (fd_result st)\<lparr>dor_result_code := e\<rparr>"
      by (auto simp: folder_erase_def Let_def)
    have "tree_inv env (doo_follow_mount opts) fs dir {} ?st"
      by (simp add: tree_inv_def counts_ok_def fresh_folder_result_def)
    from folder_erase_recursive_inv [OF st(1) reached.root this] st(2,3) show ?thesis
      by (simp add: tree_inv_def counts_ok_def)
  qed
  note both = this
  then have changed: "?ok p \<and> change_ok (fs p) (fs' p)" if "fs' p \<noteq> fs p" for p
    using that unfolding confined_def by blast
  from conjunct2 [OF both] have "dor_files_processed r = dor_files_succeeded r + dor_files_failed r"
    by (simp add: counts_ok_def)
  with changed show ?thesis using reached_under [OF _ assms(2)] unfolding change_ok_def by blast
qed

text \<open>
  C12. A folder erasure returns, whatever the directories list, provided \<open>write\<close> never answers 0 bytes
  and one of the two bounds of the code holds: the depth limit is below the greatest \<open>uint32_t\<close>, so the
  depth does not wrap, or the directories that can be reached have at most \<open>MAX_SEEN_INODES\<close> inodes, so
  the check for cycles ends every chain of directories, even where one contains itself. Outside both
  bounds it need not: under the greatest depth limit and with a full table the recursion never returns
  from a directory that is not in the table, has an entry and whose path has 1023 characters.
\<close>

theorem folder_erase_returns:
  assumes "\<And>p k. fe_write env p k \<noteq> Some 0"
    and "doo_max_depth opts < 2 ^ 32 - 1
      \<or> finite {(fe_dev env p, fe_ino env p) | p. reached env (doo_follow_mount opts) fs dir p \<and> fs p = Some DirNode}
        \<and> card {(fe_dev env p, fe_ino env p) | p. reached env (doo_follow_mount opts) fs dir p \<and> fs p = Some DirNode}
            \<le> MAX_SEEN_INODES"
  shows "folder_erase env junk fs (Some dir) (Some opts) r0 \<noteq> None
    \<and> (doo_max_depth opts' = 2 ^ 32 - 1 \<and> depth < 2 ^ 32 \<and> lstat env (fd_fs st) d = Some DirNode
        \<and> (doo_follow_mount opts' \<or> fe_dev env d = idev) \<and> (fe_dev env d, fe_ino env d) \<notin> set (fd_seen st)
        \<and> MAX_SEEN_INODES \<le> length (fd_seen st) \<and> fe_readdir env d = Some (name # names)
        \<and> name \<noteq> ''.'' \<and> name \<noteq> ''..'' \<and> length d = 1023
      \<longrightarrow> folder_erase_recursive env junk opts' depth idev d st = None)"
proof -
  have inv: "tree_inv env (doo_follow_mount opts) fs dir {} \<lparr>fd_fs = fs, fd_result = fresh_folder_result dir, fd_seen = []\<rparr>"
    by (simp add: tree_inv_def counts_ok_def fresh_folder_result_def)
  have "folder_erase_recursive env junk opts 0 (fe_dev env dir) dir
      \<lparr>fd_fs = fs, fd_result = fresh_folder_result dir, fd_seen = []\<rparr> \<noteq> None"
    using assms(2) unfolding dir_inodes_def [symmetric]
    by (elim disjE conjE) (rule depth_bounds_recursion [OF assms(1)] seen_bounds_recursion [OF assms(1) _ _ reached.root inv]; assumption)+
  then have "folder_erase env junk fs (Some dir) (Some opts) r0 \<noteq> None"
    by (auto simp: folder_erase_def Let_def simp del: not_None_eq split: option.split)
  then show ?thesis using folder_erase_recursive_diverges [of opts' depth env st d idev name names junk] by simp
qed

definition demo_folder_opts :: FolderEraseOptions where
  "demo_folder_opts = \<lparr>doo_file_opts = demo_file_opts, doo_remove_dirs = True, doo_follow_mount = False,
     doo_max_depth = 5\<rparr>"

text \<open>A system on which every path is the same directory and lists itself under another name.\<close>

definition loop_file_env :: file_env where
  "loop_file_env = demo_file_env\<lparr>fe_readdir := \<lambda>_. Some [''.'', ''sub''], fe_ino := \<lambda>_. 7\<rparr>"

theorem folder_erase_returns_witness:
  "folder_erase demo_file_env [] demo_file_fs (Some ''/d'') (Some demo_folder_opts) (Some (fresh_folder_result [])) \<noteq> None
   \<and> folder_erase loop_file_env [] (\<lambda>_. Some DirNode) (Some ''/d'')
        (Some (demo_folder_opts\<lparr>doo_max_depth := 2 ^ 32 - 1\<rparr>)) (Some (fresh_folder_result [])) \<noteq> None"
proof
  show "folder_erase demo_file_env [] demo_file_fs (Some ''/d'') (Some demo_folder_opts) (Some (fresh_folder_result [])) \<noteq> None"
    by (rule conjunct1 [OF folder_erase_returns]) (simp_all add: demo_file_env_def demo_folder_opts_def)
  let ?o = "demo_folder_opts\<lparr>doo_max_depth := 2 ^ 32 - 1\<rparr>"
  let ?D = "{(fe_dev loop_file_env p, fe_ino loop_file_env p) | p.
    reached loop_file_env (doo_follow_mount ?o) (\<lambda>_. Some DirNode) ''/d'' p \<and> (\<lambda>_. Some DirNode) p = Some DirNode}"
  have sub: "?D \<subseteq> {(1, 7)}" by (auto simp: loop_file_env_def demo_file_env_def)
  have "finite ?D" "card ?D \<le> MAX_SEEN_INODES"
    using finite_subset [OF sub] card_mono [OF _ sub] by (auto simp: MAX_SEEN_INODES_def)
  then show "folder_erase loop_file_env [] (\<lambda>_. Some DirNode) (Some ''/d'') (Some ?o) (Some (fresh_folder_result [])) \<noteq> None"
    by (intro conjunct1 [OF folder_erase_returns] disjI2 conjI) (auto simp: loop_file_env_def demo_file_env_def)
qed

theorem folder_erase_confined_witness:
  "\<exists>e r fs'. folder_erase demo_file_env [] demo_file_fs (Some ''/d'') (Some demo_folder_opts)
      (Some (fresh_folder_result [])) = Some (e, Some r, fs')
    \<and> fs' ''/d/l'' = Some LnkNode"
proof -
  have some: "\<not> is_dangerous_path ''/d''" "lstat demo_file_env demo_file_fs ''/d'' = Some DirNode"
    by (simp_all add: is_dangerous_path_def lstat_def demo_file_env_def demo_file_fs_def)
  have "folder_erase_recursive demo_file_env [] demo_folder_opts 0
      (fe_dev demo_file_env ''/d'') ''/d'' \<lparr>fd_fs = demo_file_fs, fd_result = fresh_folder_result ''/d'', fd_seen = []\<rparr> \<noteq> None"
    by (rule depth_bounds_recursion) (simp_all add: demo_file_env_def demo_folder_opts_def)
  with some obtain e r fs' where run: "folder_erase demo_file_env [] demo_file_fs (Some ''/d'') (Some demo_folder_opts)
      (Some (fresh_folder_result [])) = Some (e, Some r, fs')"
    by (auto simp: folder_erase_def Let_def)
  have l: "demo_file_fs ''/d/l'' = Some LnkNode" by (simp add: demo_file_fs_def)
  have "length ''/d'' < 1024" by simp
  from spec [OF conjunct1 [OF folder_erase_confined [OF run this]], of "''/d/l''"] l
  have "fs' ''/d/l'' = Some LnkNode" by (cases "fs' ''/d/l'' = Some LnkNode") simp_all
  with run show ?thesis by blast
qed

end
