(* ===== verification/Validator.thy ===== *)
theory Validator
  imports File_Type_Registry Block_State
begin

text \<open>
  The validator interface of the recovery engine, \<open>include/recovery/validator.h\<close> and
  \<open>src/recovery/validator.c\<close>: the results of block and file validators, the two wrappers that call a
  validator, and the outcome names. A validator is a parameter here; its state buffers are byte lists.
\<close>

datatype FileValidationOutcome =
    FILE_VALIDATION_PROMISING | FILE_VALIDATION_VALIDATES_TO | FILE_VALIDATION_VALIDATES
  | FILE_VALIDATION_INVALID

record BlockValidatorResult =
  bvr_confidence :: nat
  bvr_validation :: BlockValidation
  bvr_state_out :: "byte list option"

record FileValidatorResult =
  fvo_outcome :: FileValidationOutcome
  fvo_validated_length :: nat
  fvo_confidence :: nat
  fvo_detail :: string

text \<open>The wrappers, with the data, its size, the current confidence (for a block) and the format state.\<close>

definition validator_run_block ::
    "(byte list \<Rightarrow> nat \<Rightarrow> nat \<Rightarrow> byte list option \<Rightarrow> nat \<Rightarrow> BlockValidatorResult
        \<Rightarrow> ErasecureError \<times> BlockValidatorResult) option
     \<Rightarrow> byte list \<Rightarrow> nat \<Rightarrow> nat \<Rightarrow> byte list option \<Rightarrow> nat \<Rightarrow> BlockValidatorResult option
     \<Rightarrow> ErasecureError \<times> BlockValidatorResult option" where
  "validator_run_block validate block_data block_size confidence format_state format_state_len result =
     (case (validate, result) of
        (Some f, Some r) \<Rightarrow> map_prod id Some (f block_data block_size confidence format_state format_state_len r)
      | _ \<Rightarrow> (ERASECURE_ERROR_INVALID_ARGUMENT, result))"

definition validator_run_file ::
    "(byte list \<Rightarrow> nat \<Rightarrow> byte list option \<Rightarrow> nat \<Rightarrow> FileValidatorResult
        \<Rightarrow> ErasecureError \<times> FileValidatorResult) option
     \<Rightarrow> byte list \<Rightarrow> nat \<Rightarrow> byte list option \<Rightarrow> nat \<Rightarrow> FileValidatorResult option
     \<Rightarrow> ErasecureError \<times> FileValidatorResult option" where
  "validator_run_file validate candidate candidate_len format_state format_state_len result =
     (case (validate, result) of
        (Some f, Some r) \<Rightarrow> map_prod id Some (f candidate candidate_len format_state format_state_len r)
      | _ \<Rightarrow> (ERASECURE_ERROR_INVALID_ARGUMENT, result))"

fun file_validation_outcome_str :: "FileValidationOutcome \<Rightarrow> string" where
  "file_validation_outcome_str FILE_VALIDATION_PROMISING = ''PROMISING''"
| "file_validation_outcome_str FILE_VALIDATION_VALIDATES_TO = ''VALIDATES_TO''"
| "file_validation_outcome_str FILE_VALIDATION_VALIDATES = ''VALIDATES''"
| "file_validation_outcome_str FILE_VALIDATION_INVALID = ''INVALID''"

lemma file_validation_outcome_str_inj: "inj file_validation_outcome_str"
proof (rule injI)
  fix a b assume "file_validation_outcome_str a = file_validation_outcome_str b"
  then show "a = b" by (cases a; cases b) simp_all
qed

end
