(* ===== verification/Buffers.thy ===== *)
theory Buffers
  imports Os "HOL-Library.Monad_Syntax"
begin

text \<open>
  Reads of a buffer that are checked against the object it points to: \<open>None\<close> stands for an access
  outside the object. The option monad threads the check through the code's expressions.
\<close>

definition rd :: "byte list \<Rightarrow> nat \<Rightarrow> byte option" where
  "rd d i = (if i < length d then Some (d ! i) else None)"

definition sub :: "byte list \<Rightarrow> nat \<Rightarrow> nat \<Rightarrow> byte list option" where
  "sub d off n = (if off + n \<le> length d then Some (take n (drop off d)) else None)"

definition memcmp0 :: "byte list \<Rightarrow> nat \<Rightarrow> byte list \<Rightarrow> bool option" where
  "memcmp0 d off pat = (if off + length pat \<le> length d then Some (mem_eq d off pat) else None)"

named_theorems reads

lemma rd_Some [reads]: "i < length d \<Longrightarrow> rd d i = Some (d ! i)"
  by (simp add: rd_def)

lemma sub_Some [reads]: "off + n \<le> length d \<Longrightarrow> sub d off n = Some (take n (drop off d))"
  by (simp add: sub_def)

lemma memcmp0_Some [reads]: "off + length pat \<le> length d \<Longrightarrow> memcmp0 d off pat = Some (mem_eq d off pat)"
  by (simp add: memcmp0_def)

lemma mem_eq_take: "i + length p \<le> n \<Longrightarrow> n \<le> length d \<Longrightarrow> mem_eq (take n d) i p = mem_eq d i p"
  by (simp add: mem_eq_def drop_take min_absorb1)

text \<open>Inside the first \<open>n\<close> bytes it does not matter what follows them.\<close>

named_theorems prefix_reads

lemma rd_take [prefix_reads]: "i < n \<Longrightarrow> rd (take n d) i = rd d i"
  by (simp add: rd_def)

lemma sub_take [prefix_reads]: "off + k \<le> n \<Longrightarrow> n \<le> length d \<Longrightarrow> sub (take n d) off k = sub d off k"
  by (simp add: sub_def drop_take min_absorb1)

lemma memcmp0_take [prefix_reads]:
  "off + length p \<le> n \<Longrightarrow> n \<le> length d \<Longrightarrow> memcmp0 (take n d) off p = memcmp0 d off p"
  by (simp add: memcmp0_def mem_eq_take)

section \<open>Text fields of devices\<close>

text \<open>The C string in an array of bytes, and the bytes before trailing spaces.\<close>

definition c_string :: "byte list \<Rightarrow> string" where
  "c_string bs = map (\<lambda>b. char_of (unat b)) (takeWhile (\<lambda>b. b \<noteq> 0) bs)"

definition strip_spaces :: "byte list \<Rightarrow> byte list" where
  "strip_spaces bs = rev (dropWhile (\<lambda>b. b = 32) (rev bs))"

lemma length_c_string: "length (c_string bs) \<le> length bs"
  by (simp add: c_string_def length_takeWhile_le)

lemma length_strip_spaces: "length (strip_spaces bs) \<le> length bs"
  by (simp add: strip_spaces_def) (metis length_dropWhile_le length_rev)

lemma strip_padding: "(bs = [] \<or> last bs \<noteq> 32) \<Longrightarrow> strip_spaces (bs @ replicate n 32) = bs"
proof -
  assume last: "bs = [] \<or> last bs \<noteq> 32"
  have "dropWhile (\<lambda>b. b = 32) (replicate n 32 @ rev bs) = dropWhile (\<lambda>b. b = (32 :: byte)) (rev bs)" for n
    by (induction n) simp_all
  moreover have "dropWhile (\<lambda>b. b = 32) (rev bs) = rev bs"
    using last by (cases bs rule: rev_cases) auto
  ultimately show ?thesis by (simp add: strip_spaces_def)
qed

lemma unat_of_char [simp]: "unat (of_char c :: byte) = of_char c"
proof -
  have "(of_char c :: byte) = word_of_nat (of_char c)" by (rule of_nat_of_char [symmetric])
  then have "unat (of_char c :: byte) = take_bit 8 (of_char c)" by (simp only: unsigned_of_nat) simp
  also have "\<dots> = of_char c" by (simp add: take_bit_eq_mod)
  finally show ?thesis .
qed

lemma c_string_bytes_of: "\<forall>c \<in> set s. c \<noteq> CHR 0x00 \<Longrightarrow> c_string (bytes_of s) = s"
proof (induction s)
  case (Cons c s)
  have "(of_char c :: byte) \<noteq> 0"
  proof
    assume "(of_char c :: byte) = 0"
    then have "unat (of_char c :: byte) = 0" by simp
    moreover have "(of_char CHR 0x00 :: nat) = 0" by simp
    ultimately have "(of_char c :: nat) = of_char CHR 0x00" unfolding unat_of_char by simp
    then have "c = CHR 0x00" by (simp only: of_char_eq_iff)
    then show False using Cons.prems by simp
  qed
  then show ?case using Cons by (simp add: c_string_def bytes_of_def)
qed (simp add: c_string_def bytes_of_def)

lemma bytes_of_last: "s = [] \<or> last s \<noteq> CHR '' '' \<Longrightarrow> bytes_of s = [] \<or> last (bytes_of s) \<noteq> 32"
proof (cases "s = []")
  case False
  assume "s = [] \<or> last s \<noteq> CHR '' ''"
  with False have "(of_char (last s) :: byte) \<noteq> of_char CHR '' ''" by (metis of_char_eq_iff unat_of_char)
  with False show ?thesis by (simp add: bytes_of_def last_map)
qed (simp add: bytes_of_def)

end
