(* ===== verification/Formats.thy ===== *)
theory Formats
  imports Validator Buffers
begin

unbundle bit_operations_syntax

text \<open>
  The format validators of \<open>src/formats/\<close>. A candidate is the list of the bytes of the object the
  pointer points to, \<open>None\<close> for NULL, and \<open>nbytes\<close> (\<open>size\<close> in the code) is the length the caller passes; every access to it
  goes through \<open>rd\<close>, \<open>sub\<close>, \<open>be32_at\<close> or \<open>memcmp0\<close>, whose \<open>None\<close> is an access outside the object,
  and so is the \<open>None\<close> of a validator. \<open>parsed_size\<close> is the option of the value it points to.
  The file validators return the enumerators of \<open>FileValidationOutcome\<close> through a return type that the
  headers declare as the structure \<open>FileValidationResult\<close>; the model returns the enumerators.
  Sizes stay far below the range of \<open>size_t\<close>, as those of objects do, so only 32-bit arithmetic can wrap.
\<close>

section \<open>Reads and loops\<close>

definition be32 :: "byte list \<Rightarrow> nat" where
  "be32 bs = unat (bs ! 0) * 2 ^ 24 + unat (bs ! 1) * 2 ^ 16 + unat (bs ! 2) * 2 ^ 8 + unat (bs ! 3)"

definition be32_at :: "byte list \<Rightarrow> nat \<Rightarrow> nat option" where
  "be32_at d off = map_option be32 (sub d off 4)"

text \<open>The value behind \<open>parsed_size\<close> after \<open>if (parsed_size) *parsed_size = n\<close>.\<close>

definition set_parsed :: "nat option \<Rightarrow> nat \<Rightarrow> nat option" where
  "set_parsed ps n = map_option (\<lambda>_. n) ps"

type_synonym verdict = "FileValidationOutcome \<times> nat option"

text \<open>A loop that adds \<open>w\<close> to a 32-bit score at every matching index, and a search for the first one.\<close>

fun score_loop :: "(nat \<Rightarrow> bool option) \<Rightarrow> nat \<Rightarrow> nat list \<Rightarrow> nat \<Rightarrow> nat option" where
  "score_loop hit w [] score = Some score"
| "score_loop hit w (i # is) score =
     do { b \<leftarrow> hit i; score_loop hit w is (if b then wrap32 (score + w) else score) }"

fun first_match :: "(nat \<Rightarrow> bool option) \<Rightarrow> nat list \<Rightarrow> nat option option" where
  "first_match hit [] = Some None"
| "first_match hit (i # is) = do { b \<leftarrow> hit i; if b then Some (Some i) else first_match hit is }"

section \<open>JPEG\<close>

definition jpeg_hit :: "byte list \<Rightarrow> nat \<Rightarrow> bool option" where
  "jpeg_hit block i =
     do { b \<leftarrow> rd block i;
          if b = 0xFF
          then do { marker \<leftarrow> rd block (i + 1); Some (marker \<in> {0xC0, 0xC2, 0xC4, 0xDB, 0xDA}) }
          else Some False }"

definition jpeg_block_validator :: "byte list option \<Rightarrow> nat \<Rightarrow> nat option" where
  "jpeg_block_validator block nbytes =
     (case block of None \<Rightarrow> Some 0
      | Some b \<Rightarrow> if nbytes = 0 then Some 0 else score_loop (jpeg_hit b) 10 [0..<nbytes - 1] 0)"

function jpeg_scan :: "byte list \<Rightarrow> nat \<Rightarrow> bool \<Rightarrow> nat \<Rightarrow> (FileValidationOutcome \<times> nat) option" where
  "jpeg_scan d nbytes has_sos off =
     (if off < nbytes - 1 then do {
        b \<leftarrow> rd d off;
        if b \<noteq> 0xFF then jpeg_scan d nbytes has_sos (off + 1)
        else do {
          marker \<leftarrow> rd d (off + 1);
          if marker = 0 \<or> (0xD0 \<le> marker \<and> marker \<le> 0xD7) then jpeg_scan d nbytes has_sos (off + 2)
          else if marker = 0xD9 then Some (FILE_VALIDATION_VALIDATES, off + 2)
          else if marker = 0xDA then jpeg_scan d nbytes True (off + 2)
          else if off + 3 \<ge> nbytes
          then Some (if has_sos then FILE_VALIDATION_PROMISING else FILE_VALIDATION_INVALID, off)
          else do {
            hi \<leftarrow> rd d (off + 2);
            lo \<leftarrow> rd d (off + 3);
            jpeg_scan d nbytes has_sos (off + 2 + (unat hi * 256 + unat lo)) } } }
      else Some (if has_sos then FILE_VALIDATION_PROMISING else FILE_VALIDATION_INVALID, off))"
  by pat_completeness auto
termination by (relation "measure (\<lambda>(d, nbytes, has_sos, off). nbytes - off)") auto

declare jpeg_scan.simps [simp del]

definition jpeg_file_validator :: "byte list option \<Rightarrow> nat \<Rightarrow> nat option \<Rightarrow> verdict option" where
  "jpeg_file_validator file_data nbytes ps =
     (case file_data of None \<Rightarrow> Some (FILE_VALIDATION_INVALID, ps)
      | Some d \<Rightarrow>
          if nbytes < 4 then Some (FILE_VALIDATION_INVALID, ps)
          else do {
            b0 \<leftarrow> rd d 0;
            b1 \<leftarrow> rd d 1;
            if b0 \<noteq> 0xFF \<or> b1 \<noteq> 0xD8 then Some (FILE_VALIDATION_INVALID, ps)
            else map_option (\<lambda>(r, n). (r, set_parsed ps n)) (jpeg_scan d nbytes False 2) })"

section \<open>PNG\<close>

definition PNG_MAGIC :: "byte list" where
  "PNG_MAGIC = [0x89, 0x50, 0x4E, 0x47, 0x0D, 0x0A, 0x1A, 0x0A]"

definition any_of :: "byte list \<Rightarrow> byte list list \<Rightarrow> nat \<Rightarrow> bool option" where
  "any_of d pats i = those (map (memcmp0 d i) pats) \<bind> (\<lambda>bs. Some (True \<in> set bs))"

definition png_block_validator :: "byte list option \<Rightarrow> nat \<Rightarrow> nat option" where
  "png_block_validator block nbytes =
     (case block of None \<Rightarrow> Some 0
      | Some b \<Rightarrow> if nbytes < 4 then Some 0
          else score_loop (any_of b [bytes_of ''IHDR'', bytes_of ''IDAT'', bytes_of ''PLTE'', bytes_of ''IEND'']) 20
                 [0..<nbytes - 3] 0)"

text \<open>
  One round of the chunk loop, with zlib's \<open>crc32(0, data, n)\<close> as the parameter \<open>crc\<close>: the checked
  verdict, or \<open>has_ihdr\<close> and the offset of the next round. \<open>12 + length\<close> and \<open>length + 4\<close> are computed
  in 32 bits. The loop may not end.
\<close>

definition png_step ::
    "(byte list \<Rightarrow> nat) \<Rightarrow> byte list \<Rightarrow> nat \<Rightarrow> nat option \<Rightarrow> bool \<Rightarrow> nat \<Rightarrow> verdict option + bool \<times> nat" where
  "png_step crc d nbytes ps has_ihdr off =
     (let stop = Inl (Some (if has_ihdr then FILE_VALIDATION_PROMISING else FILE_VALIDATION_INVALID, set_parsed ps off))
      in if \<not> off + 12 \<le> nbytes then stop
         else case be32_at d off of None \<Rightarrow> Inl None
         | Some len \<Rightarrow>
             if off + 12 + len > nbytes then stop
             else case (sub d (off + 4) (wrap32 (len + 4)), be32_at d (off + 8 + len), sub d (off + 4) 4) of
               (Some body, Some stored_crc, Some ty) \<Rightarrow>
                 if wrap32 (crc body) \<noteq> stored_crc then Inl (Some (FILE_VALIDATION_INVALID, ps))
                 else if ty = bytes_of ''IHDR''
                 then (if off \<noteq> 8 \<or> len \<noteq> 13 then Inl (Some (FILE_VALIDATION_INVALID, ps))
                       else Inr (True, off + wrap32 (12 + len)))
                 else if ty = bytes_of ''IEND''
                 then Inl (Some (if has_ihdr then FILE_VALIDATION_VALIDATES else FILE_VALIDATION_INVALID,
                                 set_parsed ps (off + 12)))
                 else Inr (has_ihdr, off + wrap32 (12 + len))
             | _ \<Rightarrow> Inl None)"

partial_function (option) png_scan ::
    "(byte list \<Rightarrow> nat) \<Rightarrow> byte list \<Rightarrow> nat \<Rightarrow> nat option \<Rightarrow> bool \<Rightarrow> nat \<Rightarrow> verdict option option" where
  "png_scan crc d nbytes ps has_ihdr off =
     (case png_step crc d nbytes ps has_ihdr off of
        Inl r \<Rightarrow> Some r
      | Inr nxt \<Rightarrow> png_scan crc d nbytes ps (fst nxt) (snd nxt))"

definition png_file_validator ::
    "(byte list \<Rightarrow> nat) \<Rightarrow> byte list option \<Rightarrow> nat \<Rightarrow> nat option \<Rightarrow> verdict option option" where
  "png_file_validator crc file_data nbytes ps =
     (case file_data of None \<Rightarrow> Some (Some (FILE_VALIDATION_INVALID, ps))
      | Some d \<Rightarrow>
          if nbytes < 8 then Some (Some (FILE_VALIDATION_INVALID, ps))
          else case memcmp0 d 0 PNG_MAGIC of None \<Rightarrow> Some None
               | Some ok \<Rightarrow> if \<not> ok then Some (Some (FILE_VALIDATION_INVALID, ps))
                            else png_scan crc d nbytes ps False 8)"

section \<open>GIF\<close>

definition gif_magic :: "byte list \<Rightarrow> bool option" where
  "gif_magic d = any_of d [bytes_of ''GIF87a'', bytes_of ''GIF89a''] 0"

definition gif_block_validator :: "byte list option \<Rightarrow> nat \<Rightarrow> nat option" where
  "gif_block_validator block nbytes =
     (case block of None \<Rightarrow> Some 0
      | Some b \<Rightarrow> if nbytes < 6 then Some 0 else do { ok \<leftarrow> gif_magic b; Some (if ok then 100 else 0) })"

text \<open>The bytes of a colour table, announced by the packed field \<open>p\<close>.\<close>

definition color_table :: "byte \<Rightarrow> nat" where
  "color_table p = (if p AND 0x80 \<noteq> 0 then 3 * 2 ^ (unat (p AND 0x07) + 1) else 0)"

function gif_skip :: "byte list \<Rightarrow> nat \<Rightarrow> nat \<Rightarrow> nat option" where
  "gif_skip d nbytes off =
     (if off < nbytes then do { b \<leftarrow> rd d off; if b \<noteq> 0 then gif_skip d nbytes (off + 1 + unat b) else Some off }
      else Some off)"
  by pat_completeness auto
termination by (relation "measure (\<lambda>(d, nbytes, off). nbytes - off)") auto

declare gif_skip.simps [simp del]

lemma gif_skip_ge: "gif_skip d nbytes off = Some o' \<Longrightarrow> off \<le> o'"
proof (induction d nbytes off rule: gif_skip.induct)
  case (1 d nbytes off)
  then show ?case by (subst (asm) (2) gif_skip.simps) (fastforce split: if_splits bind_splits)
qed

function gif_scan :: "byte list \<Rightarrow> nat \<Rightarrow> nat \<Rightarrow> (FileValidationOutcome \<times> nat) option" where
  "gif_scan d nbytes off =
     (if off < nbytes then do {
        b \<leftarrow> rd d off;
        if b = 0x3B then Some (FILE_VALIDATION_VALIDATES, off + 1)
        else if b = 0x2C then
          (if off + 10 > nbytes then Some (FILE_VALIDATION_PROMISING, off)
           else do {
             packed \<leftarrow> rd d (off + 9);
             (if off + 10 + color_table packed \<ge> nbytes
              then Some (FILE_VALIDATION_PROMISING, off + 10 + color_table packed)
              else do { o' \<leftarrow> gif_skip d nbytes (off + 11 + color_table packed); gif_scan d nbytes (o' + 1) }) })
        else if b = 0x21 then
          (if off + 2 > nbytes then Some (FILE_VALIDATION_PROMISING, off)
           else do { o' \<leftarrow> gif_skip d nbytes (off + 2); gif_scan d nbytes (o' + 1) })
        else Some (FILE_VALIDATION_PROMISING, off) }
      else Some (FILE_VALIDATION_PROMISING, off))"
  by pat_completeness auto
termination
  by (relation "measure (\<lambda>(d, nbytes, off). nbytes - off)") (auto dest!: gif_skip_ge)

declare gif_scan.simps [simp del]

definition gif_file_validator :: "byte list option \<Rightarrow> nat \<Rightarrow> nat option \<Rightarrow> verdict option" where
  "gif_file_validator file_data nbytes ps =
     (case file_data of None \<Rightarrow> Some (FILE_VALIDATION_INVALID, ps)
      | Some d \<Rightarrow>
          if nbytes < 14 then Some (FILE_VALIDATION_INVALID, ps)
          else do {
            ok \<leftarrow> gif_magic d;
            if \<not> ok then Some (FILE_VALIDATION_INVALID, ps)
            else do {
              packed \<leftarrow> rd d 10;
              map_option (\<lambda>(r, n). (r, set_parsed ps n)) (gif_scan d nbytes (13 + color_table packed)) } })"

section \<open>MP3\<close>

definition mp3_hit :: "byte list \<Rightarrow> nat \<Rightarrow> bool option" where
  "mp3_hit block i =
     do { b \<leftarrow> rd block i;
          if b = 0xFF then do { c \<leftarrow> rd block (i + 1); Some (c AND 0xE0 = 0xE0) } else Some False }"

definition mp3_block_validator :: "byte list option \<Rightarrow> nat \<Rightarrow> nat option" where
  "mp3_block_validator block nbytes =
     (case block of None \<Rightarrow> Some 0
      | Some b \<Rightarrow> if nbytes < 2 then Some 0 else score_loop (mp3_hit b) 5 [0..<nbytes - 1] 0)"

text \<open>The size of an ID3v2 tag; the four bytes are not masked to seven bits.\<close>

definition id3_size :: "byte \<Rightarrow> byte \<Rightarrow> byte \<Rightarrow> byte \<Rightarrow> nat" where
  "id3_size a b c d =
     unat (push_bit 21 (ucast a :: u32) OR push_bit 14 (ucast b) OR push_bit 7 (ucast c) OR ucast d)"

text \<open>Whether the second and third byte of a frame header are rejected.\<close>

definition mp3_bad_frame :: "byte \<Rightarrow> byte \<Rightarrow> bool" where
  "mp3_bad_frame h1 h2 \<longleftrightarrow>
     drop_bit 3 h1 AND 0x03 = 1 \<or> drop_bit 1 h1 AND 0x03 = 0 \<or> drop_bit 4 h2 AND 0x0F = 0
     \<or> drop_bit 4 h2 AND 0x0F = 15 \<or> drop_bit 2 h2 AND 0x03 = 3"

function mp3_scan :: "byte list \<Rightarrow> nat \<Rightarrow> nat \<Rightarrow> nat \<Rightarrow> (nat \<times> nat) option" where
  "mp3_scan d nbytes frames off =
     (if off + 4 \<le> nbytes then do {
        b \<leftarrow> rd d off;
        if b \<noteq> 0xFF then Some (frames, off)
        else do {
          h1 \<leftarrow> rd d (off + 1);
          h2 \<leftarrow> rd d (off + 2);
          if h1 AND 0xE0 \<noteq> 0xE0 \<or> mp3_bad_frame h1 h2 then Some (frames, off)
          else mp3_scan d nbytes (frames + 1) (off + 414) } }
      else Some (frames, off))"
  by pat_completeness auto
termination by (relation "measure (\<lambda>(d, nbytes, frames, off). nbytes - off)") auto

declare mp3_scan.simps [simp del]

definition mp3_file_validator :: "byte list option \<Rightarrow> nat \<Rightarrow> nat option \<Rightarrow> verdict option" where
  "mp3_file_validator file_data nbytes ps =
     (case file_data of None \<Rightarrow> Some (FILE_VALIDATION_INVALID, ps)
      | Some d \<Rightarrow>
          if nbytes < 10 then Some (FILE_VALIDATION_INVALID, ps)
          else do {
            tagged \<leftarrow> memcmp0 d 0 (bytes_of ''ID3'');
            start \<leftarrow> (if tagged
                     then map_option (\<lambda>t. 10 + id3_size (t ! 0) (t ! 1) (t ! 2) (t ! 3)) (sub d 6 4)
                     else Some 0);
            map_option
              (\<lambda>(frames, n). (if frames \<ge> 3 then FILE_VALIDATION_VALIDATES else FILE_VALIDATION_PROMISING,
                              set_parsed ps n))
              (mp3_scan d nbytes 0 start) })"

section \<open>PDF\<close>

definition pdf_keywords :: "string list" where
  "pdf_keywords = [''obj'', ''endobj'', ''stream'', ''endstream'', ''xref'', ''trailer'', ''startxref'']"

text \<open>After a match the loop goes on behind the word and one more byte (\<open>j += len\<close>, then \<open>j++\<close>).\<close>

function pdf_keyword_loop :: "byte list \<Rightarrow> nat \<Rightarrow> byte list \<Rightarrow> nat \<Rightarrow> nat \<Rightarrow> nat option" where
  "pdf_keyword_loop block nbytes word j score =
     (if j + length word \<le> nbytes then do {
        b \<leftarrow> memcmp0 block j word;
        if b then pdf_keyword_loop block nbytes word (j + length word + 1) (wrap32 (score + 5))
        else pdf_keyword_loop block nbytes word (j + 1) score }
      else Some score)"
  by pat_completeness auto
termination by (relation "measure (\<lambda>(block, nbytes, word, j, score). nbytes + 1 - j)") auto

declare pdf_keyword_loop.simps [simp del]

fun pdf_keywords_loop :: "byte list \<Rightarrow> nat \<Rightarrow> string list \<Rightarrow> nat \<Rightarrow> nat option" where
  "pdf_keywords_loop block nbytes [] score = Some score"
| "pdf_keywords_loop block nbytes (w # ws) score =
     do { s \<leftarrow> pdf_keyword_loop block nbytes (bytes_of w) 0 score; pdf_keywords_loop block nbytes ws s }"

definition pdf_block_validator :: "byte list option \<Rightarrow> nat \<Rightarrow> nat option" where
  "pdf_block_validator block nbytes =
     (case block of None \<Rightarrow> Some 0
      | Some b \<Rightarrow> if nbytes = 0 then Some 0 else pdf_keywords_loop b nbytes pdf_keywords 0)"

definition pdf_file_validator :: "byte list option \<Rightarrow> nat \<Rightarrow> nat option \<Rightarrow> verdict option" where
  "pdf_file_validator file_data nbytes ps =
     (case file_data of None \<Rightarrow> Some (FILE_VALIDATION_INVALID, ps)
      | Some d \<Rightarrow>
          if nbytes < 5 then Some (FILE_VALIDATION_INVALID, ps)
          else do {
            ok \<leftarrow> memcmp0 d 0 (bytes_of ''%PDF-'');
            if \<not> ok then Some (FILE_VALIDATION_INVALID, ps)
            else do {
              found \<leftarrow> first_match (\<lambda>i. memcmp0 d i (bytes_of ''%%EOF''))
                         [if nbytes > 1024 then nbytes - 1024 else 0..<nbytes - 4];
              Some (case found of
                      Some i \<Rightarrow> (FILE_VALIDATION_VALIDATES, set_parsed ps (i + 5))
                    | None \<Rightarrow> (FILE_VALIDATION_PROMISING, set_parsed ps nbytes)) } })"

section \<open>ZIP\<close>

definition ZIP_LOCAL_HEADER :: "byte list" where "ZIP_LOCAL_HEADER = [0x50, 0x4B, 0x03, 0x04]"
definition ZIP_CENTRAL_DIR :: "byte list" where "ZIP_CENTRAL_DIR = [0x50, 0x4B, 0x01, 0x02]"
definition ZIP_EOCD :: "byte list" where "ZIP_EOCD = [0x50, 0x4B, 0x05, 0x06]"

definition zip_block_validator :: "byte list option \<Rightarrow> nat \<Rightarrow> nat option" where
  "zip_block_validator block nbytes =
     (case block of None \<Rightarrow> Some 0
      | Some b \<Rightarrow> if nbytes < 4 then Some 0
          else score_loop (any_of b [ZIP_LOCAL_HEADER, ZIP_CENTRAL_DIR, ZIP_EOCD]) 15 [0..<nbytes - 3] 0)"

text \<open>The search runs down from \<open>nbytes - 22\<close> to \<open>search_start\<close>.\<close>

definition zip_file_validator :: "byte list option \<Rightarrow> nat \<Rightarrow> nat option \<Rightarrow> verdict option" where
  "zip_file_validator file_data nbytes ps =
     (case file_data of None \<Rightarrow> Some (FILE_VALIDATION_INVALID, ps)
      | Some d \<Rightarrow>
          if nbytes < 22 then Some (FILE_VALIDATION_INVALID, ps)
          else do {
            ok \<leftarrow> memcmp0 d 0 ZIP_LOCAL_HEADER;
            if \<not> ok then Some (FILE_VALIDATION_INVALID, ps)
            else do {
              found \<leftarrow> first_match (\<lambda>i. memcmp0 d i ZIP_EOCD)
                         (rev [if nbytes > 65536 + 22 then nbytes - 65536 - 22 else 0..<nbytes - 22 + 1]);
              Some (case found of
                      Some i \<Rightarrow> (FILE_VALIDATION_VALIDATES, set_parsed ps nbytes)
                    | None \<Rightarrow> (FILE_VALIDATION_PROMISING, set_parsed ps nbytes)) } })"

section \<open>ELF\<close>

definition ELF_MAGIC :: "byte list" where "ELF_MAGIC = [0x7F, 0x45, 0x4C, 0x46]"

definition elf_block_validator :: "byte list option \<Rightarrow> nat \<Rightarrow> nat option" where
  "elf_block_validator block nbytes =
     (case block of None \<Rightarrow> Some 0
      | Some b \<Rightarrow> if nbytes < 16 then Some 0
          else do { ok \<leftarrow> memcmp0 b 0 ELF_MAGIC; cls \<leftarrow> rd b 4; enc \<leftarrow> rd b 5;
                    Some (if ok \<and> cls \<in> {1, 2} \<and> enc \<in> {1, 2} then 100 else 0) })"

definition elf_file_validator :: "byte list option \<Rightarrow> nat \<Rightarrow> nat option \<Rightarrow> verdict option" where
  "elf_file_validator file_data nbytes ps =
     (case file_data of None \<Rightarrow> Some (FILE_VALIDATION_INVALID, ps)
      | Some d \<Rightarrow>
          if nbytes < 52 then Some (FILE_VALIDATION_INVALID, ps)
          else do {
            ok \<leftarrow> memcmp0 d 0 ELF_MAGIC;
            ei_class \<leftarrow> rd d 4;
            ei_data \<leftarrow> rd d 5;
            Some (if \<not> ok then (FILE_VALIDATION_INVALID, ps)
                  else if ei_class \<noteq> 1 \<and> ei_class \<noteq> 2 then (FILE_VALIDATION_INVALID, ps)
                  else if ei_data \<noteq> 1 \<and> ei_data \<noteq> 2 then (FILE_VALIDATION_INVALID, ps)
                  else (FILE_VALIDATION_VALIDATES, set_parsed ps nbytes)) })"

section \<open>Registration\<close>

text \<open>The registration functions check their argument and leave the registry as it is.\<close>

definition jpeg_validator_register ::
    "('bv, 'fv) FileTypeRegistry option \<Rightarrow> ErasecureError \<times> ('bv, 'fv) FileTypeRegistry option" where
  "jpeg_validator_register reg = (if reg = None then ERASECURE_ERROR_INVALID_PARAM else ERASECURE_SUCCESS, reg)"
definition png_validator_register ::
    "('bv, 'fv) FileTypeRegistry option \<Rightarrow> ErasecureError \<times> ('bv, 'fv) FileTypeRegistry option" where
  "png_validator_register reg = (if reg = None then ERASECURE_ERROR_INVALID_PARAM else ERASECURE_SUCCESS, reg)"
definition pdf_validator_register ::
    "('bv, 'fv) FileTypeRegistry option \<Rightarrow> ErasecureError \<times> ('bv, 'fv) FileTypeRegistry option" where
  "pdf_validator_register reg = (if reg = None then ERASECURE_ERROR_INVALID_PARAM else ERASECURE_SUCCESS, reg)"
definition zip_validator_register ::
    "('bv, 'fv) FileTypeRegistry option \<Rightarrow> ErasecureError \<times> ('bv, 'fv) FileTypeRegistry option" where
  "zip_validator_register reg = (if reg = None then ERASECURE_ERROR_INVALID_PARAM else ERASECURE_SUCCESS, reg)"
definition gif_validator_register ::
    "('bv, 'fv) FileTypeRegistry option \<Rightarrow> ErasecureError \<times> ('bv, 'fv) FileTypeRegistry option" where
  "gif_validator_register reg = (if reg = None then ERASECURE_ERROR_INVALID_PARAM else ERASECURE_SUCCESS, reg)"
definition mp3_validator_register ::
    "('bv, 'fv) FileTypeRegistry option \<Rightarrow> ErasecureError \<times> ('bv, 'fv) FileTypeRegistry option" where
  "mp3_validator_register reg = (if reg = None then ERASECURE_ERROR_INVALID_PARAM else ERASECURE_SUCCESS, reg)"
definition elf_validator_register ::
    "('bv, 'fv) FileTypeRegistry option \<Rightarrow> ErasecureError \<times> ('bv, 'fv) FileTypeRegistry option" where
  "elf_validator_register reg = (if reg = None then ERASECURE_ERROR_INVALID_PARAM else ERASECURE_SUCCESS, reg)"

definition register_all_validators ::
    "('bv, 'fv) FileTypeRegistry option \<Rightarrow> ErasecureError \<times> ('bv, 'fv) FileTypeRegistry option" where
  "register_all_validators reg =
     (if reg = None then (ERASECURE_ERROR_INVALID_PARAM, reg)
      else (ERASECURE_SUCCESS,
            fold (\<lambda>register r. snd (register r))
              [jpeg_validator_register, png_validator_register, pdf_validator_register, zip_validator_register,
               gif_validator_register, mp3_validator_register, elf_validator_register] reg))"

text \<open>The seven file validators, in the order of their registration.\<close>

definition format_validators ::
    "(byte list \<Rightarrow> nat) \<Rightarrow> (byte list option \<Rightarrow> nat \<Rightarrow> nat option \<Rightarrow> verdict option option) list" where
  "format_validators crc =
     [\<lambda>d n ps. Some (jpeg_file_validator d n ps), png_file_validator crc,
      \<lambda>d n ps. Some (pdf_file_validator d n ps), \<lambda>d n ps. Some (zip_file_validator d n ps),
      \<lambda>d n ps. Some (gif_file_validator d n ps), \<lambda>d n ps. Some (mp3_file_validator d n ps),
      \<lambda>d n ps. Some (elf_file_validator d n ps)]"

end
