(* ===== verification/Formats_Contract.thy ===== *)
theory Formats_Contract
  imports Formats
begin

text \<open>
  What the format validators promise. The contract of a validator is stated by the locales
  \<open>candidate_reader\<close> and \<open>file_validator\<close> and discharged for the seven validators; the properties
  after it say when PNG, PDF and ZIP candidates validate, when the validators return, what the block
  scores count and that the registration functions attach none of them.
\<close>

unbundle bit_operations_syntax

section \<open>Reads inside the object\<close>

lemma be32_at_Some [reads]: "off + 4 \<le> length d \<Longrightarrow> be32_at d off = Some (be32 (take 4 (drop off d)))"
  by (simp add: be32_at_def sub_def)

lemma any_of_Some [reads]:
  "(\<And>p. p \<in> set pats \<Longrightarrow> i + length p \<le> length d)
   \<Longrightarrow> any_of d pats i = Some (\<exists>p \<in> set pats. mem_eq d i p)"
proof -
  assume "\<And>p. p \<in> set pats \<Longrightarrow> i + length p \<le> length d"
  then have "those (map (memcmp0 d i) pats) = Some (map (mem_eq d i) pats)"
    by (induction pats) (simp_all add: memcmp0_Some)
  then show ?thesis by (auto simp: any_of_def image_iff)
qed

lemma score_loop_exact:
  assumes "\<And>i. i \<in> set is \<Longrightarrow> hit i = Some (P i)"
  shows "score_loop hit w is (wrap32 s) = Some (wrap32 (s + w * length (filter P is)))"
  using assms
proof (induction "is" arbitrary: s)
  case (Cons i "is")
  have "wrap32 (wrap32 s + w) = wrap32 (s + w)" by (simp add: wrap32_def mod_simps)
  then show ?case using Cons.IH Cons.prems by (simp add: algebra_simps)
qed simp

lemma first_match_exact:
  "(\<And>i. i \<in> set is \<Longrightarrow> hit i = Some (P i)) \<Longrightarrow> first_match hit is = Some (List.find P is)"
  by (induction "is") auto

lemma be32_at_take [prefix_reads]: "off + 4 \<le> n \<Longrightarrow> n \<le> length d \<Longrightarrow> be32_at (take n d) off = be32_at d off"
  by (simp add: be32_at_def sub_take)

lemma any_of_take [prefix_reads]:
  "(\<And>p. p \<in> set pats \<Longrightarrow> i + length p \<le> n) \<Longrightarrow> n \<le> length d \<Longrightarrow> any_of (take n d) pats i = any_of d pats i"
proof -
  assume fits: "\<And>p. p \<in> set pats \<Longrightarrow> i + length p \<le> n" and n: "n \<le> length d"
  then have "\<And>p. p \<in> set pats \<Longrightarrow> i + length p \<le> length d" by (meson le_trans)
  with fits n show ?thesis by (simp add: any_of_Some mem_eq_take cong: bex_cong)
qed

section \<open>The loops stay inside the candidate\<close>

lemma jpeg_scan_ok:
  "n \<le> length d \<Longrightarrow> 0 < n \<Longrightarrow> \<exists>r q. jpeg_scan d n sos off = Some (r, q) \<and> (r = FILE_VALIDATION_VALIDATES \<longrightarrow> q \<le> n)"
proof (induction d n sos off rule: jpeg_scan.induct)
  case (1 d n sos off)
  show ?case
  proof (cases "off < n - 1")
    case True
    then have "off + 1 < length d" "Suc (Suc off) \<le> n" using 1 by simp_all
    then show ?thesis using 1 True
      by (subst jpeg_scan.simps) (simp add: rd_Some)
  qed (subst jpeg_scan.simps, simp)
qed

lemma jpeg_scan_take:
  "n \<le> length d \<Longrightarrow> 0 < n \<Longrightarrow> jpeg_scan (take n d) n sos off = jpeg_scan d n sos off"
proof (induction d n sos off rule: jpeg_scan.induct)
  case (1 d n sos off)
  then show ?case
    by (subst jpeg_scan.simps, subst (2) jpeg_scan.simps) (simp add: rd_Some)
qed

lemma gif_skip_ok: "n \<le> length d \<Longrightarrow> \<exists>q. gif_skip d n off = Some q"
proof (induction d n off rule: gif_skip.induct)
  case (1 d n off)
  then show ?case by (subst gif_skip.simps) (simp add: rd_Some)
qed

lemma gif_skip_take: "n \<le> length d \<Longrightarrow> gif_skip (take n d) n off = gif_skip d n off"
proof (induction d n off rule: gif_skip.induct)
  case (1 d n off)
  then show ?case by (subst gif_skip.simps, subst (2) gif_skip.simps) (simp add: rd_Some)
qed

lemma gif_scan_ok:
  "n \<le> length d \<Longrightarrow> \<exists>r q. gif_scan d n off = Some (r, q) \<and> (r = FILE_VALIDATION_VALIDATES \<longrightarrow> q \<le> n)"
proof (induction d n off rule: gif_scan.induct)
  case (1 d n off)
  obtain q1 q2 where "gif_skip d n (off + 11 + color_table (d ! (off + 9))) = Some q1" "gif_skip d n (off + 2) = Some q2"
    using gif_skip_ok 1(3) by blast
  then show ?case using 1
    by (subst gif_scan.simps) (simp add: rd_Some)
qed

lemma gif_scan_take: "n \<le> length d \<Longrightarrow> gif_scan (take n d) n off = gif_scan d n off"
proof (induction d n off rule: gif_scan.induct)
  case (1 d n off)
  obtain q1 q2 where "gif_skip d n (off + 11 + color_table (d ! (off + 9))) = Some q1" "gif_skip d n (off + 2) = Some q2"
    using gif_skip_ok 1(3) by blast
  then show ?case using 1
    by (subst gif_scan.simps, subst (2) gif_scan.simps) (simp add: rd_Some gif_skip_take)
qed

lemma mp3_scan_ok: "n \<le> length d \<Longrightarrow> \<exists>k q. mp3_scan d n frames off = Some (k, q)"
proof (induction d n frames off rule: mp3_scan.induct)
  case (1 d n frames off)
  then show ?case by (subst mp3_scan.simps) (simp add: rd_Some)
qed

lemma mp3_scan_take: "n \<le> length d \<Longrightarrow> mp3_scan (take n d) n frames off = mp3_scan d n frames off"
proof (induction d n frames off rule: mp3_scan.induct)
  case (1 d n frames off)
  then show ?case by (subst mp3_scan.simps, subst (2) mp3_scan.simps) (simp add: rd_Some)
qed

lemma wrap32_le: "wrap32 n \<le> n"
  by (simp add: wrap32_def)

text \<open>One round on a complete chunk, and where there is none.\<close>

lemma png_step_chunk:
  assumes "off + 12 \<le> n" "n \<le> length d" and len: "be32 (take 4 (drop off d)) = len" and fits: "off + 12 + len \<le> n"
  shows "png_step crc d n ps has off =
    (let ty = take 4 (drop (off + 4) d) in
     if wrap32 (crc (take (wrap32 (len + 4)) (drop (off + 4) d))) \<noteq> be32 (take 4 (drop (off + 8 + len) d))
     then Inl (Some (FILE_VALIDATION_INVALID, ps))
     else if ty = bytes_of ''IHDR''
     then (if off \<noteq> 8 \<or> len \<noteq> 13 then Inl (Some (FILE_VALIDATION_INVALID, ps))
           else Inr (True, off + wrap32 (12 + len)))
     else if ty = bytes_of ''IEND''
     then Inl (Some (if has then FILE_VALIDATION_VALIDATES else FILE_VALIDATION_INVALID, set_parsed ps (off + 12)))
     else Inr (has, off + wrap32 (12 + len)))"
proof -
  have "off + 4 + wrap32 (len + 4) \<le> length d" using wrap32_le [of "len + 4"] fits assms(2) by linarith
  then show ?thesis using assms
    by (simp add: png_step_def be32_at_Some sub_Some Let_def)
qed

lemma png_step_short:
  assumes "n < off + 12 \<or> (n \<le> length d \<and> n < off + 12 + be32 (take 4 (drop off d)))"
  shows "png_step crc d n ps has off =
    Inl (Some (if has then FILE_VALIDATION_PROMISING else FILE_VALIDATION_INVALID, set_parsed ps off))"
  using assms by (auto simp: png_step_def be32_at_Some Let_def)

lemma png_step_cases:
  assumes "n \<le> length d"
  obtains "n < off + 12 \<or> (n \<le> length d \<and> n < off + 12 + be32 (take 4 (drop off d)))"
    | "off + 12 \<le> n" "off + 12 + be32 (take 4 (drop off d)) \<le> n"
  using assms by linarith

lemma png_step_stops:
  assumes "png_step crc d n ps has off = Inl r" "n \<le> length d"
  shows "\<exists>v q. r = Some (v, q) \<and> (v = FILE_VALIDATION_VALIDATES \<longrightarrow> (\<exists>m \<le> n. q = set_parsed ps m))"
proof (cases rule: png_step_cases [OF assms(2), of off, case_names short chunk])
  case short
  then show ?thesis using assms(1) unfolding png_step_short [OF short] by auto
next
  case chunk
  then have "\<exists>m \<le> n. set_parsed ps (off + 12) = set_parsed ps m" by blast
  then show ?thesis using assms(1)
    unfolding png_step_chunk [OF chunk(1) assms(2) refl chunk(2)] Let_def
    by (auto split: if_splits)
qed

lemma png_step_advances:
  assumes "png_step crc d n ps has off = Inr nxt" "n \<le> length d" "n < 2 ^ 32"
  shows "off + 12 \<le> snd nxt \<and> snd nxt \<le> n"
proof (cases rule: png_step_cases [OF assms(2), of off, case_names short chunk])
  case short
  then show ?thesis using assms(1) unfolding png_step_short [OF short] by auto
next
  case chunk
  then have "wrap32 (12 + be32 (take 4 (drop off d))) = 12 + be32 (take 4 (drop off d))"
    using assms(3) by simp
  then show ?thesis using assms(1) chunk(2)
    unfolding png_step_chunk [OF chunk(1) assms(2) refl chunk(2)] Let_def
    by (auto split: if_splits)
qed

lemma png_step_take: "n \<le> length d \<Longrightarrow> png_step crc (take n d) n ps has off = png_step crc d n ps has off"
proof -
  assume n: "n \<le> length d"
  show ?thesis
  proof (cases rule: png_step_cases [OF n, of off, case_names short chunk])
    case short
    have "n < off + 12 \<or> take 4 (drop off (take n d)) = take 4 (drop off d)"
      by (cases "n < off + 12") (simp_all add: drop_take min_def)
    with short n show ?thesis by (subst png_step_short, force, subst png_step_short, simp_all)
  next
    case chunk
    then have "off + 4 + wrap32 (be32 (take 4 (drop off d)) + 4) \<le> n"
      using wrap32_le [of "be32 (take 4 (drop off d)) + 4"] by linarith
    moreover have "be32_at d off = Some (be32 (take 4 (drop off d)))"
      using chunk(1) n by (intro be32_at_Some) linarith
    ultimately show ?thesis using chunk n
      by (simp add: png_step_def be32_at_take sub_take Let_def)
  qed
qed

lemma png_scan_ok:
  assumes run: "png_scan crc d n ps has off = Some r" and n: "n \<le> length d"
  shows "\<exists>v q. r = Some (v, q) \<and> (v = FILE_VALIDATION_VALIDATES \<longrightarrow> (\<exists>m \<le> n. q = set_parsed ps m))"
proof -
  let ?P = "\<lambda>crc d n ps has off r. n \<le> length d \<longrightarrow>
    (\<exists>v q. r = Some (v, q) \<and> (v = FILE_VALIDATION_VALIDATES \<longrightarrow> (\<exists>m \<le> n. q = set_parsed ps m)))"
  have "?P crc d n ps has off r"
    by (rule png_scan.raw_induct [where P = ?P, OF _ run]) (auto split: sum.splits dest!: png_step_stops)
  with n show ?thesis by blast
qed

lemma png_scan_total:
  assumes "n < 2 ^ 32" "n \<le> length d"
  shows "png_scan crc d n ps has off \<noteq> None"
proof (induction "n - off" arbitrary: off has rule: less_induct)
  case less
  show ?case
  proof (cases "png_step crc d n ps has off")
    case (Inr nxt)
    have adv: "off + 12 \<le> snd nxt \<and> snd nxt \<le> n" by (rule png_step_advances [OF Inr assms(2,1)])
    then have "n - snd nxt < n - off" by linarith
    with less [of "snd nxt" "fst nxt"] have "png_scan crc d n ps (fst nxt) (snd nxt) \<noteq> None" by simp
    with Inr show ?thesis by (subst png_scan.simps) simp
  qed (subst png_scan.simps, simp)
qed

lemma png_scan_transfer:
  assumes run: "png_scan crc d n ps has off = Some r" and "\<And>has off. png_step crc d' n ps has off = png_step crc d n ps has off"
  shows "png_scan crc d' n ps has off = Some r"
proof -
  let ?P = "\<lambda>crc d n ps has off r. (\<forall>has off. png_step crc d' n ps has off = png_step crc d n ps has off)
    \<longrightarrow> png_scan crc d' n ps has off = Some r"
  have "?P crc d n ps has off r"
    by (rule png_scan.raw_induct [where P = ?P, OF _ run])
      (subst png_scan.simps, auto split: sum.splits)
  with assms(2) show ?thesis by blast
qed

lemma png_scan_take: "n \<le> length d \<Longrightarrow> png_scan crc (take n d) n ps has off = png_scan crc d n ps has off"
  using png_scan_transfer [of crc d n ps has off _ "take n d"] png_scan_transfer [of crc "take n d" n ps has off _ d]
    png_step_take [of n d]
  by (metis not_Some_eq)

section \<open>The contract of a file validator\<close>

text \<open>
  What the recovery engine relies on: a validator of a candidate of \<open>n\<close> bytes reads nothing beyond them,
  whatever follows in memory, and the length of a file it validates lies within them.
\<close>

locale candidate_reader =
  fixes validate :: "byte list option \<Rightarrow> nat \<Rightarrow> nat option \<Rightarrow> verdict option option"
  assumes null_candidate: "validate None n ps = Some (Some (FILE_VALIDATION_INVALID, ps))"
    and in_bounds: "n \<le> length d \<Longrightarrow> validate (Some d) n ps \<noteq> Some None"
    and window: "n \<le> length d \<Longrightarrow> validate (Some (take n d)) n ps = validate (Some d) n ps"
begin

lemma trailing_data: "validate (Some (d @ x)) (length d) ps = validate (Some d) (length d) ps"
  using window [of "length d" "d @ x" ps] by simp

lemma reads_only_candidate:
  "n \<le> length d \<Longrightarrow> validate (Some d) n ps \<noteq> Some None \<and> validate (Some (take n d)) n ps = validate (Some d) n ps"
  using in_bounds window by blast

end

locale file_validator = candidate_reader +
  assumes validated: "n \<le> length d \<Longrightarrow> validate (Some d) n ps = Some (Some (FILE_VALIDATION_VALIDATES, q))
      \<Longrightarrow> \<exists>m \<le> n. q = set_parsed ps m"
begin

lemma validated_length:
  "n \<le> length d \<Longrightarrow> validate (Some d) n (Some p) = Some (Some (FILE_VALIDATION_VALIDATES, q)) \<Longrightarrow> \<exists>m \<le> n. q = Some m"
  using validated [of n d "Some p" q] by (simp add: set_parsed_def)

end

lemma magic_lengths:
  "length (bytes_of ''GIF87a'') = 6" "length (bytes_of ''GIF89a'') = 6" "length PNG_MAGIC = 8"
  "length ZIP_LOCAL_HEADER = 4" "length ZIP_EOCD = 4" "length ELF_MAGIC = 4" "length (bytes_of ''%PDF-'') = 5"
  "length (bytes_of ''%%EOF'') = 5" "length (bytes_of ''ID3'') = 3"
  by (simp_all add: PNG_MAGIC_def ZIP_LOCAL_HEADER_def ZIP_EOCD_def ELF_MAGIC_def)

text \<open>What each validator computes on a candidate that lies inside its object.\<close>

lemma jpeg_eval:
  assumes "4 \<le> n" "n \<le> length d"
  shows "jpeg_file_validator (Some d) n ps =
    (if d ! 0 \<noteq> 0xFF \<or> d ! 1 \<noteq> 0xD8 then Some (FILE_VALIDATION_INVALID, ps)
     else map_option (\<lambda>(r, m). (r, set_parsed ps m)) (jpeg_scan d n False 2))"
proof -
  have "rd d 0 = Some (d ! 0)" "rd d 1 = Some (d ! 1)" using assms by (auto simp: rd_def)
  with assms show ?thesis by (simp add: jpeg_file_validator_def)
qed

lemma gif_magic_eval:
  "6 \<le> length d \<Longrightarrow> gif_magic d = Some (mem_eq d 0 (bytes_of ''GIF87a'') \<or> mem_eq d 0 (bytes_of ''GIF89a''))"
  unfolding gif_magic_def by (subst any_of_Some) auto

lemma gif_eval:
  assumes "14 \<le> n" "n \<le> length d"
  shows "gif_file_validator (Some d) n ps =
    (if \<not> (mem_eq d 0 (bytes_of ''GIF87a'') \<or> mem_eq d 0 (bytes_of ''GIF89a'')) then Some (FILE_VALIDATION_INVALID, ps)
     else map_option (\<lambda>(r, m). (r, set_parsed ps m)) (gif_scan d n (13 + color_table (d ! 10))))"
  using assms by (simp add: gif_file_validator_def gif_magic_eval rd_Some)

lemma png_eval:
  assumes "8 \<le> n" "n \<le> length d"
  shows "png_file_validator crc (Some d) n ps =
    (if \<not> mem_eq d 0 PNG_MAGIC then Some (Some (FILE_VALIDATION_INVALID, ps)) else png_scan crc d n ps False 8)"
  using assms memcmp0_Some [of 0 PNG_MAGIC d] by (simp add: png_file_validator_def magic_lengths)

lemma pdf_eval:
  assumes "5 \<le> n" "n \<le> length d"
  shows "pdf_file_validator (Some d) n ps =
    Some (if \<not> mem_eq d 0 (bytes_of ''%PDF-'') then (FILE_VALIDATION_INVALID, ps)
          else case List.find (\<lambda>i. mem_eq d i (bytes_of ''%%EOF'')) [n - 1024..<n - 4] of
                 Some i \<Rightarrow> (FILE_VALIDATION_VALIDATES, set_parsed ps (i + 5))
               | None \<Rightarrow> (FILE_VALIDATION_PROMISING, set_parsed ps n))"
proof -
  have "first_match (\<lambda>i. memcmp0 d i (bytes_of ''%%EOF'')) [n - 1024..<n - 4]
      = Some (List.find (\<lambda>i. mem_eq d i (bytes_of ''%%EOF'')) [n - 1024..<n - 4])"
    using assms by (intro first_match_exact) (auto simp: memcmp0_def)
  moreover have "(if n > 1024 then n - 1024 else 0) = n - 1024" by simp
  ultimately show ?thesis using assms memcmp0_Some [of 0 "bytes_of ''%PDF-''" d]
    by (simp add: pdf_file_validator_def)
qed

lemma zip_eval:
  assumes "22 \<le> n" "n \<le> length d"
  shows "zip_file_validator (Some d) n ps =
    Some (if \<not> mem_eq d 0 ZIP_LOCAL_HEADER then (FILE_VALIDATION_INVALID, ps)
          else (if List.find (\<lambda>i. mem_eq d i ZIP_EOCD) (rev [n - 65558..<n - 21]) = None
                then FILE_VALIDATION_PROMISING else FILE_VALIDATION_VALIDATES, set_parsed ps n))"
proof -
  have "first_match (\<lambda>i. memcmp0 d i ZIP_EOCD) (rev [n - 65558..<n - 21])
      = Some (List.find (\<lambda>i. mem_eq d i ZIP_EOCD) (rev [n - 65558..<n - 21]))"
    using assms by (intro first_match_exact) (auto simp: memcmp0_def magic_lengths)
  moreover have "(if n > 65536 + 22 then n - 65536 - 22 else 0) = n - 65558" "n - 22 + 1 = n - 21" using assms by auto
  ultimately show ?thesis using assms memcmp0_Some [of 0 ZIP_LOCAL_HEADER d]
    unfolding zip_file_validator_def by (simp add: magic_lengths split: option.split)
qed

lemma elf_eval:
  assumes "52 \<le> n" "n \<le> length d"
  shows "elf_file_validator (Some d) n ps =
    Some (if mem_eq d 0 ELF_MAGIC \<and> d ! 4 \<in> {1, 2} \<and> d ! 5 \<in> {1, 2} then (FILE_VALIDATION_VALIDATES, set_parsed ps n)
          else (FILE_VALIDATION_INVALID, ps))"
  using assms memcmp0_Some [of 0 ELF_MAGIC d] by (auto simp: elf_file_validator_def magic_lengths rd_def)

definition mp3_start :: "byte list \<Rightarrow> nat" where
  "mp3_start d = (if mem_eq d 0 (bytes_of ''ID3'') then 10 + id3_size (d ! 6) (d ! 7) (d ! 8) (d ! 9) else 0)"

lemma mp3_eval:
  assumes "10 \<le> n" "n \<le> length d"
  shows "mp3_file_validator (Some d) n ps =
    map_option (\<lambda>(k, m). (if k \<ge> 3 then FILE_VALIDATION_VALIDATES else FILE_VALIDATION_PROMISING, set_parsed ps m))
      (mp3_scan d n 0 (mp3_start d))"
  using assms memcmp0_Some [of 0 "bytes_of ''ID3''" d]
  by (simp add: mp3_file_validator_def mp3_start_def sub_def)

lemma small_candidates:
  "n < 4 \<Longrightarrow> jpeg_file_validator (Some d) n ps = Some (FILE_VALIDATION_INVALID, ps)"
  "n < 14 \<Longrightarrow> gif_file_validator (Some d) n ps = Some (FILE_VALIDATION_INVALID, ps)"
  "n < 8 \<Longrightarrow> png_file_validator crc (Some d) n ps = Some (Some (FILE_VALIDATION_INVALID, ps))"
  "n < 5 \<Longrightarrow> pdf_file_validator (Some d) n ps = Some (FILE_VALIDATION_INVALID, ps)"
  "n < 22 \<Longrightarrow> zip_file_validator (Some d) n ps = Some (FILE_VALIDATION_INVALID, ps)"
  "n < 52 \<Longrightarrow> elf_file_validator (Some d) n ps = Some (FILE_VALIDATION_INVALID, ps)"
  "n < 10 \<Longrightarrow> mp3_file_validator (Some d) n ps = Some (FILE_VALIDATION_INVALID, ps)"
  by (simp_all add: jpeg_file_validator_def gif_file_validator_def png_file_validator_def pdf_file_validator_def
      zip_file_validator_def elf_file_validator_def mp3_file_validator_def)

lemmas validator_evals = small_candidates jpeg_eval gif_eval png_eval pdf_eval zip_eval elf_eval mp3_eval

interpretation jpeg: file_validator "\<lambda>d n ps. Some (jpeg_file_validator d n ps)"
proof (unfold_locales, goal_cases)
  case (2 n d ps)
  then show ?case using jpeg_scan_ok [of n d False 2]
    by (cases "n < 4") (auto simp: validator_evals)
next
  case (3 n d ps)
  then show ?case by (cases "n < 4") (simp_all add: validator_evals jpeg_scan_take)
next
  case (4 n d ps q)
  then show ?case using jpeg_scan_ok [of n d False 2]
    by (cases "n < 4") (auto simp: validator_evals split: if_splits)
qed (simp add: jpeg_file_validator_def)

interpretation gif: file_validator "\<lambda>d n ps. Some (gif_file_validator d n ps)"
proof (unfold_locales, goal_cases)
  case (2 n d ps)
  then show ?case using gif_scan_ok [of n d "13 + color_table (d ! 10)"]
    by (cases "n < 14") (auto simp: validator_evals)
next
  case (3 n d ps)
  then show ?case
    by (cases "n < 14") (simp_all add: validator_evals gif_scan_take mem_eq_take)
next
  case (4 n d ps q)
  then show ?case using gif_scan_ok [of n d "13 + color_table (d ! 10)"]
    by (cases "n < 14") (auto simp: validator_evals split: if_splits)
qed (simp add: gif_file_validator_def)

interpretation png: file_validator "png_file_validator crc" for crc
proof (unfold_locales, goal_cases)
  case (2 n d ps)
  then show ?case using png_scan_ok [of crc d n ps False 8]
    by (cases "n < 8") (auto simp: validator_evals)
next
  case (3 n d ps)
  then show ?case
    by (cases "n < 8") (simp_all add: validator_evals png_scan_take mem_eq_take magic_lengths)
next
  case (4 n d ps q)
  then show ?case using png_scan_ok [of crc d n ps False 8]
    by (cases "n < 8") (auto simp: validator_evals split: if_splits)
qed (simp add: png_file_validator_def)

lemma find_Some_in: "List.find P xs = Some x \<Longrightarrow> x \<in> set xs \<and> P x"
  by (auto simp: find_Some_iff)

lemma find_mem_eq_take:
  assumes "n \<le> length d" "\<forall>i \<in> set is. i + length p \<le> n"
  shows "List.find (\<lambda>i. mem_eq (take n d) i p) is = List.find (\<lambda>i. mem_eq d i p) is"
  using assms by (intro find_cong) (simp_all add: mem_eq_take)

interpretation pdf: file_validator "\<lambda>d n ps. Some (pdf_file_validator d n ps)"
proof (unfold_locales, goal_cases)
  case (2 n d ps)
  then show ?case by (cases "n < 5") (simp_all add: validator_evals)
next
  case (3 n d ps)
  have "5 \<le> n \<Longrightarrow> List.find (\<lambda>i. mem_eq (take n d) i (bytes_of ''%%EOF'')) [n - 1024..<n - 4]
      = List.find (\<lambda>i. mem_eq d i (bytes_of ''%%EOF'')) [n - 1024..<n - 4]"
    using 3 by (intro find_mem_eq_take) auto
  with 3 show ?case
    by (cases "n < 5") (simp_all add: validator_evals mem_eq_take)
next
  case (4 n d ps q)
  then show ?case
    by (cases "n < 5")
      (auto simp: validator_evals split: if_splits option.splits dest!: find_Some_in intro!: exI [of _ "_ + 5"])
qed (simp add: pdf_file_validator_def)

interpretation zip: file_validator "\<lambda>d n ps. Some (zip_file_validator d n ps)"
proof (unfold_locales, goal_cases)
  case (2 n d ps)
  then show ?case by (cases "n < 22") (simp_all add: validator_evals)
next
  case (3 n d ps)
  have "22 \<le> n \<Longrightarrow> List.find (\<lambda>i. mem_eq (take n d) i ZIP_EOCD) (rev [n - 65558..<n - 21])
      = List.find (\<lambda>i. mem_eq d i ZIP_EOCD) (rev [n - 65558..<n - 21])"
    using 3 by (intro find_mem_eq_take) (auto simp: magic_lengths)
  with 3 show ?case
    by (cases "n < 22") (simp_all add: validator_evals mem_eq_take magic_lengths)
next
  case (4 n d ps q)
  then show ?case
    by (cases "n < 22") (auto simp: validator_evals split: if_splits)
qed (simp add: zip_file_validator_def)

interpretation elf: file_validator "\<lambda>d n ps. Some (elf_file_validator d n ps)"
proof (unfold_locales, goal_cases)
  case (2 n d ps)
  then show ?case by (cases "n < 52") (simp_all add: validator_evals)
next
  case (3 n d ps)
  then show ?case
    by (cases "n < 52") (simp_all add: validator_evals mem_eq_take magic_lengths)
next
  case (4 n d ps q)
  then show ?case by (cases "n < 52") (auto simp: validator_evals split: if_splits)
qed (simp add: elf_file_validator_def)

interpretation mp3: candidate_reader "\<lambda>d n ps. Some (mp3_file_validator d n ps)"
proof (unfold_locales, goal_cases)
  case (2 n d ps)
  then show ?case using mp3_scan_ok [of n d 0 "mp3_start d"]
    by (cases "n < 10") (auto simp: validator_evals)
next
  case (3 n d ps)
  have "10 \<le> n \<Longrightarrow> mp3_start (take n d) = mp3_start d" using 3 by (simp add: mp3_start_def mem_eq_take)
  with 3 show ?case by (cases "n < 10") (simp_all add: validator_evals mp3_scan_take)
qed (simp add: mp3_file_validator_def)

section \<open>Properties\<close>

text \<open>
  C29. No file validator reads outside the candidate it is given: on every object of at least \<open>n\<close> bytes the
  seven validators make no access beyond the first \<open>n\<close>, and their verdict depends on those bytes alone.
\<close>

theorem validators_read_candidate_only:
  assumes "validate \<in> set (format_validators crc)" "n \<le> length d"
  shows "validate (Some d) n ps \<noteq> Some None \<and> validate (Some (take n d)) n ps = validate (Some d) n ps"
  using assms(1) unfolding format_validators_def list.set insert_iff empty_iff
  by (elim disjE FalseE)
    (simp_all only: jpeg.reads_only_candidate [OF assms(2)] png.reads_only_candidate [OF assms(2)]
      pdf.reads_only_candidate [OF assms(2)] zip.reads_only_candidate [OF assms(2)] gif.reads_only_candidate [OF assms(2)]
      mp3.reads_only_candidate [OF assms(2)] elf.reads_only_candidate [OF assms(2)] not_False_eq_True simp_thms)

lemma mp3_scan_bound:
  "mp3_scan d n k off = Some (k', q) \<Longrightarrow> k \<le> k' \<and> (k < k' \<longrightarrow> q \<le> n + 410) \<and> (k = k' \<longrightarrow> q = off)"
proof (induction d n k off rule: mp3_scan.induct)
  case (1 d n k off)
  from "1.prems" show ?case
  proof (subst (asm) mp3_scan.simps, goal_cases)
    case 1
    then show ?case using "1.IH" by (fastforce split: if_splits bind_splits)
  qed
qed

text \<open>
  The length of a validated file lies inside the candidate, for every format but MP3: there frames
  are stepped over at a fixed 414 bytes, and the reported length can pass the end by up to 410 bytes.
\<close>

theorem validated_length_bounds:
  assumes "validate \<in> set (format_validators crc)" "n \<le> length d"
    and "validate (Some d) n (Some p) = Some (Some (FILE_VALIDATION_VALIDATES, Some q))"
  shows "q \<le> n + 410
    \<and> (mp3_file_validator (Some d) n (Some p) \<noteq> Some (FILE_VALIDATION_VALIDATES, Some q) \<longrightarrow> q \<le> n)"
proof -
  consider "mp3_file_validator (Some d) n (Some p) = Some (FILE_VALIDATION_VALIDATES, Some q)" | "q \<le> n"
    using assms(1,3) jpeg.validated_length [OF assms(2)] png.validated_length [OF assms(2)]
      pdf.validated_length [OF assms(2)] zip.validated_length [OF assms(2)] gif.validated_length [OF assms(2)]
      elf.validated_length [OF assms(2)]
    unfolding format_validators_def by fastforce
  then show ?thesis
  proof cases
    case 1
    then show ?thesis using assms(2) mp3_scan_bound [of d n 0 "mp3_start d"]
      by (cases "n < 10") (fastforce simp: validator_evals set_parsed_def)+
  qed simp
qed

section \<open>PNG files\<close>

definition be32_bytes :: "nat \<Rightarrow> byte list" where
  "be32_bytes n = [word_of_nat (n div 2 ^ 24), word_of_nat (n div 2 ^ 16), word_of_nat (n div 2 ^ 8), word_of_nat n]"

lemma length_be32_bytes [simp]: "length (be32_bytes n) = 4"
  by (simp add: be32_bytes_def)

lemma be32_be32_bytes: "be32 (be32_bytes n) = wrap32 n"
proof -
  have "n mod 2 ^ 32 = (n div 2 ^ 24) mod 256 * 2 ^ 24 + n mod 2 ^ 24"
    using mod_mult2_eq [of n "2 ^ 24" 256] by (simp add: mult.commute)
  moreover have "n mod 2 ^ 24 = (n div 2 ^ 16) mod 256 * 2 ^ 16 + n mod 2 ^ 16"
    using mod_mult2_eq [of n "2 ^ 16" 256] by (simp add: mult.commute)
  moreover have "n mod 2 ^ 16 = (n div 2 ^ 8) mod 256 * 2 ^ 8 + n mod 2 ^ 8"
    using mod_mult2_eq [of n "2 ^ 8" 256] by (simp add: mult.commute)
  ultimately show ?thesis
    by (simp add: be32_def be32_bytes_def wrap32_def unsigned_of_nat take_bit_eq_mod)
qed

text \<open>A chunk with any stored checksum, and with the right one.\<close>

definition png_raw_chunk :: "nat \<Rightarrow> byte list \<Rightarrow> byte list \<Rightarrow> byte list" where
  "png_raw_chunk checksum ty data = be32_bytes (length data) @ ty @ data @ be32_bytes checksum"

definition png_chunk :: "(byte list \<Rightarrow> nat) \<Rightarrow> byte list \<Rightarrow> byte list \<Rightarrow> byte list" where
  "png_chunk crc ty data = png_raw_chunk (crc (ty @ data)) ty data"

lemma length_png_raw_chunk [simp]: "length (png_raw_chunk c ty data) = 8 + length ty + length data"
  by (simp add: png_raw_chunk_def)

lemma png_step_raw:
  assumes d: "d = pre @ png_raw_chunk c ty data @ rest" and ty: "length ty = 4"
    and n: "length pre + 12 + length data \<le> n" "n \<le> length d" "n < 2 ^ 32"
  shows "png_step crc d n ps has (length pre) =
    (if wrap32 (crc (ty @ data)) \<noteq> wrap32 c then Inl (Some (FILE_VALIDATION_INVALID, ps))
     else if ty = bytes_of ''IHDR''
     then (if length pre \<noteq> 8 \<or> length data \<noteq> 13 then Inl (Some (FILE_VALIDATION_INVALID, ps))
           else Inr (True, length pre + 12 + length data))
     else if ty = bytes_of ''IEND''
     then Inl (Some (if has then FILE_VALIDATION_VALIDATES else FILE_VALIDATION_INVALID, set_parsed ps (length pre + 12)))
     else Inr (has, length pre + 12 + length data))"
proof -
  have len: "be32 (take 4 (drop (length pre) d)) = length data"
    using n by (simp add: d png_raw_chunk_def be32_be32_bytes)
  have ty_at: "take 4 (drop (length pre + 4) d) = ty" using ty by (simp add: d png_raw_chunk_def)
  have body: "take (wrap32 (length data + 4)) (drop (length pre + 4) d) = ty @ data"
    using ty n by (simp add: d png_raw_chunk_def)
  have crc_at: "be32 (take 4 (drop (length pre + 8 + length data) d)) = wrap32 c"
    using ty by (simp add: d png_raw_chunk_def be32_be32_bytes)
  have "wrap32 (12 + length data) = 12 + length data" using n by simp
  then show ?thesis
    using png_step_chunk [of "length pre" n d "length data" crc ps has] len ty_at body crc_at n
    by (simp add: Let_def add.assoc)
qed

text \<open>A run of chunks that are neither \<open>IHDR\<close> nor \<open>IEND\<close>.\<close>

definition plain_chunk :: "byte list \<times> byte list \<Rightarrow> bool" where
  "plain_chunk c \<longleftrightarrow> length (fst c) = 4 \<and> fst c \<noteq> bytes_of ''IHDR'' \<and> fst c \<noteq> bytes_of ''IEND''"

definition png_chunks :: "(byte list \<Rightarrow> nat) \<Rightarrow> (byte list \<times> byte list) list \<Rightarrow> byte list" where
  "png_chunks crc cs = concat (map (\<lambda>(ty, data). png_chunk crc ty data) cs)"

lemma png_scan_plain:
  assumes "\<forall>c \<in> set cs. plain_chunk c" "d = pre @ png_chunks crc cs @ rest"
    and "length pre + length (png_chunks crc cs) \<le> n" "n \<le> length d" "n < 2 ^ 32"
  shows "png_scan crc d n ps has (length pre) = png_scan crc d n ps has (length pre + length (png_chunks crc cs))"
  using assms
proof (induction cs arbitrary: pre)
  case Nil
  then show ?case by (simp add: png_chunks_def)
next
  case (Cons c cs)
  obtain ty data where c: "c = (ty, data)" by force
  have ty: "length ty = 4" "ty \<noteq> bytes_of ''IHDR''" "ty \<noteq> bytes_of ''IEND''"
    using Cons.prems(1) by (auto simp: c plain_chunk_def)
  have split: "png_chunks crc (c # cs) = png_chunk crc ty data @ png_chunks crc cs" by (simp add: png_chunks_def c)
  have len: "length (png_chunk crc ty data) = 12 + length data" using ty by (simp add: png_chunk_def)
  have d: "d = pre @ png_raw_chunk (crc (ty @ data)) ty data @ (png_chunks crc cs @ rest)"
    using Cons.prems(2) by (simp add: split png_chunk_def)
  have "length pre + 12 + length data \<le> n" using Cons.prems(3) len by (simp add: split)
  from png_step_raw [OF d ty(1) this Cons.prems(4,5), of crc ps has] ty
  have "png_step crc d n ps has (length pre) = Inr (has, length pre + 12 + length data)" by simp
  then have "png_scan crc d n ps has (length pre)
      = png_scan crc d n ps has (length (pre @ png_chunk crc ty data))"
    by (subst png_scan.simps) (simp add: len add.assoc)
  also have "\<dots> = png_scan crc d n ps has (length (pre @ png_chunk crc ty data) + length (png_chunks crc cs))"
    using Cons.prems len unfolding split by (intro Cons.IH) simp_all
  finally show ?case using len by (simp add: split add.assoc)
qed

definition png_head :: "(byte list \<Rightarrow> nat) \<Rightarrow> byte list \<Rightarrow> (byte list \<times> byte list) list \<Rightarrow> byte list" where
  "png_head crc header cs = PNG_MAGIC @ png_chunk crc (bytes_of ''IHDR'') header @ png_chunks crc cs"

lemma png_scan_head:
  assumes "length header = 13" "\<forall>c \<in> set cs. plain_chunk c" "d = png_head crc header cs @ rest"
    and n: "length (png_head crc header cs) \<le> n" "n \<le> length d" "n < 2 ^ 32"
  shows "png_file_validator crc (Some d) n ps = png_scan crc d n ps True (length (png_head crc header cs))"
proof -
  have d: "d = PNG_MAGIC @ png_raw_chunk (crc (bytes_of ''IHDR'' @ header)) (bytes_of ''IHDR'') header @ png_chunks crc cs @ rest"
    by (simp add: assms(3) png_head_def png_chunk_def)
  have len: "length (png_head crc header cs) = 33 + length (png_chunks crc cs)"
    using assms(1) by (simp add: png_head_def png_chunk_def magic_lengths)
  have magic: "mem_eq d 0 PNG_MAGIC" by (simp add: d mem_eq_def)
  have "png_step crc d n ps False (length PNG_MAGIC) = Inr (True, 33)"
    using n assms(1) len by (subst png_step_raw [OF d]) (simp_all add: magic_lengths)
  then have "png_scan crc d n ps False 8 = png_scan crc d n ps True 33"
    by (subst png_scan.simps) (simp add: magic_lengths)
  also have "\<dots> = png_scan crc d n ps True (33 + length (png_chunks crc cs))"
  proof -
    let ?pre = "PNG_MAGIC @ png_chunk crc (bytes_of ''IHDR'') header"
    have pre: "length ?pre = 33" using assms(1) by (simp add: png_chunk_def magic_lengths)
    have "d = ?pre @ png_chunks crc cs @ rest" by (simp add: assms(3) png_head_def)
    from png_scan_plain [OF assms(2) this _ n(2,3), of ps True] n(1) len pre show ?thesis by simp
  qed
  finally show ?thesis using n len by (subst png_eval) (simp_all add: magic)
qed

text \<open>
  C31. A well-formed PNG file is recognised and measured exactly: signature, an \<open>IHDR\<close> chunk of 13 bytes,
  any other chunks and an empty \<open>IEND\<close>, each with its checksum, validate with the length of the file,
  whatever follows it in the object.
\<close>

theorem png_accepts_encoded:
  assumes "length header = 13" "\<forall>c \<in> set cs. plain_chunk c"
    and "n = length (png_head crc header cs) + 12" "n < 2 ^ 32"
  shows "png_file_validator crc
      (Some (png_head crc header cs @ png_chunk crc (bytes_of ''IEND'') [] @ rest)) n (Some p)
    = Some (Some (FILE_VALIDATION_VALIDATES, Some n))"
proof -
  let ?d = "png_head crc header cs @ png_raw_chunk (crc (bytes_of ''IEND'' @ [])) (bytes_of ''IEND'') [] @ rest"
  have "png_step crc ?d n (Some p) True (length (png_head crc header cs)) = Inl (Some (FILE_VALIDATION_VALIDATES, Some n))"
    using png_step_raw [OF refl, of "bytes_of ''IEND''" "png_head crc header cs" "[]" n _ rest crc "Some p" True] assms(3,4)
    by (simp add: bytes_of_def set_parsed_def)
  then have "png_scan crc ?d n (Some p) True (length (png_head crc header cs)) = Some (Some (FILE_VALIDATION_VALIDATES, Some n))"
    by (subst png_scan.simps) simp
  then show ?thesis using assms png_scan_head [OF assms(1,2) refl, of crc n _ "Some p"]
    by (simp add: png_chunk_def)
qed

text \<open>
  C32. One chunk whose stored checksum is not that of its type and data makes a PNG candidate invalid,
  wherever it comes after the header, and \<open>parsed_size\<close> is left alone.
\<close>

theorem png_rejects_bad_checksum:
  assumes "length header = 13" "\<forall>c \<in> set cs. plain_chunk c" "length ty = 4"
    and "length (png_head crc header cs) + 12 + length data \<le> n" "n < 2 ^ 32"
    and "n \<le> length (png_head crc header cs @ png_raw_chunk bad ty data @ rest)"
    and "wrap32 (crc (ty @ data)) \<noteq> wrap32 bad"
  shows "png_file_validator crc (Some (png_head crc header cs @ png_raw_chunk bad ty data @ rest)) n (Some p)
    = Some (Some (FILE_VALIDATION_INVALID, Some p))"
proof -
  let ?d = "png_head crc header cs @ png_raw_chunk bad ty data @ rest"
  have "png_step crc ?d n (Some p) True (length (png_head crc header cs)) = Inl (Some (FILE_VALIDATION_INVALID, Some p))"
    using png_step_raw [OF refl assms(3,4,6,5), of crc "Some p" True] assms(7) by simp
  then have "png_scan crc ?d n (Some p) True (length (png_head crc header cs)) = Some (Some (FILE_VALIDATION_INVALID, Some p))"
    by (subst png_scan.simps) simp
  then show ?thesis using assms png_scan_head [OF assms(1,2) refl, of crc n _ "Some p"] by simp
qed

section \<open>Whether the validators return\<close>

text \<open>
  C30. Every file validator returns a verdict on a candidate of fewer than 2^32 bytes.
\<close>

theorem validators_return:
  assumes "validate \<in> set (format_validators crc)" "n \<le> length d" "n < 2 ^ 32"
  shows "\<exists>verdict. validate (Some d) n ps = Some (Some verdict)"
proof -
  have png: "png_file_validator crc (Some d) n ps \<noteq> None"
    using png_scan_total [OF assms(3,2), of crc ps False 8] assms(2)
    by (cases "n < 8") (simp_all add: small_candidates png_eval)
  have "validate (Some d) n ps \<noteq> None"
    using assms(1) png unfolding format_validators_def list.set insert_iff empty_iff by (elim disjE FalseE) simp_all
  moreover have "validate (Some d) n ps \<noteq> Some None"
    using assms(1) jpeg.in_bounds [OF assms(2)] png.in_bounds [OF assms(2)] pdf.in_bounds [OF assms(2)]
      zip.in_bounds [OF assms(2)] gif.in_bounds [OF assms(2)] mp3.in_bounds [OF assms(2)] elf.in_bounds [OF assms(2)]
    unfolding format_validators_def list.set insert_iff empty_iff by (elim disjE FalseE) (simp_all only: not_False_eq_True)
  ultimately show ?thesis by (cases "validate (Some d) n ps") auto
qed

lemma png_scan_stuck:
  assumes "\<And>has. png_step crc d n ps has off = Inr (has, off)"
  shows "png_scan crc d n ps has off = None"
proof (rule ccontr)
  assume "png_scan crc d n ps has off \<noteq> None"
  then obtain r where run: "png_scan crc d n ps has off = Some r" by blast
  let ?P = "\<lambda>crc d n ps has off r. (\<forall>has. png_step crc d n ps has off = Inr (has, off)) \<longrightarrow> False"
  have "?P crc d n ps has off r"
    by (rule png_scan.raw_induct [where P = ?P, OF _ run]) fastforce
  with assms show False by blast
qed

text \<open>
  The bound is sharp: the addition \<open>12 + length\<close> is done in 32 bits, so a PNG candidate of more than
  4 GiB whose first chunk announces 2^32 - 12 bytes, with a matching checksum, keeps the chunk loop at the
  same offset for ever.
\<close>

theorem png_validator_hangs:
  assumes "mem_eq d 0 PNG_MAGIC" "be32 (take 4 (drop 8 d)) = 2 ^ 32 - 12" "8 + 2 ^ 32 \<le> length d"
    and "wrap32 (crc (take (2 ^ 32 - 8) (drop 12 d))) = be32 (take 4 (drop (2 ^ 32 + 4) d))"
    and "take 4 (drop 12 d) \<noteq> bytes_of ''IHDR''" "take 4 (drop 12 d) \<noteq> bytes_of ''IEND''"
  shows "png_file_validator crc (Some d) (length d) ps = None"
proof -
  have w: "wrap32 (2 ^ 32 - 12 + 4) = 2 ^ 32 - 8" "wrap32 (12 + (2 ^ 32 - 12)) = 0" by (simp_all add: wrap32_def)
  have "png_step crc d (length d) ps has 8 = Inr (has, 8)" for has
    using png_step_chunk [of 8 "length d" d "2 ^ 32 - 12" crc ps has] assms w by (simp add: Let_def)
  then have "png_scan crc d (length d) ps False 8 = None" by (rule png_scan_stuck)
  then show ?thesis using assms(1,3) by (subst png_eval) simp_all
qed

section \<open>Trailers and scores\<close>

lemma find_upt: "List.find P [a..<b] = Some i \<longleftrightarrow> a \<le> i \<and> i < b \<and> P i \<and> (\<forall>j. a \<le> j \<and> j < i \<longrightarrow> \<not> P j)"
proof -
  have "List.find P [a..<b] = Some i \<longleftrightarrow> (\<exists>k < b - a. P (a + k) \<and> i = a + k \<and> (\<forall>j < k. \<not> P (a + j)))"
    by (auto simp: find_Some_iff)
  also have "\<dots> \<longleftrightarrow> a \<le> i \<and> i < b \<and> P i \<and> (\<forall>j. a \<le> j \<and> j < i \<longrightarrow> \<not> P j)"
  proof (intro iffI; elim exE conjE)
    fix k assume k: "k < b - a" "P (a + k)" "i = a + k" "\<forall>j < k. \<not> P (a + j)"
    then have "\<not> P j" if "a \<le> j \<and> j < i" for j using that by (metis le_Suc_ex nat_add_left_cancel_less)
    with k show "a \<le> i \<and> i < b \<and> P i \<and> (\<forall>j. a \<le> j \<and> j < i \<longrightarrow> \<not> P j)" by auto
  next
    assume "a \<le> i" "i < b" "P i" "\<forall>j. a \<le> j \<and> j < i \<longrightarrow> \<not> P j"
    then show "\<exists>k < b - a. P (a + k) \<and> i = a + k \<and> (\<forall>j < k. \<not> P (a + j))" by (intro exI [of _ "i - a"]) auto
  qed
  finally show ?thesis .
qed

lemma pdf_validates_iff:
  assumes "n \<le> length d"
  shows "pdf_file_validator (Some d) n (Some p) = Some (FILE_VALIDATION_VALIDATES, Some q)
      \<longleftrightarrow> mem_eq d 0 (bytes_of ''%PDF-'') \<and> 5 \<le> q \<and> n - 1024 \<le> q - 5 \<and> q \<le> n \<and> mem_eq d (q - 5) (bytes_of ''%%EOF'')
        \<and> (\<forall>i. n - 1024 \<le> i \<and> i < q - 5 \<longrightarrow> \<not> mem_eq d i (bytes_of ''%%EOF''))"
proof (cases "n < 5")
  case True
  then show ?thesis by (auto simp: pdf_file_validator_def)
next
  case False
  have "pdf_file_validator (Some d) n (Some p) = Some (FILE_VALIDATION_VALIDATES, Some q)
    \<longleftrightarrow> mem_eq d 0 (bytes_of ''%PDF-'') \<and> (\<exists>i. List.find (\<lambda>i. mem_eq d i (bytes_of ''%%EOF'')) [n - 1024..<n - 4] = Some i \<and> q = i + 5)"
    using assms False by (subst pdf_eval) (auto simp: set_parsed_def split: option.split)
  moreover have "(\<exists>i. (n - 1024 \<le> i \<and> i < n - 4 \<and> E i \<and> (\<forall>j. n - 1024 \<le> j \<and> j < i \<longrightarrow> \<not> E j)) \<and> q = i + 5)
    \<longleftrightarrow> 5 \<le> q \<and> n - 1024 \<le> q - 5 \<and> q \<le> n \<and> E (q - 5) \<and> (\<forall>j. n - 1024 \<le> j \<and> j < q - 5 \<longrightarrow> \<not> E j)"
    (is "?l = ?r") for E
  proof
    assume ?r
    moreover from this False have "q - 5 < n - 4" "q = q - 5 + 5" by linarith+
    ultimately show ?l by blast
  next
    assume ?l
    then obtain i where "n - 1024 \<le> i" "i < n - 4" "E i" "\<forall>j. n - 1024 \<le> j \<and> j < i \<longrightarrow> \<not> E j" "q = i + 5" by blast
    moreover from this have "q - 5 = i" "q \<le> n" by linarith+
    ultimately show ?r by simp
  qed
  ultimately show ?thesis unfolding find_upt by (simp only:)
qed

lemma zip_validates_iff:
  assumes "n \<le> length d"
  shows "zip_file_validator (Some d) n (Some p) = Some (FILE_VALIDATION_VALIDATES, Some q)
      \<longleftrightarrow> mem_eq d 0 ZIP_LOCAL_HEADER \<and> q = n \<and> (\<exists>i. n - 65558 \<le> i \<and> i + 22 \<le> n \<and> mem_eq d i ZIP_EOCD)"
proof (cases "n < 22")
  case True
  then show ?thesis by (auto simp: zip_file_validator_def)
next
  case False
  have "zip_file_validator (Some d) n (Some p) = Some (FILE_VALIDATION_VALIDATES, Some q)
    \<longleftrightarrow> mem_eq d 0 ZIP_LOCAL_HEADER \<and> q = n \<and> (\<exists>i \<in> set [n - 65558..<n - 21]. mem_eq d i ZIP_EOCD)"
    using assms False by (subst zip_eval) (auto simp: set_parsed_def find_None_iff)
  moreover have "(\<exists>i \<in> set [n - 65558..<n - 21]. Z i) \<longleftrightarrow> (\<exists>i. n - 65558 \<le> i \<and> i + 22 \<le> n \<and> Z i)" for Z
    using False by (intro iffI; clarsimp) (auto intro!: bexI exI)
  ultimately show ?thesis by (simp only:)
qed

text \<open>
  C33. A PDF candidate, of whatever length, validates exactly when it starts with the PDF magic and the end
  marker occurs in its last 1024 bytes, and the length reported ends at the first such marker; a ZIP candidate,
  of whatever length, validates exactly when it starts with a local header and the end-of-directory signature
  starts in its last 65558 bytes, at least 22 before the end, and its length is always that of the candidate.
\<close>

theorem pdf_zip_validate_exactly:
  assumes "n \<le> length d"
  shows "(pdf_file_validator (Some d) n (Some p) = Some (FILE_VALIDATION_VALIDATES, Some q)
      \<longleftrightarrow> mem_eq d 0 (bytes_of ''%PDF-'') \<and> 5 \<le> q \<and> n - 1024 \<le> q - 5 \<and> q \<le> n \<and> mem_eq d (q - 5) (bytes_of ''%%EOF'')
        \<and> (\<forall>i. n - 1024 \<le> i \<and> i < q - 5 \<longrightarrow> \<not> mem_eq d i (bytes_of ''%%EOF'')))
    \<and> (zip_file_validator (Some d) n (Some p) = Some (FILE_VALIDATION_VALIDATES, Some q)
      \<longleftrightarrow> mem_eq d 0 ZIP_LOCAL_HEADER \<and> q = n \<and> (\<exists>i. n - 65558 \<le> i \<and> i + 22 \<le> n \<and> mem_eq d i ZIP_EOCD))"
  using pdf_validates_iff [OF assms] zip_validates_iff [OF assms] by (rule conjI)

lemma length_filter_upt: "length (filter P [0..<m]) = card {i. i < m \<and> P i}"
proof -
  have "length (filter P [0..<m]) = card (set (filter P [0..<m]))" by (rule distinct_card [symmetric]) simp
  also have "set (filter P [0..<m]) = {i. i < m \<and> P i}" by auto
  finally show ?thesis .
qed

lemma score_loop_card:
  "(\<And>i. i < m \<Longrightarrow> hit i = Some (P i)) \<Longrightarrow> score_loop hit w [0..<m] 0 = Some (wrap32 (w * card {i. i < m \<and> P i}))"
  using score_loop_exact [of "[0..<m]" hit P w 0] by (simp add: length_filter_upt wrap32_def)

text \<open>
  The block scores count what they are meant to: on a block of \<open>n\<close> bytes the JPEG score is ten for
  each frame, table or scan marker, the PNG score twenty for each chunk name and the ZIP score fifteen for
  each record signature, modulo 2^32, and no byte outside the block is read.
\<close>

theorem block_scores_count:
  assumes "4 \<le> n" "n \<le> length d"
  shows "jpeg_block_validator (Some d) n = Some (wrap32 (10 * card {i. i < n - 1 \<and> d ! i = 0xFF
        \<and> d ! (i + 1) \<in> {0xC0, 0xC2, 0xC4, 0xDB, 0xDA}}))
    \<and> png_block_validator (Some d) n = Some (wrap32 (20 * card {i. i < n - 3
        \<and> (\<exists>name \<in> {''IHDR'', ''IDAT'', ''PLTE'', ''IEND''}. mem_eq d i (bytes_of name))}))
    \<and> zip_block_validator (Some d) n = Some (wrap32 (15 * card {i. i < n - 3
        \<and> (\<exists>sig \<in> {ZIP_LOCAL_HEADER, ZIP_CENTRAL_DIR, ZIP_EOCD}. mem_eq d i sig)}))"
proof (intro conjI)
  have "jpeg_hit d i = Some (d ! i = 0xFF \<and> d ! (i + 1) \<in> {0xC0, 0xC2, 0xC4, 0xDB, 0xDA})" if "i < n - 1" for i
    using that assms by (simp add: jpeg_hit_def rd_Some)
  from score_loop_card [OF this, where w = 10] assms show "jpeg_block_validator (Some d) n = Some (wrap32 (10 * card {i. i < n - 1
      \<and> d ! i = 0xFF \<and> d ! (i + 1) \<in> {0xC0, 0xC2, 0xC4, 0xDB, 0xDA}}))"
    by (simp add: jpeg_block_validator_def)
next
  have "any_of d [bytes_of ''IHDR'', bytes_of ''IDAT'', bytes_of ''PLTE'', bytes_of ''IEND''] i
      = Some (\<exists>name \<in> {''IHDR'', ''IDAT'', ''PLTE'', ''IEND''}. mem_eq d i (bytes_of name))" if "i < n - 3" for i
    using that assms by (subst any_of_Some) auto
  from score_loop_card [OF this, where w = 20] assms show "png_block_validator (Some d) n = Some (wrap32 (20 * card {i. i < n - 3
      \<and> (\<exists>name \<in> {''IHDR'', ''IDAT'', ''PLTE'', ''IEND''}. mem_eq d i (bytes_of name))}))"
    by (simp add: png_block_validator_def)
next
  have "any_of d [ZIP_LOCAL_HEADER, ZIP_CENTRAL_DIR, ZIP_EOCD] i
      = Some (\<exists>sig \<in> {ZIP_LOCAL_HEADER, ZIP_CENTRAL_DIR, ZIP_EOCD}. mem_eq d i sig)" if "i < n - 3" for i
    using that assms by (subst any_of_Some) (auto simp: ZIP_LOCAL_HEADER_def ZIP_CENTRAL_DIR_def ZIP_EOCD_def)
  from score_loop_card [OF this, where w = 15] assms show "zip_block_validator (Some d) n = Some (wrap32 (15 * card {i. i < n - 3
      \<and> (\<exists>sig \<in> {ZIP_LOCAL_HEADER, ZIP_CENTRAL_DIR, ZIP_EOCD}. mem_eq d i sig)}))"
    by (simp add: zip_block_validator_def)
qed

section \<open>Registration attaches nothing\<close>

lemma register_keeps_validators:
  assumes "file_type_registry_register re ah af (Some r) (Some d) = (e, Some r')"
    and "\<forall>t \<in> set (d # fr_types r). ft_file_validator t = None \<and> ft_block_validator t = None"
  shows "\<forall>t \<in> set (fr_types r'). ft_file_validator t = None \<and> ft_block_validator t = None"
  using assms by (auto simp: file_type_registry_register_def Let_def split: if_splits)

lemma register_fold_keeps_validators:
  assumes "\<forall>t \<in> set (ds @ fr_types r). ft_file_validator t = None \<and> ft_block_validator t = None"
  shows "\<exists>r'. fold (\<lambda>d rr. case alloc (ft_name d) of (re, ah, af) \<Rightarrow> snd (file_type_registry_register re ah af rr (Some d)))
      ds (Some r) = Some r' \<and> (\<forall>t \<in> set (fr_types r'). ft_file_validator t = None \<and> ft_block_validator t = None)"
  using assms
proof (induction ds arbitrary: r)
  case (Cons d ds)
  obtain re ah af where a: "alloc (ft_name d) = (re, ah, af)" by (metis prod_cases3)
  have "\<exists>e r1. file_type_registry_register re ah af (Some r) (Some d) = (e, Some r1)"
    by (cases "fr_capacity r \<le> length (fr_types r) \<and> \<not> re") (auto simp: file_type_registry_register_def Let_def)
  then obtain e r1 where r1: "file_type_registry_register re ah af (Some r) (Some d) = (e, Some r1)" by blast
  have "\<forall>t \<in> set (fr_types r1). ft_file_validator t = None \<and> ft_block_validator t = None"
    using register_keeps_validators [OF r1] Cons.prems by simp
  with Cons.prems have "\<forall>t \<in> set (ds @ fr_types r1). ft_file_validator t = None \<and> ft_block_validator t = None" by auto
  from Cons.IH [OF this] show ?case by (simp add: a r1)
qed simp

text \<open>
  After the registry has been initialised, the built-in types registered and
  \<open>register_all_validators\<close> called, which reports success, no type of the registry has a validator: the
  seven registration functions check their argument and do nothing.
\<close>

theorem no_validator_registered:
  assumes "file_type_registry_register_defaults alloc (snd (file_type_registry_init calloc_ok (Some r0))) = (e, Some r1)"
    and "register_all_validators (Some r1) = (e', r2)"
  shows "e' = ERASECURE_SUCCESS \<and> r2 = Some r1
    \<and> (\<forall>t \<in> set (fr_types r1). ft_file_validator t = None \<and> ft_block_validator t = None)"
proof -
  have "\<forall>t \<in> set (default_types @ fr_types \<lparr>fr_types = [], fr_capacity = 16\<rparr>).
      ft_file_validator t = None \<and> ft_block_validator t = None"
    by (simp add: default_types_def builtin_type_def)
  from register_fold_keeps_validators [OF this, of alloc] assms(1)
  have "\<forall>t \<in> set (fr_types r1). ft_file_validator t = None \<and> ft_block_validator t = None"
    unfolding file_type_registry_register_defaults_def file_type_registry_init_def by auto
  moreover have "e' = ERASECURE_SUCCESS \<and> r2 = Some r1"
    using assms(2) by (auto simp: register_all_validators_def jpeg_validator_register_def png_validator_register_def
        pdf_validator_register_def zip_validator_register_def gif_validator_register_def mp3_validator_register_def
        elf_validator_register_def)
  ultimately show ?thesis by blast
qed

section \<open>Witnesses\<close>

lemma demo_in_list: "(\<lambda>d n ps. Some (jpeg_file_validator d n ps)) \<in> set (format_validators crc)"
    "(\<lambda>d n ps. Some (mp3_file_validator d n ps)) \<in> set (format_validators crc)"
    "png_file_validator crc \<in> set (format_validators crc)"
  by (simp_all add: format_validators_def)

theorem validators_read_candidate_only_witness:
  "jpeg_file_validator (Some [0xFF, 0xD8, 0xFF, 0xD9]) 4 (Some 0)
    = jpeg_file_validator (Some [0xFF, 0xD8, 0xFF, 0xD9, 1, 2]) 4 (Some 0)"
  using validators_read_candidate_only [OF demo_in_list(1), of 4 "[0xFF, 0xD8, 0xFF, 0xD9, 1, 2]" "Some 0"] by simp

theorem validated_length_bounds_witness:
  "\<exists>d. length d = 832 \<and> mp3_file_validator (Some d) 832 (Some 0) = Some (FILE_VALIDATION_VALIDATES, Some 1242)
     \<and> (1242 :: nat) \<le> 832 + 410"
proof -
  obtain z :: "byte list" where z: "length z = 410" using Ex_list_of_length by blast
  define h :: "byte list" where "h = [0xFF, 0xFB, 0x90, 0]"
  define d where "d = h @ z @ h @ z @ h"
  have len: "length d = 832" by (simp add: d_def z h_def)
  have at: "d ! 0 = 0xFF" "d ! 1 = 0xFB" "d ! 2 = 0x90" "d ! 414 = 0xFF" "d ! 415 = 0xFB" "d ! 416 = 0x90"
    "d ! 828 = 0xFF" "d ! 829 = 0xFB" "d ! 830 = 0x90"
    by (simp_all add: d_def nth_append z h_def)
  have step: "mp3_scan d 832 k off = mp3_scan d 832 (k + 1) (off + 414)"
    if "off + 4 \<le> 832" "d ! off = 0xFF" "d ! (off + 1) = 0xFB" "d ! (off + 2) = 0x90" for k off
    using that len by (subst mp3_scan.simps) (simp add: rd_def mp3_bad_frame_def)
  have "mp3_scan d 832 0 0 = mp3_scan d 832 1 414" using step [of 0 0] at by (simp add: numeral_2_eq_2)
  also have "\<dots> = mp3_scan d 832 2 828" using step [of 414 1] at by (simp add: numeral_2_eq_2)
  also have "\<dots> = mp3_scan d 832 3 1242" using step [of 828 2] at by (simp add: numeral_3_eq_3)
  also have "\<dots> = Some (3, 1242)" by (subst mp3_scan.simps) simp
  finally have scan: "mp3_scan d 832 0 0 = Some (3, 1242)" .
  have "\<not> mem_eq d 0 (bytes_of ''ID3'')" by (simp add: mem_eq_def d_def h_def bytes_of_def)
  with scan len have run: "mp3_file_validator (Some d) 832 (Some 0) = Some (FILE_VALIDATION_VALIDATES, Some 1242)"
    by (subst mp3_eval) (simp_all add: mp3_start_def set_parsed_def)
  have "(1242 :: nat) \<le> 832 + 410"
    by (rule conjunct1 [OF validated_length_bounds [OF demo_in_list(2) _ arg_cong [OF run, of Some]]]) (simp add: len)
  with run len show ?thesis by blast
qed

theorem png_accepts_encoded_witness:
  "png_file_validator (\<lambda>_. 0) (Some (png_head (\<lambda>_. 0) (replicate 13 0) [(bytes_of ''IDAT'', [1])]
      @ png_chunk (\<lambda>_. 0) (bytes_of ''IEND'') [] @ [7])) 58 (Some 0)
    = Some (Some (FILE_VALIDATION_VALIDATES, Some 58))"
  by (rule png_accepts_encoded)
    (simp_all add: plain_chunk_def png_head_def png_chunks_def png_chunk_def magic_lengths bytes_of_def)

theorem png_rejects_bad_checksum_witness:
  "png_file_validator (\<lambda>_. 0) (Some (png_head (\<lambda>_. 0) (replicate 13 0) []
      @ png_raw_chunk 1 (bytes_of ''IDAT'') [1] @ [])) 46 (Some 0)
    = Some (Some (FILE_VALIDATION_INVALID, Some 0))"
  by (rule png_rejects_bad_checksum)
    (simp_all add: plain_chunk_def png_head_def png_chunks_def png_chunk_def magic_lengths)

theorem validators_return_witness:
  "\<exists>verdict. png_file_validator (\<lambda>_. 0) (Some [1, 2, 3]) 3 (Some 0) = Some (Some verdict)"
  using validators_return [OF demo_in_list(3), of 3 "[1, 2, 3]" "\<lambda>_. 0" "Some 0"] by simp

lemma zeros: "\<exists>z :: byte list. length z = n \<and> (\<forall>k. k + 4 \<le> n \<longrightarrow> take 4 (drop k z) = [0, 0, 0, 0])"
proof (intro exI [of _ "replicate n 0"] conjI allI impI)
  fix k assume "k + 4 \<le> n"
  then have "take 4 (drop k (replicate n (0 :: byte))) = replicate 4 0" by (simp add: min_def)
  then show "take 4 (drop k (replicate n (0 :: byte))) = [0, 0, 0, 0]" by (simp add: numeral_eq_Suc)
qed simp

theorem png_validator_hangs_witness:
  "\<exists>d. png_file_validator (\<lambda>_. 0) (Some d) (length d) (Some 0) = None"
proof -
  obtain z :: "byte list" where lz: "length z = 2 ^ 32 - 4"
      and tz: "\<And>k. k + 4 \<le> 2 ^ 32 - 4 \<Longrightarrow> take 4 (drop k z) = [0, 0, 0, 0]"
    using zeros [of "2 ^ 32 - 4"] by blast
  define d where "d = PNG_MAGIC @ be32_bytes (2 ^ 32 - 12) @ z"
  have "mem_eq d 0 PNG_MAGIC" by (simp add: d_def mem_eq_def)
  moreover have "be32 (take 4 (drop 8 d)) = 2 ^ 32 - 12"
    by (simp add: d_def magic_lengths be32_be32_bytes)
  moreover have "8 + 2 ^ 32 \<le> length d" by (simp add: d_def magic_lengths lz)
  moreover have ty: "take 4 (drop 12 d) = [0, 0, 0, 0]" using tz [of 0] by (simp add: d_def magic_lengths)
  moreover have "take 4 (drop (2 ^ 32 + 4) d) = [0, 0, 0, 0]" using tz [of "2 ^ 32 - 8"] by (simp add: d_def magic_lengths)
  then have "wrap32 0 = be32 (take 4 (drop (2 ^ 32 + 4) d))" by (simp add: be32_def wrap32_def)
  moreover have "[0, 0, 0, 0] \<noteq> bytes_of ''IHDR''" "[0, 0, 0, 0] \<noteq> bytes_of ''IEND''" by (simp_all add: bytes_of_def)
  ultimately show ?thesis
    using png_validator_hangs [of d "\<lambda>_. 0" "Some 0"] by metis
qed

theorem pdf_zip_validate_exactly_witness:
  "zip_file_validator (Some (ZIP_LOCAL_HEADER @ ZIP_EOCD @ replicate 18 0)) 26 (Some 0)
    = Some (FILE_VALIDATION_VALIDATES, Some 26)
   \<and> pdf_file_validator (Some (bytes_of ''%PDF-%%EOF'')) 10 (Some 0) = Some (FILE_VALIDATION_VALIDATES, Some 10)"
proof
  let ?d = "ZIP_LOCAL_HEADER @ ZIP_EOCD @ replicate 18 0"
  have "length ?d = 26" by (simp add: magic_lengths)
  moreover have "mem_eq ?d 0 ZIP_LOCAL_HEADER" "mem_eq ?d 4 ZIP_EOCD" by (simp_all add: mem_eq_def magic_lengths)
  then have "mem_eq ?d 0 ZIP_LOCAL_HEADER \<and> (\<exists>i. (26 :: nat) - 65558 \<le> i \<and> i + 22 \<le> 26 \<and> mem_eq ?d i ZIP_EOCD)"
    by (intro conjI exI [of _ 4]) simp_all
  ultimately show "zip_file_validator (Some ?d) 26 (Some 0) = Some (FILE_VALIDATION_VALIDATES, Some 26)"
    using iffD2 [OF conjunct2 [OF pdf_zip_validate_exactly [of 26 ?d 0 26]]] by simp
  let ?p = "bytes_of ''%PDF-%%EOF''"
  have "mem_eq ?p 0 (bytes_of ''%PDF-'')" "mem_eq ?p 5 (bytes_of ''%%EOF'')"
      "list_all (\<lambda>i. \<not> mem_eq ?p i (bytes_of ''%%EOF'')) [0..<5]" "length ?p = 10"
    by code_simp+
  then show "pdf_file_validator (Some ?p) 10 (Some 0) = Some (FILE_VALIDATION_VALIDATES, Some 10)"
    using iffD2 [OF conjunct1 [OF pdf_zip_validate_exactly [of 10 ?p 0 10]]] by (simp add: list_all_iff)
qed

theorem block_scores_count_witness:
  "jpeg_block_validator (Some [0xFF, 0xC0, 0xFF, 0xDA]) 4 = Some 20"
proof -
  let ?d = "[0xFF, 0xC0, 0xFF, 0xDA] :: byte list"
  have enum: "{i :: nat. i < 3 \<and> P i} = (if P 0 then {0} else {}) \<union> (if P 1 then {1} else {}) \<union> (if P 2 then {2} else {})" for P
    by (auto simp: numeral_2_eq_2 numeral_3_eq_3 less_Suc_eq intro: gr0I)
  have "{i. i < 3 \<and> ?d ! i = 0xFF \<and> ?d ! (i + 1) \<in> {0xC0, 0xC2, 0xC4, 0xDB, 0xDA}} = {2, 0}"
    unfolding enum by simp
  then show ?thesis using conjunct1 [OF block_scores_count [of 4 ?d]] by simp
qed

lemma default_types_nonempty: "default_types \<noteq> []"
  by (simp add: default_types_def)

theorem no_validator_registered_witness:
  "\<exists>r1 :: (unit, unit) FileTypeRegistry. register_all_validators (Some r1) = (ERASECURE_SUCCESS, Some r1) \<and> fr_types r1 \<noteq> []
    \<and> (\<forall>t \<in> set (fr_types r1). ft_file_validator t = None)"
proof -
  obtain e' r2 where "register_all_validators (Some \<lparr>fr_types = default_types, fr_capacity = 16\<rparr>
      :: (unit, unit) FileTypeRegistry option) = (e', r2)" by force
  from no_validator_registered [OF registry_defaults_run this] this show ?thesis
    by (intro exI [of _ "\<lparr>fr_types = default_types, fr_capacity = 16\<rparr>"]) (simp add: default_types_nonempty)
qed

end
