(* ===== verification/Recovery.thy ===== *)
theory Recovery
  imports Validator Promising_Queue Blockmap Complex_Main
begin

text \<open>
  The recovery engine and what stands around it: \<open>recovery_engine\<close>, \<open>reassembly\<close>, \<open>checkpoint\<close> and
  \<open>recovery_output\<close> under \<open>include/recovery/\<close> and \<open>src/recovery/\<close>. The phases and the reassembly steps of
  the code check their arguments and do nothing yet; they are modelled as they are. Weights of type
  \<open>double\<close> are rationals; the score is computed from the mock values that the code has. Record fields carry the prefixes
  \<open>ro_\<close>, \<open>re_\<close>, \<open>ckh_\<close> and \<open>rm_\<close>.
\<close>

section \<open>Reassembly\<close>

record ReassemblyOptions =
  ro_max_backtracks :: nat
  ro_galloping_step :: nat
  ro_locality_weight :: rat
  ro_validator_weight :: rat
  ro_structural_weight :: rat
  ro_reservation_penalty :: rat

definition reassembly_options_init :: "ReassemblyOptions option \<Rightarrow> ReassemblyOptions option" where
  "reassembly_options_init opts =
     map_option (\<lambda>_. \<lparr>ro_max_backtracks = 100, ro_galloping_step = 8, ro_locality_weight = 1,
                      ro_validator_weight = 2, ro_structural_weight = 3 / 2, ro_reservation_penalty = 1 / 2\<rparr>) opts"

text \<open>
  The score of a block: the scores are still constants, the block is not reserved and not tried. The terms are added
  in the order of the code; with the weights that \<open>reassembly_options_init\<close> sets, each intermediate value is a
  \<open>double\<close>.
\<close>

definition reassembly_score_block ::
    "'fm option \<Rightarrow> 'bm option \<Rightarrow> nat \<Rightarrow> nat \<Rightarrow> 'cs option \<Rightarrow> ReassemblyOptions option \<Rightarrow> rat option
     \<Rightarrow> ErasecureError \<times> rat option" where
  "reassembly_score_block fm bm candidate_actual_block candidate_pos cs opts score_out =
     (case opts of
        None \<Rightarrow> (ERASECURE_ERR_INVALID_ARG, score_out)
      | Some o' \<Rightarrow>
          if fm = None \<or> bm = None \<or> cs = None \<or> score_out = None then (ERASECURE_ERR_INVALID_ARG, score_out)
          else
            let validator_score = 1; structural_score = 1; locality_score = 1; reservation_count = 0; tried = False
            in (ERASECURE_SUCCESS,
                Some (validator_score * ro_validator_weight o' + structural_score * ro_structural_weight o'
                      + locality_score * ro_locality_weight o' - reservation_count * ro_reservation_penalty o'
                      - (if tried then 100 else 0))))"

text \<open>The steps return their error and leave the structures as they are; gallop claims the blocks it was asked for.\<close>

definition reassembly_step ::
    "'cs option \<Rightarrow> 'fm option \<Rightarrow> 'bm option \<Rightarrow> 'ft option \<Rightarrow> ReassemblyOptions option \<Rightarrow> ErasecureError" where
  "reassembly_step cs fm bm ftd opts =
     (if cs = None \<or> fm = None \<or> bm = None \<or> ftd = None \<or> opts = None then ERASECURE_ERR_INVALID_ARG
      else ERASECURE_SUCCESS)"

definition reassembly_gallop ::
    "'cs option \<Rightarrow> 'fm option \<Rightarrow> 'bm option \<Rightarrow> 'ft option \<Rightarrow> nat \<Rightarrow> nat option \<Rightarrow> ErasecureError \<times> nat option" where
  "reassembly_gallop cs fm bm ftd step_size blocks_added =
     (if cs = None \<or> fm = None \<or> bm = None \<or> ftd = None \<or> blocks_added = None
      then (ERASECURE_ERR_INVALID_ARG, blocks_added)
      else (ERASECURE_SUCCESS, Some step_size))"

definition reassembly_backtrack :: "'cs option \<Rightarrow> 'bm option \<Rightarrow> nat \<Rightarrow> ErasecureError" where
  "reassembly_backtrack cs bm target_length =
     (if cs = None \<or> bm = None then ERASECURE_ERR_INVALID_ARG else ERASECURE_SUCCESS)"

section \<open>The engine\<close>

record RecoveryEngine =
  re_mirror :: FileMirror
  re_map :: Blockmap
  re_discovery :: DiscoveryEngine
  re_registry :: "(unit, unit) FileTypeRegistry"
  re_queue :: PromisingQueue
  re_reassembly_opts :: ReassemblyOptions
  re_output_dir :: string
  re_paused :: bool
  re_cancelled :: bool
  re_recovered_count :: nat
  re_validated_count :: nat
  re_promising_count :: nat

definition zero_recovery_engine :: RecoveryEngine where
  "zero_recovery_engine =
     \<lparr>re_mirror = zero_file_mirror, re_map = zero_blockmap, re_discovery = zero_engine,
      re_registry = \<lparr>fr_types = [], fr_capacity = 0\<rparr>,
      re_queue = \<lparr>pq_entries = [], pq_capacity = 0, pq_shutdown = False\<rparr>,
      re_reassembly_opts = \<lparr>ro_max_backtracks = 0, ro_galloping_step = 0, ro_locality_weight = 0,
        ro_validator_weight = 0, ro_structural_weight = 0, ro_reservation_penalty = 0\<rparr>,
      re_output_dir = [], re_paused = False, re_cancelled = False, re_recovered_count = 0,
      re_validated_count = 0, re_promising_count = 0\<rparr>"

definition recovery_engine_init ::
    "RecoveryEngine option \<Rightarrow> string option \<Rightarrow> nat \<Rightarrow> string option \<Rightarrow> ErasecureError \<times> RecoveryEngine option" where
  "recovery_engine_init engine evidence_image block_size output_dir =
     (case (engine, evidence_image, output_dir) of
        (Some _, Some _, Some dir) \<Rightarrow>
          (ERASECURE_SUCCESS,
           Some (zero_recovery_engine
             \<lparr>re_output_dir := cstr 256 dir,
              re_reassembly_opts := the (reassembly_options_init (Some (re_reassembly_opts zero_recovery_engine)))\<rparr>))
      | _ \<Rightarrow> (ERASECURE_ERR_INVALID_ARG, engine))"

text \<open>Destruction only destroys the mutex.\<close>

definition recovery_engine_destroy :: "RecoveryEngine option \<Rightarrow> RecoveryEngine option" where
  "recovery_engine_destroy engine = engine"

definition recovery_engine_phase_c :: "RecoveryEngine option \<Rightarrow> ErasecureError \<times> RecoveryEngine option" where
  "recovery_engine_phase_c engine = (if engine = None then ERASECURE_ERR_INVALID_ARG else ERASECURE_SUCCESS, engine)"
definition recovery_engine_phase_f1 :: "RecoveryEngine option \<Rightarrow> ErasecureError \<times> RecoveryEngine option" where
  "recovery_engine_phase_f1 engine = (if engine = None then ERASECURE_ERR_INVALID_ARG else ERASECURE_SUCCESS, engine)"
definition recovery_engine_phase_f2 :: "RecoveryEngine option \<Rightarrow> ErasecureError \<times> RecoveryEngine option" where
  "recovery_engine_phase_f2 engine = (if engine = None then ERASECURE_ERR_INVALID_ARG else ERASECURE_SUCCESS, engine)"

fun run_phases ::
    "(RecoveryEngine option \<Rightarrow> ErasecureError \<times> RecoveryEngine option) list \<Rightarrow> RecoveryEngine option
     \<Rightarrow> ErasecureError \<times> RecoveryEngine option" where
  "run_phases [] engine = (ERASECURE_SUCCESS, engine)"
| "run_phases (phase # phases) engine =
     (case phase engine of (err, engine') \<Rightarrow>
        if err \<noteq> ERASECURE_SUCCESS then (err, engine') else run_phases phases engine')"

definition recovery_engine_run :: "RecoveryEngine option \<Rightarrow> ErasecureError \<times> RecoveryEngine option" where
  "recovery_engine_run engine =
     (if engine = None then (ERASECURE_ERR_INVALID_ARG, None)
      else run_phases [recovery_engine_phase_c, recovery_engine_phase_f1, recovery_engine_phase_f2] engine)"

definition recovery_engine_pause :: "RecoveryEngine option \<Rightarrow> RecoveryEngine option" where
  "recovery_engine_pause engine = map_option (\<lambda>e. e\<lparr>re_paused := True\<rparr>) engine"
definition recovery_engine_resume :: "RecoveryEngine option \<Rightarrow> RecoveryEngine option" where
  "recovery_engine_resume engine = map_option (\<lambda>e. e\<lparr>re_paused := False\<rparr>) engine"
definition recovery_engine_cancel :: "RecoveryEngine option \<Rightarrow> RecoveryEngine option" where
  "recovery_engine_cancel engine = map_option (\<lambda>e. e\<lparr>re_cancelled := True\<rparr>) engine"

section \<open>Checkpoints\<close>

record CheckpointHeader =
  ckh_magic :: nat
  ckh_version :: nat
  ckh_timestamp :: nat
  ckh_evidence_hash :: "byte list"
  ckh_block_size :: nat
  ckh_total_blocks :: nat
  ckh_covered_blocks :: nat
  ckh_candidate_count :: nat

definition ERASECURE_CHECKPOINT_MAGIC :: nat where "ERASECURE_CHECKPOINT_MAGIC = 0x45435043"
definition ERASECURE_CHECKPOINT_VERSION :: nat where "ERASECURE_CHECKPOINT_VERSION = 1"

text \<open>
  The structure in memory on the usual 64-bit ABI, little endian: 120 bytes with seven bytes of padding
  after the hash and four at the end.
\<close>

definition header_bytes :: "CheckpointHeader \<Rightarrow> byte list" where
  "header_bytes h =
     le_bytes 4 (ckh_magic h) @ le_bytes 4 (ckh_version h) @ le_bytes 8 (ckh_timestamp h)
     @ take 65 (ckh_evidence_hash h @ replicate 65 0) @ replicate 7 0
     @ le_bytes 8 (ckh_block_size h) @ le_bytes 8 (ckh_total_blocks h) @ le_bytes 8 (ckh_covered_blocks h)
     @ le_bytes 4 (ckh_candidate_count h) @ replicate 4 0"

definition saved_header :: CheckpointHeader where
  "saved_header =
     \<lparr>ckh_magic = ERASECURE_CHECKPOINT_MAGIC, ckh_version = ERASECURE_CHECKPOINT_VERSION, ckh_timestamp = 0,
      ckh_evidence_hash = [], ckh_block_size = 0, ckh_total_blocks = 0, ckh_covered_blocks = 0,
      ckh_candidate_count = 0\<rparr>"

text \<open>
  \<open>fopen_ok\<close>, \<open>fwrite_ok\<close> answer the calls; \<open>flushed\<close> is how many of the buffered bytes reach the file, which
  \<open>fclose\<close> would tell and the code does not ask.
\<close>

definition checkpoint_save ::
    "bool \<Rightarrow> bool \<Rightarrow> nat \<Rightarrow> filesys \<Rightarrow> RecoveryEngine option \<Rightarrow> string option \<Rightarrow> ErasecureError \<times> filesys" where
  "checkpoint_save fopen_ok fwrite_ok flushed fs engine checkpoint_path =
     (case (engine, checkpoint_path) of
        (Some _, Some p) \<Rightarrow>
          if \<not> fopen_ok then (ERASECURE_ERR_IO, fs)
          else (if fwrite_ok then ERASECURE_SUCCESS else ERASECURE_ERR_IO,
                fs(p \<mapsto> Reg (take flushed (header_bytes saved_header))))
      | _ \<Rightarrow> (ERASECURE_ERR_INVALID_ARG, fs))"

definition checkpoint_load ::
    "bool \<Rightarrow> filesys \<Rightarrow> RecoveryEngine option \<Rightarrow> string option \<Rightarrow> ErasecureError" where
  "checkpoint_load fopen_ok fs engine checkpoint_path =
     (case (engine, checkpoint_path) of
        (Some _, Some p) \<Rightarrow>
          (case fs p of
             Some (Reg content) \<Rightarrow>
               if \<not> fopen_ok then ERASECURE_ERR_IO
               else if length content < length (header_bytes saved_header) then ERASECURE_ERR_IO
               else if le_value (take 4 content) \<noteq> ERASECURE_CHECKPOINT_MAGIC then ERASECURE_ERR_GENERIC
               else if le_value (take 4 (drop 4 content)) \<noteq> ERASECURE_CHECKPOINT_VERSION then ERASECURE_ERR_GENERIC
               else ERASECURE_SUCCESS
           | _ \<Rightarrow> ERASECURE_ERR_IO)
      | _ \<Rightarrow> ERASECURE_ERR_INVALID_ARG)"

section \<open>Output\<close>

record RecoveredFileMetadata =
  rm_uuid :: string
  rm_file_type :: string
  rm_size_bytes :: nat
  rm_sha256 :: string
  rm_confidence :: nat
  rm_start_block :: nat
  rm_block_count :: nat
  rm_output_path :: string

definition recovery_output_init :: "string option \<Rightarrow> ErasecureError" where
  "recovery_output_init base_dir = (if base_dir = None then ERASECURE_ERR_INVALID_ARG else ERASECURE_SUCCESS)"

text \<open>The path \<open>snprintf\<close> builds in an output buffer; one of size 0 keeps its content.\<close>

definition output_path :: "string \<Rightarrow> string \<Rightarrow> string \<Rightarrow> string \<Rightarrow> string \<Rightarrow> nat \<Rightarrow> string" where
  "output_path base category uuid ext buf n =
     (if n = 0 then buf else cstr n (base @ ''/'' @ category @ ''/'' @ uuid @ ''.'' @ ext))"

text \<open>
  \<open>fopen_ok\<close> answers per path; \<open>fwrite\<close> accepts \<open>written\<close> bytes, of which \<open>flushed\<close> at most reach the file by the
  end of \<open>fclose\<close>, whose result is not looked at.
\<close>

definition recovery_output_write_file ::
    "(string \<Rightarrow> bool) \<Rightarrow> nat \<Rightarrow> nat \<Rightarrow> filesys \<Rightarrow> string option \<Rightarrow> string option \<Rightarrow> string option \<Rightarrow> byte list option
     \<Rightarrow> nat \<Rightarrow> RecoveredFileMetadata option \<Rightarrow> string option \<Rightarrow> nat \<Rightarrow> ErasecureError \<times> string option \<times> filesys" where
  "recovery_output_write_file fopen_ok written flushed fs base_dir category ext data len meta path_out path_out_len =
     (case (base_dir, category, ext, data, meta, path_out) of
        (Some b, Some c, Some x, Some d, Some m, Some buf) \<Rightarrow>
          let p = output_path b c (rm_uuid m) x buf path_out_len
          in if \<not> fopen_ok p then (ERASECURE_ERR_IO, Some p, fs)
             else (if len > 0 \<and> written \<noteq> len then ERASECURE_ERR_IO else ERASECURE_SUCCESS, Some p,
                   fs(p \<mapsto> Reg (take (min flushed (min written len)) d)))
      | _ \<Rightarrow> (ERASECURE_ERR_INVALID_ARG, path_out, fs))"

definition manifest_line :: "RecoveredFileMetadata \<Rightarrow> string" where
  "manifest_line m =
     ''{'' @ jquoted ''uuid'' @ '':'' @ jquoted (rm_uuid m)
     @ '','' @ jquoted ''file_type'' @ '':'' @ jquoted (rm_file_type m)
     @ '','' @ jquoted ''size_bytes'' @ '':'' @ dec (rm_size_bytes m)
     @ '','' @ jquoted ''sha256'' @ '':'' @ jquoted (rm_sha256 m)
     @ '','' @ jquoted ''confidence'' @ '':'' @ dec (rm_confidence m)
     @ '','' @ jquoted ''start_block'' @ '':'' @ dec (rm_start_block m)
     @ '','' @ jquoted ''block_count'' @ '':'' @ dec (rm_block_count m)
     @ '','' @ jquoted ''output_path'' @ '':'' @ jquoted (rm_output_path m) @ ''}'' @ [newline]"

definition recovery_output_write_manifest ::
    "bool \<Rightarrow> nat \<Rightarrow> filesys \<Rightarrow> string option \<Rightarrow> RecoveredFileMetadata option \<Rightarrow> ErasecureError \<times> filesys" where
  "recovery_output_write_manifest fopen_ok flushed fs base_dir meta =
     (case (base_dir, meta) of
        (Some b, Some m) \<Rightarrow>
          let p = cstr 1024 (b @ ''/manifest.jsonl'')
          in if \<not> fopen_ok then (ERASECURE_ERR_IO, fs)
             else (ERASECURE_SUCCESS,
                   fs(p \<mapsto> Reg ((case fs p of Some n \<Rightarrow> node_bytes n | None \<Rightarrow> [])
                     @ take flushed (bytes_of (manifest_line m)))))
      | _ \<Rightarrow> (ERASECURE_ERR_INVALID_ARG, fs))"

section \<open>Properties\<close>

lemma length_checkpoint_bytes: "length (header_bytes h) = 120"
  by (simp add: header_bytes_def)

text \<open>
  A checkpoint that reached the disk loads again, for every engine that saved it and every engine that
  loads it; and a load succeeds exactly on a regular file of at least 120 bytes that starts with the magic
  number and the version, whatever the rest holds.
\<close>

theorem checkpoint_roundtrip:
  assumes "checkpoint_save fopen_ok True flushed fs (Some engine) (Some p) = (ERASECURE_SUCCESS, fs')" "120 \<le> flushed"
  shows "checkpoint_load True fs' (Some engine') (Some p) = ERASECURE_SUCCESS
    \<and> (checkpoint_load True fs2 (Some engine') (Some p) = ERASECURE_SUCCESS \<longleftrightarrow>
        (\<exists>rest. fs2 p = Some (Reg (take 8 (header_bytes saved_header) @ rest)) \<and> 112 \<le> length rest))"
proof
  have eight: "take 8 (header_bytes saved_header) = le_bytes 4 ERASECURE_CHECKPOINT_MAGIC @ le_bytes 4 ERASECURE_CHECKPOINT_VERSION"
    by (simp add: header_bytes_def saved_header_def)
  have m: "le_value (le_bytes 4 ERASECURE_CHECKPOINT_MAGIC) = ERASECURE_CHECKPOINT_MAGIC"
      "le_value (le_bytes 4 ERASECURE_CHECKPOINT_VERSION) = ERASECURE_CHECKPOINT_VERSION"
    by (simp_all add: le_value_le_bytes ERASECURE_CHECKPOINT_MAGIC_def ERASECURE_CHECKPOINT_VERSION_def)
  have load: "checkpoint_load True f (Some engine') (Some p) = ERASECURE_SUCCESS \<longleftrightarrow>
      (\<exists>rest. f p = Some (Reg (take 8 (header_bytes saved_header) @ rest)) \<and> 112 \<le> length rest)" for f
  proof
    assume "\<exists>rest. f p = Some (Reg (take 8 (header_bytes saved_header) @ rest)) \<and> 112 \<le> length rest"
    then show "checkpoint_load True f (Some engine') (Some p) = ERASECURE_SUCCESS"
      using m by (auto simp: checkpoint_load_def length_checkpoint_bytes eight)
  next
    assume "checkpoint_load True f (Some engine') (Some p) = ERASECURE_SUCCESS"
    then obtain content where c: "f p = Some (Reg content)" "120 \<le> length content"
        "le_value (take 4 content) = ERASECURE_CHECKPOINT_MAGIC"
        "le_value (take 4 (drop 4 content)) = ERASECURE_CHECKPOINT_VERSION"
      by (auto simp: checkpoint_load_def length_checkpoint_bytes split: option.splits node.splits if_splits)
    have "take 4 content = le_bytes 4 ERASECURE_CHECKPOINT_MAGIC" "take 4 (drop 4 content) = le_bytes 4 ERASECURE_CHECKPOINT_VERSION"
      using c le_bytes_le_value [of "take 4 content"] le_bytes_le_value [of "take 4 (drop 4 content)"] by simp_all
    then have "content = take 8 (header_bytes saved_header) @ drop 8 content"
      unfolding eight using take_add [of 4 4 content] by (metis append_take_drop_id numeral_Bit0)
    with c show "\<exists>rest. f p = Some (Reg (take 8 (header_bytes saved_header) @ rest)) \<and> 112 \<le> length rest"
      by (intro exI [of _ "drop 8 content"]) auto
  qed
  show "checkpoint_load True fs2 (Some engine') (Some p) = ERASECURE_SUCCESS \<longleftrightarrow>
        (\<exists>rest. fs2 p = Some (Reg (take 8 (header_bytes saved_header) @ rest)) \<and> 112 \<le> length rest)" by (rule load)
  have "fs' p = Some (Reg (header_bytes saved_header))"
    using assms by (auto simp: checkpoint_save_def length_checkpoint_bytes split: if_splits)
  moreover have "header_bytes saved_header = take 8 (header_bytes saved_header) @ drop 8 (header_bytes saved_header)" by simp
  moreover have "112 \<le> length (drop 8 (header_bytes saved_header))" by (simp add: length_checkpoint_bytes)
  ultimately show "checkpoint_load True fs' (Some engine') (Some p) = ERASECURE_SUCCESS" unfolding load by metis
qed

theorem checkpoint_roundtrip_witness:
  "\<exists>fs'. checkpoint_save True True 120 Map.empty (Some zero_recovery_engine) (Some ''c.ckpt'') = (ERASECURE_SUCCESS, fs')
    \<and> checkpoint_load True fs' (Some zero_recovery_engine) (Some ''c.ckpt'') = ERASECURE_SUCCESS"
proof -
  have "\<exists>fs'. checkpoint_save True True 120 Map.empty (Some zero_recovery_engine) (Some ''c.ckpt'') = (ERASECURE_SUCCESS, fs')"
    by (simp add: checkpoint_save_def)
  then obtain fs' where save: "checkpoint_save True True 120 Map.empty (Some zero_recovery_engine) (Some ''c.ckpt'') = (ERASECURE_SUCCESS, fs')" ..
  from checkpoint_roundtrip [OF save, of zero_recovery_engine] save show ?thesis by blast
qed

end
