(* ===== verification/Ata.thy ===== *)
theory Ata
  imports Buffers
begin

text \<open>
  ATA pass-through, identification and sanitize capabilities: \<open>src/ata/\<close> and \<open>include/ata/\<close>, as
  compiled on Linux. The answer of \<open>ioctl(SG_IO)\<close> to a request (command block, direction, length,
  timeout) and that of \<open>open\<close> are parameters. Record fields carry the prefixes \<open>ac_\<close>, \<open>ar_\<close>, \<open>aid_\<close> and
  \<open>asc_\<close>. The outer \<open>None\<close> of an operation is an access outside the sense buffer.
\<close>

unbundle bit_operations_syntax

section \<open>Data\<close>

record AtaCommand =
  ac_command :: byte
  ac_feature :: byte
  ac_feature_ext :: byte
  ac_count :: byte
  ac_count_ext :: byte
  ac_lba_low :: byte
  ac_lba_mid :: byte
  ac_lba_high :: byte
  ac_lba_low_ext :: byte
  ac_lba_mid_ext :: byte
  ac_lba_high_ext :: byte
  ac_device :: byte
  ac_protocol :: byte
  ac_direction :: int
  ac_data_buf :: "byte list option"
  ac_data_len :: nat
  ac_timeout_ms :: nat

record AtaResult =
  ar_status :: byte
  ar_error :: byte
  ar_count :: byte
  ar_lba_low :: byte
  ar_lba_mid :: byte
  ar_lba_high :: byte
  ar_device :: byte
  ar_sense_key :: byte
  ar_asc :: byte
  ar_ascq :: byte
  ar_success :: bool
  ar_sg_status :: byte

definition zero_ata_command :: AtaCommand where
  "zero_ata_command =
     \<lparr>ac_command = 0, ac_feature = 0, ac_feature_ext = 0, ac_count = 0, ac_count_ext = 0, ac_lba_low = 0,
      ac_lba_mid = 0, ac_lba_high = 0, ac_lba_low_ext = 0, ac_lba_mid_ext = 0, ac_lba_high_ext = 0,
      ac_device = 0, ac_protocol = 0, ac_direction = 0, ac_data_buf = None, ac_data_len = 0, ac_timeout_ms = 0\<rparr>"

definition zero_ata_result :: AtaResult where
  "zero_ata_result =
     \<lparr>ar_status = 0, ar_error = 0, ar_count = 0, ar_lba_low = 0, ar_lba_mid = 0, ar_lba_high = 0, ar_device = 0,
      ar_sense_key = 0, ar_asc = 0, ar_ascq = 0, ar_success = False, ar_sg_status = 0\<rparr>"

text \<open>
  What \<open>ioctl\<close> leaves in the header: the SCSI status, the number of sense bytes written, the sense buffer
  and the data transferred. \<open>Sg_error\<close> tells whether \<open>errno\<close> is \<open>EACCES\<close>.
\<close>

record sg_reply =
  sg_status :: byte
  sg_sb_len_wr :: nat
  sg_sense :: "byte list"
  sg_data :: "byte list"

datatype sg_answer = Sg_error bool | Sg_reply sg_reply

type_synonym sg_request = "byte list \<times> int \<times> nat \<times> nat"

datatype open_answer = Opened | Open_eacces | Open_failed

section \<open>Executing a command\<close>

definition SENSE_BUF_LEN :: nat where "SENSE_BUF_LEN = 32"
definition SG_DXFER_FROM_DEV :: int where "SG_DXFER_FROM_DEV = -3"

definition ata_command_init :: "AtaCommand option \<Rightarrow> AtaCommand option" where
  "ata_command_init cmd = map_option (\<lambda>_. zero_ata_command\<lparr>ac_timeout_ms := 5000, ac_direction := -1\<rparr>) cmd"

definition ata_cdb :: "AtaCommand \<Rightarrow> byte list" where
  "ata_cdb cmd =
     [0x85, push_bit 1 (ac_protocol cmd),
      0x20 OR (if ac_direction cmd = SG_DXFER_FROM_DEV then 0x08 else 0)
           OR (if ac_data_buf cmd \<noteq> None \<and> ac_data_len cmd > 0 then 0x02 else 0),
      ac_feature_ext cmd, ac_feature cmd, ac_count_ext cmd, ac_count cmd, ac_lba_low_ext cmd, ac_lba_low cmd,
      ac_lba_mid_ext cmd, ac_lba_mid cmd, ac_lba_high_ext cmd, ac_lba_high cmd, ac_device cmd, ac_command cmd, 0]"

text \<open>The offset of the first ATA return descriptor in the sense data.\<close>

function find_descriptor :: "byte list \<Rightarrow> nat \<Rightarrow> nat \<Rightarrow> nat option option" where
  "find_descriptor sense sb_len_wr off =
     (if off + 1 < sb_len_wr then do {
        desc_type \<leftarrow> rd sense off;
        desc_len \<leftarrow> rd sense (off + 1);
        if desc_type = 0x09 \<and> desc_len \<ge> 12 \<and> off + 13 < SENSE_BUF_LEN then Some (Some off)
        else find_descriptor sense sb_len_wr (off + (unat desc_len + 2)) }
      else Some None)"
  by pat_completeness auto
termination by (relation "measure (\<lambda>(sense, sb_len_wr, off). sb_len_wr - off)") auto

declare find_descriptor.simps [simp del]

definition read_descriptor :: "byte list \<Rightarrow> nat \<Rightarrow> AtaResult \<Rightarrow> AtaResult option" where
  "read_descriptor sense off r =
     do { e \<leftarrow> rd sense (off + 3); c \<leftarrow> rd sense (off + 5); low \<leftarrow> rd sense (off + 7);
          mid \<leftarrow> rd sense (off + 9); high \<leftarrow> rd sense (off + 11); dev \<leftarrow> rd sense (off + 12);
          st \<leftarrow> rd sense (off + 13);
          Some (r\<lparr>ar_error := e, ar_count := c, ar_lba_low := low, ar_lba_mid := mid, ar_lba_high := high,
                  ar_device := dev, ar_status := st, ar_success := ar_success r \<and> st AND 0x01 = 0\<rparr>) }"

definition read_sense :: "sg_reply \<Rightarrow> AtaResult \<Rightarrow> AtaResult option" where
  "read_sense reply r =
     (if sg_sb_len_wr reply > 0 then do {
        code \<leftarrow> rd (sg_sense reply) 0;
        (if code = 0x72 \<or> code = 0x73 then do {
           key \<leftarrow> rd (sg_sense reply) 1;
           asc \<leftarrow> rd (sg_sense reply) 2;
           ascq \<leftarrow> rd (sg_sense reply) 3;
           found \<leftarrow> find_descriptor (sg_sense reply) (sg_sb_len_wr reply) 8;
           (let r1 = r\<lparr>ar_sense_key := key AND 0x0F, ar_asc := asc, ar_ascq := ascq\<rparr>
            in case found of None \<Rightarrow> Some r1 | Some off \<Rightarrow> read_descriptor (sg_sense reply) off r1) }
         else Some r) }
      else Some r)"

text \<open>
  The result is the error, the result structure and the bytes delivered to the data buffer; the length is
  cast to \<open>unsigned int\<close>.
\<close>

definition ata_execute ::
    "(sg_request \<Rightarrow> sg_answer) \<Rightarrow> int \<Rightarrow> AtaCommand option \<Rightarrow> AtaResult option
     \<Rightarrow> (ErasecureError \<times> AtaResult option \<times> byte list) option" where
  "ata_execute sg_io fd cmd result =
     (case (cmd, result) of
        (Some c, Some _) \<Rightarrow>
          if fd < 0 then Some (ERASECURE_ERR_INVALID_ARGUMENT, result, [])
          else (case sg_io (ata_cdb c, ac_direction c, wrap32 (ac_data_len c), ac_timeout_ms c) of
            Sg_error eacces \<Rightarrow>
              Some (if eacces then ERASECURE_ERR_PERMISSION_DENIED else ERASECURE_ERR_IOCTL_FAILED,
                    Some zero_ata_result, [])
          | Sg_reply reply \<Rightarrow>
              map_option (\<lambda>r. (ERASECURE_SUCCESS,
                               Some (r\<lparr>ar_success := ar_success r \<and> sg_status reply = 0\<rparr>), sg_data reply))
                (read_sense reply (zero_ata_result\<lparr>ar_sg_status := sg_status reply, ar_success := True\<rparr>)))
      | _ \<Rightarrow> Some (ERASECURE_ERR_INVALID_ARGUMENT, result, []))"

definition ata_execute_path ::
    "(string \<Rightarrow> open_answer) \<Rightarrow> (sg_request \<Rightarrow> sg_answer) \<Rightarrow> string option \<Rightarrow> AtaCommand option
     \<Rightarrow> AtaResult option \<Rightarrow> (ErasecureError \<times> AtaResult option \<times> byte list) option" where
  "ata_execute_path open_path sg_io device_path cmd result =
     (case (device_path, cmd, result) of
        (Some p, Some _, Some _) \<Rightarrow>
          (case open_path p of
             Open_eacces \<Rightarrow> Some (ERASECURE_ERR_PERMISSION_DENIED, result, [])
           | Open_failed \<Rightarrow> Some (ERASECURE_ERR_IOCTL_FAILED, result, [])
           | Opened \<Rightarrow> ata_execute sg_io 3 cmd result)
      | _ \<Rightarrow> Some (ERASECURE_ERR_INVALID_ARGUMENT, result, []))"

text \<open>\<open>%02X\<close> of a byte. A length of 0 also stands for a NULL buffer.\<close>

definition hex2_upper :: "byte \<Rightarrow> string" where
  "hex2_upper b = [''0123456789ABCDEF'' ! (unat b div 16), ''0123456789ABCDEF'' ! (unat b mod 16)]"

definition ata_result_str :: "AtaResult option \<Rightarrow> nat \<Rightarrow> string" where
  "ata_result_str result buf_len =
     (case result of None \<Rightarrow> []
      | Some r \<Rightarrow> if buf_len = 0 then []
          else cstr buf_len (''Success: '' @ (if ar_success r then ''true'' else ''false'')
                 @ '', Status: 0x'' @ hex2_upper (ar_status r) @ '', Error: 0x'' @ hex2_upper (ar_error r)
                 @ '', SG Status: 0x'' @ hex2_upper (ar_sg_status r)))"

section \<open>Identification\<close>

record AtaIdentifyData =
  aid_model :: string
  aid_serial :: string
  aid_firmware :: string
  aid_lba_capacity :: u64
  aid_logical_sector_size :: u32
  aid_physical_sector_size :: u32
  aid_security_supported :: bool
  aid_security_enabled :: bool
  aid_security_locked :: bool
  aid_security_frozen :: bool
  aid_security_count_expired :: bool
  aid_enhanced_erase_supported :: bool
  aid_erase_time_normal :: u16
  aid_erase_time_enhanced :: u16
  aid_sanitize_supported :: bool
  aid_sanitize_crypto_scramble :: bool
  aid_sanitize_block_erase :: bool
  aid_sanitize_overwrite :: bool
  aid_raw_words :: "u16 list"

definition byteswap_string :: "u16 list \<Rightarrow> string" where
  "byteswap_string src =
     c_string (strip_spaces (concat (map (\<lambda>w. [ucast (drop_bit 8 w), ucast w]) src)))"

definition identify_words :: "byte list \<Rightarrow> u16 list" where
  "identify_words buffer =
     map (\<lambda>i. push_bit 8 (ucast (buffer ! (i * 2 + 1))) OR ucast (buffer ! (i * 2))) [0..<256]"

definition wd_bit :: "u16 list \<Rightarrow> nat \<Rightarrow> nat \<Rightarrow> bool" where
  "wd_bit w i n = bit (w ! i) n"

definition words_from :: "u16 list \<Rightarrow> nat \<Rightarrow> nat \<Rightarrow> u16 list" where
  "words_from w i n = take n (drop i w)"

text \<open>The logical and the physical sector size.\<close>

definition sector_sizes :: "u16 list \<Rightarrow> u32 \<times> u32" where
  "sector_sizes w =
     (if wd_bit w 106 12 \<and> wd_bit w 106 14 \<and> \<not> wd_bit w 106 15
      then let logical = (push_bit 16 (ucast (w ! 118)) OR ucast (w ! 117)) * 2
           in (logical, if wd_bit w 106 13 then logical * push_bit (unat (w ! 106 AND 0x0F)) 1 else logical)
      else (512, 512))"

definition parse_identify :: "u16 list \<Rightarrow> AtaIdentifyData" where
  "parse_identify w =
     (let sanitize = (w ! 59 AND 0xC000 = 0x4000)
      in \<lparr>aid_model = byteswap_string (words_from w 27 20),
          aid_serial = byteswap_string (words_from w 10 10),
          aid_firmware = byteswap_string (words_from w 23 4),
          aid_lba_capacity =
            (if wd_bit w 83 10
             then push_bit 48 (ucast (w ! 103)) OR push_bit 32 (ucast (w ! 102)) OR push_bit 16 (ucast (w ! 101))
                  OR ucast (w ! 100)
             else 0),
          aid_logical_sector_size = fst (sector_sizes w),
          aid_physical_sector_size = snd (sector_sizes w),
          aid_security_supported = wd_bit w 82 1,
          aid_security_enabled = wd_bit w 85 1,
          aid_security_locked = wd_bit w 128 2,
          aid_security_frozen = wd_bit w 128 3,
          aid_security_count_expired = wd_bit w 128 4,
          aid_enhanced_erase_supported = wd_bit w 128 5,
          aid_erase_time_normal = w ! 89 AND 0x7FFF,
          aid_erase_time_enhanced = w ! 90 AND 0x7FFF,
          aid_sanitize_supported = (sanitize \<and> wd_bit w 59 12),
          aid_sanitize_crypto_scramble = (sanitize \<and> wd_bit w 59 13),
          aid_sanitize_block_erase = (sanitize \<and> wd_bit w 59 14),
          aid_sanitize_overwrite = (sanitize \<and> wd_bit w 59 15),
          aid_raw_words = w\<rparr>)"

definition identify_command :: AtaCommand where
  "identify_command =
     (the (ata_command_init (Some zero_ata_command)))
       \<lparr>ac_command := 0xEC, ac_protocol := 4, ac_direction := SG_DXFER_FROM_DEV,
        ac_data_buf := Some (replicate 512 0), ac_data_len := 512, ac_count := 1\<rparr>"

text \<open>The zeroed buffer of \<open>n\<close> bytes after a transfer of \<open>data\<close> into it.\<close>

definition transfer :: "nat \<Rightarrow> byte list \<Rightarrow> byte list" where
  "transfer n data = take n (data @ replicate n 0)"

definition ata_identify_device ::
    "(string \<Rightarrow> open_answer) \<Rightarrow> (sg_request \<Rightarrow> sg_answer) \<Rightarrow> string option \<Rightarrow> AtaIdentifyData option
     \<Rightarrow> (ErasecureError \<times> AtaIdentifyData option) option" where
  "ata_identify_device open_path sg_io device_path data =
     (case (device_path, data) of
        (Some _, Some _) \<Rightarrow>
          map_option
            (\<lambda>(err, result, received).
               if err \<noteq> ERASECURE_SUCCESS then (err, data)
               else if \<not> ar_success (the result) then (ERASECURE_ERR_IOCTL_FAILED, data)
               else (ERASECURE_SUCCESS, Some (parse_identify (identify_words (transfer 512 received)))))
            (ata_execute_path open_path sg_io device_path (Some identify_command) (Some zero_ata_result))
      | _ \<Rightarrow> Some (ERASECURE_ERR_INVALID_ARGUMENT, data))"

definition bool_d :: "bool \<Rightarrow> string" where "bool_d b = (if b then ''1'' else ''0'')"

definition ata_identify_summary :: "AtaIdentifyData option \<Rightarrow> nat \<Rightarrow> string" where
  "ata_identify_summary data buf_len =
     (case data of None \<Rightarrow> []
      | Some d \<Rightarrow> if buf_len = 0 then []
          else cstr buf_len
            (''Model: '' @ aid_model d @ newline # ''Serial: '' @ aid_serial d @ newline # ''Firmware: ''
             @ aid_firmware d @ newline # ''LBA Capacity: '' @ dec (unat (aid_lba_capacity d)) @ newline
             # ''Security: Supported='' @ bool_d (aid_security_supported d) @ '', Enabled='' @ bool_d (aid_security_enabled d)
             @ '', Locked='' @ bool_d (aid_security_locked d) @ '', Frozen='' @ bool_d (aid_security_frozen d) @ newline
             # ''Sanitize: Crypto='' @ bool_d (aid_sanitize_crypto_scramble d) @ '', Block='' @ bool_d (aid_sanitize_block_erase d)
             @ '', Overwrite='' @ bool_d (aid_sanitize_overwrite d)))"

section \<open>Sanitize capabilities\<close>

datatype AtaSanitizeStatus =
    ATA_SANITIZE_SUCCESS | ATA_SANITIZE_NOT_SUPPORTED | ATA_SANITIZE_FROZEN | ATA_SANITIZE_LOCKED
  | ATA_SANITIZE_FAILED | ATA_SANITIZE_NOT_IMPLEMENTED

record AtaSanitizeCapabilities =
  asc_can_security_erase :: bool
  asc_can_enhanced_erase :: bool
  asc_can_sanitize_overwrite :: bool
  asc_can_sanitize_block_erase :: bool
  asc_can_sanitize_crypto :: bool
  asc_is_frozen :: bool
  asc_is_locked :: bool
  asc_normal_erase_minutes :: u16
  asc_enhanced_erase_minutes :: u16

definition zero_ata_caps :: AtaSanitizeCapabilities where
  "zero_ata_caps =
     \<lparr>asc_can_security_erase = False, asc_can_enhanced_erase = False, asc_can_sanitize_overwrite = False,
      asc_can_sanitize_block_erase = False, asc_can_sanitize_crypto = False, asc_is_frozen = False,
      asc_is_locked = False, asc_normal_erase_minutes = 0, asc_enhanced_erase_minutes = 0\<rparr>"

definition caps_of_identify :: "AtaIdentifyData \<Rightarrow> AtaSanitizeCapabilities" where
  "caps_of_identify d =
     (let security = (aid_security_supported d \<and> \<not> aid_security_frozen d)
      in \<lparr>asc_can_security_erase = security,
          asc_can_enhanced_erase = (security \<and> aid_enhanced_erase_supported d),
          asc_can_sanitize_overwrite = (aid_sanitize_supported d \<and> aid_sanitize_overwrite d),
          asc_can_sanitize_block_erase = (aid_sanitize_supported d \<and> aid_sanitize_block_erase d),
          asc_can_sanitize_crypto = (aid_sanitize_supported d \<and> aid_sanitize_crypto_scramble d),
          asc_is_frozen = aid_security_frozen d,
          asc_is_locked = aid_security_locked d,
          asc_normal_erase_minutes = aid_erase_time_normal d,
          asc_enhanced_erase_minutes = aid_erase_time_enhanced d\<rparr>)"

text \<open>\<open>junk\<close> is the uninitialised structure the query lets the identification fill.\<close>

definition ata_sanitize_query ::
    "(string \<Rightarrow> open_answer) \<Rightarrow> (sg_request \<Rightarrow> sg_answer) \<Rightarrow> AtaIdentifyData \<Rightarrow> string option
     \<Rightarrow> AtaSanitizeCapabilities option \<Rightarrow> (ErasecureError \<times> AtaSanitizeCapabilities option) option" where
  "ata_sanitize_query open_path sg_io junk device_path caps =
     (case (device_path, caps) of
        (Some _, Some _) \<Rightarrow>
          map_option
            (\<lambda>(err, d). if err \<noteq> ERASECURE_SUCCESS then (err, Some zero_ata_caps)
                        else (ERASECURE_SUCCESS, Some (caps_of_identify (the d))))
            (ata_identify_device open_path sg_io device_path (Some junk))
      | _ \<Rightarrow> Some (ERASECURE_ERR_INVALID_ARGUMENT, caps))"

fun ata_sanitize_status_str :: "AtaSanitizeStatus \<Rightarrow> string" where
  "ata_sanitize_status_str ATA_SANITIZE_SUCCESS = ''SUCCESS''"
| "ata_sanitize_status_str ATA_SANITIZE_NOT_SUPPORTED = ''NOT SUPPORTED''"
| "ata_sanitize_status_str ATA_SANITIZE_FROZEN = ''FROZEN''"
| "ata_sanitize_status_str ATA_SANITIZE_LOCKED = ''LOCKED''"
| "ata_sanitize_status_str ATA_SANITIZE_FAILED = ''FAILED''"
| "ata_sanitize_status_str ATA_SANITIZE_NOT_IMPLEMENTED = ''NOT IMPLEMENTED''"

section \<open>Lemmas\<close>

lemma find_descriptor_ok:
  assumes "length sense = SENSE_BUF_LEN" "n \<le> SENSE_BUF_LEN"
  shows "\<exists>r. find_descriptor sense n off = Some r \<and> (\<forall>o'. r = Some o' \<longrightarrow> o' + 13 < SENSE_BUF_LEN)"
  using assms
proof (induction sense n off rule: find_descriptor.induct)
  case (1 sense n off)
  then show ?case by (subst find_descriptor.simps) (simp add: rd_Some)
qed

lemma read_descriptor_ok:
  "off + 13 < length sense \<Longrightarrow> read_descriptor sense off r = Some (r\<lparr>ar_error := sense ! (off + 3),
     ar_count := sense ! (off + 5), ar_lba_low := sense ! (off + 7), ar_lba_mid := sense ! (off + 9),
     ar_lba_high := sense ! (off + 11), ar_device := sense ! (off + 12), ar_status := sense ! (off + 13),
     ar_success := ar_success r \<and> sense ! (off + 13) AND 0x01 = 0\<rparr>)"
  by (simp add: read_descriptor_def rd_Some)

definition reply_ok :: "sg_reply \<Rightarrow> bool" where
  "reply_ok reply \<longleftrightarrow> length (sg_sense reply) = SENSE_BUF_LEN \<and> sg_sb_len_wr reply \<le> SENSE_BUF_LEN"

lemma read_sense_ok: "reply_ok reply \<Longrightarrow> read_sense reply r \<noteq> None"
proof -
  assume ok: "reply_ok reply"
  then obtain x where x: "find_descriptor (sg_sense reply) (sg_sb_len_wr reply) 8 = Some x"
      "\<forall>o'. x = Some o' \<longrightarrow> o' + 13 < SENSE_BUF_LEN"
    using find_descriptor_ok [of "sg_sense reply" "sg_sb_len_wr reply" 8] unfolding reply_ok_def by blast
  have len: "length (sg_sense reply) = 32" using ok by (simp add: reply_ok_def SENSE_BUF_LEN_def)
  have "rd (sg_sense reply) i = Some (sg_sense reply ! i)" if "i < 4" for i using that len by (simp add: rd_def)
  then show ?thesis
    using x len by (cases x) (auto simp: read_sense_def Let_def read_descriptor_ok SENSE_BUF_LEN_def)
qed

lemma word59_guard: "w AND 0xC000 = (0x4000 :: u16) \<Longrightarrow> bit w 14 \<and> \<not> bit w 15"
proof -
  assume eq: "w AND 0xC000 = 0x4000"
  have "bit (w AND 0xC000) 14 \<longleftrightarrow> bit w 14" "bit (w AND 0xC000) 15 \<longleftrightarrow> bit w 15" by (simp_all add: bit_simps)
  with eq show ?thesis by simp
qed

text \<open>A descriptor of the sense data: its type, the length of the rest, the rest.\<close>

definition sense_descriptor :: "byte \<times> byte list \<Rightarrow> byte list" where
  "sense_descriptor d = fst d # word_of_nat (length (snd d)) # snd d"

lemma find_descriptor_skip:
  assumes "\<forall>d \<in> set ds. fst d \<noteq> 0x09 \<and> length (snd d) < 256"
    and "length pre + length (concat (map sense_descriptor ds)) + 1 < n"
  shows "find_descriptor (pre @ concat (map sense_descriptor ds) @ rest) n (length pre)
    = find_descriptor (pre @ concat (map sense_descriptor ds) @ rest) n (length pre + length (concat (map sense_descriptor ds)))"
  using assms
proof (induction ds arbitrary: pre)
  case (Cons d ds)
  have len: "unat (word_of_nat (length (snd d)) :: byte) = length (snd d)"
    using Cons.prems(1) by (simp add: unsigned_of_nat take_bit_eq_mod)
  let ?s = "pre @ concat (map sense_descriptor (d # ds)) @ rest"
  have s: "?s = (pre @ sense_descriptor d) @ concat (map sense_descriptor ds) @ rest" by simp
  have "rd ?s (length pre) = Some (fst d)" "rd ?s (length pre + 1) = Some (word_of_nat (length (snd d)))"
    by (simp_all add: rd_def nth_append sense_descriptor_def)
  then have "find_descriptor ?s n (length pre) = find_descriptor ?s n (length (pre @ sense_descriptor d))"
    using Cons.prems len by (subst find_descriptor.simps) (simp add: sense_descriptor_def)
  also have "\<dots> = find_descriptor ?s n (length (pre @ sense_descriptor d) + length (concat (map sense_descriptor ds)))"
    unfolding s using Cons.prems by (intro Cons.IH) simp_all
  finally show ?case by (simp add: add.assoc)
qed simp

section \<open>Properties\<close>

text \<open>
  Interpreting the sense data stays inside the sense buffer: as long as the driver reports at most the
  32 bytes it was offered, executing a command or the query built on it makes no access outside it, whatever
  descriptor lengths the device sends.
\<close>

theorem ata_reads_sense_only:
  assumes "\<And>req reply. sg_io req = Sg_reply reply \<Longrightarrow> reply_ok reply"
  shows "ata_execute sg_io fd cmd result \<noteq> None
    \<and> ata_sanitize_query open_path sg_io junk device_path caps \<noteq> None"
proof -
  have sense: "\<exists>z. read_sense reply r = Some z" if "sg_io (a, b, m, k) = Sg_reply reply" for a b m k reply r
    using read_sense_ok [OF assms [OF that]] by simp
  have exec: "ata_execute sg_io fd cmd result \<noteq> None" for fd cmd result
    by (auto simp: ata_execute_def split: option.split sg_answer.split intro: sense)
  then have "ata_execute_path open_path sg_io path cmd result \<noteq> None" for path cmd result
    unfolding ata_execute_path_def by (simp split: option.split open_answer.split)
  with exec show ?thesis
    by (simp add: ata_sanitize_query_def ata_identify_device_def del: not_None_eq split: option.split)
qed

text \<open>
  C34. The outcome of a command is that of the device: with the ATA return descriptor anywhere behind other
  descriptors in the sense data, its registers are reported, and the command counts as successful exactly
  when the SCSI status is good and the ERR bit of the ATA status is clear.
\<close>

theorem ata_execute_reports_device:
  assumes "sg_io (ata_cdb c, ac_direction c, wrap32 (ac_data_len c), ac_timeout_ms c) = Sg_reply reply" "0 \<le> fd"
    and sense: "sg_sense reply = hdr @ concat (map sense_descriptor ds) @ sense_descriptor (0x09, payload) @ rest"
    and "reply_ok reply" "length hdr = 8" "hdr ! 0 = 0x72" "length payload = 12"
    and "\<forall>d \<in> set ds. fst d \<noteq> 0x09 \<and> length (snd d) < 256"
    and wr: "8 + length (concat (map sense_descriptor ds)) + 14 \<le> sg_sb_len_wr reply"
  shows "\<exists>r. ata_execute sg_io fd (Some c) (Some start) = Some (ERASECURE_SUCCESS, Some r, sg_data reply)
    \<and> ar_status r = payload ! 11 \<and> ar_error r = payload ! 1
    \<and> (ar_success r \<longleftrightarrow> sg_status reply = 0 \<and> payload ! 11 AND 0x01 = 0)"
proof -
  define off where "off = 8 + length (concat (map sense_descriptor ds))"
  let ?s = "sg_sense reply"
  have len: "length ?s = 32" "off + 14 \<le> 32" "sg_sb_len_wr reply > 0"
    using assms(4) wr by (simp_all add: reply_ok_def SENSE_BUF_LEN_def off_def)
  have at: "?s ! (off + i) = sense_descriptor (0x09, payload) ! i" if "i < 14" for i
    using that assms(5,7) nth_append [of "9 # 12 # payload" rest i]
    by (simp add: sense off_def nth_append [of hdr] nth_append [of "concat (map sense_descriptor ds)"] sense_descriptor_def)
  have ty: "rd ?s off = Some 0x09" "rd ?s (off + 1) = Some 12"
    using at [of 0] at [of 1] assms(7) len by (simp_all add: rd_def sense_descriptor_def)
  have "find_descriptor ?s (sg_sb_len_wr reply) 8 = find_descriptor ?s (sg_sb_len_wr reply) off"
    using find_descriptor_skip [OF assms(8), of hdr "sg_sb_len_wr reply"] wr assms(5) by (simp add: sense off_def)
  also have "\<dots> = Some (Some off)"
    using ty len wr by (subst find_descriptor.simps) (simp add: SENSE_BUF_LEN_def off_def)
  finally have found: "find_descriptor ?s (sg_sb_len_wr reply) 8 = Some (Some off)" .
  have hdr: "rd ?s 0 = Some 0x72" "rd ?s (Suc 0) = Some (?s ! 1)" "rd ?s 2 = Some (?s ! 2)" "rd ?s 3 = Some (?s ! 3)"
    using assms(5,6) len by (auto simp: rd_def sense nth_append)
  have vals: "?s ! (off + 3) = payload ! 1" "?s ! (off + 13) = payload ! 11"
    using at [of 3] at [of 13] by (simp_all add: sense_descriptor_def)
  have r: "read_descriptor ?s off r = Some (r\<lparr>ar_error := payload ! 1, ar_count := ?s ! (off + 5),
      ar_lba_low := ?s ! (off + 7), ar_lba_mid := ?s ! (off + 9), ar_lba_high := ?s ! (off + 11),
      ar_device := ?s ! (off + 12), ar_status := payload ! 11,
      ar_success := ar_success r \<and> payload ! 11 AND 0x01 = 0\<rparr>)" for r
    using len by (subst read_descriptor_ok) (simp_all add: vals)
  show ?thesis
    using assms(1,2) len(3) by (auto simp: ata_execute_def read_sense_def hdr found r Let_def)
qed

text \<open>
  Capability queries are conservative but wrong about two features. An overwrite sanitize is never
  offered and a block erase sanitize is offered whenever a sanitize feature is, because both bits are read
  under the guard \<open>(word & 0xC000) == 0x4000\<close> that fixes them; a security erase is offered only to a
  drive that is not frozen.
\<close>

theorem ata_query_capabilities:
  assumes "ata_sanitize_query open_path sg_io junk device_path caps = Some (ERASECURE_SUCCESS, Some c)"
  shows "\<not> asc_can_sanitize_overwrite c
    \<and> (asc_can_sanitize_crypto c \<longrightarrow> asc_can_sanitize_block_erase c)
    \<and> (asc_can_enhanced_erase c \<longrightarrow> asc_can_security_erase c)
    \<and> (asc_can_security_erase c \<longrightarrow> \<not> asc_is_frozen c)"
proof -
  have "\<exists>w. c = caps_of_identify (parse_identify w)"
    using assms unfolding ata_sanitize_query_def ata_identify_device_def
    by (auto split: option.splits prod.splits if_splits; metis)
  then obtain w where "c = caps_of_identify (parse_identify w)" ..
  then show ?thesis
    using word59_guard [of "w ! 59"] by (auto simp: caps_of_identify_def parse_identify_def wd_bit_def Let_def)
qed

text \<open>The words in which a drive stores a text of at most \<open>2 * n\<close> characters, padded with spaces.\<close>

fun pair_words :: "byte list \<Rightarrow> u16 list" where
  "pair_words (a # b # bs) = (push_bit 8 (ucast a) OR ucast b) # pair_words bs"
| "pair_words _ = []"

definition ata_text :: "nat \<Rightarrow> string \<Rightarrow> u16 list" where
  "ata_text n s = pair_words (bytes_of s @ replicate (2 * n - length s) 32)"

lemma pair_words_bytes:
  "even (length bs) \<Longrightarrow> concat (map (\<lambda>w. [ucast (drop_bit 8 w), ucast w]) (pair_words bs)) = bs"
proof (induction bs rule: pair_words.induct)
  case (1 a b bs)
  have "ucast (drop_bit 8 (push_bit 8 (ucast a) OR ucast b :: u16)) = a"
    by (rule bit_word_eqI) (auto simp: bit_simps dest: bit_imp_le_length)
  moreover have "ucast (push_bit 8 (ucast a) OR ucast b :: u16) = b"
    by (rule bit_word_eqI) (auto simp: bit_simps)
  ultimately show ?case using 1 by simp
qed simp_all

text \<open>
  The texts of a drive (model, serial number, firmware) are recovered exactly: swapping the bytes of the
  words and cutting the padding gives back every text without NUL and trailing space.
\<close>

theorem ata_text_roundtrip:
  assumes "length s \<le> 2 * n" "\<forall>c \<in> set s. c \<noteq> CHR 0x00" "s = [] \<or> last s \<noteq> CHR '' ''"
  shows "byteswap_string (ata_text n s) = s"
proof -
  have "bytes_of s = [] \<or> last (bytes_of s) \<noteq> 32" using assms(3) by (rule bytes_of_last)
  then have "strip_spaces (bytes_of s @ replicate (2 * n - length s) 32) = bytes_of s" by (rule strip_padding)
  then show ?thesis
    using assms(1) c_string_bytes_of [OF assms(2)]
    by (simp add: byteswap_string_def ata_text_def pair_words_bytes)
qed

section \<open>Witnesses\<close>

definition demo_sense :: "byte list" where
  "demo_sense = [0x72, 0x0B, 0, 0, 0, 0, 0, 17] @ concat (map sense_descriptor [(0x01, [5])])
     @ sense_descriptor (0x09, replicate 11 0 @ [0x51]) @ replicate 7 0"

definition demo_reply :: sg_reply where
  "demo_reply = \<lparr>sg_status = 2, sg_sb_len_wr = 25, sg_sense = demo_sense, sg_data = []\<rparr>"

definition quiet_reply :: sg_reply where
  "quiet_reply = \<lparr>sg_status = 0, sg_sb_len_wr = 0, sg_sense = replicate 32 0, sg_data = []\<rparr>"

lemma demo_reply_ok: "reply_ok demo_reply" "reply_ok quiet_reply"
  by (simp_all add: reply_ok_def demo_reply_def demo_sense_def quiet_reply_def SENSE_BUF_LEN_def sense_descriptor_def)

theorem ata_reads_sense_only_witness:
  "ata_execute (\<lambda>_. Sg_reply demo_reply) 3 (Some identify_command) (Some zero_ata_result) \<noteq> None"
  by (rule conjunct1 [OF ata_reads_sense_only [where open_path = "\<lambda>_. Opened" and device_path = None and caps = None
        and junk = "parse_identify []"]]) (simp add: demo_reply_ok)

theorem ata_execute_reports_device_witness:
  "\<exists>r. ata_execute (\<lambda>_. Sg_reply demo_reply) 3 (Some identify_command) (Some zero_ata_result)
      = Some (ERASECURE_SUCCESS, Some r, []) \<and> ar_status r = 0x51 \<and> \<not> ar_success r"
proof -
  let ?p = "replicate 11 0 @ [0x51 :: byte]"
  have p: "length ?p = 12" "?p ! 11 = 0x51" by (simp_all add: nth_append)
  have sense: "sg_sense demo_reply = [0x72, 0x0B, 0, 0, 0, 0, 0, 17] @ concat (map sense_descriptor [(0x01, [5])])
      @ sense_descriptor (0x09, ?p) @ replicate 7 0" by (simp add: demo_reply_def demo_sense_def)
  have st: "sg_status demo_reply \<noteq> 0" "sg_data demo_reply = []" by (simp_all add: demo_reply_def)
  from ata_execute_reports_device [where sg_io = "\<lambda>_. Sg_reply demo_reply" and fd = 3 and c = identify_command
      and start = zero_ata_result, OF refl _ sense demo_reply_ok(1) _ _ p(1)] p(2) st
  show ?thesis by (auto simp: sense_descriptor_def demo_reply_def)
qed

theorem ata_query_capabilities_witness:
  "\<exists>c. ata_sanitize_query (\<lambda>_. Opened) (\<lambda>_. Sg_reply quiet_reply) (parse_identify []) (Some ''/dev/sg0'')
      (Some zero_ata_caps) = Some (ERASECURE_SUCCESS, Some c) \<and> \<not> asc_can_sanitize_overwrite c"
proof -
  have "\<exists>c. ata_sanitize_query (\<lambda>_. Opened) (\<lambda>_. Sg_reply quiet_reply) (parse_identify []) (Some ''/dev/sg0'')
      (Some zero_ata_caps) = Some (ERASECURE_SUCCESS, Some c)"
    by (simp add: ata_sanitize_query_def ata_identify_device_def ata_execute_path_def ata_execute_def read_sense_def quiet_reply_def)
  then obtain c where c: "ata_sanitize_query (\<lambda>_. Opened) (\<lambda>_. Sg_reply quiet_reply) (parse_identify []) (Some ''/dev/sg0'')
      (Some zero_ata_caps) = Some (ERASECURE_SUCCESS, Some c)" ..
  from ata_query_capabilities [OF c] c show ?thesis by blast
qed

theorem ata_text_roundtrip_witness: "byteswap_string (ata_text 10 ''WDC WD40EFRX'') = ''WDC WD40EFRX''"
  by (rule ata_text_roundtrip) simp_all

end
