(* ===== verification/Nvme.thy ===== *)
theory Nvme
  imports Ata
begin

text \<open>
  NVMe pass-through, identification and sanitize capabilities: \<open>src/nvme/\<close> and \<open>include/nvme/\<close>, as
  compiled on Linux. The answer of \<open>ioctl(NVME_IOCTL_ADMIN_CMD)\<close> to a command and that of \<open>open\<close> are
  parameters. Record fields carry the prefixes \<open>nc_\<close>, \<open>nr_\<close>, \<open>nctl_\<close>, \<open>nns_\<close> and \<open>nsc_\<close>.
\<close>

unbundle bit_operations_syntax

section \<open>Data\<close>

record NvmeAdminCommand =
  nc_opcode :: byte
  nc_nsid :: u32
  nc_cdw10 :: u32
  nc_cdw11 :: u32
  nc_cdw12 :: u32
  nc_cdw13 :: u32
  nc_cdw14 :: u32
  nc_cdw15 :: u32
  nc_data_buf :: "byte list option"
  nc_data_len :: nat
  nc_timeout_ms :: nat

record NvmeResult =
  nr_status :: u32
  nr_result :: u32
  nr_success :: bool
  nr_sct :: byte
  nr_sc :: byte

definition zero_nvme_command :: NvmeAdminCommand where
  "zero_nvme_command =
     \<lparr>nc_opcode = 0, nc_nsid = 0, nc_cdw10 = 0, nc_cdw11 = 0, nc_cdw12 = 0, nc_cdw13 = 0, nc_cdw14 = 0,
      nc_cdw15 = 0, nc_data_buf = None, nc_data_len = 0, nc_timeout_ms = 0\<rparr>"

definition zero_nvme_result :: NvmeResult where
  "zero_nvme_result = \<lparr>nr_status = 0, nr_result = 0, nr_success = False, nr_sct = 0, nr_sc = 0\<rparr>"

text \<open>
  \<open>ioctl\<close> fails (with \<open>errno == EACCES\<close> or not) or returns the completion status, the command's result
  and the data transferred.
\<close>

datatype nvme_answer = Nvme_error bool | Nvme_done u32 u32 "byte list"

section \<open>Executing a command\<close>

definition nvme_admin_cmd_init :: "NvmeAdminCommand option \<Rightarrow> NvmeAdminCommand option" where
  "nvme_admin_cmd_init cmd = map_option (\<lambda>_. zero_nvme_command) cmd"

definition nvme_admin_execute ::
    "(NvmeAdminCommand \<Rightarrow> nvme_answer) \<Rightarrow> NvmeAdminCommand option \<Rightarrow> NvmeResult option
     \<Rightarrow> ErasecureError \<times> NvmeResult option \<times> byte list" where
  "nvme_admin_execute ioctl_admin cmd result =
     (case (cmd, result) of
        (Some c, Some _) \<Rightarrow>
          (case ioctl_admin c of
             Nvme_error eacces \<Rightarrow>
               (if eacces then ERASECURE_ERR_PERMISSION_DENIED else ERASECURE_ERR_IOCTL_FAILED,
                Some zero_nvme_result, [])
           | Nvme_done ret res data \<Rightarrow>
               (ERASECURE_SUCCESS,
                Some \<lparr>nr_status = ret, nr_result = res, nr_success = (ret = 0),
                      nr_sct = ucast (drop_bit 8 ret) AND 0x7, nr_sc = ucast ret\<rparr>, data))
      | _ \<Rightarrow> (ERASECURE_ERR_INVALID_ARGUMENT, result, []))"

definition nvme_admin_execute_path ::
    "(string \<Rightarrow> open_answer) \<Rightarrow> (NvmeAdminCommand \<Rightarrow> nvme_answer) \<Rightarrow> string option \<Rightarrow> NvmeAdminCommand option
     \<Rightarrow> NvmeResult option \<Rightarrow> ErasecureError \<times> NvmeResult option \<times> byte list" where
  "nvme_admin_execute_path open_path ioctl_admin device_path cmd result =
     (case (device_path, cmd, result) of
        (Some p, Some _, Some _) \<Rightarrow>
          (case open_path p of
             Open_eacces \<Rightarrow> (ERASECURE_ERR_PERMISSION_DENIED, result, [])
           | Open_failed \<Rightarrow> (ERASECURE_ERR_DEVICE_OPEN_FAILED, result, [])
           | Opened \<Rightarrow> nvme_admin_execute ioctl_admin cmd result)
      | _ \<Rightarrow> (ERASECURE_ERR_INVALID_ARGUMENT, result, []))"

text \<open>\<open>%x\<close> of an unsigned value.\<close>

fun hex_nat :: "nat \<Rightarrow> string" where
  "hex_nat n = (if n < 16 then [digit_char n] else hex_nat (n div 16) @ [digit_char (n mod 16)])"

declare hex_nat.simps [simp del]

text \<open>A NULL answer stands for a NULL result or buffer; a length of 0 also stands for a NULL buffer.\<close>

definition nvme_result_str :: "NvmeResult option \<Rightarrow> nat \<Rightarrow> string option" where
  "nvme_result_str result buf_len =
     (case result of None \<Rightarrow> None
      | Some r \<Rightarrow> if buf_len = 0 then None
          else Some (cstr buf_len (''Status: 0x'' @ hex_nat (unat (nr_status r)) @ '' (SCT: 0x'' @ hex_nat (unat (nr_sct r))
                 @ '', SC: 0x'' @ hex_nat (unat (nr_sc r)) @ ''), Result (CDW0): 0x'' @ hex_nat (unat (nr_result r))
                 @ '', Success: '' @ (if nr_success r then ''true'' else ''false''))))"

section \<open>Identification\<close>

record NvmeControllerData =
  nctl_model :: string
  nctl_serial :: string
  nctl_firmware :: string
  nctl_vid :: nat
  nctl_ssvid :: nat
  nctl_nn :: nat
  nctl_sanicap :: byte
  nctl_sanitize_crypto :: bool
  nctl_sanitize_block :: bool
  nctl_sanitize_overwrite :: bool
  nctl_format_supported :: bool
  nctl_oacs :: nat
  nctl_fna :: byte

record NvmeNamespaceData =
  nns_nsze :: nat
  nns_ncap :: nat
  nns_nuse :: nat
  nns_lba_size :: u32
  nns_flbas :: byte
  nns_nlbaf :: byte

definition trim_ascii :: "byte list \<Rightarrow> nat \<Rightarrow> string" where
  "trim_ascii src dest_size = c_string (strip_spaces (take (dest_size - 1) src))"

definition field :: "byte list \<Rightarrow> nat \<Rightarrow> nat \<Rightarrow> byte list" where
  "field buf off n = take n (drop off buf)"

definition parse_controller :: "byte list \<Rightarrow> NvmeControllerData" where
  "parse_controller buf =
     (let oacs = le_value (field buf 256 2); sanicap = buf ! 328
      in \<lparr>nctl_model = trim_ascii (field buf 24 40) 41,
          nctl_serial = trim_ascii (field buf 4 20) 21,
          nctl_firmware = trim_ascii (field buf 64 8) 9,
          nctl_vid = le_value (field buf 0 2),
          nctl_ssvid = le_value (field buf 2 2),
          nctl_nn = le_value (field buf 516 4),
          nctl_sanicap = sanicap,
          nctl_sanitize_crypto = bit sanicap 2,
          nctl_sanitize_block = bit sanicap 1,
          nctl_sanitize_overwrite = bit sanicap 0,
          nctl_format_supported = bit oacs 1,
          nctl_oacs = oacs,
          nctl_fna = buf ! 527\<rparr>)"

definition identify_nvme_command :: "u32 \<Rightarrow> u32 \<Rightarrow> NvmeAdminCommand" where
  "identify_nvme_command nsid cns =
     (the (nvme_admin_cmd_init (Some zero_nvme_command)))
       \<lparr>nc_opcode := 0x06, nc_nsid := nsid, nc_cdw10 := cns, nc_data_buf := Some (replicate 4096 0), nc_data_len := 4096\<rparr>"

definition nvme_identify_controller ::
    "(string \<Rightarrow> open_answer) \<Rightarrow> (NvmeAdminCommand \<Rightarrow> nvme_answer) \<Rightarrow> string option
     \<Rightarrow> NvmeControllerData option \<Rightarrow> ErasecureError \<times> NvmeControllerData option" where
  "nvme_identify_controller open_path ioctl_admin device_path ctrl =
     (case (device_path, ctrl) of
        (Some _, Some _) \<Rightarrow>
          (case nvme_admin_execute_path open_path ioctl_admin device_path (Some (identify_nvme_command 0 1))
                  (Some zero_nvme_result) of
             (err, result, data) \<Rightarrow>
               if err \<noteq> ERASECURE_SUCCESS then (err, ctrl)
               else if \<not> nr_success (the result) then (ERASECURE_ERR_IOCTL_FAILED, ctrl)
               else (ERASECURE_SUCCESS, Some (parse_controller (transfer 4096 data))))
      | _ \<Rightarrow> (ERASECURE_ERR_INVALID_ARGUMENT, ctrl))"

text \<open>
  The size of a block; \<open>None\<close> for a shift of an \<open>int\<close> by 32 or more, which is undefined. (A shift by 31
  leaves the range of \<open>int\<close>; compilers give the bit pattern.)
\<close>

definition lba_size_of :: "byte list \<Rightarrow> u32 option" where
  "lba_size_of buf =
     (let idx = unat (buf ! 26 AND 0x0F); ds = unat (buf ! (128 + idx * 4 + 2))
      in if idx \<le> unat (buf ! 25)
         then if ds \<ge> 9 then if ds < 32 then Some (push_bit ds 1) else None else Some 512
         else Some 512)"

definition nvme_identify_namespace ::
    "(string \<Rightarrow> open_answer) \<Rightarrow> (NvmeAdminCommand \<Rightarrow> nvme_answer) \<Rightarrow> string option \<Rightarrow> u32
     \<Rightarrow> NvmeNamespaceData option \<Rightarrow> (ErasecureError \<times> NvmeNamespaceData option) option" where
  "nvme_identify_namespace open_path ioctl_admin device_path nsid ns =
     (case (device_path, ns) of
        (Some _, Some _) \<Rightarrow>
          (case nvme_admin_execute_path open_path ioctl_admin device_path (Some (identify_nvme_command nsid 0))
                  (Some zero_nvme_result) of
             (err, result, data) \<Rightarrow>
               if err \<noteq> ERASECURE_SUCCESS then Some (err, ns)
               else if \<not> nr_success (the result) then Some (ERASECURE_ERR_IOCTL_FAILED, ns)
               else let buf = transfer 4096 data
                    in map_option
                         (\<lambda>lba. (ERASECURE_SUCCESS,
                                 Some \<lparr>nns_nsze = le_value (field buf 0 8), nns_ncap = le_value (field buf 8 8),
                                       nns_nuse = le_value (field buf 16 8), nns_lba_size = lba,
                                       nns_flbas = buf ! 26, nns_nlbaf = buf ! 25\<rparr>))
                         (lba_size_of buf))
      | _ \<Rightarrow> Some (ERASECURE_ERR_INVALID_ARGUMENT, ns))"

definition nvme_controller_summary :: "NvmeControllerData option \<Rightarrow> nat \<Rightarrow> string option" where
  "nvme_controller_summary ctrl buf_len =
     (case ctrl of None \<Rightarrow> None
      | Some c \<Rightarrow> if buf_len = 0 then None
          else Some (cstr buf_len (''Model: '' @ nctl_model c @ '', Serial: '' @ nctl_serial c @ '', FW: '' @ nctl_firmware c
                 @ '', Sanitize (Cry: '' @ bool_d (nctl_sanitize_crypto c) @ '', Blk: '' @ bool_d (nctl_sanitize_block c)
                 @ '', Ow: '' @ bool_d (nctl_sanitize_overwrite c) @ '')'')))"

section \<open>Sanitize capabilities\<close>

datatype NvmeSanitizeStatus =
    NVME_SANITIZE_SUCCESS | NVME_SANITIZE_NOT_SUPPORTED | NVME_SANITIZE_FAILED | NVME_SANITIZE_NOT_IMPLEMENTED

record NvmeSanitizeCapabilities =
  nsc_can_format_nvm :: bool
  nsc_can_format_crypto_erase :: bool
  nsc_can_sanitize_block :: bool
  nsc_can_sanitize_overwrite :: bool
  nsc_can_sanitize_crypto :: bool
  nsc_format_all_ns :: bool

definition nvme_sanitize_query ::
    "(string \<Rightarrow> open_answer) \<Rightarrow> (NvmeAdminCommand \<Rightarrow> nvme_answer) \<Rightarrow> NvmeControllerData \<Rightarrow> string option
     \<Rightarrow> NvmeSanitizeCapabilities option \<Rightarrow> ErasecureError \<times> NvmeSanitizeCapabilities option" where
  "nvme_sanitize_query open_path ioctl_admin junk device_path caps =
     (case (device_path, caps) of
        (Some _, Some _) \<Rightarrow>
          (case nvme_identify_controller open_path ioctl_admin device_path (Some junk) of
             (err, ctrl) \<Rightarrow>
               if err \<noteq> ERASECURE_SUCCESS then (err, caps)
               else let c = the ctrl
                    in (ERASECURE_SUCCESS,
                        Some \<lparr>nsc_can_format_nvm = nctl_format_supported c,
                              nsc_can_format_crypto_erase = (nctl_format_supported c \<and> bit (nctl_fna c) 2),
                              nsc_can_sanitize_block = nctl_sanitize_block c,
                              nsc_can_sanitize_overwrite = nctl_sanitize_overwrite c,
                              nsc_can_sanitize_crypto = nctl_sanitize_crypto c,
                              nsc_format_all_ns = bit (nctl_fna c) 0\<rparr>))
      | _ \<Rightarrow> (ERASECURE_ERR_INVALID_ARGUMENT, caps))"

fun nvme_sanitize_status_str :: "NvmeSanitizeStatus \<Rightarrow> string" where
  "nvme_sanitize_status_str NVME_SANITIZE_SUCCESS = ''SUCCESS''"
| "nvme_sanitize_status_str NVME_SANITIZE_NOT_SUPPORTED = ''NOT SUPPORTED''"
| "nvme_sanitize_status_str NVME_SANITIZE_FAILED = ''FAILED''"
| "nvme_sanitize_status_str NVME_SANITIZE_NOT_IMPLEMENTED = ''NOT IMPLEMENTED''"

section \<open>Properties\<close>

lemma trim_ascii_padded:
  assumes "length s \<le> n" "n < dest_size" "\<forall>c \<in> set s. c \<noteq> CHR 0x00" "s = [] \<or> last s \<noteq> CHR '' ''"
  shows "trim_ascii (bytes_of s @ replicate (n - length s) 32) dest_size = s"
  using assms bytes_of_last [of s] by (simp add: trim_ascii_def strip_padding c_string_bytes_of)

text \<open>
  A block size reported for a namespace is a power of two of at least 512 bytes; but a device that
  announces an exponent of 32 or more makes the code shift an \<open>int\<close> out of its width.
\<close>

theorem nvme_lba_size:
  assumes "open_path p = Opened" "ioctl_admin (identify_nvme_command nsid 0) = Nvme_done 0 res data"
    and "length data = 4096" "idx = unat (data ! 26 AND 0x0F)" "ds = unat (data ! (128 + idx * 4 + 2))"
  shows "if idx \<le> unat (data ! 25) \<and> 32 \<le> ds
    then nvme_identify_namespace open_path ioctl_admin (Some p) nsid (Some ns0) = None
    else \<exists>ns k. nvme_identify_namespace open_path ioctl_admin (Some p) nsid (Some ns0) = Some (ERASECURE_SUCCESS, Some ns)
      \<and> nns_lba_size ns = 2 ^ k \<and> 9 \<le> k \<and> k < 32"
proof -
  have t: "transfer 4096 data = data" using assms(3) by (simp add: transfer_def)
  have run: "nvme_identify_namespace open_path ioctl_admin (Some p) nsid (Some ns0) =
      map_option (\<lambda>lba. (ERASECURE_SUCCESS, Some \<lparr>nns_nsze = le_value (field data 0 8), nns_ncap = le_value (field data 8 8),
         nns_nuse = le_value (field data 16 8), nns_lba_size = lba, nns_flbas = data ! 26, nns_nlbaf = data ! 25\<rparr>))
      (lba_size_of data)"
    using assms(1,2) by (simp add: nvme_identify_namespace_def nvme_admin_execute_path_def nvme_admin_execute_def t Let_def)
  show ?thesis
  proof (cases "idx \<le> unat (data ! 25) \<and> 32 \<le> ds")
    case True
    then show ?thesis by (simp add: run lba_size_of_def assms(4,5) Let_def)
  next
    case False
    then have "\<exists>k. lba_size_of data = Some (2 ^ k) \<and> 9 \<le> k \<and> k < 32"
      using assms(4,5) by (auto simp: lba_size_of_def Let_def push_bit_eq_mult intro: exI [of _ 9])
    with False show ?thesis by (auto simp: run)
  qed
qed

text \<open>
  The capabilities of an NVMe controller come from its identify data alone: format and sanitize are
  offered exactly by the bits of bytes 256, 328 and 527, crypto erase by format only with format itself, and
  a controller that answers with a status other than 0 is an error that leaves the capabilities alone.
\<close>

theorem nvme_query_exact:
  assumes "open_path p = Opened" "ioctl_admin (identify_nvme_command 0 1) = Nvme_done status res data" "length data = 4096"
  shows "nvme_sanitize_query open_path ioctl_admin junk (Some p) (Some caps0) =
    (if status \<noteq> 0 then (ERASECURE_ERR_IOCTL_FAILED, Some caps0)
     else (ERASECURE_SUCCESS,
       Some \<lparr>nsc_can_format_nvm = bit (data ! 256) 1,
             nsc_can_format_crypto_erase = (bit (data ! 256) 1 \<and> bit (data ! 527) 2),
             nsc_can_sanitize_block = bit (data ! 328) 1,
             nsc_can_sanitize_overwrite = bit (data ! 328) 0,
             nsc_can_sanitize_crypto = bit (data ! 328) 2,
             nsc_format_all_ns = bit (data ! 527) 0\<rparr>))"
proof -
  have t: "transfer 4096 data = data" using assms(3) by (simp add: transfer_def)
  have "field data 256 2 = [data ! 256, data ! 257]"
    using assms(3) by (intro nth_equalityI) (auto simp: field_def less_Suc_eq numeral_2_eq_2)
  moreover have "bit (x + 256 * y) 1 \<longleftrightarrow> bit x 1" for x y :: nat
  proof -
    have "(x + 256 * y) div 2 = x div 2 + 128 * y" by simp
    then show ?thesis by (simp add: bit_iff_odd del: div_add1_eq)
  qed
  ultimately have "bit (le_value (field data 256 2)) 1 \<longleftrightarrow> bit (data ! 256) 1"
    by (simp add: le_value_def bit_unsigned_iff)
  then show ?thesis
    using assms(1,2) by (simp add: nvme_sanitize_query_def nvme_identify_controller_def nvme_admin_execute_path_def
        nvme_admin_execute_def parse_controller_def t Let_def)
qed

section \<open>Witnesses\<close>

text \<open>Identify data of a controller that sanitizes, and of a namespace with an impossible block size.\<close>

definition demo_controller :: "byte list" where
  "demo_controller = (replicate 4096 0)[256 := 2, 328 := 7, 527 := 4]"

definition demo_namespace :: "byte list" where
  "demo_namespace = (replicate 4096 0)[130 := 12]"

theorem nvme_lba_size_witness:
  "\<exists>ns k. nvme_identify_namespace (\<lambda>_. Opened) (\<lambda>_. Nvme_done 0 0 demo_namespace) (Some ''/dev/nvme0n1'') 1
      (Some \<lparr>nns_nsze = 0, nns_ncap = 0, nns_nuse = 0, nns_lba_size = 0, nns_flbas = 0, nns_nlbaf = 0\<rparr>)
    = Some (ERASECURE_SUCCESS, Some ns) \<and> nns_lba_size ns = 2 ^ k \<and> 9 \<le> k"
proof -
  have at: "demo_namespace ! 26 = 0" "demo_namespace ! 130 = 12" "length demo_namespace = 4096"
    by (simp_all add: demo_namespace_def)
  from nvme_lba_size [where open_path = "\<lambda>_. Opened" and ioctl_admin = "\<lambda>_. Nvme_done 0 0 demo_namespace", OF refl refl at(3) refl refl]
  show ?thesis by (force simp: at)
qed

theorem nvme_query_exact_witness:
  "nvme_sanitize_query (\<lambda>_. Opened) (\<lambda>_. Nvme_done 0 0 demo_controller) (parse_controller demo_controller)
      (Some ''/dev/nvme0'') (Some \<lparr>nsc_can_format_nvm = False, nsc_can_format_crypto_erase = False,
        nsc_can_sanitize_block = False, nsc_can_sanitize_overwrite = False, nsc_can_sanitize_crypto = False,
        nsc_format_all_ns = False\<rparr>)
    = (ERASECURE_SUCCESS, Some \<lparr>nsc_can_format_nvm = True, nsc_can_format_crypto_erase = True,
        nsc_can_sanitize_block = True, nsc_can_sanitize_overwrite = True, nsc_can_sanitize_crypto = True,
        nsc_format_all_ns = False\<rparr>)"
proof -
  have at: "demo_controller ! 256 = 2" "demo_controller ! 328 = 7" "demo_controller ! 527 = 4" "length demo_controller = 4096"
    by (simp_all add: demo_controller_def)
  show ?thesis
    by (subst nvme_query_exact [OF refl refl at(4)]) (simp add: at bit_numeral_rec)
qed

end
