(* ===== verification/Device_Info.thy ===== *)
theory Device_Info
  imports Device Nvme
begin

text \<open>
  Filling a \<open>StorageDevice\<close> from sysfs, \<open>src/device/device_info.c\<close>, and the walk over \<open>/sys/block\<close>,
  \<open>device_scan\<close> of \<open>src/device/device_detect.c\<close>. \<open>read_text\<close> gives the content of the files that can be
  opened, \<open>readlink\<close> the target of a link.
\<close>

section \<open>Reading sysfs\<close>

definition strip_line :: "string \<Rightarrow> string" where
  "strip_line s = rev (dropWhile (\<lambda>c. c = newline \<or> c = char_of (13 :: nat) \<or> c = CHR '' '') (rev s))"

text \<open>\<open>None\<close> is the answer -1.\<close>

definition sysfs_read_str :: "(string \<Rightarrow> string option) \<Rightarrow> string \<Rightarrow> nat \<Rightarrow> string option" where
  "sysfs_read_str read_text path buf_len =
     (case read_text path of None \<Rightarrow> None
      | Some content \<Rightarrow>
          if content = [] then None else Some (strip_line (fst (fgets_take (buf_len - 1) content))))"

definition sysfs_read_uint64 :: "(string \<Rightarrow> string option) \<Rightarrow> string \<Rightarrow> nat option" where
  "sysfs_read_uint64 read_text path =
     (case sysfs_read_str read_text path 32 of None \<Rightarrow> None | Some buf \<Rightarrow> strtoull buf)"

definition sysfs_read_uint32 :: "(string \<Rightarrow> string option) \<Rightarrow> string \<Rightarrow> nat option" where
  "sysfs_read_uint32 read_text path = map_option wrap32 (sysfs_read_uint64 read_text path)"

text \<open>The path of an attribute, as \<open>snprintf\<close> fits it into 512 bytes.\<close>

definition sysfs_path :: "string \<Rightarrow> string \<Rightarrow> string" where
  "sysfs_path dev_name attr = cstr 512 (''/sys/block/'' @ dev_name @ attr)"

section \<open>Classification\<close>

definition device_classify ::
    "(string \<Rightarrow> string option) \<Rightarrow> string option \<Rightarrow> StorageDevice option \<Rightarrow> StorageDevice option" where
  "device_classify readlink dev_name device =
     (case (dev_name, device) of
        (Some name, Some d) \<Rightarrow>
          if prefix ''nvme'' name
          then Some (d\<lparr>sd_transport_type := TRANSPORT_NVME, sd_device_type := DEVICE_TYPE_NVME_SSD, sd_is_rotational := False\<rparr>)
          else if prefix ''mmcblk'' name
          then Some (d\<lparr>sd_transport_type := TRANSPORT_SD, sd_device_type := DEVICE_TYPE_SD_CARD, sd_is_rotational := False\<rparr>)
          else
            let full = ''/sys/block/'' @ name @ ''/device/subsystem'';
                usb = (length full < 512 \<and>
                       (case readlink full of None \<Rightarrow> False
                        | Some t \<Rightarrow> t \<noteq> [] \<and> strstr (cstr 512 t) ''usb'' \<noteq> None))
            in if usb
               then Some (d\<lparr>sd_transport_type := TRANSPORT_USB,
                            sd_device_type := (if sd_is_rotational d then DEVICE_TYPE_USB_HDD else DEVICE_TYPE_USB_FLASH)\<rparr>)
               else Some (d\<lparr>sd_transport_type := TRANSPORT_SATA,
                            sd_device_type := (if sd_is_rotational d then DEVICE_TYPE_HDD else DEVICE_TYPE_SATA_SSD)\<rparr>)
      | _ \<Rightarrow> device)"

section \<open>Device information\<close>

definition short_name :: "string \<Rightarrow> string" where
  "short_name path = (if prefix ''/dev/'' path then drop 5 path else path)"

definition set_if :: "'a option \<Rightarrow> ('a \<Rightarrow> 's \<Rightarrow> 's) \<Rightarrow> 's \<Rightarrow> 's" where
  "set_if v f s = (case v of None \<Rightarrow> s | Some x \<Rightarrow> f x s)"

text \<open>The attributes in the order they are read.\<close>

definition read_attributes :: "(string \<Rightarrow> string option) \<Rightarrow> string \<Rightarrow> StorageDevice \<Rightarrow> StorageDevice" where
  "read_attributes read_text name d0 =
     (let u32 = (\<lambda>attr. sysfs_read_uint32 read_text (sysfs_path name attr));
          d1 = set_if (u32 ''/queue/rotational'') (\<lambda>v d. d\<lparr>sd_is_rotational := (v \<noteq> 0)\<rparr>) d0;
          d2 = set_if (u32 ''/removable'') (\<lambda>v d. d\<lparr>sd_is_removable := (v \<noteq> 0)\<rparr>) d1;
          d3 = set_if (u32 ''/ro'') (\<lambda>v d. d\<lparr>sd_is_read_only := (v \<noteq> 0)\<rparr>) d2;
          d4 = set_if (sysfs_read_uint64 read_text (sysfs_path name ''/size''))
                 (\<lambda>v d. d\<lparr>sd_capacity_bytes := wrap64 (v * 512)\<rparr>) d3;
          d5 = set_if (u32 ''/queue/logical_block_size'')
                 (\<lambda>v d. if v \<ge> 512 then d\<lparr>sd_logical_sector_size := v\<rparr> else d) d4;
          d6 = set_if (u32 ''/queue/physical_block_size'')
                 (\<lambda>v d. if v \<ge> 512 then d\<lparr>sd_physical_sector_size := v\<rparr> else d) d5;
          d7 = set_if (sysfs_read_str read_text (sysfs_path name ''/device/model'') 64)
                 (\<lambda>v d. d\<lparr>sd_model := cstr 64 v\<rparr>) d6
      in set_if (sysfs_read_str read_text (sysfs_path name ''/device/serial'') 64)
                 (\<lambda>v d. d\<lparr>sd_serial := cstr 64 v\<rparr>) d7)"

definition device_get_info ::
    "(string \<Rightarrow> string option) \<Rightarrow> (string \<Rightarrow> string option) \<Rightarrow> string option \<Rightarrow> StorageDevice option
     \<Rightarrow> ErasecureError \<times> StorageDevice option" where
  "device_get_info read_text readlink path device =
     (case (path, device) of
        (Some p, Some _) \<Rightarrow>
          let name = short_name p;
              d1 = device_init\<lparr>sd_path := cstr 256 (if prefix ''/dev/'' p then p else ''/dev/'' @ name)\<rparr>;
              d2 = read_attributes read_text name d1;
              d3 = the (device_classify readlink (Some name) (Some d2));
              d4 = (if sd_device_id d3 = [] then d3\<lparr>sd_device_id := cstr 37 (''dev-'' @ name)\<rparr> else d3)
          in (ERASECURE_OK,
              Some (d4\<lparr>sd_capabilities := (sd_capabilities d4)\<lparr>cap_supports_block_erase := \<not> sd_is_read_only d4\<rparr>\<rparr>))
      | _ \<Rightarrow> (ERASECURE_ERR_INVALID_ARG, device))"

text \<open>
  The two capability queries: \<open>None\<close> of a query is an access outside the sense buffer, the answer is then
  \<open>None\<close> as well.
\<close>

definition refresh_ata :: "AtaSanitizeCapabilities \<Rightarrow> StorageDevice \<Rightarrow> StorageDevice" where
  "refresh_ata c d =
     d\<lparr>sd_capabilities := (sd_capabilities d)
         \<lparr>cap_ata_secure_erase_supported := asc_can_security_erase c,
          cap_ata_enhanced_erase_supported := asc_can_enhanced_erase c,
          cap_supports_device_native :=
            asc_can_security_erase c \<or> asc_can_sanitize_block_erase c \<or> asc_can_sanitize_overwrite c,
          cap_supports_crypto_erase := asc_can_sanitize_crypto c,
          cap_is_self_encrypting := asc_can_sanitize_crypto c\<rparr>,
       sd_encryption_status :=
         (if asc_can_sanitize_crypto c then ENCRYPTION_STATUS_ENCRYPTED else sd_encryption_status d)\<rparr>"

definition refresh_nvme :: "NvmeSanitizeCapabilities \<Rightarrow> StorageDevice \<Rightarrow> StorageDevice" where
  "refresh_nvme c d =
     (let sanitize = (nsc_can_sanitize_block c \<or> nsc_can_sanitize_overwrite c \<or> nsc_can_sanitize_crypto c);
          crypto = (nsc_can_format_crypto_erase c \<or> nsc_can_sanitize_crypto c)
      in d\<lparr>sd_capabilities := (sd_capabilities d)
             \<lparr>cap_nvme_sanitize_supported := sanitize,
              cap_nvme_format_supported := nsc_can_format_nvm c,
              cap_supports_device_native := sanitize \<or> nsc_can_format_nvm c,
              cap_supports_crypto_erase := crypto,
              cap_is_self_encrypting := crypto\<rparr>,
           sd_encryption_status := (if crypto then ENCRYPTION_STATUS_ENCRYPTED else sd_encryption_status d)\<rparr>)"

definition device_refresh_capabilities ::
    "(string \<Rightarrow> string option) \<Rightarrow> (string \<Rightarrow> (ErasecureError \<times> AtaSanitizeCapabilities option) option)
     \<Rightarrow> (string \<Rightarrow> ErasecureError \<times> NvmeSanitizeCapabilities option) \<Rightarrow> StorageDevice option
     \<Rightarrow> (ErasecureError \<times> StorageDevice option) option" where
  "device_refresh_capabilities read_text ata_query nvme_query device =
     (case device of None \<Rightarrow> Some (ERASECURE_ERR_INVALID_ARG, None)
      | Some d0 \<Rightarrow>
          let d1 = set_if (sysfs_read_uint32 read_text (sysfs_path (short_name (sd_path d0)) ''/ro''))
                     (\<lambda>v d. d\<lparr>sd_is_read_only := (v \<noteq> 0)\<rparr>) d0;
              d2 = d1\<lparr>sd_capabilities := (sd_capabilities d1)\<lparr>cap_supports_block_erase := \<not> sd_is_read_only d1\<rparr>\<rparr>
          in if sd_transport_type d2 = TRANSPORT_SATA \<or> sd_device_type d2 = DEVICE_TYPE_HDD
                \<or> sd_device_type d2 = DEVICE_TYPE_SATA_SSD
             then map_option (\<lambda>(err, c). (ERASECURE_OK,
                    Some (if err = ERASECURE_OK then refresh_ata (the c) d2 else d2))) (ata_query (sd_path d2))
             else if sd_transport_type d2 = TRANSPORT_NVME \<or> sd_device_type d2 = DEVICE_TYPE_NVME_SSD
             then Some (case nvme_query (sd_path d2) of
                    (err, c) \<Rightarrow> (ERASECURE_OK, Some (if err = ERASECURE_OK then refresh_nvme (the c) d2 else d2)))
             else Some (ERASECURE_OK, Some d2))"

definition device_get_capabilities ::
    "StorageDevice option \<Rightarrow> DeviceCapabilities option \<Rightarrow> ErasecureError \<times> DeviceCapabilities option" where
  "device_get_capabilities device caps =
     (case (device, caps) of
        (Some d, Some _) \<Rightarrow> (ERASECURE_OK, Some (sd_capabilities d))
      | _ \<Rightarrow> (ERASECURE_ERR_INVALID_ARG, caps))"

section \<open>Scanning\<close>

text \<open>The walk over the entries, with the array and the number found so far.\<close>

fun scan_entries ::
    "(string \<Rightarrow> string option) \<Rightarrow> (string \<Rightarrow> string option) \<Rightarrow> nat \<Rightarrow> string list
     \<Rightarrow> StorageDevice list \<Rightarrow> nat \<Rightarrow> StorageDevice list \<times> nat" where
  "scan_entries read_text readlink max_devices [] devices found = (devices, found)"
| "scan_entries read_text readlink max_devices (name # names) devices found =
     (if found \<ge> max_devices then (devices, found)
      else if prefix ''.'' name \<or> prefix ''loop'' name \<or> is_partition name
      then scan_entries read_text readlink max_devices names devices found
      else case device_get_info read_text readlink (Some name) (Some (devices ! found)) of
             (err, dev) \<Rightarrow>
               scan_entries read_text readlink max_devices names (devices[found := the dev])
                 (if err = ERASECURE_OK then found + 1 else found))"

text \<open>\<open>entries\<close> are the names \<open>readdir\<close> delivers, \<open>None\<close> when \<open>/sys/block\<close> cannot be opened.\<close>

definition device_scan ::
    "(string \<Rightarrow> string option) \<Rightarrow> (string \<Rightarrow> string option) \<Rightarrow> string list option \<Rightarrow> StorageDevice list option
     \<Rightarrow> nat \<Rightarrow> nat option \<Rightarrow> ErasecureError \<times> StorageDevice list option \<times> nat option" where
  "device_scan read_text readlink entries devices max_devices found =
     (case (devices, found) of
        (Some ds, Some _) \<Rightarrow>
          if max_devices = 0 then (ERASECURE_ERR_INVALID_ARG, devices, found)
          else (case entries of None \<Rightarrow> (ERASECURE_ERR_DEVICE_SCAN_FAIL, devices, Some 0)
                | Some names \<Rightarrow>
                    (case scan_entries read_text readlink max_devices names ds 0 of
                       (ds', n) \<Rightarrow> (ERASECURE_OK, Some ds', Some n)))
      | _ \<Rightarrow> (ERASECURE_ERR_INVALID_ARG, devices, found))"

section \<open>Properties\<close>

definition is_whole_disk :: "string \<Rightarrow> bool" where
  "is_whole_disk name \<longleftrightarrow> \<not> prefix ''.'' name \<and> \<not> is_partition name"

definition device_info :: "(string \<Rightarrow> string option) \<Rightarrow> (string \<Rightarrow> string option) \<Rightarrow> string \<Rightarrow> StorageDevice" where
  "device_info read_text readlink name = the (snd (device_get_info read_text readlink (Some name) (Some device_init)))"

lemma device_get_info_eq:
  "device_get_info read_text readlink (Some name) (Some d) = (ERASECURE_OK, Some (device_info read_text readlink name))"
  by (simp add: device_get_info_def device_info_def Let_def)

lemma loop_is_partition: "prefix ''loop'' name \<Longrightarrow> is_partition name"
  by (cases name) (simp_all add: is_partition_def)

lemma scan_entries_eq:
  assumes "found \<le> max_devices" "max_devices \<le> length devices"
  shows "scan_entries read_text readlink max_devices names devices found =
    (let new = map (device_info read_text readlink) (take (max_devices - found) (filter is_whole_disk names))
     in (take found devices @ new @ drop (found + length new) devices, found + length new))"
  using assms
proof (induction names arbitrary: devices found)
  case (Cons name names)
  show ?case
  proof (cases "found \<ge> max_devices \<or> \<not> is_whole_disk name")
    case True
    then show ?thesis using Cons loop_is_partition [of name] by (auto simp: is_whole_disk_def Let_def)
  next
    case False
    then have skip: "\<not> (prefix ''.'' name \<or> prefix ''loop'' name \<or> is_partition name)" and lt: "found < max_devices"
      using loop_is_partition [of name] by (auto simp: is_whole_disk_def)
    let ?d = "device_info read_text readlink name"
    have "scan_entries read_text readlink max_devices (name # names) devices found
        = scan_entries read_text readlink max_devices names (devices[found := ?d]) (found + 1)"
      using skip lt by (simp add: device_get_info_eq)
    also have "\<dots> = (let new = map (device_info read_text readlink) (take (max_devices - (found + 1)) (filter is_whole_disk names))
       in (take (found + 1) (devices[found := ?d]) @ new @ drop (found + 1 + length new) (devices[found := ?d]),
           found + 1 + length new))"
      using lt Cons.prems by (intro Cons.IH) simp_all
    also have "max_devices - found = Suc (max_devices - (found + 1))" using lt by simp
    moreover have "take (found + 1) (devices[found := ?d]) = take found devices @ [?d]"
      using lt Cons.prems by (simp add: take_Suc_conv_app_nth)
    ultimately show ?thesis using False by (simp add: Let_def)
  qed
qed simp

text \<open>
  The names that the kernel gives block devices: disks named by letters and their partitions, NVMe namespaces,
  memory cards and their boot areas, drivers that number their devices, and the entries for directories. A
  device is offered when it is a whole disk of the first three kinds, or a boot area.
\<close>

datatype block_name =
    Lettered_disk string string | Lettered_part string string nat
  | Nvme_disk nat nat | Nvme_part nat nat nat
  | Mmc_disk nat | Mmc_part nat nat | Mmc_boot nat nat
  | Numbered string nat | Dot_entry string

fun kernel_name :: "block_name \<Rightarrow> string" where
  "kernel_name (Lettered_disk driver letters) = driver @ letters"
| "kernel_name (Lettered_part driver letters k) = driver @ letters @ dec k"
| "kernel_name (Nvme_disk c n) = ''nvme'' @ dec c @ ''n'' @ dec n"
| "kernel_name (Nvme_part c n k) = ''nvme'' @ dec c @ ''n'' @ dec n @ ''p'' @ dec k"
| "kernel_name (Mmc_disk c) = ''mmcblk'' @ dec c"
| "kernel_name (Mmc_part c k) = ''mmcblk'' @ dec c @ ''p'' @ dec k"
| "kernel_name (Mmc_boot c k) = ''mmcblk'' @ dec c @ ''boot'' @ dec k"
| "kernel_name (Numbered driver k) = driver @ dec k"
| "kernel_name (Dot_entry rest) = CHR ''.'' # rest"

fun named_by_kernel :: "block_name \<Rightarrow> bool" where
  "named_by_kernel (Lettered_disk driver letters) \<longleftrightarrow> driver \<in> {''sd'', ''hd'', ''vd'', ''xvd''}
     \<and> letters \<noteq> [] \<and> set letters \<subseteq> set ''abcdefghijklmnopqrstuvwxyz''"
| "named_by_kernel (Lettered_part driver letters k) \<longleftrightarrow> driver \<in> {''sd'', ''hd'', ''vd'', ''xvd''}
     \<and> letters \<noteq> [] \<and> set letters \<subseteq> set ''abcdefghijklmnopqrstuvwxyz''"
| "named_by_kernel (Numbered driver k) \<longleftrightarrow>
     driver \<in> {''loop'', ''ram'', ''zram'', ''md'', ''dm-'', ''sr'', ''fd'', ''nbd''}"
| "named_by_kernel _ \<longleftrightarrow> True"

fun offered :: "block_name \<Rightarrow> bool" where
  "offered (Lettered_disk _ _) \<longleftrightarrow> True"
| "offered (Nvme_disk _ _) \<longleftrightarrow> True"
| "offered (Mmc_disk _) \<longleftrightarrow> True"
| "offered (Mmc_boot _ _) \<longleftrightarrow> True"
| "offered _ \<longleftrightarrow> False"

lemma dec_without: "\<not> is_digit c \<Longrightarrow> c \<notin> set (dec n)"
  using dec_digits by blast

lemma p_then_dec [simp]: "p_then_digit (Some (c # dec k))"
  using dec_digits [of "hd (dec k)" k] by (cases "dec k") (simp_all add: p_then_digit_def)

lemma last_dec [simp]: "is_digit (last (dec k))"
  using dec_digits [of "last (dec k)" k] by simp

lemma letters_not_digits: "c \<in> set ''abcdefghijklmnopqrstuvwxyz'' \<Longrightarrow> \<not> is_digit c"
  by (auto simp: is_digit_def)

lemmas name_simps = is_whole_disk_def is_partition_def strchr_hit strchr_miss dec_without

lemma whole_disk_names:
  assumes "named_by_kernel x" shows "is_whole_disk (kernel_name x) \<longleftrightarrow> offered x"
proof (cases x)
  case (Lettered_disk driver letters)
  with assms have "letters \<noteq> []" "set letters \<subseteq> set ''abcdefghijklmnopqrstuvwxyz''" by simp_all
  from subsetD [OF this(2) last_in_set [OF this(1)]] have "\<not> is_digit (last letters)"
    by (rule letters_not_digits)
  then show ?thesis using assms Lettered_disk by (auto simp: name_simps)
next
  case (Lettered_part driver letters k)
  then show ?thesis using assms by (auto simp: name_simps)
next
  case (Nvme_disk c n)
  have "strchr (dec c @ CHR ''n'' # dec n) (CHR ''n'') = Some (CHR ''n'' # dec n)" "strchr (dec n) (CHR ''p'') = None"
    by (simp_all add: name_simps is_digit_def)
  then show ?thesis using Nvme_disk by (simp add: is_whole_disk_def is_partition_def p_then_digit_def)
next
  case (Nvme_part c n k)
  have "strchr (dec c @ CHR ''n'' # dec n @ CHR ''p'' # dec k) (CHR ''n'') = Some (CHR ''n'' # dec n @ CHR ''p'' # dec k)"
    "strchr (dec n @ CHR ''p'' # dec k) (CHR ''p'') = Some (CHR ''p'' # dec k)"
    by (simp_all add: name_simps is_digit_def)
  then show ?thesis using Nvme_part by (simp add: is_whole_disk_def is_partition_def)
next
  case (Mmc_disk c)
  have "strchr (dec c) (CHR ''p'') = None" by (simp add: name_simps is_digit_def)
  then show ?thesis using Mmc_disk by (simp add: is_whole_disk_def is_partition_def p_then_digit_def)
next
  case (Mmc_part c k)
  have "strchr (dec c @ CHR ''p'' # dec k) (CHR ''p'') = Some (CHR ''p'' # dec k)"
    by (simp add: name_simps is_digit_def)
  then show ?thesis using Mmc_part by (simp add: is_whole_disk_def is_partition_def)
next
  case (Mmc_boot c k)
  have "CHR ''p'' \<notin> set (dec c @ ''boot'' @ dec k)" by (simp add: dec_without is_digit_def)
  from strchr_miss [OF this] show ?thesis
    using Mmc_boot by (simp add: is_whole_disk_def is_partition_def p_then_digit_def)
next
  case (Numbered driver k)
  then show ?thesis using assms by (auto simp: name_simps)
next
  case (Dot_entry rest)
  then show ?thesis by (simp add: is_whole_disk_def)
qed

text \<open>
  C36. A scan lists exactly the whole disks: of the entries of \<open>/sys/block\<close> under the names that the kernel gives
  them, the disks of the drivers \<open>sd\<close>, \<open>hd\<close>, \<open>vd\<close>, \<open>xvd\<close>, NVMe and \<open>mmcblk\<close> are listed, in their order and up to
  the size of the array, each with its own information, and the rest of the array is left alone. Partitions and
  loop and memory devices are not listed. Beside what the comments in \<open>device_detect.c\<close> say, the boot areas of
  memory cards are listed, and the whole devices of drivers that number theirs, such as \<open>md0\<close> and \<open>sr0\<close>, never are.
\<close>

theorem device_scan_exact:
  assumes "0 < max_devices" "max_devices \<le> length devices" "\<forall>x \<in> set entries. named_by_kernel x"
    and disks: "disks = take max_devices (filter offered entries)"
  shows "device_scan read_text readlink (Some (map kernel_name entries)) (Some devices) max_devices (Some n0)
    = (ERASECURE_OK, Some (map (device_info read_text readlink \<circ> kernel_name) disks @ drop (length disks) devices),
       Some (length disks))"
proof -
  have "filter is_whole_disk (map kernel_name entries) = map kernel_name (filter offered entries)"
    using assms(3) whole_disk_names by (simp add: filter_map comp_def cong: filter_cong)
  then show ?thesis
    using scan_entries_eq [of 0 max_devices devices read_text readlink "map kernel_name entries"] assms
    by (simp add: device_scan_def Let_def take_map)
qed

text \<open>
  Information about a device that does not exist is not an error: with no attribute to read, any name that
  is not an NVMe or MMC name gives a writable SATA solid-state drive of capacity 0 that supports block erase.
\<close>

theorem device_get_info_of_nothing:
  assumes "\<And>p. read_text p = None" "\<And>p. readlink p = None"
    and "\<not> prefix ''nvme'' (short_name p)" "\<not> prefix ''mmcblk'' (short_name p)"
  shows "\<exists>d. device_get_info read_text readlink (Some p) (Some d0) = (ERASECURE_OK, Some d)
    \<and> sd_device_type d = DEVICE_TYPE_SATA_SSD \<and> sd_transport_type d = TRANSPORT_SATA \<and> sd_capacity_bytes d = 0
    \<and> \<not> sd_is_read_only d \<and> cap_supports_block_erase (sd_capabilities d)"
  using assms(3,4)
  by (simp add: device_get_info_def device_classify_def read_attributes_def sysfs_read_uint32_def sysfs_read_uint64_def
      sysfs_read_str_def assms(1,2) set_if_def device_init_def no_capabilities_def Let_def)

text \<open>
  Well-typed records: every text fits its array with its NUL, numbers fit their types, sectors have at least 512
  bytes, and the type of device agrees with its transport.
\<close>

definition device_well_typed :: "StorageDevice \<Rightarrow> bool" where
  "device_well_typed d \<longleftrightarrow>
     length (sd_device_id d) < 37 \<and> length (sd_path d) < 256 \<and> length (sd_model d) < 64 \<and> length (sd_serial d) < 64
     \<and> sd_capacity_bytes d < 2 ^ 64
     \<and> 512 \<le> sd_logical_sector_size d \<and> sd_logical_sector_size d < 2 ^ 32
     \<and> 512 \<le> sd_physical_sector_size d \<and> sd_physical_sector_size d < 2 ^ 32"

fun transport_of :: "DeviceType \<Rightarrow> TransportType" where
  "transport_of DEVICE_TYPE_NVME_SSD = TRANSPORT_NVME"
| "transport_of DEVICE_TYPE_SD_CARD = TRANSPORT_SD"
| "transport_of DEVICE_TYPE_USB_HDD = TRANSPORT_USB"
| "transport_of DEVICE_TYPE_USB_SSD = TRANSPORT_USB"
| "transport_of DEVICE_TYPE_USB_FLASH = TRANSPORT_USB"
| "transport_of DEVICE_TYPE_HDD = TRANSPORT_SATA"
| "transport_of DEVICE_TYPE_SATA_SSD = TRANSPORT_SATA"
| "transport_of DEVICE_TYPE_UNKNOWN = TRANSPORT_UNKNOWN"

lemma set_if_typed:
  "device_well_typed s \<Longrightarrow> (\<And>v. x = Some v \<Longrightarrow> device_well_typed s \<Longrightarrow> device_well_typed (f v s))
    \<Longrightarrow> device_well_typed (set_if x f s)"
  by (simp add: set_if_def split: option.split)

lemma sysfs_read_uint32_bound: "sysfs_read_uint32 read_text path = Some v \<Longrightarrow> v < 2 ^ 32"
  using wrap32_bound by (auto simp: sysfs_read_uint32_def)

lemma typed_updates:
  assumes "device_well_typed d"
  shows "device_well_typed (d\<lparr>sd_is_rotational := b\<rparr>)" "device_well_typed (d\<lparr>sd_is_removable := b\<rparr>)"
    "device_well_typed (d\<lparr>sd_is_read_only := b\<rparr>)" "device_well_typed (d\<lparr>sd_capacity_bytes := wrap64 n\<rparr>)"
    "device_well_typed (d\<lparr>sd_model := cstr 64 s\<rparr>)" "device_well_typed (d\<lparr>sd_serial := cstr 64 s\<rparr>)"
    "512 \<le> n \<Longrightarrow> n < 2 ^ 32 \<Longrightarrow> device_well_typed (d\<lparr>sd_logical_sector_size := n\<rparr>)"
    "512 \<le> n \<Longrightarrow> n < 2 ^ 32 \<Longrightarrow> device_well_typed (d\<lparr>sd_physical_sector_size := n\<rparr>)"
  using assms length_cstr [of 64 s] wrap64_bound [of n] by (simp_all add: device_well_typed_def)

lemma sector_updates:
  assumes "device_well_typed d" "n < 2 ^ 32"
  shows "device_well_typed (if 512 \<le> n then d\<lparr>sd_logical_sector_size := n\<rparr> else d)"
    "device_well_typed (if 512 \<le> n then d\<lparr>sd_physical_sector_size := n\<rparr> else d)"
  using assms by (simp_all add: typed_updates)

lemma read_attributes_typed:
  assumes "device_well_typed d"
  shows "device_well_typed (read_attributes read_text name d)"
  unfolding read_attributes_def Let_def
  by ((rule set_if_typed)+, rule assms; (rule sector_updates)?;
      simp only: typed_updates sysfs_read_uint32_bound)

lemma classify_typed:
  assumes "device_well_typed d"
  shows "\<exists>d'. device_classify readlink (Some name) (Some d) = Some d' \<and> device_well_typed d'
    \<and> sd_device_type d' \<noteq> DEVICE_TYPE_UNKNOWN \<and> sd_transport_type d' = transport_of (sd_device_type d')"
  using assms by (auto simp: device_classify_def device_well_typed_def Let_def)

text \<open>
  C37. Information about a device is always a well-typed record, whatever the attribute files and the links hold: the
  texts fit their arrays, the numbers their types, sector sizes are at least 512, the type is a known one and
  agrees with the transport, and block erase is offered exactly to devices that are not read-only.
\<close>

theorem device_get_info_well_typed:
  "\<exists>d. device_get_info read_text readlink (Some p) (Some d0) = (ERASECURE_OK, Some d) \<and> device_well_typed d
    \<and> sd_device_type d \<noteq> DEVICE_TYPE_UNKNOWN \<and> sd_transport_type d = transport_of (sd_device_type d)
    \<and> (cap_supports_block_erase (sd_capabilities d) \<longleftrightarrow> \<not> sd_is_read_only d)"
proof -
  let ?d1 = "device_init\<lparr>sd_path := cstr 256 (if prefix ''/dev/'' p then p else ''/dev/'' @ short_name p)\<rparr>"
  have "device_well_typed ?d1" by (simp add: device_well_typed_def device_init_def length_cstr)
  then have "device_well_typed (read_attributes read_text (short_name p) ?d1)" by (rule read_attributes_typed)
  from classify_typed [OF this, of readlink "short_name p"] show ?thesis
    by (auto simp: device_get_info_def Let_def device_well_typed_def length_cstr)
qed

section \<open>Witnesses\<close>

theorem device_scan_exact_witness:
  "device_scan (\<lambda>_. None) (\<lambda>_. None) (Some [''.'', ''sda'', ''sda1'', ''loop0'', ''nvme0n1'', ''nvme0n1p2'', ''md0''])
      (Some (replicate 3 device_init)) 3 (Some 9)
    = (ERASECURE_OK, Some [device_info (\<lambda>_. None) (\<lambda>_. None) ''sda'', device_info (\<lambda>_. None) (\<lambda>_. None) ''nvme0n1'',
        device_init], Some 2)"
proof -
  let ?entries = "[Dot_entry [], Lettered_disk ''sd'' ''a'', Lettered_part ''sd'' ''a'' 1, Numbered ''loop'' 0,
    Nvme_disk 0 1, Nvme_part 0 1 2, Numbered ''md'' 0]"
  have dec: "dec 0 = ''0''" "dec (Suc 0) = ''1''" "dec 2 = ''2''" by code_simp+
  have "\<forall>x \<in> set ?entries. named_by_kernel x" by simp
  from device_scan_exact [OF _ _ this refl, of 3 "replicate 3 device_init" "\<lambda>_. None" "\<lambda>_. None" 9]
  show ?thesis by (simp add: dec numeral_3_eq_3)
qed

theorem device_get_info_of_nothing_witness:
  "\<exists>d. device_get_info (\<lambda>_. None) (\<lambda>_. None) (Some ''/dev/nothing'') (Some device_init) = (ERASECURE_OK, Some d)
    \<and> cap_supports_block_erase (sd_capabilities d)"
proof -
  have "\<not> prefix ''nvme'' (short_name ''/dev/nothing'')" "\<not> prefix ''mmcblk'' (short_name ''/dev/nothing'')"
    by (simp_all add: short_name_def)
  from device_get_info_of_nothing [OF refl refl this, of device_init] show ?thesis by blast
qed

end
