(* ===== verification/Recovery_Api.thy ===== *)
theory Recovery_Api
  imports Recovery Device_Info Sanitizer
begin

text \<open>
  The public API, \<open>include/recovery/recovery_api.h\<close> and \<open>src/recovery/recovery_api.c\<close>: forwarders to the
  device and sanitizer modules and the life of a recovery case. The calls on a case are the transitions
  of a state machine over its context; its invariant, \<open>case_inv\<close>, holds in every reachable state. Record fields
  carry the prefixes \<open>rco_\<close>, \<open>rc_\<close> and \<open>rp_\<close>.
\<close>

section \<open>Forwarders\<close>

definition api_device_scan where "api_device_scan = device_scan"
definition api_device_get_info where "api_device_get_info = device_get_info"
definition api_device_get_capabilities where "api_device_get_capabilities = device_get_capabilities"
definition api_sanitizer_run where "api_sanitizer_run = sanitizer_run"

section \<open>Cases\<close>

record RecoveryCaseOptions =
  rco_case_id :: string
  rco_investigator :: string
  rco_evidence_image_path :: string
  rco_output_dir :: string
  rco_block_size :: nat
  rco_worker_threads :: nat

record RecoveryContext =
  rc_opts :: RecoveryCaseOptions
  rc_engine :: RecoveryEngine
  rc_initialized :: bool

record RecoveryProgress =
  rp_total_blocks :: nat
  rp_processed_blocks :: nat
  rp_covered_blocks :: nat
  rp_files_recovered :: nat
  rp_candidates_in_queue :: nat
  rp_percentage :: rat
  rp_is_running :: bool
  rp_is_paused :: bool
  rp_is_cancelled :: bool
  rp_current_phase :: string

text \<open>The result is the error and the value left in \<open>*ctx_out\<close>, itself a pointer.\<close>

definition recovery_create_case ::
    "bool \<Rightarrow> RecoveryCaseOptions option \<Rightarrow> RecoveryContext option option
     \<Rightarrow> ErasecureError \<times> RecoveryContext option option" where
  "recovery_create_case calloc_ok opts ctx_out =
     (case (opts, ctx_out) of
        (Some o', Some _) \<Rightarrow>
          if \<not> calloc_ok then (ERASECURE_ERR_ALLOC, Some None)
          else
            let bs = (if rco_block_size o' \<noteq> 0 then rco_block_size o' else 512)
            in (case recovery_engine_init (Some zero_recovery_engine) (Some (rco_evidence_image_path o')) bs
                       (Some (rco_output_dir o')) of
                  (err, engine) \<Rightarrow>
                    if err \<noteq> ERASECURE_OK then (err, Some None)
                    else (ERASECURE_OK, Some (Some \<lparr>rc_opts = o', rc_engine = the engine, rc_initialized = True\<rparr>)))
      | _ \<Rightarrow> (ERASECURE_ERR_INVALID_ARG, ctx_out))"

text \<open>The calls that change the engine through one of its operations.\<close>

definition on_engine ::
    "(RecoveryEngine option \<Rightarrow> ErasecureError \<times> RecoveryEngine option) \<Rightarrow> RecoveryContext option
     \<Rightarrow> ErasecureError \<times> RecoveryContext option" where
  "on_engine f ctx =
     (case ctx of None \<Rightarrow> (ERASECURE_ERR_INVALID_ARG, None)
      | Some c \<Rightarrow>
          if \<not> rc_initialized c then (ERASECURE_ERR_INVALID_ARG, ctx)
          else (case f (Some (rc_engine c)) of (err, e) \<Rightarrow> (err, Some (c\<lparr>rc_engine := the e\<rparr>))))"

definition recovery_start :: "RecoveryContext option \<Rightarrow> ErasecureError \<times> RecoveryContext option" where
  "recovery_start = on_engine recovery_engine_run"
definition recovery_pause :: "RecoveryContext option \<Rightarrow> ErasecureError \<times> RecoveryContext option" where
  "recovery_pause = on_engine (\<lambda>e. (ERASECURE_OK, recovery_engine_pause e))"
definition recovery_resume :: "RecoveryContext option \<Rightarrow> ErasecureError \<times> RecoveryContext option" where
  "recovery_resume = on_engine (\<lambda>e. (ERASECURE_OK, recovery_engine_resume e))"
definition recovery_cancel :: "RecoveryContext option \<Rightarrow> ErasecureError \<times> RecoveryContext option" where
  "recovery_cancel = on_engine (\<lambda>e. (ERASECURE_OK, recovery_engine_cancel e))"

definition recovery_checkpoint ::
    "bool \<Rightarrow> bool \<Rightarrow> nat \<Rightarrow> filesys \<Rightarrow> RecoveryContext option \<Rightarrow> string option \<Rightarrow> ErasecureError \<times> filesys" where
  "recovery_checkpoint fopen_ok fwrite_ok flushed fs ctx checkpoint_path =
     (case (ctx, checkpoint_path) of
        (Some c, Some p) \<Rightarrow>
          if \<not> rc_initialized c then (ERASECURE_ERR_INVALID_ARG, fs)
          else checkpoint_save fopen_ok fwrite_ok flushed fs (Some (rc_engine c)) (Some p)
      | _ \<Rightarrow> (ERASECURE_ERR_INVALID_ARG, fs))"

text \<open>The percentage is the exact quotient; the code computes it in \<open>double\<close>.\<close>

definition recovery_get_progress ::
    "RecoveryContext option \<Rightarrow> RecoveryProgress option \<Rightarrow> ErasecureError \<times> RecoveryProgress option" where
  "recovery_get_progress ctx progress =
     (case (ctx, progress) of
        (Some c, Some _) \<Rightarrow>
          if \<not> rc_initialized c then (ERASECURE_ERR_INVALID_ARG, progress)
          else
            let e = rc_engine c; covered = blockmap_covered_count (Some (re_map e)); n = fm_total_blocks (re_mirror e)
            in (ERASECURE_OK, Some
                 \<lparr>rp_total_blocks = n, rp_processed_blocks = covered, rp_covered_blocks = covered,
                  rp_files_recovered = re_recovered_count e,
                  rp_candidates_in_queue = promising_queue_size (Some (re_queue e)),
                  rp_percentage = (if n > 0 then of_nat covered / of_nat n * 100 else 0),
                  rp_is_running = (\<not> re_paused e \<and> \<not> re_cancelled e),
                  rp_is_paused = re_paused e, rp_is_cancelled = re_cancelled e,
                  rp_current_phase = (if re_cancelled e then ''CANCELLED'' else if re_paused e then ''PAUSED'' else ''RUNNING'')\<rparr>)
      | _ \<Rightarrow> (ERASECURE_ERR_INVALID_ARG, progress))"

text \<open>The context is freed.\<close>

definition recovery_close_case :: "RecoveryContext option \<Rightarrow> RecoveryContext option" where
  "recovery_close_case ctx = None"

section \<open>The life of a case\<close>

inductive case_step :: "RecoveryContext \<Rightarrow> RecoveryContext \<Rightarrow> bool" where
  start: "recovery_start (Some c) = (err, Some c') \<Longrightarrow> case_step c c'"
| pause: "recovery_pause (Some c) = (err, Some c') \<Longrightarrow> case_step c c'"
| resume: "recovery_resume (Some c) = (err, Some c') \<Longrightarrow> case_step c c'"
| cancel: "recovery_cancel (Some c) = (err, Some c') \<Longrightarrow> case_step c c'"

inductive case_reachable :: "RecoveryContext \<Rightarrow> bool" where
  created: "recovery_create_case calloc_ok (Some opts) (Some junk) = (ERASECURE_OK, Some (Some c)) \<Longrightarrow> case_reachable c"
| step: "case_reachable c \<Longrightarrow> case_step c c' \<Longrightarrow> case_reachable c'"

inductive_cases case_stepE: "case_step c c'"

lemma run_phases_stub:
  "recovery_engine_run (Some e) = (ERASECURE_SUCCESS, Some e)"
  by (simp add: recovery_engine_run_def recovery_engine_phase_c_def recovery_engine_phase_f1_def recovery_engine_phase_f2_def)

lemmas case_ops = recovery_start_def recovery_pause_def recovery_resume_def recovery_cancel_def on_engine_def
  run_phases_stub recovery_engine_pause_def recovery_engine_resume_def recovery_engine_cancel_def

text \<open>What every context of a case looks like: the engine as initialised, but for its two flags.\<close>

definition case_inv :: "RecoveryContext \<Rightarrow> bool" where
  "case_inv c \<longleftrightarrow> rc_initialized c \<and>
     rc_engine c = (the (snd (recovery_engine_init (Some zero_recovery_engine) (Some []) 0 (Some (rco_output_dir (rc_opts c))))))
       \<lparr>re_paused := re_paused (rc_engine c), re_cancelled := re_cancelled (rc_engine c)\<rparr>"

lemma case_step_inv: "case_step c c' \<Longrightarrow> case_inv c \<Longrightarrow> case_inv c' \<and> rc_opts c' = rc_opts c"
proof -
  assume "case_step c c'" "case_inv c"
  moreover have "re_paused_update f (re_cancelled_update g e) = re_cancelled_update g (re_paused_update f e)" for f g and e :: RecoveryEngine
    by (cases e) simp
  ultimately show ?thesis
    by (elim case_stepE; cases "rc_engine c") (auto simp: case_ops case_inv_def)
qed

lemma case_reachable_inv: "case_reachable c \<Longrightarrow> case_inv c"
proof (induction rule: case_reachable.induct)
  case (created calloc_ok opts junk c)
  then show ?case
    by (auto simp: recovery_create_case_def recovery_engine_init_def case_inv_def Let_def zero_recovery_engine_def split: if_splits)
next
  case (step c c')
  then show ?case using case_step_inv by blast
qed

text \<open>
  Cancelling is final: once a case is cancelled no call brings it back, and it is never reported as
  running again.
\<close>

theorem recovery_cancel_is_final:
  assumes "case_reachable c" "recovery_cancel (Some c) = (err, Some c1)" "case_step\<^sup>*\<^sup>* c1 c2"
  shows "err = ERASECURE_OK \<and> re_cancelled (rc_engine c2)
    \<and> (\<exists>p. recovery_get_progress (Some c2) (Some prior) = (ERASECURE_OK, Some p) \<and> \<not> rp_is_running p)"
proof -
  have "case_inv c" using assms(1) by (rule case_reachable_inv)
  with assms(2) have c1: "err = ERASECURE_OK" "re_cancelled (rc_engine c1)" "rc_initialized c1"
    by (auto simp: case_ops case_inv_def)
  from assms(3) c1(2,3) have "re_cancelled (rc_engine c2) \<and> rc_initialized c2"
    by (induction rule: rtranclp_induct) (auto elim!: case_stepE simp: case_ops)
  with c1(1) show ?thesis by (simp add: recovery_get_progress_def Let_def)
qed

section \<open>From scanning to sanitizing\<close>

lemma device_info_type:
  "sd_device_type (device_info read_text readlink name)
    \<in> {DEVICE_TYPE_HDD, DEVICE_TYPE_SATA_SSD, DEVICE_TYPE_NVME_SSD, DEVICE_TYPE_USB_HDD, DEVICE_TYPE_USB_FLASH, DEVICE_TYPE_SD_CARD}"
  by (simp add: device_info_def device_get_info_def device_classify_def Let_def)

text \<open>
  C15. Every device a scan lists is taken by exactly one sanitizer module when the dispatcher runs: the
  fallback for unknown types is never reached, and the portable module sees flash and SD cards only.
\<close>

theorem scanned_device_dispatched:
  assumes "api_device_scan read_text readlink (Some names) (Some devices) max_devices (Some n0) = (err, Some found_devices, Some n)"
    and "max_devices \<le> length devices" "0 < max_devices" "i < n"
  shows "let d = found_devices ! i;
             run = api_sanitizer_run env fs (Some d) (Some opts) (Some r);
             res = zero_sanitization_result\<lparr>sr_result_code := ERASECURE_ERR_GENERIC, sr_method_used := so_method opts\<rparr>
         in case sd_device_type d of
              DEVICE_TYPE_HDD \<Rightarrow> run = hdd_sanitize env fs (Some d) (Some opts) (Some res)
            | DEVICE_TYPE_USB_HDD \<Rightarrow> run = hdd_sanitize env fs (Some d) (Some opts) (Some res)
            | DEVICE_TYPE_SATA_SSD \<Rightarrow> run = ssd_sanitize env fs (Some d) (Some opts) (Some res)
            | DEVICE_TYPE_NVME_SSD \<Rightarrow> run = ssd_sanitize env fs (Some d) (Some opts) (Some res)
            | DEVICE_TYPE_USB_FLASH \<Rightarrow> run = portable_sanitize env fs (Some d) (Some opts) (Some res)
            | DEVICE_TYPE_SD_CARD \<Rightarrow> run = portable_sanitize env fs (Some d) (Some opts) (Some res)
            | _ \<Rightarrow> False"
proof -
  let ?disks = "take max_devices (filter is_whole_disk names)"
  have "found_devices = map (device_info read_text readlink) ?disks @ drop (length ?disks) devices" "n = length ?disks"
    using assms(1) scan_entries_eq [of 0 max_devices devices read_text readlink names] assms(2,3)
    by (auto simp: api_device_scan_def device_scan_def Let_def)
  with assms(4) have "found_devices ! i = device_info read_text readlink (?disks ! i)" by (simp add: nth_append)
  with device_info_type [of read_text readlink "?disks ! i"]
  have "sd_device_type (found_devices ! i) \<in> {DEVICE_TYPE_HDD, DEVICE_TYPE_SATA_SSD, DEVICE_TYPE_NVME_SSD,
    DEVICE_TYPE_USB_HDD, DEVICE_TYPE_USB_FLASH, DEVICE_TYPE_SD_CARD}" by simp
  then show ?thesis
    by (auto simp: api_sanitizer_run_def sanitizer_run_def Let_def hdd_can_handle_def ssd_can_handle_def portable_can_handle_def)
qed

section \<open>Witnesses\<close>

definition demo_case_opts :: RecoveryCaseOptions where
  "demo_case_opts = \<lparr>rco_case_id = ''c1'', rco_investigator = ''i'', rco_evidence_image_path = ''e.img'',
     rco_output_dir = ''out'', rco_block_size = 0, rco_worker_threads = 0\<rparr>"

lemma demo_case: "\<exists>c c1. case_reachable c \<and> recovery_cancel (Some c) = (ERASECURE_OK, Some c1)
    \<and> case_step c1 (c1\<lparr>rc_engine := (rc_engine c1)\<lparr>re_paused := False\<rparr>\<rparr>)"
proof -
  obtain c where c: "recovery_create_case True (Some demo_case_opts) (Some None) = (ERASECURE_OK, Some (Some c))"
    by (simp add: recovery_create_case_def recovery_engine_init_def Let_def)
  then have "case_reachable c" by (rule case_reachable.created)
  then have "rc_initialized c" using case_reachable_inv by (simp add: case_inv_def)
  then have c1: "recovery_cancel (Some c) = (ERASECURE_OK, Some (c\<lparr>rc_engine := (rc_engine c)\<lparr>re_cancelled := True\<rparr>\<rparr>))"
    by (simp add: case_ops)
  let ?c1 = "c\<lparr>rc_engine := (rc_engine c)\<lparr>re_cancelled := True\<rparr>\<rparr>"
  have "case_step ?c1 (?c1\<lparr>rc_engine := (rc_engine ?c1)\<lparr>re_paused := False\<rparr>\<rparr>)"
    by (rule case_step.resume) (use \<open>rc_initialized c\<close> in \<open>simp add: case_ops\<close>)
  with c1 \<open>case_reachable c\<close> show ?thesis by blast
qed

definition demo_progress :: RecoveryProgress where
  "demo_progress = \<lparr>rp_total_blocks = 9, rp_processed_blocks = 9, rp_covered_blocks = 9, rp_files_recovered = 9,
     rp_candidates_in_queue = 9, rp_percentage = 9, rp_is_running = False, rp_is_paused = True,
     rp_is_cancelled = False, rp_current_phase = []\<rparr>"

theorem recovery_cancel_is_final_witness:
  "\<exists>c p. case_reachable c \<and> \<not> re_paused (rc_engine c)
    \<and> recovery_get_progress (Some c) (Some demo_progress) = (ERASECURE_OK, Some p) \<and> \<not> rp_is_running p"
proof -
  obtain c c1 where c: "case_reachable c" "recovery_cancel (Some c) = (ERASECURE_OK, Some c1)"
      "case_step c1 (c1\<lparr>rc_engine := (rc_engine c1)\<lparr>re_paused := False\<rparr>\<rparr>)" using demo_case by blast
  let ?c2 = "c1\<lparr>rc_engine := (rc_engine c1)\<lparr>re_paused := False\<rparr>\<rparr>"
  have "case_step c c1" using c(2) by (rule case_step.cancel)
  then have reach: "case_reachable ?c2" using c(1,3) case_reachable.step by blast
  have "case_step\<^sup>*\<^sup>* c1 ?c2" using c(3) by (rule r_into_rtranclp)
  from recovery_cancel_is_final [OF c(1,2) this, of demo_progress]
  obtain p where "recovery_get_progress (Some ?c2) (Some demo_progress) = (ERASECURE_OK, Some p)" "\<not> rp_is_running p" by blast
  moreover have "\<not> re_paused (rc_engine ?c2)" by simp
  ultimately show ?thesis using reach by blast
qed

theorem scanned_device_dispatched_witness:
  "\<exists>d. api_device_scan (\<lambda>_. None) (\<lambda>_. None) (Some [''mmcblk0'']) (Some [device_init]) 1 (Some 0) = (ERASECURE_OK, Some [d], Some 1)
    \<and> (\<forall>env fs opts r. api_sanitizer_run env fs (Some d) (Some opts) (Some r) = portable_sanitize env fs (Some d) (Some opts)
          (Some (zero_sanitization_result\<lparr>sr_result_code := ERASECURE_ERR_GENERIC, sr_method_used := so_method opts\<rparr>)))"
proof -
  let ?d = "device_info (\<lambda>_. None) (\<lambda>_. None) ''mmcblk0''"
  have scan: "api_device_scan (\<lambda>_. None) (\<lambda>_. None) (Some [''mmcblk0'']) (Some [device_init]) 1 (Some 0) = (ERASECURE_OK, Some [?d], Some 1)"
    by (simp add: api_device_scan_def device_scan_def device_get_info_eq is_partition_def p_then_digit_def strchr_def)
  have ty: "sd_device_type ?d = DEVICE_TYPE_SD_CARD"
    by (simp add: device_info_def device_get_info_def device_classify_def short_name_def Let_def)
  have "api_sanitizer_run env fs (Some ?d) (Some opts) (Some r) = portable_sanitize env fs (Some ?d) (Some opts)
      (Some (zero_sanitization_result\<lparr>sr_result_code := ERASECURE_ERR_GENERIC, sr_method_used := so_method opts\<rparr>))" for env fs opts r
    using scanned_device_dispatched [OF scan, of 0 env fs opts r] by (simp add: ty Let_def)
  with scan show ?thesis by blast
qed

end
