(* ===== verification/Audit_Trail.thy ===== *)
theory Audit_Trail
  imports Crypto Buffers
begin

text \<open>
  The audit trail: \<open>include/audit/audit.h\<close>, \<open>src/audit/audit.c\<close> and the file-based half of
  \<open>src/audit/audit_log.c\<close>. A record is finalised by hashing its fields together with the hash of the record
  before it, rendered as one JSON object, appended to a log of one object per line, and the log is checked by
  scanning each line for the two hashes. OpenSSL is the parameter \<open>md\<close> of \<open>Crypto\<close>; \<open>gm\<close> is what
  \<open>gmtime\<close> and \<open>strftime\<close> render (\<open>None\<close> when \<open>gmtime\<close> fails). Record fields carry the prefix \<open>au_\<close>.
  The SQLite half is in \<open>Audit_Database\<close>.
\<close>

section \<open>Records\<close>

record AuditRecord =
  au_case_id :: string
  au_operation_id :: string
  au_sequence_number :: nat
  au_device_id :: string
  au_device_path :: string
  au_device_model :: string
  au_device_serial :: string
  au_device_capacity_bytes :: nat
  au_device_type :: DeviceType
  au_transport_type :: TransportType
  au_method :: SanitizationMethod
  au_pattern :: ErasePattern
  au_passes :: nat
  au_app_version :: string
  au_start_time :: int
  au_end_time :: int
  au_sanitization_result :: ErasecureError
  au_verification_result_code :: ErasecureError
  au_verification_passed :: bool
  au_pre_hash_sha256 :: string
  au_post_hash_sha256 :: string
  au_previous_record_hash :: string
  au_this_record_hash :: string
  au_notes :: string

definition zero_audit_record :: AuditRecord where
  "zero_audit_record =
     \<lparr>au_case_id = [], au_operation_id = [], au_sequence_number = 0, au_device_id = [], au_device_path = [],
      au_device_model = [], au_device_serial = [], au_device_capacity_bytes = 0,
      au_device_type = DEVICE_TYPE_UNKNOWN, au_transport_type = TRANSPORT_UNKNOWN,
      au_method = SANITIZE_METHOD_NONE, au_pattern = ERASE_PATTERN_ZERO, au_passes = 0, au_app_version = [],
      au_start_time = 0, au_end_time = 0, au_sanitization_result = ERASECURE_OK,
      au_verification_result_code = ERASECURE_OK, au_verification_passed = False,
      au_pre_hash_sha256 = [], au_post_hash_sha256 = [], au_previous_record_hash = [],
      au_this_record_hash = [], au_notes = []\<rparr>"

definition audit_record_init :: "AuditRecord option \<Rightarrow> AuditRecord option" where
  "audit_record_init record = map_option (\<lambda>_. zero_audit_record\<lparr>au_app_version := ''0.1.0-dev''\<rparr>) record"

text \<open>The enumerators as \<open>printf\<close> sees them.\<close>

primrec device_type_code :: "DeviceType \<Rightarrow> nat" where
  "device_type_code DEVICE_TYPE_UNKNOWN = 0"
| "device_type_code DEVICE_TYPE_HDD = 1"
| "device_type_code DEVICE_TYPE_SATA_SSD = 2"
| "device_type_code DEVICE_TYPE_NVME_SSD = 3"
| "device_type_code DEVICE_TYPE_USB_HDD = 4"
| "device_type_code DEVICE_TYPE_USB_SSD = 5"
| "device_type_code DEVICE_TYPE_USB_FLASH = 6"
| "device_type_code DEVICE_TYPE_SD_CARD = 7"

primrec transport_code :: "TransportType \<Rightarrow> nat" where
  "transport_code TRANSPORT_UNKNOWN = 0"
| "transport_code TRANSPORT_SATA = 1"
| "transport_code TRANSPORT_NVME = 2"
| "transport_code TRANSPORT_USB = 3"
| "transport_code TRANSPORT_SD = 4"

primrec method_code :: "SanitizationMethod \<Rightarrow> nat" where
  "method_code SANITIZE_METHOD_NONE = 0"
| "method_code SANITIZE_METHOD_BLOCK_ERASE = 1"
| "method_code SANITIZE_METHOD_CRYPTO_ERASE = 2"
| "method_code SANITIZE_METHOD_DEVICE_NATIVE = 3"

primrec pattern_code :: "ErasePattern \<Rightarrow> nat" where
  "pattern_code ERASE_PATTERN_ZERO = 0"
| "pattern_code ERASE_PATTERN_ONE = 1"
| "pattern_code ERASE_PATTERN_RANDOM = 2"

text \<open>An error that no header declares has no value; no record of a program that compiles holds one.\<close>

definition result_code :: "ErasecureError \<Rightarrow> int" where
  "result_code e = the_default 0 (error_code e)"

section \<open>Hashing\<close>

text \<open>The canonical string that is hashed. \<open>device_id\<close> and \<open>notes\<close> are not part of it.\<close>

definition canonical_string :: "AuditRecord \<Rightarrow> string" where
  "canonical_string r =
     ''case_id='' @ au_case_id r @ ''|op_id='' @ au_operation_id r
     @ ''|seq='' @ dec (au_sequence_number r) @ ''|dev_path='' @ au_device_path r
     @ ''|model='' @ au_device_model r @ ''|serial='' @ au_device_serial r
     @ ''|capacity='' @ dec (au_device_capacity_bytes r)
     @ ''|dev_type='' @ dec (device_type_code (au_device_type r))
     @ ''|transport='' @ dec (transport_code (au_transport_type r))
     @ ''|method='' @ dec (method_code (au_method r)) @ ''|pattern='' @ dec (pattern_code (au_pattern r))
     @ ''|passes='' @ dec (au_passes r) @ ''|start='' @ dec_int (au_start_time r)
     @ ''|end='' @ dec_int (au_end_time r)
     @ ''|sanitize_result='' @ dec_int (result_code (au_sanitization_result r))
     @ ''|verify_result='' @ dec_int (result_code (au_verification_result_code r))
     @ ''|verify_passed='' @ (if au_verification_passed r then ''1'' else ''0'')
     @ ''|pre_hash='' @ au_pre_hash_sha256 r @ ''|post_hash='' @ au_post_hash_sha256 r
     @ ''|app_version='' @ au_app_version r @ ''|prev_hash='' @ au_previous_record_hash r"

definition link_record :: "string option \<Rightarrow> AuditRecord \<Rightarrow> AuditRecord" where
  "link_record prev_hash r = r\<lparr>au_previous_record_hash := cstr 65 (the_default [] prev_hash)\<rparr>"

text \<open>The buffer of 4096 bytes holds the string with its NUL; the digest array starts uninitialised.\<close>

definition audit_record_finalize ::
    "'c evp \<Rightarrow> AuditRecord option \<Rightarrow> string option \<Rightarrow> ErasecureError \<times> AuditRecord option" where
  "audit_record_finalize md record prev_hash =
     (case record of None \<Rightarrow> (ERASECURE_ERR_NULL_PTR, None)
      | Some r0 \<Rightarrow>
          let r = link_record prev_hash r0; s = canonical_string r
          in if 4096 \<le> length s then (ERASECURE_ERR_OVERFLOW, Some r)
             else (case hash_buffer md (Some (bytes_of s)) (Some []) of (err, digest) \<Rightarrow>
                     if err \<noteq> ERASECURE_OK then (err, Some r)
                     else (ERASECURE_OK,
                           Some (r\<lparr>au_this_record_hash :=
                             the (hash_digest_to_hex digest 32 (Some (au_this_record_hash r)))\<rparr>))))"

section \<open>JSON\<close>

definition timestamp_to_iso8601 :: "(int \<Rightarrow> string option) \<Rightarrow> int \<Rightarrow> nat \<Rightarrow> string" where
  "timestamp_to_iso8601 gm ts len = cstr len (the_default ''0000-00-00T00:00:00Z'' (gm ts))"

text \<open>The members of the object in the order of the format string; values of strings are not escaped.\<close>

definition json_members_of :: "(int \<Rightarrow> string option) \<Rightarrow> AuditRecord \<Rightarrow> (string \<times> string) list" where
  "json_members_of gm r =
     [(''case_id'', jquoted (au_case_id r)),
      (''operation_id'', jquoted (au_operation_id r)),
      (''sequence_number'', dec (au_sequence_number r)),
      (''device_id'', jquoted (au_device_id r)),
      (''device_path'', jquoted (au_device_path r)),
      (''device_model'', jquoted (au_device_model r)),
      (''device_serial'', jquoted (au_device_serial r)),
      (''device_capacity_bytes'', dec (au_device_capacity_bytes r)),
      (''device_type'', dec (device_type_code (au_device_type r))),
      (''transport_type'', dec (transport_code (au_transport_type r))),
      (''method'', dec (method_code (au_method r))),
      (''pattern'', dec (pattern_code (au_pattern r))),
      (''passes'', dec (au_passes r)),
      (''app_version'', jquoted (au_app_version r)),
      (''start_time'', jquoted (timestamp_to_iso8601 gm (au_start_time r) 32)),
      (''end_time'', jquoted (timestamp_to_iso8601 gm (au_end_time r) 32)),
      (''sanitization_result'', dec_int (result_code (au_sanitization_result r))),
      (''verification_result_code'', dec_int (result_code (au_verification_result_code r))),
      (''verification_passed'', if au_verification_passed r then ''true'' else ''false''),
      (''pre_hash_sha256'', jquoted (au_pre_hash_sha256 r)),
      (''post_hash_sha256'', jquoted (au_post_hash_sha256 r)),
      (''previous_record_hash'', jquoted (au_previous_record_hash r)),
      (''this_record_hash'', jquoted (au_this_record_hash r)),
      (''notes'', jquoted (au_notes r))]"

definition json_member :: "string \<times> string \<Rightarrow> string" where
  "json_member m = jquoted (fst m) @ CHR '':'' # snd m"

primrec json_tail :: "(string \<times> string) list \<Rightarrow> string" where
  "json_tail [] = ''}''"
| "json_tail (m # ms) = CHR '','' # json_member m @ json_tail ms"

definition json_object :: "(string \<times> string) list \<Rightarrow> string" where
  "json_object ms = CHR ''{'' # json_member (hd ms) @ json_tail (tl ms)"

definition record_json :: "(int \<Rightarrow> string option) \<Rightarrow> AuditRecord \<Rightarrow> string" where
  "record_json gm r = json_object (json_members_of gm r)"

text \<open>\<open>snprintf\<close> returns the length of the whole text and stores what fits.\<close>

definition audit_record_to_json ::
    "(int \<Rightarrow> string option) \<Rightarrow> AuditRecord option \<Rightarrow> string option \<Rightarrow> nat \<Rightarrow> int \<times> string option" where
  "audit_record_to_json gm record buf buf_len =
     (case (record, buf) of
        (Some r, Some b) \<Rightarrow>
          if buf_len = 0 then (-1, Some b)
          else (int (length (record_json gm r)), Some (cstr buf_len (record_json gm r)))
      | _ \<Rightarrow> (-1, buf))"

section \<open>The log file\<close>

datatype AuditChainStatus = AUDIT_CHAIN_VALID | AUDIT_CHAIN_TAMPERED | AUDIT_CHAIN_EMPTY | AUDIT_CHAIN_ERROR

text \<open>
  What the operating system answers to the calls of an append: whether \<open>mkdir\<close> made the log directory, whether
  \<open>fopen\<close> and \<open>fprintf\<close> succeeded, and how many bytes of the line reach the file by the end of \<open>fclose\<close>. The
  stream is buffered, so \<open>fprintf\<close> may succeed and the bytes still be lost when \<open>fclose\<close> writes them: its result
  is not looked at.
\<close>

record log_env =
  log_mkdir_ok :: bool
  log_fopen_ok :: bool
  log_fprintf_ok :: bool
  log_reached :: nat

definition ensure_dir :: "bool \<Rightarrow> filesys \<Rightarrow> string \<Rightarrow> filesys" where
  "ensure_dir mkdir_ok fs path = (if mkdir_ok \<and> fs path = None then fs(path \<mapsto> DirNode) else fs)"

definition file_bytes :: "filesys \<Rightarrow> string \<Rightarrow> byte list" where
  "file_bytes fs path = (case fs path of Some n \<Rightarrow> node_bytes n | None \<Rightarrow> [])"

definition audit_log_append_file ::
    "log_env \<Rightarrow> (int \<Rightarrow> string option) \<Rightarrow> filesys \<Rightarrow> string option \<Rightarrow> AuditRecord option
     \<Rightarrow> ErasecureError \<times> filesys" where
  "audit_log_append_file env gm fs0 log_path record =
     (case (log_path, record) of
        (Some path, Some r) \<Rightarrow>
          let fs = ensure_dir (log_mkdir_ok env) fs0 ''data/logs''
          in if \<not> log_fopen_ok env then (ERASECURE_ERR_OPEN_FAILED, fs)
             else (let old = file_bytes fs path
                   in case audit_record_to_json gm (Some r) (Some []) 8192 of (n, json) \<Rightarrow>
                     if n \<le> 0 then (ERASECURE_ERR_AUDIT, fs(path \<mapsto> Reg old))
                     else (let line = bytes_of (the json @ [newline])
                           in (if log_fprintf_ok env then ERASECURE_OK else ERASECURE_ERR_WRITE_FAILED,
                               fs(path \<mapsto> Reg (old @ take (log_reached env) line)))))
      | _ \<Rightarrow> (ERASECURE_ERR_INVALID_ARG, fs0))"

text \<open>What \<open>fgets\<close> left in \<open>line\<close>, as the string functions see it, without its newline.\<close>

definition chomp :: "string \<Rightarrow> string" where
  "chomp l = (if l \<noteq> [] \<and> last l = newline then butlast l else l)"

definition line_text :: "string \<Rightarrow> string" where
  "line_text l = chomp (takeWhile (\<lambda>c. c \<noteq> CHR 0x00) l)"

definition stored_field :: "string \<Rightarrow> string \<Rightarrow> string option" where
  "stored_field key line =
     map_option (\<lambda>rest. take 64 (takeWhile (\<lambda>c. c \<noteq> CHR 0x22) rest))
       (text_after (CHR 0x22 # key @ CHR 0x22 # '':'' @ [CHR 0x22]) line)"

text \<open>The loop over the lines: the records counted, the hash of the last one, whether the chain still holds.\<close>

fun chain_lines :: "string list \<Rightarrow> nat \<Rightarrow> string \<Rightarrow> nat \<times> bool" where
  "chain_lines [] n_rec prior = (n_rec, True)"
| "chain_lines (l # ls) n_rec prior =
     (let line = line_text l
      in if line = [] then chain_lines ls n_rec prior
         else case stored_field ''this_record_hash'' line of
                None \<Rightarrow> (Suc n_rec, False)
              | Some stored_hash \<Rightarrow>
                  (let stored_prev = the_default [] (stored_field ''previous_record_hash'' line)
                   in if 1 < Suc n_rec \<and> stored_prev \<noteq> prior then (Suc n_rec, False)
                      else if length stored_hash \<noteq> 64 then (Suc n_rec, False)
                      else chain_lines ls (Suc n_rec) (cstr 65 stored_hash)))"

definition text_of :: "byte list \<Rightarrow> string" where
  "text_of bs = map (\<lambda>b. char_of (unat b)) bs"

definition audit_log_validate_chain ::
    "bool \<Rightarrow> filesys \<Rightarrow> string option \<Rightarrow> AuditChainStatus option \<Rightarrow> ErasecureError \<times> AuditChainStatus option" where
  "audit_log_validate_chain fopen_ok fs log_path status =
     (case (log_path, status) of
        (Some path, Some _) \<Rightarrow>
          if \<not> fopen_ok then (ERASECURE_ERR_OPEN_FAILED, Some AUDIT_CHAIN_ERROR)
          else (case chain_lines (fgets_lines 8190 (text_of (file_bytes fs path))) 0 [] of (n_rec, chain_ok) \<Rightarrow>
                  (ERASECURE_OK,
                   Some (if n_rec = 0 then AUDIT_CHAIN_EMPTY
                         else if chain_ok then AUDIT_CHAIN_VALID else AUDIT_CHAIN_TAMPERED)))
      | _ \<Rightarrow> (ERASECURE_ERR_INVALID_ARG, status))"

section \<open>Well-formed records\<close>

text \<open>Every array holds its NUL and every number is in its type; the error codes are declared ones.\<close>

definition wf_audit :: "AuditRecord \<Rightarrow> bool" where
  "wf_audit r \<longleftrightarrow>
     length (au_case_id r) < 64 \<and> length (au_operation_id r) < 64 \<and> length (au_device_id r) < 256
     \<and> length (au_device_path r) < 256 \<and> length (au_device_model r) < 64 \<and> length (au_device_serial r) < 64
     \<and> length (au_app_version r) < 32 \<and> length (au_pre_hash_sha256 r) < 65 \<and> length (au_post_hash_sha256 r) < 65
     \<and> length (au_previous_record_hash r) < 65 \<and> length (au_this_record_hash r) < 65 \<and> length (au_notes r) < 512
     \<and> au_sequence_number r < 2 ^ 64 \<and> au_device_capacity_bytes r < 2 ^ 64 \<and> au_passes r < 2 ^ 32
     \<and> \<bar>au_start_time r\<bar> < 2 ^ 63 \<and> \<bar>au_end_time r\<bar> < 2 ^ 63
     \<and> error_code (au_sanitization_result r) \<noteq> None \<and> error_code (au_verification_result_code r) \<noteq> None"

text \<open>No text field holds a quotation mark, a newline or a NUL.\<close>

definition plain :: "string \<Rightarrow> bool" where
  "plain s \<longleftrightarrow> CHR 0x22 \<notin> set s \<and> newline \<notin> set s \<and> CHR 0x00 \<notin> set s"

definition plain_record :: "AuditRecord \<Rightarrow> bool" where
  "plain_record r \<longleftrightarrow>
     list_all plain [au_case_id r, au_operation_id r, au_device_id r, au_device_path r, au_device_model r,
       au_device_serial r, au_app_version r, au_pre_hash_sha256 r, au_post_hash_sha256 r,
       au_previous_record_hash r, au_this_record_hash r, au_notes r]"

section \<open>Sizes\<close>

lemma result_code_bound: "\<bar>result_code e\<bar> < 10 ^ Suc 2"
  by (cases e) (simp_all add: result_code_def)

lemma code_lengths:
  "length (dec (device_type_code t)) = 1" "length (dec (transport_code tr)) = 1"
  "length (dec (method_code m)) = 1" "length (dec (pattern_code p)) = 1"
  subgoal by (cases t) (simp_all add: dec.simps)
  subgoal by (cases tr) (simp_all add: dec.simps)
  subgoal by (cases m) (simp_all add: dec.simps)
  subgoal by (cases p) (simp_all add: dec.simps)
  done

lemma field_lengths:
  assumes "wf_audit r"
  shows "length (au_case_id r) < 64" "length (au_operation_id r) < 64" "length (au_device_id r) < 256"
    "length (au_device_path r) < 256" "length (au_device_model r) < 64" "length (au_device_serial r) < 64"
    "length (au_app_version r) < 32" "length (au_pre_hash_sha256 r) < 65" "length (au_post_hash_sha256 r) < 65"
    "length (au_previous_record_hash r) < 65" "length (au_this_record_hash r) < 65" "length (au_notes r) < 512"
  using assms by (simp_all add: wf_audit_def)

lemma number_lengths:
  assumes "wf_audit r"
  shows "length (dec (au_sequence_number r)) \<le> 20" "length (dec (au_device_capacity_bytes r)) \<le> 20"
    "length (dec (au_passes r)) \<le> 10" "length (dec_int (au_start_time r)) \<le> 20"
    "length (dec_int (au_end_time r)) \<le> 20" "length (dec_int (result_code e)) \<le> 4"
proof -
  show "length (dec (au_sequence_number r)) \<le> 20" "length (dec (au_device_capacity_bytes r)) \<le> 20"
    using length_dec [of "au_sequence_number r" 19] length_dec [of "au_device_capacity_bytes r" 19] assms
    by (simp_all add: wf_audit_def)
  show "length (dec (au_passes r)) \<le> 10" using length_dec [of "au_passes r" 9] assms by (simp add: wf_audit_def)
  show "length (dec_int (au_start_time r)) \<le> 20" "length (dec_int (au_end_time r)) \<le> 20"
    using length_dec_int [of "au_start_time r" 18] length_dec_int [of "au_end_time r" 18] assms
    by (simp_all add: wf_audit_def)
  show "length (dec_int (result_code e)) \<le> 4" using length_dec_int [OF result_code_bound [of e]] by simp
qed

lemma length_canonical: "wf_audit r \<Longrightarrow> length (canonical_string r) < 4096"
  using number_lengths(1-5) [of r] number_lengths(6) [of r "au_sanitization_result r"]
    number_lengths(6) [of r "au_verification_result_code r"] field_lengths [of r]
  by (simp add: canonical_string_def code_lengths)

lemma wf_link: "wf_audit r \<Longrightarrow> wf_audit (link_record prev_hash r)"
  by (simp add: wf_audit_def link_record_def length_cstr)

lemma length_iso: "length (timestamp_to_iso8601 gm ts 32) < 32"
  by (simp add: timestamp_to_iso8601_def length_cstr)

lemma length_record_json: "wf_audit r \<Longrightarrow> length (record_json gm r) < 3000"
  using number_lengths(1-3) [of r] number_lengths(6) [of r "au_sanitization_result r"]
    number_lengths(6) [of r "au_verification_result_code r"] field_lengths [of r]
    length_iso [of gm "au_start_time r"] length_iso [of gm "au_end_time r"]
  by (simp add: record_json_def json_object_def json_members_of_def json_member_def code_lengths)

section \<open>Finding the hashes in a line\<close>

abbreviation quote :: char where "quote \<equiv> CHR 0x22"

definition json_key :: "string \<Rightarrow> string" where
  "json_key k = quote # k @ quote # '':'' @ [quote]"

text \<open>Values are numbers or quoted texts, without a quotation mark inside; what follows starts with a separator.\<close>

definition clean_member :: "string \<times> string \<Rightarrow> bool" where
  "clean_member m \<longleftrightarrow> quote \<notin> set (fst m) \<and> (quote \<notin> set (snd m) \<or> (\<exists>w. quote \<notin> set w \<and> snd m = jquoted w))"

definition separated :: "string \<Rightarrow> bool" where
  "separated s \<longleftrightarrow> s \<noteq> [] \<and> hd s \<in> {CHR '','', CHR ''}''}"

definition search_key :: "string \<Rightarrow> bool" where
  "search_key k \<longleftrightarrow> quote \<notin> set k \<and> k \<noteq> [] \<and> hd k \<notin> {CHR '','', CHR ''}'', CHR '':''}"

lemma separated_tail [simp]: "separated (json_tail ms)"
  by (cases ms) (simp_all add: separated_def)

lemma member_hit:
  assumes "search_key k"
  shows "text_after (json_key k) (json_member (k, jquoted w) @ s) = Some (w @ quote # s)"
  using assms by (simp add: text_after_hit json_key_def json_member_def jquoted_def)

lemma no_key_at_mark:
  assumes "search_key k" and "s \<noteq> []" and "hd s \<in> {CHR '','', CHR ''}'', CHR '':''}"
  shows "\<not> prefix (json_key k) (quote # s)"
  using assms by (cases s; cases k) (auto simp: json_key_def search_key_def)

lemma value_skip:
  assumes "search_key k" "clean_member (n, v)" "separated s"
  shows "text_after (json_key k) (v @ s) = text_after (json_key k) s"
proof (cases "quote \<in> set v")
  case False
  then show ?thesis unfolding json_key_def by (rule text_after_skip)
next
  case True
  with assms obtain w where w: "quote \<notin> set w" "v = jquoted w" by (auto simp: clean_member_def)
  have "\<not> prefix (json_key k) (quote # w @ quote # s)"
    using assms prefix_delimited [of quote k w] w by (cases s) (auto simp: json_key_def search_key_def separated_def)
  then have "text_after (json_key k) (v @ s) = text_after (json_key k) (w @ quote # s)"
    by (simp add: w jquoted_def text_after_step)
  also have "\<dots> = text_after (json_key k) (quote # s)"
    unfolding json_key_def by (rule text_after_skip [OF w(1)])
  also have "\<dots> = text_after (json_key k) s"
    using assms by (intro text_after_step no_key_at_mark) (auto simp: separated_def)
  finally show ?thesis .
qed

lemma member_skip:
  assumes "search_key k" "clean_member (n, v)" "separated s" "k \<noteq> n"
  shows "text_after (json_key k) (json_member (n, v) @ s) = text_after (json_key k) s"
proof -
  have n: "quote \<notin> set n" using assms by (simp add: clean_member_def)
  have "\<not> prefix (json_key k) (quote # n @ quote # CHR '':'' # v @ s)"
    using assms prefix_delimited [of quote k n] n by (simp add: json_key_def search_key_def)
  then have "text_after (json_key k) (json_member (n, v) @ s) = text_after (json_key k) (n @ quote # CHR '':'' # v @ s)"
    by (simp add: json_member_def jquoted_def text_after_step)
  also have "\<dots> = text_after (json_key k) (quote # CHR '':'' # v @ s)"
    unfolding json_key_def by (rule text_after_skip [OF n])
  also have "\<dots> = text_after (json_key k) ([CHR '':''] @ v @ s)"
    using assms(1) by (simp add: text_after_step no_key_at_mark)
  also have "\<dots> = text_after (json_key k) (v @ s)" unfolding json_key_def by (rule text_after_skip) simp
  also have "\<dots> = text_after (json_key k) s" by (rule value_skip) fact+
  finally show ?thesis .
qed

lemma tail_lookup:
  assumes "search_key k" "\<forall>m \<in> set ms. clean_member m" "map_of ms k = Some (jquoted w)"
  shows "\<exists>rest. text_after (json_key k) (json_tail ms) = Some (w @ quote # rest)"
  using assms(2, 3)
proof (induction ms)
  case (Cons m ms)
  obtain n v where m: "m = (n, v)" by (cases m)
  have skip: "text_after (json_key k) (json_tail (m # ms)) = text_after (json_key k) (json_member m @ json_tail ms)"
    using text_after_skip [of quote "[CHR '','']"] by (simp add: json_key_def)
  show ?case
  proof (cases "k = n")
    case True
    with Cons.prems m show ?thesis unfolding skip using member_hit [OF assms(1)] by auto
  next
    case False
    have "text_after (json_key k) (json_member (n, v) @ json_tail ms) = text_after (json_key k) (json_tail ms)"
      by (rule member_skip) (use False Cons.prems m assms(1) in auto)
    with skip have "text_after (json_key k) (json_tail (m # ms)) = text_after (json_key k) (json_tail ms)" by (simp only: m)
    with Cons False m show ?thesis by auto
  qed
qed simp

lemma object_lookup:
  assumes "search_key k" "\<forall>m \<in> set ms. clean_member m" "map_of ms k = Some (jquoted w)"
  shows "\<exists>rest. text_after (json_key k) (json_object ms) = Some (w @ quote # rest)"
proof -
  obtain m ms' where ms: "ms = m # ms'" using assms(3) by (cases ms) auto
  have "text_after (json_key k) (json_object ms) = text_after (json_key k) (json_member m @ json_tail ms')"
    using text_after_skip [of quote "[CHR ''{'']"] by (simp add: json_key_def json_object_def ms)
  also have "\<dots> = text_after (json_key k) (json_tail ms)"
    using text_after_skip [of quote "[CHR '','']"] by (simp add: json_key_def ms)
  finally show ?thesis using tail_lookup [OF assms] by simp
qed

section \<open>Lines of the log\<close>

text \<open>What is assumed of \<open>gmtime\<close> and \<open>strftime\<close>: they render digits, letters and punctuation.\<close>

definition plain_times :: "(int \<Rightarrow> string option) \<Rightarrow> bool" where
  "plain_times gm \<longleftrightarrow> (\<forall>t s. gm t = Some s \<longrightarrow> plain s)"

lemma plain_iso: "plain_times gm \<Longrightarrow> plain (timestamp_to_iso8601 gm t n)"
  by (cases "gm t")
    (auto simp: timestamp_to_iso8601_def plain_times_def plain_def cstr_def newline_char dest: in_set_takeD)

lemma plain_numbers: "plain (dec n)" "plain (dec_int i)"
  using dec_chars [of _ n] dec_int_chars [of _ i] by (auto simp: plain_def newline_char)

lemma plain_fields:
  assumes "plain_record r"
  shows "plain (au_case_id r)" "plain (au_operation_id r)" "plain (au_device_id r)" "plain (au_device_path r)"
    "plain (au_device_model r)" "plain (au_device_serial r)" "plain (au_app_version r)"
    "plain (au_pre_hash_sha256 r)" "plain (au_post_hash_sha256 r)" "plain (au_previous_record_hash r)"
    "plain (au_this_record_hash r)" "plain (au_notes r)"
  using assms by (simp_all add: plain_record_def)

lemma plain_no_quote: "plain s \<Longrightarrow> quote \<notin> set s"
  by (simp add: plain_def)

lemma clean_value:
  "quote \<notin> set n \<Longrightarrow> quote \<notin> set v \<Longrightarrow> clean_member (n, jquoted v)"
  "quote \<notin> set n \<Longrightarrow> clean_member (n, dec i)"
  "quote \<notin> set n \<Longrightarrow> clean_member (n, dec_int j)"
  "quote \<notin> set n \<Longrightarrow> clean_member (n, if b then ''true'' else ''false'')"
  using plain_numbers by (auto simp: clean_member_def plain_def)

lemma members_clean:
  assumes "plain_record r" "plain_times gm"
  shows "\<forall>m \<in> set (json_members_of gm r). clean_member m"
  by (simp add: json_members_of_def clean_value plain_no_quote plain_fields [OF assms(1)] plain_iso [OF assms(2)])

lemma stored_fields:
  assumes "wf_audit r" "plain_record r" "plain_times gm"
  shows "stored_field ''this_record_hash'' (record_json gm r) = Some (au_this_record_hash r)"
    and "stored_field ''previous_record_hash'' (record_json gm r) = Some (au_previous_record_hash r)"
proof -
  have *: "stored_field k (record_json gm r) = Some w"
    if "search_key k" "map_of (json_members_of gm r) k = Some (jquoted w)" "quote \<notin> set w" "length w < 65" for k w
  proof -
    have "\<exists>rest. text_after (json_key k) (record_json gm r) = Some (w @ quote # rest)"
      using object_lookup [OF that(1) members_clean [OF assms(2,3)] that(2)] by (simp add: record_json_def)
    then obtain rest where "text_after (json_key k) (record_json gm r) = Some (w @ quote # rest)" ..
    with that(3,4) show ?thesis
      by (simp add: stored_field_def json_key_def) (subst takeWhile_append2; auto)
  qed
  show "stored_field ''this_record_hash'' (record_json gm r) = Some (au_this_record_hash r)"
    "stored_field ''previous_record_hash'' (record_json gm r) = Some (au_previous_record_hash r)"
    by (rule *; simp add: search_key_def json_members_of_def plain_no_quote plain_fields [OF assms(2)]
        field_lengths [OF assms(1)])+
qed

text \<open>Neither a newline nor a NUL gets into the line.\<close>

lemma plain_no_control: "plain s \<Longrightarrow> c \<in> {newline, CHR 0x00} \<Longrightarrow> c \<notin> set s"
  by (auto simp: plain_def)

lemma json_no_control:
  assumes "plain_record r" "plain_times gm" "c \<in> {newline, CHR 0x00}"
  shows "c \<notin> set (record_json gm r)"
proof -
  have tail: "c \<notin> set (json_tail ms)" if "\<forall>m \<in> set ms. c \<notin> set (fst m) \<and> c \<notin> set (snd m)" for ms
    using that assms(3) by (induction ms) (auto simp: json_member_def jquoted_def newline_char)
  have q: "c \<notin> set (jquoted w)" if "plain w" for w
    using that assms(3) by (auto simp: jquoted_def plain_def newline_char)
  note no = q plain_no_control [OF _ assms(3)] plain_numbers plain_fields [OF assms(1)] plain_iso [OF assms(2)]
  have b: "plain ''true''" "plain ''false''" by (simp_all add: plain_def newline_char)
  have names: "\<forall>m \<in> set (json_members_of gm r). c \<notin> set (fst m)"
    using assms(3) by (auto simp: json_members_of_def newline_char)
  have vals: "\<forall>m \<in> set (json_members_of gm r). c \<notin> set (snd m)"
    by (simp add: json_members_of_def no b)
  have ms: "json_members_of gm r \<noteq> []" by (simp add: json_members_of_def)
  then have "hd (json_members_of gm r) \<in> set (json_members_of gm r)" by simp
  moreover have "set (tl (json_members_of gm r)) \<subseteq> set (json_members_of gm r)" using ms by (meson list.set_sel(2) subsetI)
  ultimately show ?thesis
    using tail [of "tl (json_members_of gm r)"] names vals assms(3)
    by (auto simp: record_json_def json_object_def json_member_def jquoted_def newline_char)
qed

lemma line_text_json:
  assumes "plain_record r" "plain_times gm"
  shows "line_text (record_json gm r @ [newline]) = record_json gm r"
proof -
  have "takeWhile (\<lambda>c. c \<noteq> CHR 0x00) (record_json gm r @ [newline]) = record_json gm r @ [newline]"
    using json_no_control [OF assms, of "CHR 0x00"] by (subst takeWhile_eq_all_conv) (auto simp: newline_char)
  then show ?thesis by (simp add: line_text_def chomp_def)
qed

lemma record_json_not_Nil [simp]: "record_json gm r \<noteq> []"
  by (simp add: record_json_def json_object_def)

lemma text_of_bytes_of: "text_of (bytes_of s) = s"
  by (simp add: text_of_def bytes_of_def comp_def)

definition log_text :: "(int \<Rightarrow> string option) \<Rightarrow> AuditRecord list \<Rightarrow> string" where
  "log_text gm rs = concat (map (\<lambda>r. record_json gm r @ [newline]) rs)"

definition good_record :: "AuditRecord \<Rightarrow> bool" where
  "good_record r \<longleftrightarrow> wf_audit r \<and> plain_record r"

lemma log_lines:
  assumes "\<forall>r \<in> set rs. good_record r" "plain_times gm"
  shows "fgets_lines 8190 (log_text gm rs) = map (\<lambda>r. record_json gm r @ [newline]) rs"
  using assms(1)
proof (induction rs)
  case (Cons r rs)
  then have r: "wf_audit r" "plain_record r" by (simp_all add: good_record_def)
  have "newline \<notin> set (record_json gm r)" using json_no_control [OF r(2) assms(2)] by simp
  moreover have "length (record_json gm r) \<le> 8190" using length_record_json [OF r(1), of gm] by simp
  ultimately show ?case using Cons fgets_lines_line by (simp add: log_text_def)
qed (simp add: log_text_def)

text \<open>The links the validator checks, as a specification: they involve the two hash fields only.\<close>

definition chain_linked :: "AuditRecord list \<Rightarrow> bool" where
  "chain_linked rs \<longleftrightarrow>
     (\<forall>i < length rs. length (au_this_record_hash (rs ! i)) = 64
        \<and> (0 < i \<longrightarrow> au_previous_record_hash (rs ! i) = au_this_record_hash (rs ! (i - 1))))"

primrec linked_from :: "string option \<Rightarrow> AuditRecord list \<Rightarrow> bool" where
  "linked_from prior [] = True"
| "linked_from prior (r # rs) =
     ((prior = None \<or> prior = Some (au_previous_record_hash r)) \<and> length (au_this_record_hash r) = 64
      \<and> linked_from (Some (au_this_record_hash r)) rs)"

lemma linked_from_nth:
  "linked_from prior rs \<longleftrightarrow>
     (\<forall>i < length rs. length (au_this_record_hash (rs ! i)) = 64
        \<and> (if i = 0 then prior = None \<or> prior = Some (au_previous_record_hash (rs ! 0))
            else au_previous_record_hash (rs ! i) = au_this_record_hash (rs ! (i - 1))))"
proof (induction rs arbitrary: prior)
  case (Cons r rs)
  have step: "(if i = 0 then Some (au_this_record_hash r) = None
        \<or> Some (au_this_record_hash r) = Some (au_previous_record_hash (rs ! 0))
      else au_previous_record_hash (rs ! i) = au_this_record_hash (rs ! (i - 1)))
    \<longleftrightarrow> au_previous_record_hash ((r # rs) ! Suc i) = au_this_record_hash ((r # rs) ! i)" for i
    by (cases i) auto
  show ?case
    unfolding linked_from.simps Cons.IH length_Cons All_less_Suc2 step by auto
qed simp

lemma chain_linked_iff: "chain_linked rs \<longleftrightarrow> linked_from None rs"
  by (auto simp: chain_linked_def linked_from_nth)

lemma chain_lines_log:
  assumes "\<forall>r \<in> set rs. good_record r" "plain_times gm"
  shows "\<exists>k. chain_lines (map (\<lambda>r. record_json gm r @ [newline]) rs) n prior
      = (k, linked_from (if n = 0 then None else Some prior) rs) \<and> (k = 0 \<longleftrightarrow> n = 0 \<and> rs = [])"
  using assms(1)
proof (induction rs arbitrary: n prior)
  case (Cons r rs)
  then have r: "wf_audit r" "plain_record r" by (simp_all add: good_record_def)
  note line = line_text_json [OF r(2) assms(2)] and stored = stored_fields [OF r assms(2)]
  show ?case
  proof (cases "(n = 0 \<or> prior = au_previous_record_hash r) \<and> length (au_this_record_hash r) = 64")
    case True
    with Cons.IH [of "Suc n" "au_this_record_hash r"] Cons.prems show ?thesis
      by (auto simp: line stored Let_def)
  next
    case False
    then show ?thesis by (auto simp: line stored Let_def)
  qed
qed simp

lemma validate_log:
  assumes "\<forall>r \<in> set rs. good_record r" "plain_times gm" "file_bytes fs path = bytes_of (log_text gm rs)"
  shows "audit_log_validate_chain True fs (Some path) (Some status) =
    (ERASECURE_OK,
     Some (if rs = [] then AUDIT_CHAIN_EMPTY
           else if chain_linked rs then AUDIT_CHAIN_VALID else AUDIT_CHAIN_TAMPERED))"
  using chain_lines_log [OF assms(1,2), of 0 "[]"]
  by (auto simp: audit_log_validate_chain_def assms(3) text_of_bytes_of log_lines [OF assms(1,2)] chain_linked_iff)

section \<open>Appending and finalising\<close>

lemma to_json_fits:
  "wf_audit r \<Longrightarrow> audit_record_to_json gm (Some r) (Some b) 8192 = (int (length (record_json gm r)), Some (record_json gm r))"
  using length_record_json [of r gm] by (simp add: audit_record_to_json_def)

lemma file_bytes_ensure_dir [simp]: "file_bytes (ensure_dir ok fs d) path = file_bytes fs path"
  by (auto simp: file_bytes_def ensure_dir_def split: option.splits)

lemma append_file_bytes:
  assumes "audit_log_append_file env gm fs (Some path) (Some r) = (ERASECURE_OK, fs')" "wf_audit r"
  shows "file_bytes fs' path = file_bytes fs path @ take (log_reached env) (bytes_of (record_json gm r @ [newline]))"
  using assms by (auto simp: audit_log_append_file_def to_json_fits Let_def file_bytes_def [of "_(_ \<mapsto> _)"] split: if_splits)

lemma append_file_ok:
  assumes "audit_log_append_file env gm fs (Some path) (Some r) = (ERASECURE_OK, fs')" "wf_audit r" "8192 \<le> log_reached env"
  shows "file_bytes fs' path = file_bytes fs path @ bytes_of (record_json gm r @ [newline])"
  using append_file_bytes [OF assms(1,2)] length_record_json [OF assms(2), of gm] assms(3) by (simp add: bytes_of_def)

lemma hash_errors: "fst (hash_buffer md (Some d) (Some out)) \<in> {ERASECURE_OK, ERASECURE_ERR_CRYPTO, ERASECURE_ERR_HASH_FAILED}"
  by (simp add: hash_buffer_def evp_hash_buffer_def split: option.splits)

lemma finalize_within_buffer:
  assumes "wf_audit r"
  shows "audit_record_finalize md (Some r) prev_hash =
    (case hash_buffer md (Some (bytes_of (canonical_string (link_record prev_hash r)))) (Some []) of (err, digest) \<Rightarrow>
       if err \<noteq> ERASECURE_OK then (err, Some (link_record prev_hash r))
       else (ERASECURE_OK, Some (link_record prev_hash r
         \<lparr>au_this_record_hash := the (hash_digest_to_hex digest 32 (Some (au_this_record_hash (link_record prev_hash r))))\<rparr>)))"
  using length_canonical [OF wf_link [OF assms, of prev_hash]] by (simp add: audit_record_finalize_def Let_def)

lemma append_file_succeeds:
  assumes "wf_audit r" "log_fopen_ok env" "log_fprintf_ok env"
  shows "fst (audit_log_append_file env gm fs (Some path) (Some r)) = ERASECURE_OK"
  using assms by (simp add: audit_log_append_file_def to_json_fits Let_def)

definition sha256_digests :: "'c evp \<Rightarrow> bool" where
  "sha256_digests md \<longleftrightarrow> (\<forall>c d. evp_final md c = Some d \<longrightarrow> length d = 32)"

lemma hash_digest_length:
  assumes "hash_buffer md (Some data) (Some out) = (ERASECURE_OK, digest)" "sha256_digests md"
  shows "\<exists>d. digest = Some d \<and> length d = 32"
proof -
  from assms(1) obtain ctx where "evp_init md = Some ctx" "evp_ctx_new_ok md"
    by (auto simp: hash_buffer_def evp_hash_buffer_def split: option.splits if_splits)
  with assms show ?thesis
    by (cases "evp_update md ctx data"; cases "evp_final md (the (evp_update md ctx data))")
      (auto simp: hash_buffer_def evp_hash_buffer_def sha256_digests_def)
qed

lemma hex_text: "plain (concat (map (\<lambda>i. hex2 (d ! i)) [0..<n]))" "length (concat (map (\<lambda>i. hex2 (d ! i)) [0..<n])) = 2 * n"
proof -
  show "length (concat (map (\<lambda>i. hex2 (d ! i)) [0..<n])) = 2 * n" by (induction n) simp_all
  show "plain (concat (map (\<lambda>i. hex2 (d ! i)) [0..<n]))"
    using hex2_chars by (fastforce simp: plain_def newline_char)
qed

lemma finalize_ok:
  assumes "audit_record_finalize md (Some r) prev_hash = (ERASECURE_OK, r')"
    "good_record r" "plain (the_default [] prev_hash)" "sha256_digests md"
  shows "\<exists>h. r' = Some (link_record prev_hash r\<lparr>au_this_record_hash := h\<rparr>) \<and> length h = 64
    \<and> good_record (link_record prev_hash r\<lparr>au_this_record_hash := h\<rparr>)"
proof -
  let ?r = "link_record prev_hash r"
  have len: "length (canonical_string ?r) < 4096"
    using assms(2) length_canonical wf_link by (auto simp: good_record_def)
  obtain digest where digest: "hash_buffer md (Some (bytes_of (canonical_string ?r))) (Some []) = (ERASECURE_OK, digest)"
      "r' = Some (?r\<lparr>au_this_record_hash := the (hash_digest_to_hex digest 32 (Some (au_this_record_hash ?r)))\<rparr>)"
    using assms(1) len by (auto simp: audit_record_finalize_def Let_def split: prod.splits if_splits)
  obtain d where d: "digest = Some d" using hash_digest_length [OF digest(1) assms(4)] by blast
  let ?h = "concat (map (\<lambda>i. hex2 (d ! i)) [0..<32])"
  have h: "plain ?h" "length ?h = 64" using hex_text [of d 32] by simp_all
  have "plain (au_previous_record_hash ?r)"
    using assms(3) by (auto simp: link_record_def cstr_def plain_def dest: in_set_takeD)
  with assms(2) h wf_link [of r prev_hash] have "good_record (?r\<lparr>au_this_record_hash := ?h\<rparr>)"
    by (simp add: good_record_def wf_audit_def plain_record_def link_record_def)
  moreover have "r' = Some (?r\<lparr>au_this_record_hash := ?h\<rparr>)" by (simp add: digest(2) d hash_digest_to_hex_def)
  ultimately show ?thesis using h(2) by blast
qed

section \<open>Properties\<close>

text \<open>
  C17. What the validator decides, exactly: it answers that a log of well-formed records is empty, valid or
  tampered with just as the stored hashes say. Valid means that every record stores a hash of 64 characters and
  every record but the first stores the hash of the record before it. It looks at nothing else: two logs whose
  records have the same two hash fields get the same verdict, whatever their outcomes, devices, times and notes.
  This is less than \<open>audit_log.h\<close> and the comment in \<open>audit_log_validate_chain\<close> promise, that each record's hash is
  derived again and that any changed byte breaks the chain: no digest is computed, so a record rewritten under
  its old hash passes.
\<close>

theorem audit_validate_exact:
  assumes "\<forall>r \<in> set rs. good_record r" "plain_times gm" "file_bytes fs path = bytes_of (log_text gm rs)"
  shows "audit_log_validate_chain True fs (Some path) (Some status) =
    (ERASECURE_OK,
     Some (if rs = [] then AUDIT_CHAIN_EMPTY
           else if chain_linked rs then AUDIT_CHAIN_VALID else AUDIT_CHAIN_TAMPERED))
    \<and> ((\<forall>r \<in> set rs'. good_record r) \<and> file_bytes fs' path = bytes_of (log_text gm rs')
        \<and> map au_this_record_hash rs' = map au_this_record_hash rs
        \<and> map au_previous_record_hash rs' = map au_previous_record_hash rs
      \<longrightarrow> audit_log_validate_chain True fs' (Some path) (Some status) =
            audit_log_validate_chain True fs (Some path) (Some status))"
proof (intro conjI impI; (elim conjE)?)
  show "audit_log_validate_chain True fs (Some path) (Some status) =
    (ERASECURE_OK,
     Some (if rs = [] then AUDIT_CHAIN_EMPTY
           else if chain_linked rs then AUDIT_CHAIN_VALID else AUDIT_CHAIN_TAMPERED))"
    by (rule validate_log) fact+
  assume same: "map au_this_record_hash rs' = map au_this_record_hash rs"
    "map au_previous_record_hash rs' = map au_previous_record_hash rs"
    and log: "\<forall>r \<in> set rs'. good_record r" "file_bytes fs' path = bytes_of (log_text gm rs')"
  have len: "length rs' = length rs" using same(1) by (metis length_map)
  then have "chain_linked rs' \<longleftrightarrow> chain_linked rs"
    using same unfolding chain_linked_def by (metis length_map less_imp_diff_less nth_map)
  moreover have "rs' = [] \<longleftrightarrow> rs = []" using len by auto
  ultimately show "audit_log_validate_chain True fs' (Some path) (Some status) =
      audit_log_validate_chain True fs (Some path) (Some status)"
    unfolding validate_log [OF assms] validate_log [OF log(1) assms(2) log(2)] by simp
qed

text \<open>
  A run of the trail as its callers compose it: each record finalised on the hash before it, then appended;
  \<open>env k\<close> are the answers to the append that \<open>k\<close> others follow.
\<close>

fun audit_session ::
    "'c evp \<Rightarrow> (nat \<Rightarrow> log_env) \<Rightarrow> (int \<Rightarrow> string option) \<Rightarrow> string \<Rightarrow> AuditRecord list \<Rightarrow> string \<Rightarrow> filesys
     \<Rightarrow> ErasecureError \<times> filesys" where
  "audit_session md env gm path [] prev fs = (ERASECURE_OK, fs)"
| "audit_session md env gm path (r # rs) prev fs =
     (case audit_record_finalize md (Some r) (Some prev) of (e, r') \<Rightarrow>
        if e \<noteq> ERASECURE_OK then (e, fs)
        else (case audit_log_append_file (env (length rs)) gm fs (Some path) r' of (e', fs') \<Rightarrow>
                if e' \<noteq> ERASECURE_OK then (e', fs')
                else audit_session md env gm path rs (au_this_record_hash (the r')) fs'))"

definition last_hash :: "AuditRecord list \<Rightarrow> string" where
  "last_hash rs = (if rs = [] then [] else au_this_record_hash (last rs))"

lemma linked_from_snoc:
  "linked_from prior (rs @ [r]) \<longleftrightarrow> linked_from prior rs \<and> length (au_this_record_hash r) = 64
    \<and> (if rs = [] then prior = None \<or> prior = Some (au_previous_record_hash r)
        else au_previous_record_hash r = last_hash rs)"
  by (induction rs arbitrary: prior) (auto simp: last_hash_def)

lemma session_log:
  assumes "audit_session md env gm path rs (last_hash old) fs = (ERASECURE_OK, fs')"
    "\<forall>r \<in> set rs. good_record r" "\<forall>r \<in> set old. good_record r" "sha256_digests md"
    "chain_linked old" "file_bytes fs path = bytes_of (log_text gm old)" "\<And>k. 8192 \<le> log_reached (env k)"
  shows "\<exists>new. length new = length rs \<and> (\<forall>r \<in> set (old @ new). good_record r) \<and> chain_linked (old @ new)
    \<and> file_bytes fs' path = bytes_of (log_text gm (old @ new))"
  using assms
proof (induction rs arbitrary: old fs)
  case Nil
  then show ?case by auto
next
  case (Cons r rs)
  have good_last: "plain (last_hash old)" "length (last_hash old) < 65"
    using Cons.prems(3) plain_fields(11) field_lengths(11)
    by (auto simp: last_hash_def good_record_def plain_def)
  obtain r1 where fin: "audit_record_finalize md (Some r) (Some (last_hash old)) = (ERASECURE_OK, r1)"
    using Cons.prems(1) by (auto split: prod.splits if_splits)
  obtain h where h: "r1 = Some (link_record (Some (last_hash old)) r\<lparr>au_this_record_hash := h\<rparr>)" "length h = 64"
      "good_record (link_record (Some (last_hash old)) r\<lparr>au_this_record_hash := h\<rparr>)"
    using finalize_ok [OF fin] Cons.prems(2,4) good_last by auto
  define r' where "r' = link_record (Some (last_hash old)) r\<lparr>au_this_record_hash := h\<rparr>"
  obtain fs1 where app: "audit_log_append_file (env (length rs)) gm fs (Some path) (Some r') = (ERASECURE_OK, fs1)"
      and rest: "audit_session md env gm path rs (last_hash (old @ [r'])) fs1 = (ERASECURE_OK, fs')"
    using Cons.prems(1) fin h by (auto simp: r'_def last_hash_def split: prod.splits if_splits)
  have "chain_linked (old @ [r'])"
    using Cons.prems(5) h(2) good_last unfolding chain_linked_iff linked_from_snoc
    by (auto simp: r'_def link_record_def)
  moreover have "file_bytes fs1 path = bytes_of (log_text gm (old @ [r']))"
    using append_file_ok [OF app _ assms(7)] h(3) Cons.prems(6) by (simp add: r'_def good_record_def log_text_def bytes_of_def)
  ultimately obtain new where "length new = length rs" "\<forall>r \<in> set ((old @ [r']) @ new). good_record r"
      "chain_linked ((old @ [r']) @ new)" "file_bytes fs' path = bytes_of (log_text gm ((old @ [r']) @ new))"
    using Cons.IH [OF rest] Cons.prems h(3) by (auto simp: r'_def)
  then show ?case by (intro exI [of _ "r' # new"]) auto
qed

text \<open>Inputs for the witnesses: a digest of 32 bytes, a record, a system on which every call succeeds.\<close>

definition demo_sha :: "byte list evp" where
  "demo_sha = \<lparr>evp_ctx_new_ok = True, evp_init = Some [], evp_update = (\<lambda>c d. Some (c @ d)),
     evp_final = (\<lambda>c. Some (replicate 32 (sum_list c)))\<rparr>"

definition demo_log_env :: log_env where
  "demo_log_env = \<lparr>log_mkdir_ok = True, log_fopen_ok = True, log_fprintf_ok = True, log_reached = 8192\<rparr>"

definition demo_record :: AuditRecord where
  "demo_record = (the (audit_record_init (Some zero_audit_record)))
     \<lparr>au_case_id := ''case-1'', au_operation_id := ''op-1'', au_sequence_number := 1, au_device_path := ''t.img''\<rparr>"

lemma demo_good: "good_record demo_record" "plain_times (\<lambda>_. None)" "sha256_digests demo_sha"
proof -
  show "good_record demo_record"
    by (simp add: good_record_def wf_audit_def plain_record_def plain_def newline_char demo_record_def
        audit_record_init_def zero_audit_record_def)
  show "plain_times (\<lambda>_. None)" by (simp add: plain_times_def)
  show "sha256_digests demo_sha" by (auto simp: sha256_digests_def demo_sha_def)
qed

text \<open>A record of a failed erasure that was linked, and the same record rewritten into a success.\<close>

definition failed_record :: AuditRecord where
  "failed_record = demo_record\<lparr>au_this_record_hash := replicate 64 CHR ''0'', au_sanitization_result := ERASECURE_ERR_IO\<rparr>"

definition forged_record :: AuditRecord where
  "forged_record = failed_record\<lparr>au_sanitization_result := ERASECURE_OK, au_verification_passed := True, au_passes := 3\<rparr>"

theorem audit_validate_exact_witness:
  "let log = \<lambda>r. [''a.log'' \<mapsto> Reg (bytes_of (log_text (\<lambda>_. None) [r]))];
       verdict = \<lambda>r. audit_log_validate_chain True (log r) (Some ''a.log'') (Some AUDIT_CHAIN_ERROR)
   in verdict demo_record = (ERASECURE_OK, Some AUDIT_CHAIN_TAMPERED)
      \<and> verdict failed_record = (ERASECURE_OK, Some AUDIT_CHAIN_VALID)
      \<and> verdict forged_record = (ERASECURE_OK, Some AUDIT_CHAIN_VALID)"
proof -
  let ?fs = "\<lambda>r. [''a.log'' \<mapsto> Reg (bytes_of (log_text (\<lambda>_. None) [r]))]"
  have stored: "file_bytes (?fs r) ''a.log'' = bytes_of (log_text (\<lambda>_. None) [r])" for r by (simp add: file_bytes_def)
  have good: "\<forall>r \<in> set [demo_record]. good_record r" "\<forall>r \<in> set [failed_record]. good_record r"
      "\<forall>r \<in> set [forged_record]. good_record r"
    using demo_good(1)
    by (auto simp: failed_record_def forged_record_def good_record_def wf_audit_def plain_record_def plain_def newline_char)
  have linked: "\<not> chain_linked [demo_record]" "chain_linked [failed_record]"
    by (simp_all add: chain_linked_def failed_record_def demo_record_def audit_record_init_def zero_audit_record_def)
  have same: "map au_this_record_hash [forged_record] = map au_this_record_hash [failed_record]"
      "map au_previous_record_hash [forged_record] = map au_previous_record_hash [failed_record]"
    by (simp_all add: forged_record_def)
  note exact = audit_validate_exact [where path = "''a.log''" and status = AUDIT_CHAIN_ERROR, OF _ demo_good(2) stored]
  have "audit_log_validate_chain True (?fs failed_record) (Some ''a.log'') (Some AUDIT_CHAIN_ERROR) = (ERASECURE_OK, Some AUDIT_CHAIN_VALID)"
    using conjunct1 [OF exact [OF good(2)]] linked(2) by simp
  moreover have "audit_log_validate_chain True (?fs forged_record) (Some ''a.log'') (Some AUDIT_CHAIN_ERROR)
      = audit_log_validate_chain True (?fs failed_record) (Some ''a.log'') (Some AUDIT_CHAIN_ERROR)"
    using conjunct2 [OF exact [OF good(2)]] good(3) stored same by blast
  moreover have "audit_log_validate_chain True (?fs demo_record) (Some ''a.log'') (Some AUDIT_CHAIN_ERROR) = (ERASECURE_OK, Some AUDIT_CHAIN_TAMPERED)"
    using conjunct1 [OF exact [OF good(1)]] linked(1) by simp
  ultimately show ?thesis by (simp add: Let_def)
qed

text \<open>
  C16. Finalising and appending composes to a log that validates, when the bytes of every line reach the file:
  started on a log that is empty or whose records are linked, with the hash of its last record, every record whose
  session succeeds is in the log, linked to the one before, and the whole log validates. Without that condition it
  need not: an append whose bytes are lost when the stream is closed answers OK all the same and leaves the log
  without the record.
\<close>

theorem audit_session_validates:
  assumes "audit_session md env gm path rs (last_hash old) fs = (ERASECURE_OK, fs')"
    "\<And>k. 8192 \<le> log_reached (env k)"
    "\<forall>r \<in> set (old @ rs). good_record r" "sha256_digests md" "plain_times gm" "chain_linked old"
    "file_bytes fs path = bytes_of (log_text gm old)" "old @ rs \<noteq> []"
  shows "audit_log_validate_chain True fs' (Some path) (Some status) = (ERASECURE_OK, Some AUDIT_CHAIN_VALID)
    \<and> (\<exists>new. length new = length rs \<and> file_bytes fs' path = bytes_of (log_text gm (old @ new)))
    \<and> (wf_audit r \<and> log_fopen_ok lossy \<and> log_fprintf_ok lossy \<and> log_reached lossy = 0 \<longrightarrow>
        (case audit_log_append_file lossy gm fs' (Some path) (Some r) of (e, fs'') \<Rightarrow>
           e = ERASECURE_OK \<and> file_bytes fs'' path = file_bytes fs' path))"
proof -
  obtain new where new: "length new = length rs" "\<forall>r \<in> set (old @ new). good_record r" "chain_linked (old @ new)"
      "file_bytes fs' path = bytes_of (log_text gm (old @ new))"
    using session_log [OF assms(1) _ _ assms(4,6,7,2)] assms(3) by auto
  have "old @ new \<noteq> []" using new(1) assms(8) by auto
  moreover have "wf_audit r \<Longrightarrow> log_fopen_ok lossy \<Longrightarrow> log_fprintf_ok lossy \<Longrightarrow> log_reached lossy = 0 \<Longrightarrow>
      case audit_log_append_file lossy gm fs' (Some path) (Some r) of (e, fs'') \<Rightarrow>
        e = ERASECURE_OK \<and> file_bytes fs'' path = file_bytes fs' path"
    using append_file_succeeds [of r lossy gm fs' path] append_file_bytes [of lossy gm fs' path r]
    by (cases "audit_log_append_file lossy gm fs' (Some path) (Some r)") simp
  ultimately show ?thesis using validate_log [OF new(2) assms(5) new(4), of status] new by auto
qed

theorem audit_session_validates_witness:
  "\<exists>fs'. audit_session demo_sha (\<lambda>_. demo_log_env) (\<lambda>_. None) ''a.log'' [demo_record] [] Map.empty = (ERASECURE_OK, fs')
     \<and> audit_log_validate_chain True fs' (Some ''a.log'') (Some AUDIT_CHAIN_ERROR) = (ERASECURE_OK, Some AUDIT_CHAIN_VALID)
     \<and> (case audit_log_append_file (demo_log_env\<lparr>log_reached := 0\<rparr>) (\<lambda>_. None) fs' (Some ''a.log'') (Some demo_record) of
          (e, fs'') \<Rightarrow> e = ERASECURE_OK \<and> file_bytes fs'' ''a.log'' = file_bytes fs' ''a.log'')"
proof -
  have hash: "hash_buffer demo_sha (Some d) (Some []) = (ERASECURE_OK, Some (replicate 32 (sum_list d)))" for d
    by (simp add: hash_buffer_def evp_hash_buffer_def demo_sha_def)
  have "wf_audit demo_record" using demo_good(1) by (simp add: good_record_def)
  then obtain r' where fin: "audit_record_finalize demo_sha (Some demo_record) (Some []) = (ERASECURE_OK, Some r')"
    by (simp add: finalize_within_buffer hash)
  then have "wf_audit r'" using finalize_ok [OF fin demo_good(1) _ demo_good(3)] by (auto simp: plain_def good_record_def)
  then have "fst (audit_session demo_sha (\<lambda>_. demo_log_env) (\<lambda>_. None) ''a.log'' [demo_record] [] Map.empty) = ERASECURE_OK"
    using append_file_succeeds [of r' demo_log_env "\<lambda>_. None" Map.empty "''a.log''"] fin
    by (auto simp: demo_log_env_def split: prod.splits)
  then obtain fs' where fs': "audit_session demo_sha (\<lambda>_. demo_log_env) (\<lambda>_. None) ''a.log'' [demo_record] [] Map.empty = (ERASECURE_OK, fs')"
    by (metis prod.collapse)
  then have "audit_session demo_sha (\<lambda>_. demo_log_env) (\<lambda>_. None) ''a.log'' [demo_record] (last_hash []) Map.empty = (ERASECURE_OK, fs')"
    by (simp add: last_hash_def)
  from audit_session_validates [OF this, of AUDIT_CHAIN_ERROR demo_record "demo_log_env\<lparr>log_reached := 0\<rparr>"] demo_good fs'
  show ?thesis
    by (simp add: chain_linked_def file_bytes_def [of Map.empty] log_text_def bytes_of_def demo_log_env_def good_record_def)
qed

text \<open>
  C18. Bounds of the two buffers: for a record whose fields fit their arrays the canonical string always fits, so
  finalising never reports an overflow, and the JSON text fits in the 8192 bytes of the log writer, so no line is
  cut; a shorter buffer holds the beginning of the text and the length returned tells that it was cut.
\<close>

theorem audit_buffers_suffice:
  assumes "wf_audit r"
  shows "fst (audit_record_finalize md (Some r) prev_hash) \<in> {ERASECURE_OK, ERASECURE_ERR_CRYPTO, ERASECURE_ERR_HASH_FAILED}
    \<and> audit_record_to_json gm (Some r) (Some buf) 8192 = (int (length (record_json gm r)), Some (record_json gm r))
    \<and> (0 < n \<longrightarrow> audit_record_to_json gm (Some r) (Some buf) n = (k, Some out) \<longrightarrow>
      prefix out (record_json gm r) \<and> length out < n \<and> (out = record_json gm r \<longleftrightarrow> k < int n))"
proof (intro conjI impI)
  show "fst (audit_record_finalize md (Some r) prev_hash) \<in> {ERASECURE_OK, ERASECURE_ERR_CRYPTO, ERASECURE_ERR_HASH_FAILED}"
    using hash_errors [of md "bytes_of (canonical_string (link_record prev_hash r))" "[]"]
    by (auto simp: finalize_within_buffer [OF assms] split: prod.splits)
  show "audit_record_to_json gm (Some r) (Some buf) 8192 = (int (length (record_json gm r)), Some (record_json gm r))"
    by (rule to_json_fits [OF assms])
next
  assume "0 < n" "audit_record_to_json gm (Some r) (Some buf) n = (k, Some out)"
  then show "prefix out (record_json gm r)" "length out < n" "out = record_json gm r \<longleftrightarrow> k < int n"
    by (auto simp: audit_record_to_json_def cstr_def take_is_prefix)
qed

theorem audit_buffers_suffice_witness:
  "fst (audit_record_finalize demo_sha (Some demo_record) None) \<in> {ERASECURE_OK, ERASECURE_ERR_CRYPTO, ERASECURE_ERR_HASH_FAILED}
   \<and> snd (audit_record_to_json (\<lambda>_. None) (Some demo_record) (Some []) 2) = Some ''{''
   \<and> prefix ''{'' (record_json (\<lambda>_. None) demo_record)"
proof -
  have wf: "wf_audit demo_record" using demo_good(1) by (simp add: good_record_def)
  have "audit_record_to_json (\<lambda>_. None) (Some demo_record) (Some []) 2 =
      (int (length (record_json (\<lambda>_. None) demo_record)), Some ''{'')"
    by (simp add: audit_record_to_json_def cstr_def record_json_def json_object_def)
  with audit_buffers_suffice [OF wf, of demo_sha None "\<lambda>_. None" "[]" 2] show ?thesis by auto
qed

end
