(* ===== verification/Audit_Database.thy ===== *)
theory Audit_Database
  imports Audit_Trail
begin

text \<open>
  The database half of \<open>src/audit/audit_log.c\<close> and \<open>include/audit/audit_log.h\<close>: opening the database, creating the
  schema, inserting a record. SQLite is a parameter, the record \<open>sqlite\<close> of the calls the code makes; a pointer to
  a connection is an option. What the properties need of it is the hypothesis \<open>executes_inserts\<close>, about plain
  \<open>INSERT\<close>s with one parameter per named column, in order: such a statement that runs to \<open>SQLITE_DONE\<close> adds one
  row, which holds the bound values under the columns that the statement names. No other connection writes to
  the database meanwhile.
\<close>

section \<open>The calls of SQLite\<close>

datatype sql_value = Sql_null | Sql_text string | Sql_int int | Sql_int64 int

record ('d, 's) sqlite =
  sq_open :: "string \<Rightarrow> int \<times> 'd option"
  sq_errmsg :: "'d option \<Rightarrow> string"
  sq_exec :: "string \<Rightarrow> 'd option \<Rightarrow> int \<times> string option \<times> 'd option"
  sq_prepare :: "string \<Rightarrow> 'd option \<Rightarrow> int \<times> 's \<times> 'd option"
  sq_bind :: "nat \<Rightarrow> sql_value \<Rightarrow> 's \<Rightarrow> int \<times> 's"
  sq_step :: "'s \<Rightarrow> 'd option \<Rightarrow> int \<times> 's \<times> 'd option"
  sq_finalize :: "'s \<Rightarrow> 'd option \<Rightarrow> 'd option"
  sq_close :: "'d option \<Rightarrow> 'd option"

definition SQLITE_OK :: int where "SQLITE_OK = 0"
definition SQLITE_DONE :: int where "SQLITE_DONE = 101"

record 'd AuditDb =
  ad_db :: "'d option"
  ad_last_error :: string

text \<open>\<open>snprintf\<close> of an error message into the array of 256 bytes.\<close>

definition set_last_error :: "string \<Rightarrow> 'd AuditDb \<Rightarrow> 'd AuditDb" where
  "set_last_error msg db = db\<lparr>ad_last_error := cstr 256 msg\<rparr>"

section \<open>Opening and closing\<close>

text \<open>A handle whose connection fails is freed together with the message it got.\<close>

definition audit_db_open ::
    "('d, 's) sqlite \<Rightarrow> bool \<Rightarrow> bool \<Rightarrow> filesys \<Rightarrow> string option \<Rightarrow> 'd AuditDb option option
     \<Rightarrow> ErasecureError \<times> 'd AuditDb option option \<times> filesys" where
  "audit_db_open sq mkdir_ok calloc_ok fs db_path db =
     (case (db_path, db) of
        (Some path, Some _) \<Rightarrow>
          let fs' = ensure_dir mkdir_ok fs ''data''
          in if \<not> calloc_ok then (ERASECURE_ERR_ALLOC, db, fs')
             else (case sq_open sq path of (rc, conn) \<Rightarrow>
                     if rc \<noteq> SQLITE_OK then (ERASECURE_ERR_DB_OPEN, db, fs')
                     else (ERASECURE_OK, Some (Some \<lparr>ad_db = conn, ad_last_error = []\<rparr>), fs'))
      | _ \<Rightarrow> (ERASECURE_ERR_INVALID_ARG, db, fs))"

text \<open>The connection after \<open>sqlite3_close\<close>; the handle itself is gone.\<close>

definition audit_db_close :: "('d, 's) sqlite \<Rightarrow> 'd AuditDb option \<Rightarrow> 'd option" where
  "audit_db_close sq db =
     (case db of None \<Rightarrow> None
      | Some h \<Rightarrow> if ad_db h \<noteq> None then sq_close sq (ad_db h) else None)"

definition audit_db_errmsg :: "'d AuditDb option \<Rightarrow> string" where
  "audit_db_errmsg db = (case db of None \<Rightarrow> ''null handle'' | Some h \<Rightarrow> ad_last_error h)"

section \<open>The schema\<close>

definition CREATE_SCHEMA_SQL :: string where
  "CREATE_SCHEMA_SQL =
    ''CREATE TABLE IF NOT EXISTS audit_records ('' @
    ''  id                    INTEGER PRIMARY KEY AUTOINCREMENT,'' @
    ''  case_id               TEXT    NOT NULL,'' @
    ''  operation_id          TEXT    NOT NULL,'' @
    ''  sequence_number       INTEGER NOT NULL,'' @
    ''  device_path           TEXT,'' @
    ''  device_model          TEXT,'' @
    ''  device_serial         TEXT,'' @
    ''  device_capacity_bytes INTEGER,'' @
    ''  device_type           INTEGER,'' @
    ''  transport_type        INTEGER,'' @
    ''  method                INTEGER,'' @
    ''  pattern               INTEGER,'' @
    ''  passes                INTEGER,'' @
    ''  app_version           TEXT,'' @
    ''  start_time            INTEGER,'' @
    ''  end_time              INTEGER,'' @
    ''  sanitization_result   INTEGER,'' @
    ''  verification_result   INTEGER,'' @
    ''  verification_passed   INTEGER,'' @
    ''  pre_hash_sha256       TEXT,'' @
    ''  post_hash_sha256      TEXT,'' @
    ''  previous_record_hash  TEXT,'' @
    ''  this_record_hash      TEXT,'' @
    ''  notes                 TEXT'' @
    '');''"

definition audit_db_init_schema ::
    "('d, 's) sqlite \<Rightarrow> 'd AuditDb option \<Rightarrow> ErasecureError \<times> 'd AuditDb option" where
  "audit_db_init_schema sq db =
     (case db of None \<Rightarrow> (ERASECURE_ERR_INVALID_ARG, None)
      | Some h \<Rightarrow>
          (case sq_exec sq CREATE_SCHEMA_SQL (ad_db h) of (rc, errmsg, conn) \<Rightarrow>
             let h1 = h\<lparr>ad_db := conn\<rparr>
             in if rc \<noteq> SQLITE_OK
                then (ERASECURE_ERR_DB_EXEC, Some (set_last_error (the_default ''unknown'' errmsg) h1))
                else (ERASECURE_OK, Some h1)))"

section \<open>Inserting a record\<close>

definition INSERT_SQL :: string where
  "INSERT_SQL =
     ''INSERT INTO audit_records ('' @
     ''  case_id, operation_id, sequence_number, device_path,'' @
     ''  device_model, device_serial, device_capacity_bytes,'' @
     ''  device_type, transport_type, method, pattern, passes,'' @
     ''  app_version, start_time, end_time, sanitization_result,'' @
     ''  verification_result, verification_passed,'' @
     ''  pre_hash_sha256, post_hash_sha256,'' @
     ''  previous_record_hash, this_record_hash, notes'' @
     '') VALUES (?,?,?,?,?,?,?,?,?,?,?,?,?,?,?,?,?,?,?,?,?,?,?);''"

text \<open>The casts of unsigned integers to \<open>sqlite3_int64\<close> and \<open>int\<close> keep the bits.\<close>

definition to_int64 :: "nat \<Rightarrow> int" where
  "to_int64 n = sint (of_nat n :: 64 word)"

definition to_int32 :: "nat \<Rightarrow> int" where
  "to_int32 n = sint (of_nat n :: 32 word)"

text \<open>The values bound to the parameters 1 to 23.\<close>

definition insert_values :: "AuditRecord \<Rightarrow> sql_value list" where
  "insert_values r =
     [Sql_text (au_case_id r),
      Sql_text (au_operation_id r),
      Sql_int64 (to_int64 (au_sequence_number r)),
      Sql_text (au_device_path r),
      Sql_text (au_device_model r),
      Sql_text (au_device_serial r),
      Sql_int64 (to_int64 (au_device_capacity_bytes r)),
      Sql_int (int (device_type_code (au_device_type r))),
      Sql_int (int (transport_code (au_transport_type r))),
      Sql_int (int (method_code (au_method r))),
      Sql_int (int (pattern_code (au_pattern r))),
      Sql_int (to_int32 (au_passes r)),
      Sql_text (au_app_version r),
      Sql_int64 (au_start_time r),
      Sql_int64 (au_end_time r),
      Sql_int (result_code (au_sanitization_result r)),
      Sql_int (result_code (au_verification_result_code r)),
      Sql_int (if au_verification_passed r then 1 else 0),
      Sql_text (au_pre_hash_sha256 r),
      Sql_text (au_post_hash_sha256 r),
      Sql_text (au_previous_record_hash r),
      Sql_text (au_this_record_hash r),
      Sql_text (au_notes r)]"

text \<open>The results of the \<open>sqlite3_bind\<close> calls are not looked at.\<close>

definition bind_all :: "('d, 's) sqlite \<Rightarrow> sql_value list \<Rightarrow> 's \<Rightarrow> 's" where
  "bind_all sq vals stmt = fold (\<lambda>(i, v) st. snd (sq_bind sq i v st)) (zip [1..<Suc (length vals)] vals) stmt"

definition audit_db_insert ::
    "('d, 's) sqlite \<Rightarrow> 'd AuditDb option \<Rightarrow> AuditRecord option \<Rightarrow> ErasecureError \<times> 'd AuditDb option" where
  "audit_db_insert sq db record =
     (case (db, record) of
        (Some h, Some r) \<Rightarrow>
          (case sq_prepare sq INSERT_SQL (ad_db h) of (rc, stmt, conn) \<Rightarrow>
             if rc \<noteq> SQLITE_OK
             then (ERASECURE_ERR_DB_EXEC, Some (set_last_error (sq_errmsg sq conn) (h\<lparr>ad_db := conn\<rparr>)))
             else (case sq_step sq (bind_all sq (insert_values r) stmt) conn of (rc1, stmt1, conn1) \<Rightarrow>
                     let conn2 = sq_finalize sq stmt1 conn1; h1 = h\<lparr>ad_db := conn2\<rparr>
                     in if rc1 \<noteq> SQLITE_DONE
                        then (ERASECURE_ERR_DB_EXEC, Some (set_last_error (sq_errmsg sq conn2) h1))
                        else (ERASECURE_OK, Some h1)))
      | _ \<Rightarrow> (ERASECURE_ERR_INVALID_ARG, db))"

section \<open>What an insert stores\<close>

text \<open>The names between the first parentheses of a statement, and the first words of a schema's lines.\<close>

fun comma_split :: "string \<Rightarrow> string \<Rightarrow> string list" where
  "comma_split acc [] = [acc]"
| "comma_split acc (c # s) =
     (if c = CHR '','' then acc # comma_split [] s else comma_split (acc @ [c]) s)"

definition first_word :: "string \<Rightarrow> string" where
  "first_word s = takeWhile (\<lambda>c. c \<noteq> CHR '' '') (dropWhile (\<lambda>c. c = CHR '' '') s)"

definition in_parens :: "string \<Rightarrow> string" where
  "in_parens s = takeWhile (\<lambda>c. c \<noteq> CHR '')'') (tl (dropWhile (\<lambda>c. c \<noteq> CHR ''('') s))"

definition columns_of :: "string \<Rightarrow> string list" where
  "columns_of s = map first_word (comma_split [] (in_parens s))"

text \<open>What SQLite stores: both widths of integers become one; NULL is the absence of a value.\<close>

datatype sql_stored = Stored_text string | Stored_integer int

fun stored_value :: "sql_value \<Rightarrow> sql_stored option" where
  "stored_value Sql_null = None"
| "stored_value (Sql_text s) = Some (Stored_text s)"
| "stored_value (Sql_int n) = Some (Stored_integer n)"
| "stored_value (Sql_int64 n) = Some (Stored_integer n)"

text \<open>A row: the values of the columns other than \<open>id\<close>.\<close>

type_synonym sql_row = "string \<rightharpoonup> sql_stored"

definition row_of :: "string list \<Rightarrow> sql_value list \<Rightarrow> sql_row" where
  "row_of columns vals = (\<lambda>c. Option.bind (map_of (zip columns vals) c) stored_value)"

text \<open>The row of a record: under each column name the field it is meant for.\<close>

definition record_row :: "AuditRecord \<Rightarrow> (string \<times> sql_stored) list" where
  "record_row r =
     [(''case_id'', Stored_text (au_case_id r)),
      (''operation_id'', Stored_text (au_operation_id r)),
      (''sequence_number'', Stored_integer (to_int64 (au_sequence_number r))),
      (''device_path'', Stored_text (au_device_path r)),
      (''device_model'', Stored_text (au_device_model r)),
      (''device_serial'', Stored_text (au_device_serial r)),
      (''device_capacity_bytes'', Stored_integer (to_int64 (au_device_capacity_bytes r))),
      (''device_type'', Stored_integer (int (device_type_code (au_device_type r)))),
      (''transport_type'', Stored_integer (int (transport_code (au_transport_type r)))),
      (''method'', Stored_integer (int (method_code (au_method r)))),
      (''pattern'', Stored_integer (int (pattern_code (au_pattern r)))),
      (''passes'', Stored_integer (to_int32 (au_passes r))),
      (''app_version'', Stored_text (au_app_version r)),
      (''start_time'', Stored_integer (au_start_time r)),
      (''end_time'', Stored_integer (au_end_time r)),
      (''sanitization_result'', Stored_integer (result_code (au_sanitization_result r))),
      (''verification_result'', Stored_integer (result_code (au_verification_result_code r))),
      (''verification_passed'', Stored_integer (if au_verification_passed r then 1 else 0)),
      (''pre_hash_sha256'', Stored_text (au_pre_hash_sha256 r)),
      (''post_hash_sha256'', Stored_text (au_post_hash_sha256 r)),
      (''previous_record_hash'', Stored_text (au_previous_record_hash r)),
      (''this_record_hash'', Stored_text (au_this_record_hash r)),
      (''notes'', Stored_text (au_notes r))]"

text \<open>The declared types of the columns, and the values that a column stores unconverted.\<close>

definition column_types :: "string \<Rightarrow> (string \<times> string) list" where
  "column_types s = map (\<lambda>l. (first_word l,
     first_word (drop (length (first_word l)) (dropWhile (\<lambda>c. c = CHR '' '') l)))) (comma_split [] (in_parens s))"

fun fits :: "string option \<Rightarrow> sql_value \<Rightarrow> bool" where
  "fits ty Sql_null \<longleftrightarrow> False"
| "fits ty (Sql_text s) \<longleftrightarrow> ty = Some ''TEXT'' \<and> CHR 0x00 \<notin> set s"
| "fits ty (Sql_int n) \<longleftrightarrow> ty = Some ''INTEGER'' \<and> - (2 ^ 31) \<le> n \<and> n < 2 ^ 31"
| "fits ty (Sql_int64 n) \<longleftrightarrow> ty = Some ''INTEGER'' \<and> - (2 ^ 63) \<le> n \<and> n < 2 ^ 63"

text \<open>
  A plain insert: a list of names, then one parameter for each, \<open>?\<close>, which SQLite numbers from the left. And the
  binding of every value was accepted.
\<close>

fun parameter_marks :: "nat \<Rightarrow> string" where
  "parameter_marks 0 = []"
| "parameter_marks (Suc 0) = ''?''"
| "parameter_marks (Suc (Suc n)) = ''?,'' @ parameter_marks (Suc n)"

definition plain_insert :: "string \<Rightarrow> bool" where
  "plain_insert sql \<longleftrightarrow>
     sql = ''INSERT INTO audit_records ('' @ in_parens sql @ '') VALUES ('' @ parameter_marks (length (columns_of sql)) @ '');''
     \<and> set (in_parens sql) \<subseteq> set ''abcdefghijklmnopqrstuvwxyz_0123456789, ''
     \<and> distinct (columns_of sql) \<and> ''id'' \<notin> set (columns_of sql)"

definition all_bound :: "('d, 's) sqlite \<Rightarrow> sql_value list \<Rightarrow> 's \<Rightarrow> bool" where
  "all_bound sq vals stmt \<longleftrightarrow>
     (\<forall>i < length vals. fst (sq_bind sq (Suc i) (vals ! i) (bind_all sq (take i vals) stmt)) = SQLITE_OK)"

text \<open>
  \<open>rows conn\<close> are the rows of the table, oldest first, on a connection whose database has the table as
  \<open>CREATE_SCHEMA_SQL\<close> makes it in the default encoding, without triggers; it is \<open>None\<close> on any other connection.
\<close>

definition executes_inserts :: "('d, 's) sqlite \<Rightarrow> ('d option \<Rightarrow> sql_row list option) \<Rightarrow> bool" where
  "executes_inserts sq rows \<longleftrightarrow>
     (\<forall>sql conn old vals rc stmt conn1 rc' stmt' conn'.
        rows conn = Some old \<and> plain_insert sql
        \<and> list_all2 (\<lambda>c v. fits (map_of (column_types CREATE_SCHEMA_SQL) c) v) (columns_of sql) vals
        \<and> sq_prepare sq sql conn = (rc, stmt, conn1)
        \<longrightarrow> rows conn1 = Some old
          \<and> (rc = SQLITE_OK \<and> sq_step sq (bind_all sq vals stmt) conn1 = (rc', stmt', conn')
              \<longrightarrow> (rc' \<noteq> SQLITE_DONE \<longrightarrow> rows (sq_finalize sq stmt' conn') = Some old)
                \<and> (rc' = SQLITE_DONE \<and> all_bound sq vals stmt \<longrightarrow>
                    rows (sq_finalize sq stmt' conn') = Some (old @ [row_of (columns_of sql) vals]))))"

lemma insert_names: "columns_of INSERT_SQL =
     [''case_id'', ''operation_id'', ''sequence_number'', ''device_path'', ''device_model'', ''device_serial'',
      ''device_capacity_bytes'', ''device_type'', ''transport_type'', ''method'', ''pattern'', ''passes'',
      ''app_version'', ''start_time'', ''end_time'', ''sanitization_result'', ''verification_result'',
      ''verification_passed'', ''pre_hash_sha256'', ''post_hash_sha256'', ''previous_record_hash'',
      ''this_record_hash'', ''notes'']"
  by code_simp

lemma insert_columns: "columns_of INSERT_SQL = map fst (record_row r)"
  by (simp add: insert_names record_row_def)

lemma plain_INSERT_SQL: "plain_insert INSERT_SQL"
  by code_simp

lemma schema_types: "column_types CREATE_SCHEMA_SQL =
     [(''id'', ''INTEGER''), (''case_id'', ''TEXT''), (''operation_id'', ''TEXT''), (''sequence_number'', ''INTEGER''),
      (''device_path'', ''TEXT''), (''device_model'', ''TEXT''), (''device_serial'', ''TEXT''),
      (''device_capacity_bytes'', ''INTEGER''), (''device_type'', ''INTEGER''), (''transport_type'', ''INTEGER''),
      (''method'', ''INTEGER''), (''pattern'', ''INTEGER''), (''passes'', ''INTEGER''), (''app_version'', ''TEXT''),
      (''start_time'', ''INTEGER''), (''end_time'', ''INTEGER''), (''sanitization_result'', ''INTEGER''),
      (''verification_result'', ''INTEGER''), (''verification_passed'', ''INTEGER''), (''pre_hash_sha256'', ''TEXT''),
      (''post_hash_sha256'', ''TEXT''), (''previous_record_hash'', ''TEXT''), (''this_record_hash'', ''TEXT''),
      (''notes'', ''TEXT'')]"
  by code_simp

lemma insert_values_row: "map stored_value (insert_values r) = map (Some \<circ> snd) (record_row r)"
  by (simp add: insert_values_def record_row_def)

text \<open>The text fields are C strings.\<close>

definition c_strings :: "AuditRecord \<Rightarrow> bool" where
  "c_strings r \<longleftrightarrow> list_all (\<lambda>s. CHR 0x00 \<notin> set s)
     [au_case_id r, au_operation_id r, au_device_path r, au_device_model r, au_device_serial r, au_app_version r,
      au_pre_hash_sha256 r, au_post_hash_sha256 r, au_previous_record_hash r, au_this_record_hash r, au_notes r]"

lemma small_codes: "device_type_code t < 100" "transport_code c < 100" "method_code m < 100" "pattern_code p < 100"
  subgoal by (cases t) simp_all
  subgoal by (cases c) simp_all
  subgoal by (cases m) simp_all
  subgoal by (cases p) simp_all
  done

lemma to_int_bounds: "- (2 ^ 63) \<le> to_int64 n" "to_int64 n < 2 ^ 63" "- (2 ^ 31) \<le> to_int32 n" "to_int32 n < 2 ^ 31"
  using sint_greater_eq [of "of_nat n :: 64 word"] sint_less [of "of_nat n :: 64 word"]
    sint_greater_eq [of "of_nat n :: 32 word"] sint_less [of "of_nat n :: 32 word"]
  by (simp_all add: to_int64_def to_int32_def)

lemma insert_values_fit:
  assumes "wf_audit r" "c_strings r"
  shows "list_all2 (\<lambda>c v. fits (map_of (column_types CREATE_SCHEMA_SQL) c) v) (columns_of INSERT_SQL) (insert_values r)"
  using assms to_int_bounds small_codes(1) [of "au_device_type r"]
    small_codes(2) [of "au_transport_type r"] small_codes(3) [of "au_method r"] small_codes(4) [of "au_pattern r"]
    result_code_bound [of "au_sanitization_result r"] result_code_bound [of "au_verification_result_code r"]
  unfolding insert_names insert_values_def schema_types
  by (simp add: wf_audit_def c_strings_def abs_less_iff)

lemma schema_columns: "columns_of CREATE_SCHEMA_SQL = ''id'' # map fst (record_row r)"
proof -
  have "columns_of CREATE_SCHEMA_SQL = ''id'' # columns_of INSERT_SQL" by code_simp
  then show ?thesis by (simp add: insert_columns)
qed

lemma length_record_row: "length (record_row r) = 23"
  by (simp add: record_row_def)

lemma bind_map_of: "map stored_value vs = map (Some \<circ> snd) row \<Longrightarrow>
    Option.bind (map_of (zip (map fst row) vs) c) stored_value = map_of row c"
proof (induction row arbitrary: vs)
  case (Cons kv row)
  then obtain v vs' where "vs = v # vs'" "stored_value v = Some (snd kv)" "map stored_value vs' = map (Some \<circ> snd) row"
    by (cases vs) auto
  with Cons.IH [of vs'] show ?case by (cases kv) simp
qed simp

lemma row_of_values: "row_of (columns_of INSERT_SQL) (insert_values r) = map_of (record_row r)"
  unfolding row_of_def insert_columns [of r] bind_map_of [OF insert_values_row] ..

lemma map_of_keys_inject:
  assumes "map fst xs = map fst ys" "distinct (map fst xs)"
  shows "map_of xs = map_of ys \<longleftrightarrow> xs = ys"
proof
  assume eq: "map_of xs = map_of ys"
  have "set xs = set ys" using map_of_inject_set [OF assms(2)] assms eq by metis
  have "xs ! i = ys ! i" if i: "i < length xs" for i
  proof -
    have len: "length ys = length xs" using assms(1) by (metis length_map)
    have key: "fst (xs ! i) = fst (ys ! i)" using assms(1) i len by (metis nth_map)
    have "map_of xs (fst (xs ! i)) = Some (snd (xs ! i))" "map_of ys (fst (ys ! i)) = Some (snd (ys ! i))"
      using assms i len by (simp_all flip: assms(1))
    with eq key show ?thesis by (simp add: prod_eq_iff)
  qed
  then show "xs = ys" using assms(1) by (metis length_map nth_equalityI)
qed simp

lemma to_int64_inject: "n < 2 ^ 64 \<Longrightarrow> m < 2 ^ 64 \<Longrightarrow> to_int64 n = to_int64 m \<longleftrightarrow> n = m"
  by (auto simp: to_int64_def signed_word_eqI unsigned_of_nat take_bit_nat_eq_self
      dest!: signed_word_eqI arg_cong [where f = unat])

lemma to_int32_inject: "n < 2 ^ 32 \<Longrightarrow> m < 2 ^ 32 \<Longrightarrow> to_int32 n = to_int32 m \<longleftrightarrow> n = m"
  by (auto simp: to_int32_def signed_word_eqI unsigned_of_nat take_bit_nat_eq_self
      dest!: signed_word_eqI arg_cong [where f = unat])

lemma code_injects:
  "device_type_code t = device_type_code t' \<longleftrightarrow> t = t'" "transport_code c = transport_code c' \<longleftrightarrow> c = c'"
  "method_code m = method_code m' \<longleftrightarrow> m = m'" "pattern_code p = pattern_code p' \<longleftrightarrow> p = p'"
  subgoal by (cases t; cases t'; simp)
  subgoal by (cases c; cases c'; simp)
  subgoal by (cases m; cases m'; simp)
  subgoal by (cases p; cases p'; simp)
  done

lemma result_code_inject:
  assumes "error_code e \<noteq> None" "error_code e' \<noteq> None"
  shows "result_code e = result_code e' \<longleftrightarrow> e = e'"
  using assms inj_onD [OF inj_on_error_code] in_all_errors by (auto simp: result_code_def)

lemma record_row_inject:
  assumes "wf_audit r" "wf_audit r'"
  shows "record_row r = record_row r' \<longleftrightarrow> r\<lparr>au_device_id := []\<rparr> = r'\<lparr>au_device_id := []\<rparr>"
proof -
  have nums: "to_int64 (au_sequence_number r) = to_int64 (au_sequence_number r') \<longleftrightarrow> au_sequence_number r = au_sequence_number r'"
    "to_int64 (au_device_capacity_bytes r) = to_int64 (au_device_capacity_bytes r')
      \<longleftrightarrow> au_device_capacity_bytes r = au_device_capacity_bytes r'"
    "to_int32 (au_passes r) = to_int32 (au_passes r') \<longleftrightarrow> au_passes r = au_passes r'"
    "result_code (au_sanitization_result r) = result_code (au_sanitization_result r')
      \<longleftrightarrow> au_sanitization_result r = au_sanitization_result r'"
    "result_code (au_verification_result_code r) = result_code (au_verification_result_code r')
      \<longleftrightarrow> au_verification_result_code r = au_verification_result_code r'"
    using assms by (simp_all add: wf_audit_def to_int64_inject to_int32_inject result_code_inject)
  show ?thesis unfolding record_row_def by (cases r; cases r') (use nums in \<open>auto simp: code_injects split: if_splits\<close>)
qed

lemma record_map_inject:
  assumes "wf_audit r" "wf_audit r'"
  shows "map_of (record_row r) = map_of (record_row r') \<longleftrightarrow> r\<lparr>au_device_id := []\<rparr> = r'\<lparr>au_device_id := []\<rparr>"
proof -
  have "map fst (record_row r) = map fst (record_row r')" by (simp add: record_row_def)
  moreover have "distinct (map fst (record_row r))"
    using plain_INSERT_SQL by (simp add: plain_insert_def insert_columns [of r])
  ultimately have "map_of (record_row r) = map_of (record_row r') \<longleftrightarrow> record_row r = record_row r'"
    by (rule map_of_keys_inject)
  then show ?thesis by (simp only: record_row_inject [OF assms])
qed

text \<open>The statement that an insert prepares.\<close>

definition prepared_insert :: "('d, 's) sqlite \<Rightarrow> 'd AuditDb \<Rightarrow> 's" where
  "prepared_insert sq h = fst (snd (sq_prepare sq INSERT_SQL (ad_db h)))"

lemma insert_result:
  assumes sql: "executes_inserts sq rows" and old: "rows (ad_db h) = Some old" and r: "wf_audit r" "c_strings r"
    and run: "audit_db_insert sq (Some h) (Some r) = (e, Some h')"
  shows "e = ERASECURE_OK \<Longrightarrow> all_bound sq (insert_values r) (prepared_insert sq h) \<Longrightarrow>
      rows (ad_db h') = Some (old @ [map_of (record_row r)])"
    "e \<noteq> ERASECURE_OK \<Longrightarrow> rows (ad_db h') = Some old \<and> e = ERASECURE_ERR_DB_EXEC
      \<and> audit_db_errmsg (Some h') = cstr 256 (sq_errmsg sq (ad_db h'))"
proof -
  obtain rc stmt conn where p: "sq_prepare sq INSERT_SQL (ad_db h) = (rc, stmt, conn)" by (metis prod_cases3)
  obtain rc' stmt' conn' where s: "sq_step sq (bind_all sq (insert_values r) stmt) conn = (rc', stmt', conn')"
    by (metis prod_cases3)
  note law = sql [unfolded executes_inserts_def, rule_format, OF conjI, OF old conjI,
      OF plain_INSERT_SQL conjI, OF insert_values_fit [OF r] p]
  have keep: "rows conn = Some old" using law by blast
  have step: "rc = SQLITE_OK \<Longrightarrow> rc' \<noteq> SQLITE_DONE \<Longrightarrow> rows (sq_finalize sq stmt' conn') = Some old"
    "rc = SQLITE_OK \<Longrightarrow> rc' = SQLITE_DONE \<Longrightarrow> all_bound sq (insert_values r) stmt \<Longrightarrow>
      rows (sq_finalize sq stmt' conn') = Some (old @ [map_of (record_row r)])"
    using law s unfolding row_of_values by blast+
  have prep: "prepared_insert sq h = stmt" by (simp add: prepared_insert_def p)
  show "e = ERASECURE_OK \<Longrightarrow> all_bound sq (insert_values r) (prepared_insert sq h) \<Longrightarrow>
      rows (ad_db h') = Some (old @ [map_of (record_row r)])"
    using run step(2) unfolding audit_db_insert_def
    by (auto simp: p s prep Let_def set_last_error_def split: if_splits)
  show "e \<noteq> ERASECURE_OK \<Longrightarrow> rows (ad_db h') = Some old \<and> e = ERASECURE_ERR_DB_EXEC
      \<and> audit_db_errmsg (Some h') = cstr 256 (sq_errmsg sq (ad_db h'))"
    using run keep step(1) unfolding audit_db_insert_def
    by (auto simp: p s Let_def set_last_error_def audit_db_errmsg_def split: if_splits)
qed

section \<open>Properties\<close>

text \<open>
  C19. Two inserts into the same table leave the same rows exactly when the records agree in everything but the device
  identifier: each row holds the fields of its record under the columns of the schema, 64-bit sizes included, and
  only \<open>device_id\<close> has no column. This holds when every value could be bound, which the code does not check. A
  failed insert leaves the rows and keeps SQLite's message. SQLite is taken to do with a plain insert into the
  table of the schema what it documents: one row more, with the bound values under the named columns.
\<close>

theorem audit_db_rows_exact:
  assumes "executes_inserts sq rows" "rows (ad_db h) = Some old"
    and "wf_audit r" "c_strings r" "wf_audit r'" "c_strings r'"
    and "audit_db_insert sq (Some h) (Some r) = (e, Some h1)" "audit_db_insert sq (Some h) (Some r') = (e', Some h2)"
    and "all_bound sq (insert_values r) (prepared_insert sq h)" "all_bound sq (insert_values r') (prepared_insert sq h)"
  shows "(e = ERASECURE_OK \<and> e' = ERASECURE_OK \<longrightarrow>
        rows (ad_db h1) = Some (old @ [map_of (record_row r)])
        \<and> (rows (ad_db h1) = rows (ad_db h2) \<longleftrightarrow> r\<lparr>au_device_id := []\<rparr> = r'\<lparr>au_device_id := []\<rparr>))
    \<and> (e \<noteq> ERASECURE_OK \<longrightarrow>
        rows (ad_db h1) = Some old \<and> audit_db_errmsg (Some h1) = cstr 256 (sq_errmsg sq (ad_db h1)))
    \<and> columns_of CREATE_SCHEMA_SQL = ''id'' # map fst (record_row r)"
  using insert_result [OF assms(1,2,3,4,7)] insert_result [OF assms(1,2,5,6,8)] record_map_inject [OF assms(3,5)] assms(9,10)
  by (simp add: schema_columns [of r])

text \<open>A table of rows kept in memory: a statement holds its columns and the value of each parameter.\<close>

definition demo_sqlite :: "(sql_row list, string list \<times> (nat \<Rightarrow> sql_value)) sqlite" where
  "demo_sqlite =
     \<lparr>sq_open = (\<lambda>path. (SQLITE_OK, Some [])),
      sq_errmsg = (\<lambda>conn. ''no table''),
      sq_exec = (\<lambda>sql conn. (SQLITE_OK, None, conn)),
      sq_prepare = (\<lambda>sql conn. (if conn = None then 1 else SQLITE_OK, (columns_of sql, \<lambda>i. Sql_null), conn)),
      sq_bind = (\<lambda>i v stmt. (SQLITE_OK, fst stmt, (snd stmt)(i := v))),
      sq_step = (\<lambda>stmt conn. (SQLITE_DONE, stmt,
         map_option (\<lambda>rows. rows @ [row_of (fst stmt) (map (snd stmt) [1..<Suc (length (fst stmt))])]) conn)),
      sq_finalize = (\<lambda>stmt conn. conn), sq_close = (\<lambda>conn. conn)\<rparr>"

lemma demo_bind_all:
  "fst (bind_all demo_sqlite vals stmt) = fst stmt
   \<and> (\<forall>i < length vals. snd (bind_all demo_sqlite vals stmt) (Suc i) = vals ! i)"
proof (induction vals rule: rev_induct)
  case Nil
  then show ?case by (simp add: bind_all_def)
next
  case (snoc v vals)
  have "bind_all demo_sqlite (vals @ [v]) stmt = snd (sq_bind demo_sqlite (Suc (length vals)) v (bind_all demo_sqlite vals stmt))"
    unfolding bind_all_def length_append_singleton upt_Suc_append [of 1 "Suc (length vals)", OF le_add1 [of 1, unfolded plus_1_eq_Suc]]
    by (simp del: upt_Suc)
  with snoc show ?case by (auto simp: demo_sqlite_def nth_append less_Suc_eq)
qed

lemma demo_executes: "executes_inserts demo_sqlite (\<lambda>conn. conn)"
proof -
  have vals: "map (snd (bind_all demo_sqlite vals stmt)) [1..<Suc (length vals)] = vals" for vals stmt
    using demo_bind_all [of vals stmt] by (intro nth_equalityI) (simp_all del: upt_Suc)
  show ?thesis
    unfolding executes_inserts_def
  proof (intro allI impI, elim conjE)
    fix sql conn old rc stmt conn1 rc' stmt' conn'
    fix vals :: "sql_value list"
    assume old: "conn = Some old" and p: "sq_prepare demo_sqlite sql conn = (rc, stmt, conn1)"
      and fit: "list_all2 (\<lambda>c v. fits (map_of (column_types CREATE_SCHEMA_SQL) c) v) (columns_of sql) vals"
    from p have stmt: "fst stmt = columns_of sql" "conn1 = conn"
      by (auto simp: demo_sqlite_def SQLITE_OK_def split: if_splits)
    have len: "length (columns_of sql) = length vals" using fit by (rule list_all2_lengthD)
    show "conn1 = Some old
      \<and> (rc = SQLITE_OK \<and> sq_step demo_sqlite (bind_all demo_sqlite vals stmt) conn1 = (rc', stmt', conn')
          \<longrightarrow> (rc' \<noteq> SQLITE_DONE \<longrightarrow> sq_finalize demo_sqlite stmt' conn' = Some old)
            \<and> (rc' = SQLITE_DONE \<and> all_bound demo_sqlite vals stmt \<longrightarrow>
                sq_finalize demo_sqlite stmt' conn' = Some (old @ [row_of (columns_of sql) vals])))"
      using stmt old vals [of vals stmt] len demo_bind_all [of vals stmt]
      by (auto simp: demo_sqlite_def simp del: upt_Suc)
  qed
qed

definition demo_handle :: "sql_row list AuditDb" where
  "demo_handle = \<lparr>ad_db = Some [], ad_last_error = []\<rparr>"

lemma demo_insert: "\<exists>h. audit_db_insert demo_sqlite (Some demo_handle) (Some r) = (ERASECURE_OK, Some h)"
  by (simp add: audit_db_insert_def demo_sqlite_def demo_handle_def Let_def)

theorem audit_db_rows_exact_witness:
  "\<exists>h. audit_db_insert demo_sqlite (Some demo_handle) (Some demo_record) = (ERASECURE_OK, Some h)
    \<and> ad_db h = Some [map_of (record_row demo_record)]"
proof -
  obtain h where h: "audit_db_insert demo_sqlite (Some demo_handle) (Some demo_record) = (ERASECURE_OK, Some h)"
    using demo_insert by blast
  have r: "wf_audit demo_record" "c_strings demo_record"
    using demo_good(1) by (auto simp: good_record_def c_strings_def plain_record_def plain_def)
  have bound: "all_bound demo_sqlite vals stmt" for vals stmt by (simp add: all_bound_def demo_sqlite_def)
  have "ad_db demo_handle = Some []" by (simp add: demo_handle_def)
  from audit_db_rows_exact [OF demo_executes this r r h h bound bound] h show ?thesis by simp
qed

end
