(* ===== verification/Cli.thy ===== *)
theory Cli
  imports Verification Device_Info
begin

text \<open>
  The command line, \<open>src/ui/cli.c\<close> and \<open>src/main.c\<close>: the parsing of the arguments, the four commands over
  the modules they call, and the exit code. Of what is printed the outcome keeps the
  verdict of a verification (\<open>Result : PASS\<close> or \<open>FAIL\<close>); the whole text is in \<open>Cli_Output\<close>. The answers of the system to a run are the fields of
  \<open>cli_env\<close>: those for erasing, for verifying, the attribute files, the links and the entries of \<open>/sys/block\<close>.
\<close>

section \<open>State\<close>

record cli_env =
  cl_erase :: erase_env
  cl_verify :: verify_env
  cl_read_text :: "string \<Rightarrow> string option"
  cl_readlink :: "string \<Rightarrow> string option"
  cl_sys_block :: "string list option"

text \<open>What a run leaves: the exit code, the verdict it printed, the file system.\<close>

type_synonym cli_outcome = "int \<times> bool option \<times> filesys"

definition ERASECURE_MAX_DEVICES :: nat where "ERASECURE_MAX_DEVICES = 64"

section \<open>Listing devices\<close>

text \<open>The array of devices is not initialised by the code; its content does not matter.\<close>

definition cmd_list_devices :: "cli_env \<Rightarrow> int" where
  "cmd_list_devices env =
     (case device_scan (cl_read_text env) (cl_readlink env) (cl_sys_block env)
             (Some (replicate ERASECURE_MAX_DEVICES device_init)) ERASECURE_MAX_DEVICES (Some 0) of
        (err, devices, found) \<Rightarrow> if err \<noteq> ERASECURE_OK then 1 else 0)"

definition cmd_device_info :: "cli_env \<Rightarrow> string option \<Rightarrow> int" where
  "cmd_device_info env path =
     (case path of None \<Rightarrow> 1
      | Some p \<Rightarrow>
          (case device_get_info (cl_read_text env) (cl_readlink env) (Some p) (Some device_init) of
             (err, dev) \<Rightarrow> if err \<noteq> ERASECURE_OK then 1 else 0))"

section \<open>Erasing and verifying images\<close>

definition parse_pattern :: "string \<Rightarrow> ErasePattern option" where
  "parse_pattern s =
     (if s = ''zero'' then Some ERASE_PATTERN_ZERO
      else if s = ''one'' then Some ERASE_PATTERN_ONE
      else if s = ''random'' then Some ERASE_PATTERN_RANDOM else None)"

definition cli_erase_options :: "ErasePattern \<Rightarrow> nat \<Rightarrow> nat \<Rightarrow> VerifyMode \<Rightarrow> BlockEraseOptions" where
  "cli_erase_options pattern passes block_size verify_mode =
     block_erase_options_init
       \<lparr>beo_pattern := pattern,
        beo_passes := (if passes > 0 then passes else 1),
        beo_block_size := (if block_size > 0 then block_size else ERASECURE_DEFAULT_BLOCK_SIZE),
        beo_verify_mode := verify_mode,
        beo_progress_cb := False\<rparr>"

text \<open>The verdict a verification prints: none when it reports an error other than a mismatch.\<close>

definition printed_verdict :: "ErasecureError \<Rightarrow> VerificationResult option \<Rightarrow> bool option" where
  "printed_verdict ve vr =
     (if ve \<noteq> ERASECURE_OK \<and> ve \<noteq> ERASECURE_ERR_PATTERN_MISMATCH then None
      else map_option vr_verification_passed vr)"

definition cmd_block_erase_image ::
    "cli_env \<Rightarrow> filesys \<Rightarrow> string \<Rightarrow> string \<Rightarrow> nat \<Rightarrow> nat \<Rightarrow> VerifyMode \<Rightarrow> cli_outcome option" where
  "cmd_block_erase_image env fs image_path pattern_str passes block_size verify_mode =
     (case parse_pattern pattern_str of None \<Rightarrow> Some (1, None, fs)
      | Some pattern \<Rightarrow>
          let opts = cli_erase_options pattern passes block_size verify_mode
          in case block_erase_image (cl_erase env) fs (Some image_path) (Some opts) (Some fresh_erase_result) of
               None \<Rightarrow> None
             | Some (err, result, fs', progress) \<Rightarrow>
                 if err = ERASECURE_ERR_REAL_DEVICE_PATH then Some (2, None, fs')
                 else if err \<noteq> ERASECURE_OK then Some (1, None, fs')
                 else Some (0,
                   (if verify_mode \<noteq> VERIFY_NONE \<and> pattern \<noteq> ERASE_PATTERN_RANDOM
                    then (case verify_image_pattern (cl_verify env) fs' (Some image_path) pattern (beo_block_size opts)
                                 verify_mode (Some fresh_verification) of (ve, vr) \<Rightarrow> printed_verdict ve vr)
                    else None), fs'))"

definition cmd_verify_image :: "cli_env \<Rightarrow> filesys \<Rightarrow> string \<Rightarrow> string \<Rightarrow> int \<times> bool option" where
  "cmd_verify_image env fs image_path pattern_str =
     (if pattern_str \<noteq> ''zero'' \<and> pattern_str \<noteq> ''one'' then (1, None)
      else case verify_image_pattern (cl_verify env) fs (Some image_path)
                  (if pattern_str = ''zero'' then ERASE_PATTERN_ZERO else ERASE_PATTERN_ONE)
                  ERASECURE_DEFAULT_BLOCK_SIZE VERIFY_SAMPLE (Some fresh_verification) of
             (err, vr) \<Rightarrow>
               (case printed_verdict err vr of None \<Rightarrow> (1, None)
                | Some passed \<Rightarrow> (if passed then 0 else 1, Some passed)))"

section \<open>Arguments\<close>

record erase_args =
  ea_pattern_str :: "string option"
  ea_passes :: nat
  ea_block_size :: nat
  ea_verify_mode :: VerifyMode

definition default_erase_args :: erase_args where
  "default_erase_args =
     \<lparr>ea_pattern_str = None, ea_passes = 1, ea_block_size = 0, ea_verify_mode = VERIFY_NONE\<rparr>"

definition passes_arg :: "string \<Rightarrow> nat" where
  "passes_arg s = (let p = strtol s in if p > 0 \<and> p \<le> int ERASECURE_MAX_PASSES then nat p else 1)"

definition block_size_arg :: "string \<Rightarrow> nat" where
  "block_size_arg s = (let bs = strtol s in if bs > 0 then nat bs else 0)"

definition verify_flag :: "string \<Rightarrow> erase_args \<Rightarrow> erase_args" where
  "verify_flag a st =
     (if a = ''--verify'' then st\<lparr>ea_verify_mode := VERIFY_SAMPLE\<rparr>
      else if a = ''--verify-full'' then st\<lparr>ea_verify_mode := VERIFY_FULL\<rparr> else st)"

text \<open>The loop over \<open>argv\<close>: an option that takes a value needs a further argument, anything else is skipped.\<close>

fun erase_args_loop :: "string list \<Rightarrow> erase_args \<Rightarrow> erase_args" where
  "erase_args_loop [] st = st"
| "erase_args_loop [a] st = verify_flag a st"
| "erase_args_loop (a # v # rest) st =
     (if a = ''--block-erase'' then erase_args_loop rest (st\<lparr>ea_pattern_str := Some v\<rparr>)
      else if a = ''--passes'' then erase_args_loop rest (st\<lparr>ea_passes := passes_arg v\<rparr>)
      else if a = ''--block-size'' then erase_args_loop rest (st\<lparr>ea_block_size := block_size_arg v\<rparr>)
      else erase_args_loop (v # rest) (verify_flag a st))"

fun pattern_arg_loop :: "string list \<Rightarrow> string option \<Rightarrow> string option" where
  "pattern_arg_loop (a # v # rest) s =
     (if a = ''--pattern'' then pattern_arg_loop rest (Some v) else pattern_arg_loop (v # rest) s)"
| "pattern_arg_loop _ s = s"

section \<open>The dispatcher\<close>

text \<open>\<open>argv\<close> with its \<open>argc\<close> entries, the program name first.\<close>

definition cli_run :: "cli_env \<Rightarrow> filesys \<Rightarrow> string list \<Rightarrow> cli_outcome option" where
  "cli_run env fs argv =
     (if length argv < 2 then Some (0, None, fs)
      else if argv ! 1 = ''--help'' \<or> argv ! 1 = ''-h'' then Some (0, None, fs)
      else if argv ! 1 = ''--list-devices'' then Some (cmd_list_devices env, None, fs)
      else if argv ! 1 = ''--info'' then
        (if length argv < 3 then Some (1, None, fs) else Some (cmd_device_info env (Some (argv ! 2)), None, fs))
      else if argv ! 1 = ''--test-image'' then
        (if length argv < 5 then Some (1, None, fs)
         else let st = erase_args_loop (drop 3 argv) default_erase_args
              in case ea_pattern_str st of None \<Rightarrow> Some (1, None, fs)
                 | Some pattern_str \<Rightarrow>
                     cmd_block_erase_image env fs (argv ! 2) pattern_str (ea_passes st) (ea_block_size st)
                       (ea_verify_mode st))
      else if argv ! 1 = ''--verify-image'' then
        (if length argv < 5 then Some (1, None, fs)
         else case pattern_arg_loop (drop 3 argv) None of None \<Rightarrow> Some (1, None, fs)
              | Some pattern_str \<Rightarrow>
                  (case cmd_verify_image env fs (argv ! 2) pattern_str of (code, verdict) \<Rightarrow> Some (code, verdict, fs)))
      else Some (1, None, fs))"

definition erasecure_main :: "cli_env \<Rightarrow> filesys \<Rightarrow> string list \<Rightarrow> cli_outcome option" where
  "erasecure_main env fs argv = cli_run env fs argv"

section \<open>Numbers on the command line\<close>

lemma digit_char_digit: "d < 10 \<Longrightarrow> is_digit (digit_char d) \<and> of_char (digit_char d) = 48 + d"
  by (auto simp: is_digit_def digit_char_def less_Suc_eq numeral_eq_Suc)

lemma digits_value_snoc: "digits_value (ds @ [c]) = 10 * digits_value ds + (of_char c - 48)"
  by (simp add: digits_value_def)

lemma digits_value_dec: "digits_value (dec n) = n"
proof (induction n rule: dec.induct)
  case (1 n)
  show ?case
  proof (cases "n < 10")
    case True
    then show ?thesis using digit_char_digit [of n] by (simp add: dec.simps [of n] digits_value_def)
  next
    case False
    then show ?thesis
      using 1 digit_char_digit [of "n mod 10"] by (simp add: dec.simps [of n] digits_value_snoc)
  qed
qed

lemma strtol_dec:
  assumes "n < 2 ^ 63"
  shows "strtol (dec n) = int n"
proof -
  obtain c cs where d: "dec n = c # cs" using dec_not_Nil by (metis list.exhaust)
  have c: "is_digit c" using dec_digits [of c n] by (simp add: d)
  then have "\<not> is_space c" "c \<noteq> CHR ''-''" "c \<noteq> CHR ''+''" by (auto simp: is_digit_def is_space_def)
  moreover have "takeWhile is_digit (dec n) = dec n" using dec_digits by (simp add: takeWhile_eq_all_conv)
  ultimately show ?thesis using assms digits_value_dec [of n] by (simp add: strtol_def Let_def d)
qed

section \<open>Properties\<close>

text \<open>The options a caller can give, how they are written and what each of them sets.\<close>

datatype erase_option = Block_erase string | Passes nat | Block_size nat | Verify | Verify_full

fun written :: "erase_option \<Rightarrow> string list" where
  "written (Block_erase s) = [''--block-erase'', s]"
| "written (Passes n) = [''--passes'', dec n]"
| "written (Block_size n) = [''--block-size'', dec n]"
| "written Verify = [''--verify'']"
| "written Verify_full = [''--verify-full'']"

fun sets :: "erase_option \<Rightarrow> erase_args \<Rightarrow> erase_args" where
  "sets (Block_erase s) st = st\<lparr>ea_pattern_str := Some s\<rparr>"
| "sets (Passes n) st = st\<lparr>ea_passes := (if 1 \<le> n \<and> n \<le> ERASECURE_MAX_PASSES then n else 1)\<rparr>"
| "sets (Block_size n) st = st\<lparr>ea_block_size := n\<rparr>"
| "sets Verify st = st\<lparr>ea_verify_mode := VERIFY_SAMPLE\<rparr>"
| "sets Verify_full st = st\<lparr>ea_verify_mode := VERIFY_FULL\<rparr>"

fun in_long :: "erase_option \<Rightarrow> bool" where
  "in_long (Passes n) \<longleftrightarrow> n < 2 ^ 63"
| "in_long (Block_size n) \<longleftrightarrow> n < 2 ^ 63"
| "in_long _ \<longleftrightarrow> True"

lemma loop_flag:
  "a \<in> {''--verify'', ''--verify-full''} \<Longrightarrow> erase_args_loop (a # rest) st = erase_args_loop rest (verify_flag a st)"
  by (cases rest) auto

lemma loop_written: "in_long g \<Longrightarrow> erase_args_loop (written g @ rest) st = erase_args_loop rest (sets g st)"
  by (cases g)
    (auto simp: loop_flag verify_flag_def passes_arg_def block_size_arg_def Let_def strtol_dec erase_limits
      simp del: erase_args_loop.simps(3) intro!: arg_cong [of _ _ "erase_args_loop rest"]
      simp add: erase_args_loop.simps(3) [of "''--block-erase''"] erase_args_loop.simps(3) [of "''--passes''"]
        erase_args_loop.simps(3) [of "''--block-size''"])

text \<open>
  The parser reads back what is written: for every sequence of options, in any order and with repetitions,
  written out with decimal numbers, the parsed arguments are the defaults updated by each option in turn, so the
  last one of a kind wins; a number of passes outside 1 to 35 counts as 1.
\<close>

theorem cli_options_roundtrip:
  assumes "\<forall>g \<in> set gs. in_long g"
  shows "erase_args_loop (concat (map written gs)) st = fold sets gs st
    \<and> (1 \<le> ea_passes st \<and> ea_passes st \<le> ERASECURE_MAX_PASSES \<longrightarrow>
        1 \<le> ea_passes (fold sets gs st) \<and> ea_passes (fold sets gs st) \<le> ERASECURE_MAX_PASSES)"
  using assms
proof (induction gs arbitrary: st)
  case (Cons g gs)
  have "1 \<le> ea_passes (sets g st) \<and> ea_passes (sets g st) \<le> ERASECURE_MAX_PASSES"
    if "1 \<le> ea_passes st \<and> ea_passes st \<le> ERASECURE_MAX_PASSES"
    using that by (cases g) (auto simp: erase_limits)
  with Cons show ?case by (auto simp: loop_written)
qed simp

theorem cli_options_roundtrip_witness:
  "erase_args_loop [''--verify'', ''--passes'', ''36'', ''--block-erase'', ''one'', ''--passes'', ''7''] default_erase_args =
    \<lparr>ea_pattern_str = Some ''one'', ea_passes = 7, ea_block_size = 0, ea_verify_mode = VERIFY_SAMPLE\<rparr>"
proof -
  have "dec 36 = ''36''" "dec 7 = ''7''" by (simp_all add: dec.simps digit_char_def)
  with cli_options_roundtrip [of "[Verify, Passes 36, Block_erase ''one'', Passes 7]" default_erase_args]
  show ?thesis by (simp add: default_erase_args_def erase_limits)
qed

text \<open>A verification never reports a mismatch as an error, and an image that holds the pattern passes.\<close>

lemma verify_blocks_errors:
  "fst (verify_blocks env c n b bs blks r) \<in> {ERASECURE_OK, ERASECURE_ERR_SEEK_FAILED, ERASECURE_ERR_READ_FAILED}"
proof (induction blks arbitrary: r)
  case (Cons blk blks)
  then show ?case by (simp add: Let_def)
qed simp

lemma verify_constant_errors: "fst (verify_constant_pattern env fs p x bs mode r) \<noteq> ERASECURE_ERR_PATTERN_MISMATCH"
proof -
  have "fst (verify_blocks env c n b bs' blks r') \<noteq> ERASECURE_ERR_PATTERN_MISMATCH" for c n b bs' blks r'
    using verify_blocks_errors [of env c n b bs' blks r'] by auto
  then show ?thesis
    by (simp add: verify_constant_pattern_def Let_def split_beta split: option.split bool.split)
qed

lemma verify_reports_no_mismatch:
  "verify_image_pattern env fs (Some p) pattern bs mode (Some r) \<noteq> (ERASECURE_ERR_PATTERN_MISMATCH, vr)"
  using verify_constant_errors [of env fs p]
  by (auto simp: verify_image_pattern_def split_beta)

lemma verified_pattern_passes:
  assumes "verify_image_pattern env fs (Some p) pattern bs mode (Some r) = (ERASECURE_OK, Some vr)"
    and "fs p = Some (Reg (replicate n (pattern_value pattern)))"
  shows "vr_verification_passed vr"
proof -
  have "bad_blocks (replicate n x) k x blks = []" for k x blks
    by (auto simp: bad_blocks_def block_bytes_def filter_empty_conv dest!: in_set_takeD)
  with verify_image_pattern_OK [OF assms refl refl] show ?thesis by simp
qed

text \<open>The runs that reach the eraser.\<close>

lemma cli_run_erases:
  "argv ! 1 = ''--test-image'' \<Longrightarrow> 5 \<le> length argv \<Longrightarrow>
    ea_pattern_str (erase_args_loop (drop 3 argv) default_erase_args) = Some s \<Longrightarrow>
    cli_run env fs argv = cmd_block_erase_image env fs (argv ! 2) s
      (ea_passes (erase_args_loop (drop 3 argv) default_erase_args))
      (ea_block_size (erase_args_loop (drop 3 argv) default_erase_args))
      (ea_verify_mode (erase_args_loop (drop 3 argv) default_erase_args))"
  by (simp add: cli_run_def Let_def)

lemma cli_run_cases:
  assumes "cli_run env fs argv = Some (code, verdict, fs')"
  obtains (keeps) "fs' = fs"
  | (erases) s where "argv ! 1 = ''--test-image''" "5 \<le> length argv"
      "ea_pattern_str (erase_args_loop (drop 3 argv) default_erase_args) = Some s"
  using assms by (auto simp: cli_run_def Let_def split: if_splits option.splits prod.splits)

lemma cmd_erase_image_call:
  assumes "cmd_block_erase_image env fs p s passes bs mode = Some (code, verdict, fs')" "fs' \<noteq> fs \<or> code = 0"
  shows "\<exists>pattern err result progress. parse_pattern s = Some pattern
    \<and> block_erase_image (cl_erase env) fs (Some p) (Some (cli_erase_options pattern passes bs mode)) (Some fresh_erase_result)
        = Some (err, result, fs', progress) \<and> (code = 0 \<longleftrightarrow> err = ERASECURE_OK)"
  using assms by (auto simp: cmd_block_erase_image_def Let_def split: option.splits prod.splits if_splits)

text \<open>
  C7. The command line never changes a device: whatever the arguments and the answers of the system, the only
  path a run can change is the file named after \<open>--test-image\<close>, it is a regular file under none of the
  physical-device prefixes, and it keeps its length; every other command changes nothing.
\<close>

theorem cli_run_safe:
  assumes run: "cli_run env fs argv = Some (code, verdict, fs')" and changed: "fs' q \<noteq> fs q"
  shows "argv ! 1 = ''--test-image'' \<and> q = argv ! 2 \<and> (\<forall>pre \<in> set blockdev_prefixes. \<not> prefix pre q)
    \<and> (\<exists>c c'. fs q = Some (Reg c) \<and> fs' q = Some (Reg c') \<and> length c' = length c)"
  using run
proof (cases rule: cli_run_cases)
  case keeps
  with changed show ?thesis by simp
next
  case (erases s)
  from run cli_run_erases [OF erases, of env fs] have
    "\<exists>passes bs mode. cmd_block_erase_image env fs (argv ! 2) s passes bs mode = Some (code, verdict, fs')" by auto
  with cmd_erase_image_call changed obtain opts err result progress where
    "block_erase_image (cl_erase env) fs (Some (argv ! 2)) (Some opts) (Some fresh_erase_result) = Some (err, result, fs', progress)"
    by metis
  from block_erase_image_frame [OF this changed] erases(1) show ?thesis by blast
qed

text \<open>A command that reports success left the pattern in the file, and its verification did not refute it.\<close>

lemma cmd_erase_image_zero:
  assumes cmd: "cmd_block_erase_image env fs p s passes block_size mode = Some (0, verdict, fs')"
    and img: "s \<noteq> ''random''" "fs p = Some (Reg content)" "length content * 35 < 2 ^ 64"
  shows "fs' = fs(p \<mapsto> Reg (replicate (length content) (if s = ''zero'' then 0 else 0xFF))) \<and> verdict \<noteq> Some False"
proof -
  obtain pattern result progress where pat: "parse_pattern s = Some pattern"
    and call: "block_erase_image (cl_erase env) fs (Some p)
        (Some (cli_erase_options pattern passes block_size mode)) (Some fresh_erase_result)
        = Some (ERASECURE_OK, result, fs', progress)"
    using cmd_erase_image_call [OF cmd] by auto
  let ?opts = "cli_erase_options pattern passes block_size mode"
  have const: "pattern \<noteq> ERASE_PATTERN_RANDOM" "pattern_value pattern = (if s = ''zero'' then 0 else 0xFF)"
    using pat img(1) by (auto simp: parse_pattern_def pattern_value_def split: if_splits)
  have fits: "length content * clamp_passes (beo_passes ?opts) < 2 ^ 64"
    using mult_le_mono2 [of "clamp_passes (beo_passes ?opts)" 35 "length content"]
      clamp_passes_bounds [of "beo_passes ?opts"] img(3)
    unfolding erase_limits by linarith
  have "beo_pattern ?opts = pattern" by (simp add: cli_erase_options_def)
  with block_erase_image_run_OK [OF _ fits] call img(2) const
  have erased: "fs' = fs(p \<mapsto> Reg (replicate (length content) (pattern_value pattern)))"
    by (elim block_erase_image_cases [where e = ERASECURE_OK])
      (cases pattern; fastforce simp: pass_bytes_const pattern_value_def)+
  have "verdict \<noteq> Some False"
  proof
    assume "verdict = Some False"
    then obtain vr where v: "verify_image_pattern (cl_verify env) fs' (Some p) pattern (beo_block_size ?opts)
          mode (Some fresh_verification) = (ERASECURE_OK, Some vr)" "\<not> vr_verification_passed vr"
      using cmd call pat verify_reports_no_mismatch
      by (fastforce simp: cmd_block_erase_image_def printed_verdict_def Let_def split: if_splits prod.splits)
    have "fs' p = Some (Reg (replicate (length content) (pattern_value pattern)))" using erased by simp
    from verified_pattern_passes [OF v(1) this] v(2) show False by simp
  qed
  with erased const show ?thesis by simp
qed

text \<open>
  C8. Exit code 0 of an erasure means that the file is overwritten: with the zero or the one pattern the file holds
  the pattern in every byte, nothing else has changed, and a verdict that was printed is \<open>PASS\<close>. A path that looks
  like a physical device is refused with code 2 and an unknown pattern with code 1, both without any change.
\<close>

theorem cli_erase_exit_code:
  assumes args: "argv ! 1 = ''--test-image''" "5 \<le> length argv"
      "ea_pattern_str (erase_args_loop (drop 3 argv) default_erase_args) = Some s"
    and run: "cli_run env fs argv = Some (code, verdict, fs')"
  shows "(code = 0 \<and> s \<noteq> ''random'' \<and> fs (argv ! 2) = Some (Reg content) \<and> length content * 35 < 2 ^ 64 \<longrightarrow>
        fs' = fs(argv ! 2 \<mapsto> Reg (replicate (length content) (if s = ''zero'' then 0 else 0xFF)))
        \<and> verdict \<noteq> Some False)
    \<and> (parse_pattern s \<noteq> None \<and> device_path_is_block_device (env_stat_ok (cl_erase env)) fs (Some (argv ! 2)) \<longrightarrow>
        code = 2 \<and> fs' = fs)
    \<and> (parse_pattern s = None \<longrightarrow> code = 1 \<and> fs' = fs)"
proof -
  define st where "st = erase_args_loop (drop 3 argv) default_erase_args"
  have cmd: "cmd_block_erase_image env fs (argv ! 2) s (ea_passes st) (ea_block_size st) (ea_verify_mode st)
      = Some (code, verdict, fs')"
    using run cli_run_erases [OF args] by (simp add: st_def)
  have "fs' = fs(argv ! 2 \<mapsto> Reg (replicate (length content) (if s = ''zero'' then 0 else 0xFF))) \<and> verdict \<noteq> Some False"
    if "code = 0" "s \<noteq> ''random''" "fs (argv ! 2) = Some (Reg content)" "length content * 35 < 2 ^ 64"
    using cmd_erase_image_zero [OF cmd [unfolded \<open>code = 0\<close>]] that by simp
  moreover have "code = 2 \<and> fs' = fs" if "parse_pattern s \<noteq> None"
      "device_path_is_block_device (env_stat_ok (cl_erase env)) fs (Some (argv ! 2))"
    using that cmd by (auto simp: cmd_block_erase_image_def Let_def block_erase_image_def erase_reject_def)
  moreover have "code = 1 \<and> fs' = fs" if "parse_pattern s = None"
    using that cmd by (simp add: cmd_block_erase_image_def)
  ultimately show ?thesis by blast
qed

text \<open>
  The exit code of an erasure ignores its verification: replacing the reader by any other leaves the exit code
  and the effect as they are. With a reader that cannot even \<open>stat\<close> the file no verdict is printed, and a run that
  was asked to verify still exits with 0.
\<close>

theorem cli_exit_ignores_verification:
  assumes "argv ! 1 = ''--test-image''" and "cli_run env fs argv = Some (code, verdict, fs')"
  shows "\<exists>verdict'. cli_run (env\<lparr>cl_verify := v\<rparr>) fs argv = Some (code, verdict', fs')
    \<and> (\<not> vf_stat_ok v \<longrightarrow> verdict' = None)"
proof -
  have fails: "printed_verdict (fst r) (snd r) = None"
    if "\<not> vf_stat_ok v" "r = verify_image_pattern v fs1 (Some p) pattern bs mode (Some fresh_verification)" "pattern \<noteq> ERASE_PATTERN_RANDOM"
    for r fs1 p pattern bs mode
    using that by (simp add: verify_image_pattern_def verify_constant_pattern_def printed_verdict_def)
  have cmd: "\<exists>verdict'. cmd_block_erase_image (env\<lparr>cl_verify := v\<rparr>) fs p s passes bs mode = Some (code, verdict', fs')
      \<and> (\<not> vf_stat_ok v \<longrightarrow> verdict' = None)"
    if "cmd_block_erase_image env fs p s passes bs mode = Some (code, verdict, fs')" for p s passes bs mode
    using that fails [OF _ refl]
    by (auto simp: cmd_block_erase_image_def Let_def split_beta split: option.splits if_splits)
  show ?thesis
  proof (cases "5 \<le> length argv \<and> ea_pattern_str (erase_args_loop (drop 3 argv) default_erase_args) \<noteq> None")
    case True
    then obtain s where args: "5 \<le> length argv" "ea_pattern_str (erase_args_loop (drop 3 argv) default_erase_args) = Some s" by blast
    show ?thesis using assms(2) cmd by (simp only: cli_run_erases [OF assms(1) args])
  next
    case False
    then show ?thesis using assms by (auto simp: cli_run_def Let_def split: if_splits)
  qed
qed

text \<open>Inputs for the witnesses.\<close>

definition demo_cli_env :: cli_env where
  "demo_cli_env = \<lparr>cl_erase = demo_env, cl_verify = demo_verify_env, cl_read_text = (\<lambda>_. None), cl_readlink = (\<lambda>_. None),
     cl_sys_block = None\<rparr>"

definition demo_argv :: "string list" where
  "demo_argv = [''erasecure'', ''--test-image'', ''test.img'', ''--block-erase'', ''zero'', ''--verify-full'']"

lemma demo_args:
  "demo_argv ! 1 = ''--test-image''" "5 \<le> length demo_argv"
  "ea_pattern_str (erase_args_loop (drop 3 demo_argv) default_erase_args) = Some ''zero''"
  by (simp_all add: demo_argv_def default_erase_args_def verify_flag_def)

lemma demo_cli_run: "\<exists>verdict fs'. cli_run demo_cli_env demo_fs demo_argv = Some (0, verdict, fs')"
proof -
  let ?opts = "cli_erase_options ERASE_PATTERN_ZERO 1 0 VERIFY_FULL"
  have run: "block_erase_image demo_env demo_fs (Some ''test.img'') (Some ?opts) (Some fresh_erase_result)
      = block_erase_image_run demo_env demo_fs ''test.img'' [1, 2, 3] ?opts"
    using demo_image_is_no_device by (simp add: block_erase_image_def demo_fs_def demo_env_def)
  obtain res fs' prog where out: "block_erase_image_run demo_env demo_fs ''test.img'' [1, 2, 3] ?opts = Some (ERASECURE_OK, res, fs', prog)"
    using block_erase_image_run_cooperative [OF cooperative_demo_env] by blast
  have "parse_pattern ''zero'' = Some ERASE_PATTERN_ZERO" by (simp add: parse_pattern_def)
  with run out show ?thesis
    unfolding cli_run_erases [OF demo_args]
    by (simp add: cmd_block_erase_image_def demo_cli_env_def demo_argv_def default_erase_args_def verify_flag_def)
qed

theorem cli_run_safe_witness:
  "\<exists>verdict fs'. cli_run demo_cli_env demo_fs demo_argv = Some (0, verdict, fs')
    \<and> (fs' ''test.img'' \<noteq> demo_fs ''test.img'' \<longrightarrow> (\<exists>c'. fs' ''test.img'' = Some (Reg c') \<and> length c' = 3))"
proof -
  obtain verdict fs' where run: "cli_run demo_cli_env demo_fs demo_argv = Some (0, verdict, fs')" using demo_cli_run by blast
  have "\<exists>c'. fs' ''test.img'' = Some (Reg c') \<and> length c' = 3" if "fs' ''test.img'' \<noteq> demo_fs ''test.img''"
    using cli_run_safe [OF run that] by (auto simp: demo_fs_def)
  with run show ?thesis by blast
qed

theorem cli_erase_exit_code_witness:
  "\<exists>verdict fs'. cli_run demo_cli_env demo_fs demo_argv = Some (0, verdict, fs') \<and> fs' ''test.img'' = Some (Reg [0, 0, 0])"
proof -
  obtain verdict fs' where run: "cli_run demo_cli_env demo_fs demo_argv = Some (0, verdict, fs')" using demo_cli_run by blast
  have img: "demo_argv ! 2 = ''test.img''" by (simp add: demo_argv_def)
  have "demo_fs ''test.img'' = Some (Reg [1, 2, 3])" by (simp add: demo_fs_def)
  with cli_erase_exit_code [OF demo_args run, of "[1, 2, 3]"]
  have "fs' = demo_fs(''test.img'' \<mapsto> Reg (replicate 3 0))" unfolding img by (simp add: numeral_3_eq_3)
  with run show ?thesis by (simp add: numeral_3_eq_3)
qed

theorem cli_exit_ignores_verification_witness:
  "\<exists>fs'. cli_run (demo_cli_env\<lparr>cl_verify := demo_verify_env\<lparr>vf_stat_ok := False\<rparr>\<rparr>) demo_fs demo_argv = Some (0, None, fs')"
proof -
  obtain verdict fs' where run: "cli_run demo_cli_env demo_fs demo_argv = Some (0, verdict, fs')" using demo_cli_run by blast
  from cli_exit_ignores_verification [OF demo_args(1) run, of "demo_verify_env\<lparr>vf_stat_ok := False\<rparr>"] show ?thesis by auto
qed

end
