(* ===== verification/Cli_Output.thy ===== *)
theory Cli_Output
  imports Cli
begin

text \<open>
  What a run of the command line prints: \<open>device_print_info\<close> of \<open>src/device/device.c\<close> and the output of
  \<open>src/ui/cli.c\<close>, as the text on the standard output and the text on the standard error. A string is the
  sequence of its bytes, so the frames are written as the bytes of their UTF-8 characters. \<open>Cli\<close> models what the
  same functions do; here they make the same calls and the texts follow from the answers. How long an erasure took
  is the argument \<open>duration\<close>, the text that \<open>%.3f\<close> gives.
\<close>

record printed =
  out_text :: string
  err_text :: string

definition nl :: string where "nl = [newline]"

definition on_out :: "string \<Rightarrow> printed" where "on_out s = \<lparr>out_text = s, err_text = []\<rparr>"

text \<open>Text before what a call prints.\<close>

definition after_out :: "string \<Rightarrow> printed \<Rightarrow> printed" where
  "after_out s t = t\<lparr>out_text := s @ out_text t\<rparr>"

lemma printed_simps [simp]:
  "out_text (on_out s) = s" "err_text (on_out s) = []"
  "out_text (after_out s t) = s @ out_text t" "err_text (after_out s t) = err_text t"
  by (simp_all add: on_out_def after_out_def)

section \<open>Numbers\<close>

text \<open>The division of naturals rounded to the nearest, ties to even.\<close>

definition round_div :: "nat \<Rightarrow> nat \<Rightarrow> nat" where
  "round_div a b =
     (let q = a div b; r = a mod b in if 2 * r < b \<or> 2 * r = b \<and> even q then q else q + 1)"

text \<open>How many low bits a \<open>double\<close> with its 53 bits drops of a natural number, and the conversion.\<close>

fun double_shift :: "nat \<Rightarrow> nat" where
  "double_shift n = (if n < 2 ^ 53 then 0 else Suc (double_shift (n div 2)))"

declare double_shift.simps [simp del]

definition to_double :: "nat \<Rightarrow> nat" where
  "to_double n = round_div n (2 ^ double_shift n) * 2 ^ double_shift n"

text \<open>\<open>%.2f\<close> of a number of bytes over 2 to the power 30, a division that is exact in \<open>double\<close>.\<close>

definition gib_hundredths :: "nat \<Rightarrow> nat" where
  "gib_hundredths capacity = round_div (100 * to_double capacity) (2 ^ 30)"

definition fixed2 :: "nat \<Rightarrow> string" where
  "fixed2 h = dec (h div 100) @ ''.'' @ [digit_char (h div 10 mod 10), digit_char (h mod 10)]"

section \<open>Texts of one device\<close>

definition or_else :: "string \<Rightarrow> string \<Rightarrow> string" where
  "or_else s alternative = (if s \<noteq> [] then s else alternative)"

definition yes_no :: "bool \<Rightarrow> string" where
  "yes_no b = (if b then ''yes'' else ''no'')"

definition supported :: "bool \<Rightarrow> string" where
  "supported b = (if b then ''supported'' else ''not supported'')"

definition device_print_info :: "StorageDevice option \<Rightarrow> string" where
  "device_print_info dev =
     (case dev of None \<Rightarrow> []
      | Some d \<Rightarrow>
          ''  Path           : '' @ or_else (sd_path d) ''(none)'' @ nl
          @ ''  Model          : '' @ or_else (sd_model d) ''(unknown)'' @ nl
          @ ''  Serial         : '' @ or_else (sd_serial d) ''(unknown)'' @ nl
          @ ''  Capacity       : '' @ fixed2 (gib_hundredths (sd_capacity_bytes d)) @ '' GiB (''
              @ dec (sd_capacity_bytes d) @ '' bytes)'' @ nl
          @ ''  Logical BS     : '' @ dec (sd_logical_sector_size d) @ '' bytes'' @ nl
          @ ''  Physical BS    : '' @ dec (sd_physical_sector_size d) @ '' bytes'' @ nl
          @ ''  Device Type    : '' @ device_type_str (sd_device_type d) @ nl
          @ ''  Transport      : '' @ device_transport_str (sd_transport_type d) @ nl
          @ ''  Rotational     : '' @ yes_no (sd_is_rotational d) @ nl
          @ ''  Removable      : '' @ yes_no (sd_is_removable d) @ nl
          @ ''  Read-Only      : '' @ yes_no (sd_is_read_only d) @ nl
          @ ''  Block Erase    : '' @ supported (cap_supports_block_erase (sd_capabilities d)) @ nl
          @ ''  Crypto Erase   : '' @ supported (cap_supports_crypto_erase (sd_capabilities d)) @ nl
          @ ''  Native Sanitize: '' @ supported (cap_supports_device_native (sd_capabilities d)) @ nl)"

section \<open>Banners and usage\<close>

text \<open>The bytes of the box-drawing characters and of the dash: \<open>box a b\<close> is the character E2 a b.\<close>

definition box :: "char \<Rightarrow> char \<Rightarrow> string" where
  "box a b = [CHR 0xE2, a, b]"

definition repeated :: "nat \<Rightarrow> string \<Rightarrow> string" where
  "repeated n s = concat (replicate n s)"

definition ERASECURE_APP_VERSION :: string where "ERASECURE_APP_VERSION = ''0.1.0-dev''"

definition print_banner :: string where
  "print_banner =
     box (CHR 0x95) (CHR 0x94) @ repeated 50 (box (CHR 0x95) (CHR 0x90)) @ box (CHR 0x95) (CHR 0x97) @ nl
     @ box (CHR 0x95) (CHR 0x91) @ ''  EraseCure v'' @ ERASECURE_APP_VERSION
       @ replicate (5 - length ERASECURE_APP_VERSION) (CHR '' '')
       @ ''  '' @ box (CHR 0x80) (CHR 0x94) @ ''  Secure Data Sanitization  '' @ box (CHR 0x95) (CHR 0x91) @ nl
     @ box (CHR 0x95) (CHR 0x9A) @ repeated 50 (box (CHR 0x95) (CHR 0x90)) @ box (CHR 0x95) (CHR 0x9D) @ nl @ nl"

definition print_test_mode_warning :: string where
  "print_test_mode_warning =
     box (CHR 0x94) (CHR 0x8C) @ repeated 49 (box (CHR 0x94) (CHR 0x80)) @ box (CHR 0x94) (CHR 0x90) @ nl
     @ box (CHR 0x94) (CHR 0x82) @ ''  [TEST MODE]  Operating on disk image file only '' @ box (CHR 0x94) (CHR 0x82) @ nl
     @ box (CHR 0x94) (CHR 0x82) @ ''  No physical devices will be modified.          '' @ box (CHR 0x94) (CHR 0x82) @ nl
     @ box (CHR 0x94) (CHR 0x94) @ repeated 49 (box (CHR 0x94) (CHR 0x80)) @ box (CHR 0x94) (CHR 0x98) @ nl @ nl"

definition cli_print_usage :: string where
  "cli_print_usage =
     ''Usage: erasecure <command> [options]'' @ nl @ nl
     @ ''Commands:'' @ nl
     @ ''  --list-devices'' @ nl
     @ ''        List all detected storage devices.'' @ nl @ nl
     @ ''  --info <device-path>'' @ nl
     @ ''        Show detailed information about a device.'' @ nl
     @ ''        Example: erasecure --info /dev/sda'' @ nl @ nl
     @ ''  --test-image <file> --block-erase <pattern>'' @ nl
     @ ''        Erase a disk image file with the specified pattern.'' @ nl
     @ ''        Pattern: zero | one | random'' @ nl
     @ ''        Options:'' @ nl
     @ ''          --passes <N>         Number of overwrite passes (default 1)'' @ nl
     @ ''          --block-size <N>     I/O chunk size in bytes (default 1MiB)'' @ nl
     @ ''          --verify             Verify after erase'' @ nl
     @ ''          --verify-full        Full readback verification'' @ nl
     @ ''        Example: erasecure --test-image test.img --block-erase zero --passes 3 --verify'' @ nl @ nl
     @ ''  --verify-image <file> --pattern <zero|one>'' @ nl
     @ ''        Verify that an image file contains the expected pattern.'' @ nl @ nl
     @ ''  --help'' @ nl
     @ ''        Show this help message.'' @ nl @ nl
     @ ''Safety:'' @ nl
     @ ''  Real device operations are NOT implemented in this version.'' @ nl
     @ ''  All destructive commands require --test-image (file path).'' @ nl @ nl"

section \<open>The commands\<close>

definition error_text :: "ErasecureError \<Rightarrow> string" where
  "error_text e = erasecure_strerror (the_default 0 (error_code e))"

text \<open>The block of device number \<open>i\<close>, counted from 1.\<close>

definition device_entry :: "nat \<times> StorageDevice \<Rightarrow> string" where
  "device_entry e =
     ''Device #'' @ dec (fst e) @ nl @ repeated 37 (box (CHR 0x94) (CHR 0x80)) @ nl
     @ device_print_info (Some (snd e)) @ nl"

definition list_devices_text :: "cli_env \<Rightarrow> printed" where
  "list_devices_text env =
     after_out (''Scanning storage devices via /sys/block...'' @ nl @ nl)
       (case device_scan (cl_read_text env) (cl_readlink env) (cl_sys_block env)
               (Some (replicate ERASECURE_MAX_DEVICES device_init)) ERASECURE_MAX_DEVICES (Some 0) of
          (err, devices, found) \<Rightarrow>
            if err \<noteq> ERASECURE_OK
            then \<lparr>out_text = [], err_text =
                    ''Error: device_scan failed: '' @ error_text err @ nl
                    @ ''       (Are you running on Linux with /sys/block access?)'' @ nl\<rparr>
            else if the found = 0
            then on_out (''No storage devices found (or /sys/block not accessible).'' @ nl)
            else on_out (''Found '' @ dec (the found) @ '' device(s):'' @ nl @ nl
                   @ concat (map device_entry (zip [1..<Suc (the found)] (take (the found) (the devices))))))"

definition device_info_text :: "cli_env \<Rightarrow> string option \<Rightarrow> printed" where
  "device_info_text env path =
     (case path of None \<Rightarrow> \<lparr>out_text = [], err_text = ''Error: --info requires a device path.'' @ nl\<rparr>
      | Some p \<Rightarrow>
          (case device_get_info (cl_read_text env) (cl_readlink env) (Some p) (Some device_init) of
             (err, dev) \<Rightarrow>
               if err \<noteq> ERASECURE_OK
               then \<lparr>out_text = [], err_text =
                       ''Error: device_get_info('' @ quoted p @ '') failed: '' @ error_text err @ nl\<rparr>
               else on_out (''Device Information'' @ nl @ repeated 38 (box (CHR 0x94) (CHR 0x80)) @ nl
                      @ device_print_info dev @ nl)))"

text \<open>The lines of a verification; \<open>total_line\<close> is the line with the number of blocks, which only \<open>--verify-image\<close> prints.\<close>

definition verdict_line :: "bool \<Rightarrow> string" where
  "verdict_line passed = ''  Result         : '' @ (if passed then ''PASS'' else ''FAIL'') @ nl"

definition verification_lines :: "string \<Rightarrow> VerificationResult \<Rightarrow> string" where
  "verification_lines total_line vr =
     ''  Scope          : '' @ verification_scope_str (vr_scope vr) @ nl @ total_line
     @ ''  Blocks checked : '' @ dec (vr_blocks_checked vr) @ nl
     @ ''  Blocks failed  : '' @ dec (vr_blocks_failed vr) @ nl
     @ verdict_line (vr_verification_passed vr)
     @ nl @ ''  Note: '' @ vr_confidence_note vr @ nl"

text \<open>The part after an erasure: the verification, or why there is none.\<close>

definition erase_verification_text ::
    "cli_env \<Rightarrow> filesys \<Rightarrow> string \<Rightarrow> ErasePattern \<Rightarrow> nat \<Rightarrow> VerifyMode \<Rightarrow> printed" where
  "erase_verification_text env fs image_path pattern block_size verify_mode =
     (if verify_mode \<noteq> VERIFY_NONE \<and> pattern \<noteq> ERASE_PATTERN_RANDOM
      then after_out (''Running verification...'' @ nl)
        (case verify_image_pattern (cl_verify env) fs (Some image_path) pattern block_size verify_mode
                (Some fresh_verification) of
           (ve, vr) \<Rightarrow>
             if ve \<noteq> ERASECURE_OK \<and> ve \<noteq> ERASECURE_ERR_PATTERN_MISMATCH
             then \<lparr>out_text = [], err_text = ''Verification error: '' @ error_text ve @ nl\<rparr>
             else on_out (verification_lines [] (the vr)))
      else if verify_mode \<noteq> VERIFY_NONE \<and> pattern = ERASE_PATTERN_RANDOM
      then on_out (''Note: Random pattern verification is not possible (non-deterministic).'' @ nl)
      else on_out [])"

definition verify_mode_str :: "VerifyMode \<Rightarrow> string" where
  "verify_mode_str verify_mode =
     (if verify_mode = VERIFY_NONE then ''none'' else if verify_mode = VERIFY_SAMPLE then ''sampled'' else ''full'')"

definition audit_demo_text :: "string \<Rightarrow> ErasePattern \<Rightarrow> string" where
  "audit_demo_text image_path pattern =
     nl @ ''Audit record (example '' @ box (CHR 0x80) (CHR 0x94) @ '' not written to DB in this demo):'' @ nl
     @ ''  Operation : block_erase_image'' @ nl
     @ ''  Image     : '' @ image_path @ nl
     @ ''  Pattern   : '' @ erase_pattern_str pattern @ nl
     @ ''  Version   : '' @ ERASECURE_APP_VERSION @ nl"

text \<open>What follows a completed erasure, around the text of its verification.\<close>

definition erase_complete_text :: "string \<Rightarrow> BlockEraseResult \<Rightarrow> printed \<Rightarrow> string \<Rightarrow> ErasePattern \<Rightarrow> printed" where
  "erase_complete_text duration result verification image_path pattern =
     \<lparr>out_text =
        ''Erase complete.'' @ nl
        @ ''  Bytes written : '' @ dec (ber_bytes_written result) @ nl
        @ ''  Passes done   : '' @ dec (ber_passes_completed result) @ nl
        @ ''  Duration      : '' @ duration @ '' s'' @ nl @ nl
        @ out_text verification @ audit_demo_text image_path pattern,
      err_text = err_text verification\<rparr>"

definition erase_image_text ::
    "cli_env \<Rightarrow> string \<Rightarrow> filesys \<Rightarrow> string \<Rightarrow> string \<Rightarrow> nat \<Rightarrow> nat \<Rightarrow> VerifyMode \<Rightarrow> printed option" where
  "erase_image_text env duration fs image_path pattern_str passes block_size verify_mode =
     map_option (after_out print_test_mode_warning)
       (case parse_pattern pattern_str of
          None \<Rightarrow> Some \<lparr>out_text = [], err_text =
            ''Error: unknown pattern '' @ quoted pattern_str @ ''. Use: zero | one | random'' @ nl\<rparr>
        | Some pattern \<Rightarrow>
            let opts = cli_erase_options pattern passes block_size verify_mode;
                start = ''Starting block erase on image: '' @ image_path @ nl
                  @ ''  Pattern    : '' @ erase_pattern_str pattern @ nl
                  @ ''  Passes     : '' @ dec (beo_passes opts) @ nl
                  @ ''  Block size : '' @ dec (beo_block_size opts) @ '' bytes'' @ nl
                  @ ''  Verify     : '' @ verify_mode_str verify_mode @ nl @ nl
            in map_option (after_out start)
              (case block_erase_image (cl_erase env) fs (Some image_path) (Some opts) (Some fresh_erase_result) of
                 None \<Rightarrow> None
               | Some (err, result, fs', progress) \<Rightarrow>
                   if err = ERASECURE_ERR_REAL_DEVICE_PATH
                   then Some \<lparr>out_text = [], err_text =
                          nl @ ''[SAFETY BLOCK] '' @ ber_error_message (the result) @ nl
                          @ ''Use --test-image with a regular file, not a block device.'' @ nl\<rparr>
                   else if err \<noteq> ERASECURE_OK
                   then Some \<lparr>out_text = [], err_text =
                          ''Error: block erase failed: '' @ ber_error_message (the result) @ nl\<rparr>
                   else
                     let verification = erase_verification_text env fs' image_path pattern (beo_block_size opts) verify_mode
                     in Some (erase_complete_text duration (the result) verification image_path pattern)))"

definition verify_image_text :: "cli_env \<Rightarrow> filesys \<Rightarrow> string \<Rightarrow> string \<Rightarrow> printed" where
  "verify_image_text env fs image_path pattern_str =
     after_out print_test_mode_warning
       (if pattern_str \<noteq> ''zero'' \<and> pattern_str \<noteq> ''one''
        then \<lparr>out_text = [], err_text = ''Error: verify supports only '' @ quoted ''zero'' @ '' or '' @ quoted ''one''
                @ '' patterns.'' @ nl\<rparr>
        else
          let pattern = (if pattern_str = ''zero'' then ERASE_PATTERN_ZERO else ERASE_PATTERN_ONE)
          in after_out (''Verifying image: '' @ image_path @ '' (expected pattern: '' @ erase_pattern_str pattern @ '')'' @ nl @ nl)
            (case verify_image_pattern (cl_verify env) fs (Some image_path) pattern ERASECURE_DEFAULT_BLOCK_SIZE
                    VERIFY_SAMPLE (Some fresh_verification) of
               (err, vr) \<Rightarrow>
                 if err \<noteq> ERASECURE_OK \<and> err \<noteq> ERASECURE_ERR_PATTERN_MISMATCH
                 then \<lparr>out_text = [], err_text = ''Error: '' @ error_text err @ nl\<rparr>
                 else on_out (verification_lines (''  Blocks total   : '' @ dec (vr_blocks_total (the vr)) @ nl) (the vr))))"

section \<open>The dispatcher\<close>

definition cli_text :: "cli_env \<Rightarrow> string \<Rightarrow> filesys \<Rightarrow> string list \<Rightarrow> printed option" where
  "cli_text env duration fs argv =
     map_option (after_out print_banner)
       (if length argv < 2 then Some (on_out cli_print_usage)
        else if argv ! 1 = ''--help'' \<or> argv ! 1 = ''-h'' then Some (on_out cli_print_usage)
        else if argv ! 1 = ''--list-devices'' then Some (list_devices_text env)
        else if argv ! 1 = ''--info'' then
          (if length argv < 3
           then Some \<lparr>out_text = [], err_text = ''Error: --info requires a device path.'' @ nl\<rparr>
           else Some (device_info_text env (Some (argv ! 2))))
        else if argv ! 1 = ''--test-image'' then
          (if length argv < 5
           then Some \<lparr>out_text = cli_print_usage,
                  err_text = ''Error: --test-image requires a file and --block-erase <pattern>.'' @ nl\<rparr>
           else let st = erase_args_loop (drop 3 argv) default_erase_args
                in case ea_pattern_str st of
                     None \<Rightarrow> Some \<lparr>out_text = [], err_text = ''Error: missing --block-erase <pattern>.'' @ nl\<rparr>
                   | Some pattern_str \<Rightarrow>
                       erase_image_text env duration fs (argv ! 2) pattern_str (ea_passes st) (ea_block_size st)
                         (ea_verify_mode st))
        else if argv ! 1 = ''--verify-image'' then
          (if length argv < 5
           then Some \<lparr>out_text = [], err_text = ''Error: --verify-image requires a file and --pattern <zero|one>.'' @ nl\<rparr>
           else case pattern_arg_loop (drop 3 argv) None of
                  None \<Rightarrow> Some \<lparr>out_text = [], err_text = ''Error: missing --pattern <zero|one>.'' @ nl\<rparr>
                | Some pattern_str \<Rightarrow> Some (verify_image_text env fs (argv ! 2) pattern_str))
        else Some \<lparr>out_text = cli_print_usage, err_text = ''Unknown command: '' @ argv ! 1 @ nl @ nl\<rparr>)"

section \<open>Facts about the texts\<close>

lemma round_div_near: "0 < b \<Longrightarrow> 2 * \<bar>int (round_div a b) * int b - int a\<bar> \<le> int b"
proof -
  assume b: "0 < b"
  define q r where "q = a div b" and "r = a mod b"
  have a: "int a = int q * int b + int r" and r: "r < b"
    using b by (simp_all add: q_def r_def flip: of_nat_mult of_nat_add)
  show ?thesis using r unfolding round_div_def Let_def a q_def [symmetric] r_def [symmetric]
    by (auto simp: algebra_simps abs_le_iff)
qed

lemma to_double_exact: "n < 2 ^ 53 \<Longrightarrow> to_double n = n"
  by (simp add: to_double_def double_shift.simps [of n] round_div_def)

text \<open>The capacity of a disk below 8 PiB is printed to within half a hundredth of a gibibyte.\<close>

lemma gib_hundredths_near:
  "capacity < 2 ^ 53 \<Longrightarrow> 2 * \<bar>int (gib_hundredths capacity) * 2 ^ 30 - 100 * int capacity\<bar> \<le> 2 ^ 30"
  using round_div_near [of "2 ^ 30" "100 * capacity"] by (simp add: gib_hundredths_def to_double_exact)

text \<open>The list of devices is the list of the first 64 whole disks, each with its attributes.\<close>

lemma list_devices_prints_disks:
  assumes names: "cl_sys_block env = Some names"
  defines "disks \<equiv> take ERASECURE_MAX_DEVICES (filter is_whole_disk names)"
  shows "list_devices_text env = on_out (''Scanning storage devices via /sys/block...'' @ nl @ nl @
    (if disks = [] then ''No storage devices found (or /sys/block not accessible).'' @ nl
     else ''Found '' @ dec (length disks) @ '' device(s):'' @ nl @ nl
       @ concat (map device_entry (zip [1..<Suc (length disks)] (map (device_info (cl_read_text env) (cl_readlink env)) disks)))))"
proof -
  have "device_scan (cl_read_text env) (cl_readlink env) (cl_sys_block env)
      (Some (replicate ERASECURE_MAX_DEVICES device_init)) ERASECURE_MAX_DEVICES (Some 0)
    = (ERASECURE_OK, Some (map (device_info (cl_read_text env) (cl_readlink env)) disks
        @ drop (length disks) (replicate ERASECURE_MAX_DEVICES device_init)), Some (length disks))"
    using scan_entries_eq [of 0 ERASECURE_MAX_DEVICES "replicate ERASECURE_MAX_DEVICES device_init"]
    by (simp add: device_scan_def Let_def names disks_def ERASECURE_MAX_DEVICES_def)
  then show ?thesis unfolding list_devices_text_def
    by (simp add: on_out_def after_out_def del: upt_Suc)
qed

text \<open>How many characters a line of UTF-8 bytes has, and the lines of the banner: the middle one is wider than its frame.\<close>

definition characters :: "string \<Rightarrow> nat" where
  "characters s = length (filter (\<lambda>c. of_char c < (128::nat) \<or> 192 \<le> (of_char c :: nat)) s)"

fun lines_of :: "string \<Rightarrow> string \<Rightarrow> string list" where
  "lines_of acc [] = [acc]"
| "lines_of acc (c # cs) = (if c = newline then acc # lines_of [] cs else lines_of (acc @ [c]) cs)"

lemma banner_wider_than_frame: "map characters (lines_of [] print_banner) = [52, 55, 52, 0, 0]"
  by code_simp

section \<open>Exit code and messages\<close>

text \<open>What the texts of a run say about its exit code and its verdict.\<close>

definition explains :: "printed \<Rightarrow> int \<Rightarrow> bool option \<Rightarrow> bool" where
  "explains t code verdict \<longleftrightarrow>
     (code \<noteq> 0 \<longrightarrow> err_text t \<noteq> [] \<or> verdict = Some False)
     \<and> (code = 0 \<and> err_text t \<noteq> [] \<longrightarrow> prefix ''Verification error: '' (err_text t))
     \<and> (code = 2 \<longleftrightarrow> prefix (nl @ ''[SAFETY BLOCK] '') (err_text t))
     \<and> (\<forall>passed. verdict = Some passed \<longrightarrow> sublist (verdict_line passed) (out_text t) \<and> err_text t = [])"

lemma sublist_later: "sublist x y \<Longrightarrow> sublist x (s @ y)"
  by (metis sublist_order.order_trans sublist_append_leftI)

lemma explains_after [simp]: "explains t code verdict \<Longrightarrow> explains (after_out s t) code verdict"
  unfolding explains_def printed_simps by (blast intro: sublist_later)

lemma explains_plain: "explains (on_out s) 0 None"
  by (simp add: explains_def nl_def)

lemma explains_error:
  "e \<noteq> [] \<Longrightarrow> hd e \<noteq> newline \<Longrightarrow> explains \<lparr>out_text = s, err_text = e\<rparr> 1 None"
  by (cases e) (auto simp: explains_def nl_def)

lemma explains_unverified: "explains \<lparr>out_text = [], err_text = ''Verification error: '' @ e\<rparr> 0 None"
  by (simp add: explains_def nl_def newline_char)

lemma verdict_in_lines: "sublist (verdict_line (vr_verification_passed vr)) (verification_lines s vr)"
  unfolding verification_lines_def by (rule sublist_append_rightI | rule sublist_later)+

lemma explains_verdict:
  assumes "passed \<longleftrightarrow> vr_verification_passed vr" "code = 0 \<or> code = 1 \<and> \<not> passed"
  shows "explains (on_out (verification_lines s vr)) code (Some passed)"
proof -
  have "\<not> prefix (nl @ ''[SAFETY BLOCK] '') []" by (simp add: nl_def)
  moreover have "sublist (verdict_line passed) (verification_lines s vr)" using verdict_in_lines assms(1) by simp
  ultimately show ?thesis using assms(2) unfolding explains_def printed_simps by fastforce
qed

lemma list_devices_explained: "explains (list_devices_text env) (cmd_list_devices env) None"
  unfolding list_devices_text_def cmd_list_devices_def split_beta
  by (rule explains_after) (auto intro: explains_plain intro!: explains_error simp: newline_char)

lemma device_info_explained: "explains (device_info_text env path) (cmd_device_info env path) None"
  unfolding device_info_text_def cmd_device_info_def split_beta
  by (auto intro: explains_plain intro!: explains_error simp: newline_char split: option.split)

lemma verify_image_explained:
  "explains (verify_image_text env fs p s) (fst (cmd_verify_image env fs p s)) (snd (cmd_verify_image env fs p s))"
proof (cases "s = ''zero'' \<or> s = ''one''")
  case False
  then show ?thesis
    unfolding verify_image_text_def cmd_verify_image_def
    by (intro explains_after) (auto intro!: explains_error simp: newline_char)
next
  case True
  let ?pattern = "if s = ''zero'' then ERASE_PATTERN_ZERO else ERASE_PATTERN_ONE"
  obtain err vr where v: "verify_image_pattern (cl_verify env) fs (Some p) ?pattern ERASECURE_DEFAULT_BLOCK_SIZE VERIFY_SAMPLE
      (Some fresh_verification) = (err, vr)" by fastforce
  have some: "vr \<noteq> None" if "err = ERASECURE_OK"
    using v that by (auto simp: verify_image_pattern_def split_beta split: if_splits)
  have run: "cmd_verify_image env fs p s = (case printed_verdict err vr of None \<Rightarrow> (1, None)
      | Some passed \<Rightarrow> (if passed then 0 else 1, Some passed))"
    using True v unfolding cmd_verify_image_def by auto
  show ?thesis
  proof (cases "err = ERASECURE_OK \<or> err = ERASECURE_ERR_PATTERN_MISMATCH")
    case False
    with run True v show ?thesis
      unfolding verify_image_text_def Let_def
      by (intro explains_after) (auto intro!: explains_error explains_after simp: newline_char printed_verdict_def)
  next
    case ok: True
    then have "err = ERASECURE_OK" using verify_reports_no_mismatch v by metis
    with some obtain r where r: "vr = Some r" by blast
    with run ok True v show ?thesis
      unfolding verify_image_text_def Let_def
      by (intro explains_after) (auto intro!: explains_verdict explains_after simp: printed_verdict_def)
  qed
qed

lemma erase_complete_explained:
  assumes "explains t 0 verdict"
  shows "explains (erase_complete_text duration result t p pattern) 0 verdict"
proof -
  have "sublist (out_text t) (out_text (erase_complete_text duration result t p pattern))"
    unfolding erase_complete_text_def printed.simps by (rule sublist_append_rightI | rule sublist_later)+
  moreover have "err_text (erase_complete_text duration result t p pattern) = err_text t"
    by (simp add: erase_complete_text_def)
  ultimately show ?thesis using assms unfolding explains_def by (auto dest: sublist_order.order_trans)
qed

lemma erase_verification_explained:
  "explains (erase_verification_text env fs p pattern bs mode) 0
     (if mode \<noteq> VERIFY_NONE \<and> pattern \<noteq> ERASE_PATTERN_RANDOM
      then (case verify_image_pattern (cl_verify env) fs (Some p) pattern bs mode (Some fresh_verification) of
              (ve, vr) \<Rightarrow> printed_verdict ve vr)
      else None)"
proof (cases "mode \<noteq> VERIFY_NONE \<and> pattern \<noteq> ERASE_PATTERN_RANDOM")
  case True
  obtain ve vr where v: "verify_image_pattern (cl_verify env) fs (Some p) pattern bs mode (Some fresh_verification) = (ve, vr)"
    by fastforce
  have plain: "explains (on_out (verification_lines [] (the vr))) 0 None" by (rule explains_plain)
  have shown: "explains (on_out (verification_lines [] r)) 0 (Some (vr_verification_passed r))" for r
    by (rule explains_verdict) simp_all
  show ?thesis
    using True v plain shown unfolding erase_verification_text_def
    by (cases vr) (auto intro!: explains_after explains_unverified [unfolded append.simps] simp: printed_verdict_def)
qed (auto simp: erase_verification_text_def explains_plain)

lemma erase_image_explained:
  assumes run: "cmd_block_erase_image env fs p s passes bs mode = Some (code, verdict, fs')"
  shows "\<exists>t. erase_image_text env duration fs p s passes bs mode = Some t \<and> explains t code verdict"
proof (cases "parse_pattern s")
  case None
  with run show ?thesis
    by (auto simp: cmd_block_erase_image_def erase_image_text_def newline_char intro!: explains_after explains_error)
next
  case (Some pattern)
  let ?opts = "cli_erase_options pattern passes bs mode"
  obtain err result fs1 progress where call: "block_erase_image (cl_erase env) fs (Some p) (Some ?opts) (Some fresh_erase_result)
      = Some (err, result, fs1, progress)"
    using run Some by (auto simp: cmd_block_erase_image_def Let_def split: option.splits prod.splits)
  note open_up = cmd_block_erase_image_def erase_image_text_def Some call Let_def option.case prod.case option.map
  consider "err = ERASECURE_ERR_REAL_DEVICE_PATH" | "err \<noteq> ERASECURE_ERR_REAL_DEVICE_PATH" "err \<noteq> ERASECURE_OK"
    | "err = ERASECURE_OK" by blast
  then show ?thesis
  proof cases
    case 1
    then have r: "code = 2" "verdict = None" using run by (simp_all add: open_up)
    have "explains \<lparr>out_text = [], err_text = nl @ ''[SAFETY BLOCK] '' @ m @ x\<rparr> 2 None" for m x
      by (simp add: explains_def nl_def)
    with 1 r show ?thesis by (auto simp: open_up)
  next
    case 2
    then have r: "code = 1" "verdict = None" using run by (simp_all add: open_up)
    have "explains \<lparr>out_text = [], err_text = ''Error: block erase failed: '' @ m\<rparr> 1 None" for m
      by (rule explains_error) (simp_all add: newline_char)
    with 2 r show ?thesis by (auto simp: open_up)
  next
    case 3
    then have r: "code = 0" "verdict = (if mode \<noteq> VERIFY_NONE \<and> pattern \<noteq> ERASE_PATTERN_RANDOM
        then (case verify_image_pattern (cl_verify env) fs1 (Some p) pattern (beo_block_size ?opts) mode (Some fresh_verification)
              of (ve, vr) \<Rightarrow> printed_verdict ve vr) else None)"
      using run by (simp_all add: open_up)
    from erase_complete_explained [OF erase_verification_explained [of env fs1 p pattern "beo_block_size ?opts" mode], folded r(2)]
    have "explains (erase_complete_text duration (the result)
        (erase_verification_text env fs1 p pattern (beo_block_size ?opts) mode) p pattern) code verdict" by (simp add: r(1))
    with 3 show ?thesis by (auto simp only: open_up ErasecureError.distinct if_False if_True simp_thms intro!: explains_after)
  qed
qed

text \<open>The dispatcher chooses the text by the same conditions as the effect.\<close>

definition tells :: "printed option \<Rightarrow> cli_outcome option \<Rightarrow> bool" where
  "tells t run \<longleftrightarrow> (\<forall>code verdict fs'. run = Some (code, verdict, fs') \<longrightarrow> (\<exists>u. t = Some u \<and> explains u code verdict))"

lemma tells_after: "tells t run \<Longrightarrow> tells (map_option (after_out s) t) run"
  by (auto simp: tells_def)

lemma tells_if: "(b \<Longrightarrow> tells t run) \<Longrightarrow> (\<not> b \<Longrightarrow> tells t' run') \<Longrightarrow> tells (if b then t else t') (if b then run else run')"
  by simp

lemma tells_option:
  "(x = None \<Longrightarrow> tells t run) \<Longrightarrow> (\<And>y. x = Some y \<Longrightarrow> tells (t' y) (run' y)) \<Longrightarrow>
    tells (case x of None \<Rightarrow> t | Some y \<Rightarrow> t' y) (case x of None \<Rightarrow> run | Some y \<Rightarrow> run' y)"
  by (cases x) simp_all

lemma tells_plain: "tells (Some (on_out s)) (Some (0, None, fs))"
  by (simp add: tells_def explains_plain)

lemma tells_error: "e \<noteq> [] \<Longrightarrow> hd e \<noteq> newline \<Longrightarrow> tells (Some \<lparr>out_text = s, err_text = e\<rparr>) (Some (1, None, fs))"
  by (simp add: tells_def explains_error)

lemma tells_list_devices: "tells (Some (list_devices_text env)) (Some (cmd_list_devices env, None, fs))"
  by (simp add: tells_def list_devices_explained)

lemma tells_device_info: "tells (Some (device_info_text env path)) (Some (cmd_device_info env path, None, fs))"
  by (simp add: tells_def device_info_explained)

lemma tells_erase_image:
  "tells (erase_image_text env duration fs p s passes bs mode) (cmd_block_erase_image env fs p s passes bs mode)"
  unfolding tells_def using erase_image_explained by blast

lemma tells_verify_image:
  "tells (Some (verify_image_text env fs p s)) (case cmd_verify_image env fs p s of (code, verdict) \<Rightarrow> Some (code, verdict, fs))"
  using verify_image_explained [of env fs p s] by (simp add: tells_def split_beta)

lemma cli_text_tells: "tells (cli_text env duration fs argv) (cli_run env fs argv)"
  unfolding cli_text_def cli_run_def Let_def
  by (intro tells_after tells_if tells_option tells_plain tells_list_devices tells_device_info tells_erase_image
      tells_verify_image tells_error) (simp_all add: newline_char)

text \<open>
  C40. No run fails in silence: it always prints a text, a nonzero exit code comes with a message on the standard
  error or with the verdict \<open>FAIL\<close>, exit code 2 goes with the safety message and with no other, a message under
  exit code 0 is that of a verification that could not be made, and a verdict is printed in its line.
\<close>

theorem cli_no_silent_failure:
  assumes run: "cli_run env fs argv = Some (code, verdict, fs')"
  shows "\<exists>t. cli_text env duration fs argv = Some t
    \<and> (code \<noteq> 0 \<longrightarrow> err_text t \<noteq> [] \<or> verdict = Some False)
    \<and> (code = 0 \<and> err_text t \<noteq> [] \<longrightarrow> prefix ''Verification error: '' (err_text t))
    \<and> (code = 2 \<longleftrightarrow> prefix (nl @ ''[SAFETY BLOCK] '') (err_text t))
    \<and> (\<forall>passed. verdict = Some passed \<longrightarrow> sublist (verdict_line passed) (out_text t) \<and> err_text t = [])"
  using cli_text_tells [of env duration fs argv] run unfolding tells_def explains_def by simp

text \<open>A path under a physical prefix: exit code 2 and the safety message.\<close>

theorem cli_no_silent_failure_witness:
  "\<exists>t. cli_text demo_cli_env ''0.001'' demo_fs [''erasecure'', ''--test-image'', ''/dev/sda'', ''--block-erase'', ''zero''] = Some t
    \<and> prefix (nl @ ''[SAFETY BLOCK] '') (err_text t)"
proof -
  have "device_path_is_block_device True demo_fs (Some ''/dev/sda'')"
    by (simp add: device_path_is_block_device_def blockdev_prefixes_def)
  then have "cli_run demo_cli_env demo_fs [''erasecure'', ''--test-image'', ''/dev/sda'', ''--block-erase'', ''zero'']
      = Some (2, None, demo_fs)"
    by (simp add: cli_run_def cmd_block_erase_image_def parse_pattern_def default_erase_args_def block_erase_image_def
        demo_cli_env_def demo_env_def erase_reject_def)
  from cli_no_silent_failure [OF this, of "''0.001''"] show ?thesis by auto
qed

end
