(* ===== verification/Test_Image.thy ===== *)
theory Test_Image
  imports Buffers
begin

text \<open>
  The generator of synthetic evidence images, \<open>include/testing/test_image_gen.h\<close> and
  \<open>src/testing/test_image_gen.c\<close>: an image in memory, files embedded in it block by block with the record of
  where they went, and the file it is written to. An access outside the image, or through a pointer that is null
  or freed, makes the answer \<open>None\<close>. The error names of the source (\<open>ERR_SUCCESS\<close> and so on) are declared by no
  header. \<open>sha\<close> is \<open>SHA256\<close> of OpenSSL. Record fields carry the prefixes \<open>gt_\<close> and \<open>si_\<close>.
\<close>

section \<open>State\<close>

abbreviation ERR_SUCCESS :: ErasecureError where "ERR_SUCCESS \<equiv> Undeclared ''ERR_SUCCESS''"
abbreviation ERR_INVALID_PARAM :: ErasecureError where "ERR_INVALID_PARAM \<equiv> Undeclared ''ERR_INVALID_PARAM''"
abbreviation ERR_MEMORY_ALLOCATION_FAILED :: ErasecureError where
  "ERR_MEMORY_ALLOCATION_FAILED \<equiv> Undeclared ''ERR_MEMORY_ALLOCATION_FAILED''"
abbreviation ERR_FILESYSTEM :: ErasecureError where "ERR_FILESYSTEM \<equiv> Undeclared ''ERR_FILESYSTEM''"
abbreviation ERR_IO_WRITE :: ErasecureError where "ERR_IO_WRITE \<equiv> Undeclared ''ERR_IO_WRITE''"

datatype FragPattern =
    FRAG_PATTERN_CONTIGUOUS | FRAG_PATTERN_GAP | FRAG_PATTERN_OUT_OF_ORDER | FRAG_PATTERN_INTERLEAVED
  | FRAG_PATTERN_DUPLICATE_BLOCKS

text \<open>A pointer to memory the program allocates: null, to a live object, or to one that has been freed.\<close>

datatype 'a ptr = Null | Live 'a | Freed

record GroundTruthRecord =
  gt_name :: string
  gt_original_size :: nat
  gt_start_block :: nat
  gt_actual_blocks :: "nat list"
  gt_block_count :: nat
  gt_sha256 :: string
  gt_pattern_used :: FragPattern

text \<open>\<open>si_records\<close> holds the entries in use of the array of records.\<close>

record SyntheticEvidenceImage =
  si_image_path :: string
  si_image_size :: nat
  si_block_size :: nat
  si_total_blocks :: nat
  si_data :: "byte list ptr"
  si_next_free_block :: nat
  si_records :: "GroundTruthRecord list ptr"
  si_record_count :: nat
  si_record_capacity :: nat

section \<open>Creating and destroying\<close>

text \<open>\<open>calloc\<close> answers null by itself when the product of its arguments overflows.\<close>

definition test_image_gen_init ::
    "bool \<Rightarrow> bool \<Rightarrow> SyntheticEvidenceImage option \<Rightarrow> string option \<Rightarrow> nat \<Rightarrow> nat
     \<Rightarrow> ErasecureError \<times> SyntheticEvidenceImage option" where
  "test_image_gen_init data_ok records_ok img path block_size total_blocks =
     (case (img, path) of
        (Some _, Some p) \<Rightarrow>
          if block_size = 0 \<or> total_blocks = 0 then (ERR_INVALID_PARAM, img)
          else
            (let i0 = \<lparr>si_image_path = cstr 256 p, si_image_size = wrap64 (block_size * total_blocks),
                      si_block_size = block_size, si_total_blocks = total_blocks, si_data = Null,
                      si_next_free_block = 0, si_records = Null, si_record_count = 0, si_record_capacity = 0\<rparr>
             in if \<not> data_ok \<or> 2 ^ 64 \<le> total_blocks * block_size then (ERR_MEMORY_ALLOCATION_FAILED, Some i0)
                else if \<not> records_ok
                then (ERR_MEMORY_ALLOCATION_FAILED, Some (i0\<lparr>si_record_capacity := 16, si_data := Freed\<rparr>))
                else (ERR_SUCCESS,
                      Some (i0\<lparr>si_data := Live (replicate (total_blocks * block_size) 0),
                               si_record_capacity := 16, si_records := Live []\<rparr>)))
      | _ \<Rightarrow> (ERR_INVALID_PARAM, img))"

text \<open>
  The loop over the records reads through \<open>records\<close> whenever \<open>record_count\<close> is positive; cleansing reads and
  writes the image. The record count is not reset.
\<close>

definition test_image_gen_destroy :: "SyntheticEvidenceImage option \<Rightarrow> SyntheticEvidenceImage option option" where
  "test_image_gen_destroy img =
     (case img of None \<Rightarrow> Some None
      | Some i \<Rightarrow>
          if 0 < si_record_count i \<and> (\<forall>rs. si_records i \<noteq> Live rs) then None
          else if si_records i = Freed \<or> si_data i = Freed then None
          else Some (Some (i\<lparr>si_records := Null, si_data := Null\<rparr>)))"

section \<open>Paths\<close>

definition strip_slashes :: "string \<Rightarrow> string" where
  "strip_slashes s = rev (dropWhile (\<lambda>c. c = CHR ''/'') (rev s))"

text \<open>\<open>dirname\<close> of the C library.\<close>

definition dirname :: "string \<Rightarrow> string" where
  "dirname s =
     (if s = [] then ''.''
      else let t = strip_slashes s
           in if t = [] then ''/''
              else if CHR ''/'' \<notin> set t then ''.''
              else let d = strip_slashes (rev (dropWhile (\<lambda>c. c \<noteq> CHR ''/'') (rev t)))
                   in if d = [] then ''/'' else d)"

text \<open>\<open>snprintf\<close> into a buffer of \<open>n\<close> bytes; one of size 0 keeps its content.\<close>

definition snprintf_into :: "string \<Rightarrow> nat \<Rightarrow> string \<Rightarrow> string" where
  "snprintf_into buf n s = (if n = 0 then buf else cstr n s)"

definition get_absolute_path :: "(string \<Rightarrow> bool) \<Rightarrow> string \<Rightarrow> string \<Rightarrow> string \<Rightarrow> nat \<Rightarrow> string" where
  "get_absolute_path stat_ok prog_path target_filename out_path max_len =
     (let dir = dirname (cstr 1024 prog_path);
          out = snprintf_into out_path max_len (dir @ ''/'' @ target_filename)
      in if \<not> stat_ok out then snprintf_into out max_len (''./'' @ target_filename) else out)"

text \<open>The command handed to the shell, if any.\<close>

definition ensure_sandbox_target :: "(string \<Rightarrow> bool) \<Rightarrow> string \<Rightarrow> string option" where
  "ensure_sandbox_target stat_ok filepath =
     (if stat_ok filepath then None
      else Some (cstr 512 (''dd if=/dev/zero of='' @ jquoted filepath @ '' bs=1M count=10 status=none'')))"

section \<open>Embedding a file\<close>

definition compute_sha256 :: "(byte list \<Rightarrow> byte list) \<Rightarrow> byte list \<Rightarrow> string" where
  "compute_sha256 sha data = concat (map (\<lambda>i. hex2 (sha data ! i)) [0..<32])"

text \<open>One block: the image, the next free block, the bytes of the file consumed and the blocks used so far.\<close>

definition embed_block ::
    "bool \<Rightarrow> nat \<Rightarrow> nat \<Rightarrow> byte list \<Rightarrow> nat \<Rightarrow> byte list \<times> nat \<times> nat \<times> nat list
     \<Rightarrow> (byte list \<times> nat \<times> nat \<times> nat list) option" where
  "embed_block gap block_size needed data i st =
     (case st of (mem, free, used, blocks) \<Rightarrow>
        let block = (if gap \<and> i = needed div 2 then wrap64 (free + 2) else free);
            copy_len = (if i = needed - 1 \<and> length data mod block_size \<noteq> 0 then length data mod block_size
                        else block_size);
            off = wrap64 (block * block_size)
        in do {
             src \<leftarrow> sub data used copy_len;
             if off + copy_len \<le> length mem
             then Some (write_at mem off src, wrap64 (block + 1), used + copy_len, blocks @ [block])
             else None
           })"

fun embed_blocks ::
    "bool \<Rightarrow> nat \<Rightarrow> nat \<Rightarrow> byte list \<Rightarrow> nat list \<Rightarrow> byte list \<times> nat \<times> nat \<times> nat list
     \<Rightarrow> (byte list \<times> nat \<times> nat \<times> nat list) option" where
  "embed_blocks gap block_size needed data [] st = Some st"
| "embed_blocks gap block_size needed data (i # is) st =
     do { st' \<leftarrow> embed_block gap block_size needed data i st; embed_blocks gap block_size needed data is st' }"

definition blocks_needed_for :: "nat \<Rightarrow> nat \<Rightarrow> nat" where
  "blocks_needed_for data_len block_size = wrap64 (data_len + block_size - 1) div block_size"

text \<open>The array of records grows by doubling; \<open>None\<close> when \<open>realloc\<close> fails.\<close>

definition add_record :: "bool \<Rightarrow> SyntheticEvidenceImage \<Rightarrow> GroundTruthRecord \<Rightarrow> SyntheticEvidenceImage option" where
  "add_record realloc_ok img r =
     (let full = (si_record_count img \<ge> si_record_capacity img);
          records = (case si_records img of Live rs \<Rightarrow> rs | _ \<Rightarrow> [])
      in if full \<and> \<not> realloc_ok then None
         else Some (img\<lparr>si_record_capacity := (if full then wrap64 (si_record_capacity img * 2) else si_record_capacity img),
                        si_records := Live (records @ [r]),
                        si_record_count := si_record_count img + 1\<rparr>))"

definition test_image_gen_embed_file ::
    "(byte list \<Rightarrow> byte list) \<Rightarrow> bool \<Rightarrow> bool \<Rightarrow> SyntheticEvidenceImage option \<Rightarrow> string option \<Rightarrow> byte list option
     \<Rightarrow> FragPattern \<Rightarrow> GroundTruthRecord option
     \<Rightarrow> (ErasecureError \<times> SyntheticEvidenceImage option \<times> GroundTruthRecord option) option" where
  "test_image_gen_embed_file sha calloc_ok realloc_ok img file_name data pattern record_out =
     (case (img, file_name, data) of
        (Some im, Some name, Some d) \<Rightarrow>
          if d = [] then Some (ERR_INVALID_PARAM, img, record_out)
          else
            (let needed = blocks_needed_for (length d) (si_block_size im)
             in if si_total_blocks im < wrap64 (si_next_free_block im + needed)
                then Some (ERR_FILESYSTEM, img, record_out)
                else if \<not> calloc_ok then Some (ERR_MEMORY_ALLOCATION_FAILED, img, record_out)
                else (case si_data im of
                        Live mem \<Rightarrow>
                          do {
                            (mem', free, used, blocks) \<leftarrow>
                              embed_blocks (pattern = FRAG_PATTERN_GAP) (si_block_size im) needed d [0..<needed]
                                (mem, si_next_free_block im, 0, []);
                            let im' = im\<lparr>si_data := Live mem', si_next_free_block := free\<rparr>;
                                rec = \<lparr>gt_name = cstr 64 name, gt_original_size = length d,
                                       gt_start_block = si_next_free_block im, gt_actual_blocks = blocks,
                                       gt_block_count = needed, gt_sha256 = compute_sha256 sha d,
                                       gt_pattern_used = pattern\<rparr>
                            in Some (case add_record realloc_ok im' rec of
                                       None \<Rightarrow> (ERR_MEMORY_ALLOCATION_FAILED, Some im', record_out)
                                     | Some im'' \<Rightarrow> (ERR_SUCCESS, Some im'', map_option (\<lambda>_. rec) record_out))
                          }
                      | _ \<Rightarrow> None))
      | _ \<Rightarrow> Some (ERR_INVALID_PARAM, img, record_out))"

section \<open>Writing the image\<close>

text \<open>\<open>fwrite\<close> accepts \<open>written\<close> bytes.\<close>

definition test_image_gen_write ::
    "bool \<Rightarrow> nat \<Rightarrow> filesys \<Rightarrow> SyntheticEvidenceImage option \<Rightarrow> (ErasecureError \<times> filesys) option" where
  "test_image_gen_write fopen_ok written fs img =
     (case img of None \<Rightarrow> Some (ERR_INVALID_PARAM, fs)
      | Some im \<Rightarrow>
          if \<not> fopen_ok then Some (ERR_IO_WRITE, fs)
          else (case si_data im of
                  Live mem \<Rightarrow>
                    (let n = min written (si_image_size im)
                     in Some (if n \<noteq> si_image_size im then ERR_IO_WRITE else ERR_SUCCESS,
                              fs(si_image_path im \<mapsto> Reg (take n mem))))
                | _ \<Rightarrow> None))"

section \<open>The loop over the blocks\<close>

lemma nth_write_at:
  assumes "off + length data \<le> length content" "p < length content"
  shows "write_at content off data ! p = (if off \<le> p \<and> p < off + length data then data ! (p - off) else content ! p)"
  using assms by (auto simp: write_at_def nth_append)

lemma blocks_needed:
  assumes "0 < bs" "0 < len" "len + bs \<le> 2 ^ 64"
  shows "0 < blocks_needed_for len bs" "len \<le> blocks_needed_for len bs * bs" "(blocks_needed_for len bs - 1) * bs < len"
proof -
  define n where "n = (len + bs - 1) div bs"
  have eq: "blocks_needed_for len bs = n" using assms by (simp add: blocks_needed_for_def n_def)
  have "n * bs + (len + bs - 1) mod bs = len + bs - 1" by (simp add: n_def)
  moreover have "(len + bs - 1) mod bs < bs" using assms by simp
  ultimately have bounds: "len \<le> n * bs" "n * bs < len + bs" using assms by linarith+
  moreover have "0 < n" using bounds assms by (cases n) auto
  moreover from this have "n * bs = (n - 1) * bs + bs" by (cases n) auto
  ultimately show "0 < blocks_needed_for len bs" "len \<le> blocks_needed_for len bs * bs"
    "(blocks_needed_for len bs - 1) * bs < len" unfolding eq by linarith+
qed

text \<open>Where the code puts block \<open>i\<close> of a file, and byte \<open>off\<close> of it.\<close>

definition block_of :: "bool \<Rightarrow> nat \<Rightarrow> nat \<Rightarrow> nat \<Rightarrow> nat" where
  "block_of gap needed free i = free + i + (if gap \<and> needed div 2 \<le> i then 2 else 0)"

definition byte_of :: "bool \<Rightarrow> nat \<Rightarrow> nat \<Rightarrow> nat \<Rightarrow> nat \<Rightarrow> nat" where
  "byte_of gap needed free bs off = block_of gap needed free (off div bs) * bs + off mod bs"

lemma block_of_mono: "i < j \<Longrightarrow> block_of gap needed free i < block_of gap needed free j"
  by (auto simp: block_of_def)

text \<open>What the image holds once the first \<open>n\<close> bytes of the file are in it.\<close>

definition holds :: "(nat \<Rightarrow> nat) \<Rightarrow> byte list \<Rightarrow> nat \<Rightarrow> byte list \<Rightarrow> byte list \<Rightarrow> bool" where
  "holds pos data n mem mem' \<longleftrightarrow> length mem' = length mem \<and> (\<forall>off < n. mem' ! pos off = data ! off)
     \<and> (\<forall>p < length mem. (\<forall>off < n. p \<noteq> pos off) \<longrightarrow> mem' ! p = mem ! p)"

lemma holds_extend:
  assumes h: "holds (byte_of gap needed free bs) data (k * bs) mem mem'" and "0 < bs"
    and c: "c \<le> bs" "k * bs + c \<le> length data" and fits: "block_of gap needed free k * bs + c \<le> length mem"
  shows "holds (byte_of gap needed free bs) data (k * bs + c) mem
    (write_at mem' (block_of gap needed free k * bs) (take c (drop (k * bs) data)))"
proof -
  let ?pos = "byte_of gap needed free bs" and ?o = "block_of gap needed free k * bs"
  let ?m = "write_at mem' ?o (take c (drop (k * bs) data))"
  have len: "length mem' = length mem" using h by (simp add: holds_def)
  have nth: "?m ! p = (if ?o \<le> p \<and> p < ?o + c then data ! (k * bs + (p - ?o)) else mem' ! p)" if "p < length mem" for p
    using that c fits len by (subst nth_write_at) (auto simp: add.commute)
  have new: "?pos (k * bs + r) = ?o + r" if "r < bs" for r
    using that \<open>0 < bs\<close> by (simp add: byte_of_def)
  have old: "?pos off < ?o" if "off < k * bs" for off
  proof -
    have "off div bs < k" using that \<open>0 < bs\<close> by (simp add: div_less_iff_less_mult)
    then have "Suc (block_of gap needed free (off div bs)) * bs \<le> ?o"
      by (intro mult_le_mono1) (simp add: block_of_mono Suc_leI)
    moreover have "off mod bs < bs" using \<open>0 < bs\<close> by simp
    ultimately show ?thesis by (simp add: byte_of_def)
  qed
  have "?m ! ?pos off = data ! off" if "off < k * bs + c" for off
  proof (cases "off < k * bs")
    case True
    with h have "mem' ! ?pos off = data ! off" by (simp add: holds_def)
    moreover have "?pos off < length mem" "\<not> ?o \<le> ?pos off" using old [OF True] fits by linarith+
    ultimately show ?thesis using nth [of "?pos off"] by simp
  next
    case False
    define r where "r = off - k * bs"
    have r: "off = k * bs + r" "r < c" using False that by (simp_all add: r_def)
    have "?pos off = ?o + r" using r new [of r] c by simp
    moreover have "?o + r < length mem" using r fits by linarith
    ultimately show ?thesis using nth [of "?o + r"] r by simp
  qed
  moreover have "?m ! p = mem ! p" if "p < length mem" "\<forall>off < k * bs + c. p \<noteq> ?pos off" for p
  proof -
    have "\<not> (?o \<le> p \<and> p < ?o + c)"
    proof
      assume in_block: "?o \<le> p \<and> p < ?o + c"
      define r where "r = p - ?o"
      have r: "p = ?o + r" "r < c" using in_block by (auto simp: r_def)
      with new [of r] c that(2) [rule_format, of "k * bs + r"] show False by simp
    qed
    moreover have "mem' ! p = mem ! p" using h that by (simp add: holds_def)
    ultimately show ?thesis unfolding nth [OF that(1)] by (simp only: if_False)
  qed
  ultimately show ?thesis using len fits c by (simp add: holds_def)
qed

lemma embed_blocks_snoc:
  "embed_blocks gap bs needed data (is @ [i]) st =
     Option.bind (embed_blocks gap bs needed data is st) (embed_block gap bs needed data i)"
  by (induction "is" arbitrary: st) (auto split: bind_splits)

lemma copy_length:
  fixes bs :: nat
  assumes "0 < bs" "i < n" "len \<le> n * bs" "(n - 1) * bs < len"
  shows "(if i = n - 1 \<and> len mod bs \<noteq> 0 then len mod bs else bs) = min bs (len - i * bs)"
proof (cases "i = n - 1")
  case True
  define d where "d = len - i * bs"
  have d: "len = i * bs + d" "0 < d" "d \<le> bs"
    using assms True by (auto simp: d_def diff_mult_distrib)
  then have "len mod bs = d mod bs" by simp
  then show ?thesis using d True assms(1) by (cases "d = bs") auto
next
  case False
  with assms(2) have "Suc i * bs \<le> (n - 1) * bs" by (intro mult_le_mono1) simp
  with assms(4) have "i * bs + bs \<le> len" by simp
  then show ?thesis using False by simp
qed

text \<open>Block \<open>k\<close> of a file, when the blocks before it are in place.\<close>

lemma embed_block_exact:
  assumes bs: "0 < bs" "needed = blocks_needed_for (length data) bs" "data \<noteq> []" "length data + bs \<le> 2 ^ 64"
    and room: "(total_blocks + 2) * bs < 2 ^ 64" "free + needed \<le> total_blocks" "k < needed"
    and free': "free' = free + k + (if gap \<and> needed div 2 < k then 2 else 0)"
  defines "b \<equiv> block_of gap needed free k" and "c \<equiv> min bs (length data - k * bs)"
  shows "k * bs < length data"
    and "embed_block gap bs needed data k (mem', free', k * bs, blocks) =
      (if b * bs + c \<le> length mem'
       then Some (write_at mem' (b * bs) (take c (drop (k * bs) data)), b + 1, k * bs + c, blocks @ [b]) else None)"
proof -
  note nb = blocks_needed [OF bs(1) _ bs(4), folded bs(2)]
  have len: "0 < length data" using bs(3) by simp
  have "k * bs \<le> (needed - 1) * bs" using room(3) by (intro mult_le_mono1) simp
  with nb(3) [OF len] show k: "k * bs < length data" by linarith
  have "b \<le> total_blocks + 1" using room by (auto simp: b_def block_of_def)
  then have "b * bs \<le> (total_blocks + 1) * bs" by (rule mult_le_mono1)
  then have small: "b * bs < 2 ^ 64" "(b + 1) * bs < 2 ^ 64" using room(1) by (simp_all add: algebra_simps)
  have "b + 1 \<le> (b + 1) * bs" using bs(1) by (cases bs) auto
  with small have b64: "b + 1 < 2 ^ 64" by linarith
  have block: "(if gap \<and> k = needed div 2 then wrap64 (free' + 2) else free') = b"
    using free' b64 by (auto simp: b_def block_of_def)
  have c: "(if k = needed - 1 \<and> length data mod bs \<noteq> 0 then length data mod bs else bs) = c"
    unfolding c_def by (rule copy_length) (use bs(1) room(3) nb len in auto)
  have src: "sub data (k * bs) c = Some (take c (drop (k * bs) data))" using k by (simp add: sub_def c_def)
  show "embed_block gap bs needed data k (mem', free', k * bs, blocks) =
      (if b * bs + c \<le> length mem'
       then Some (write_at mem' (b * bs) (take c (drop (k * bs) data)), b + 1, k * bs + c, blocks @ [b]) else None)"
    unfolding embed_block_def Let_def prod.case block c src using small b64 by (simp only: wrap64_less bind.simps)
qed

text \<open>
  After the first \<open>k\<close> blocks: either one of them lay behind the end of the image, or they are all in it.
\<close>

lemma embed_blocks_result:
  assumes bs: "0 < bs" "needed = blocks_needed_for (length data) bs" "data \<noteq> []" "length data + bs \<le> 2 ^ 64"
    and mem: "length mem = total_blocks * bs" "(total_blocks + 2) * bs < 2 ^ 64" "free + needed \<le> total_blocks"
    and "k \<le> needed"
  shows "case embed_blocks gap bs needed data [0..<k] (mem, free, 0, []) of
      None \<Rightarrow> \<exists>i < k. total_blocks \<le> block_of gap needed free i
    | Some (mem', free', used, blocks) \<Rightarrow>
        (\<forall>i < k. block_of gap needed free i < total_blocks)
        \<and> free' = free + k + (if gap \<and> needed div 2 < k then 2 else 0) \<and> used = min (k * bs) (length data)
        \<and> blocks = map (block_of gap needed free) [0..<k]
        \<and> holds (byte_of gap needed free bs) data (min (k * bs) (length data)) mem mem'"
  using assms(8)
proof (induction k)
  case 0
  then show ?case by (simp add: holds_def)
next
  case (Suc k)
  note exact = embed_block_exact [OF bs mem(2,3), of k _ gap]
  show ?case
  proof (cases "embed_blocks gap bs needed data [0..<k] (mem, free, 0, [])")
    case None
    with Suc show ?thesis by (auto simp: embed_blocks_snoc intro: less_SucI)
  next
    case (Some st)
    obtain mem' free' used blocks where st: "st = (mem', free', used, blocks)" by (metis prod_cases4)
    let ?b = "block_of gap needed free k" and ?c = "min bs (length data - k * bs)"
    have k: "k < needed" "k * bs < length data" using Suc.prems exact(1) by auto
    from Suc Some st k(2) have inv: "\<forall>i < k. block_of gap needed free i < total_blocks"
      "free' = free + k + (if gap \<and> needed div 2 < k then 2 else 0)" "used = k * bs"
      "blocks = map (block_of gap needed free) [0..<k]"
      "holds (byte_of gap needed free bs) data (k * bs) mem mem'" by (simp_all add: min_def)
    have run: "embed_blocks gap bs needed data [0..<Suc k] (mem, free, 0, []) =
        (if ?b * bs + ?c \<le> length mem'
         then Some (write_at mem' (?b * bs) (take ?c (drop (k * bs) data)), ?b + 1, k * bs + ?c, blocks @ [?b]) else None)"
      using exact(2) [OF k(1) inv(2)] by (simp add: embed_blocks_snoc Some st inv(3))
    have len: "length mem' = total_blocks * bs" using inv(5) mem(1) by (simp add: holds_def)
    show ?thesis
    proof (cases "?b < total_blocks")
      case True
      then have "(?b + 1) * bs \<le> total_blocks * bs" by (intro mult_le_mono1) simp
      then have fits: "?b * bs + ?c \<le> length mem" using mem(1) by simp
      have "holds (byte_of gap needed free bs) data (k * bs + ?c) mem
          (write_at mem' (?b * bs) (take ?c (drop (k * bs) data)))"
        by (rule holds_extend) (use inv(5) bs(1) fits k in auto)
      moreover have "k * bs + ?c = min (Suc k * bs) (length data)" using k by (auto simp: min_def)
      ultimately show ?thesis
        unfolding run using fits inv True len mem(1) by (auto simp: less_Suc_eq block_of_def)
    next
      case False
      then have "total_blocks * bs \<le> ?b * bs" by (intro mult_le_mono1) simp
      moreover have "0 < ?c" using bs(1) k by simp
      ultimately have "\<not> ?b * bs + ?c \<le> length mem'" using len by linarith
      with False show ?thesis unfolding run by auto
    qed
  qed
qed

section \<open>Properties\<close>

definition image_wf :: "SyntheticEvidenceImage \<Rightarrow> bool" where
  "image_wf im \<longleftrightarrow> 0 < si_block_size im \<and> (si_total_blocks im + 2) * si_block_size im < 2 ^ 64
     \<and> (\<exists>mem. si_data im = Live mem \<and> length mem = si_total_blocks im * si_block_size im)
     \<and> (\<exists>rs. si_records im = Live rs \<and> length rs = si_record_count im)"

text \<open>Where the data and the gap fit, every block is written and the bytes are where their blocks are.\<close>

lemma embed_blocks_fit:
  assumes bs: "0 < bs" and data: "data \<noteq> []" "length data + bs \<le> 2 ^ 64" "needed = blocks_needed_for (length data) bs"
    and mem: "length mem = n_blocks * bs" "(n_blocks + 2) * bs < 2 ^ 64"
    and fits: "free + needed + (if gap then 2 else 0) \<le> n_blocks"
  shows "\<exists>mem' free' used. embed_blocks gap bs needed data [0..<needed] (mem, free, 0, [])
      = Some (mem', free', used, map (block_of gap needed free) [0..<needed])
    \<and> holds (byte_of gap needed free bs) data (length data) mem mem'"
proof -
  have len: "0 < length data" using data(1) by simp
  have within: "free + needed \<le> n_blocks" using fits by simp
  have blk: "block_of gap needed free i < n_blocks" if "i < needed" for i
    using that fits by (auto simp: block_of_def split: if_splits)
  note result = embed_blocks_result [OF bs data(3,1,2) mem within order_refl, of gap]
  show ?thesis
  proof (cases "embed_blocks gap bs needed data [0..<needed] (mem, free, 0, [])")
    case None
    with result blk show ?thesis by (auto simp: not_less [symmetric])
  next
    case (Some st)
    with result blocks_needed(2) [OF bs len data(2), folded data(3)] show ?thesis
      by (cases st) (auto simp: min_absorb2)
  qed
qed

lemma blocks_of_pattern:
  "map (block_of gap needed free) [0..<needed] =
    (if gap then [free..<free + needed div 2] @ [free + needed div 2 + 2..<free + needed + 2] else [free..<free + needed])"
  by (intro nth_equalityI) (auto simp: block_of_def nth_append simp del: upt_Suc)

text \<open>
  C39. The ground truth of an embedded file is the truth: when the blocks fit, counting the two that a gap skips,
  embedding succeeds, the recorded blocks hold the file byte for byte, no other byte of the image changes, and the
  record is added to the image's list. The blocks are those from the next free one on, with the gap pattern in two
  halves with two blocks between them. For the other patterns this is not what \<open>test_image_gen.h\<close> announces: a file
  placed out of order, interleaved or with duplicate blocks is placed contiguously too, while the record keeps the
  name of the pattern. The recorded start block is the first of the blocks except for a file of a single block with
  a gap: there the gap comes first and the start block is wrong.
\<close>

theorem embedded_file_reads_back:
  assumes wf: "image_wf im" "si_data im = Live mem" "si_records im = Live rs"
    and data: "data \<noteq> []" "length data + si_block_size im \<le> 2 ^ 64"
      "needed = blocks_needed_for (length data) (si_block_size im)"
    and fits: "si_next_free_block im + needed + (if pattern = FRAG_PATTERN_GAP then 2 else 0) \<le> si_total_blocks im"
  shows "\<exists>im' r mem'. test_image_gen_embed_file sha True True (Some im) (Some name) (Some data) pattern (Some r0)
        = Some (ERR_SUCCESS, Some im', Some r)
    \<and> image_wf im' \<and> si_data im' = Live mem' \<and> si_records im' = Live (rs @ [r]) \<and> gt_pattern_used r = pattern
    \<and> gt_actual_blocks r = (let free = si_next_free_block im in
        if pattern = FRAG_PATTERN_GAP
        then [free..<free + needed div 2] @ [free + needed div 2 + 2..<free + needed + 2] else [free..<free + needed])
    \<and> (\<forall>off < length data. mem' ! (gt_actual_blocks r ! (off div si_block_size im) * si_block_size im
          + off mod si_block_size im) = data ! off)
    \<and> (\<forall>p < length mem. (\<forall>off < length data. p \<noteq> gt_actual_blocks r ! (off div si_block_size im) * si_block_size im
          + off mod si_block_size im) \<longrightarrow> mem' ! p = mem ! p)
    \<and> (gt_start_block r = hd (gt_actual_blocks r) \<longleftrightarrow> \<not> (pattern = FRAG_PATTERN_GAP \<and> needed = 1))"
proof -
  let ?bs = "si_block_size im" and ?free = "si_next_free_block im" and ?gap = "pattern = FRAG_PATTERN_GAP"
  have bs: "0 < ?bs" "length mem = si_total_blocks im * ?bs" "(si_total_blocks im + 2) * ?bs < 2 ^ 64"
    using wf by (auto simp: image_wf_def)
  have len: "0 < length data" using data(1) by simp
  note nb = blocks_needed [OF bs(1) len data(2), folded data(3)]
  have within: "?free + needed \<le> si_total_blocks im" using fits by simp
  obtain mem' free' used where run: "embed_blocks ?gap ?bs needed data [0..<needed] (mem, ?free, 0, [])
        = Some (mem', free', used, map (block_of ?gap needed ?free) [0..<needed])"
      and h: "holds (byte_of ?gap needed ?free ?bs) data (length data) mem mem'"
    using embed_blocks_fit [OF bs(1) data bs(2,3) fits] by blast
  have "si_total_blocks im + 2 \<le> (si_total_blocks im + 2) * ?bs" using bs(1) by (cases ?bs) auto
  then have small: "?free + needed < 2 ^ 64" using within bs(3) by linarith
  let ?im = "im\<lparr>si_data := Live mem', si_next_free_block := free'\<rparr>"
  let ?r = "\<lparr>gt_name = cstr 64 name, gt_original_size = length data, gt_start_block = ?free,
      gt_actual_blocks = map (block_of ?gap needed ?free) [0..<needed], gt_block_count = needed,
      gt_sha256 = compute_sha256 sha data, gt_pattern_used = pattern\<rparr>"
  obtain im' where add: "add_record True ?im ?r = Some im'" by (simp add: add_record_def Let_def)
  have call: "test_image_gen_embed_file sha True True (Some im) (Some name) (Some data) pattern (Some r0)
      = Some (ERR_SUCCESS, Some im', Some ?r)"
    using wf(2) data(1) within small run add by (simp add: test_image_gen_embed_file_def Let_def data(3) [symmetric])
  have "image_wf im' \<and> si_data im' = Live mem' \<and> si_records im' = Live (rs @ [?r])"
    using add wf bs h by (auto simp: add_record_def Let_def image_wf_def holds_def)
  moreover have pos: "map (block_of ?gap needed ?free) [0..<needed] ! (off div ?bs) * ?bs + off mod ?bs
      = byte_of ?gap needed ?free ?bs off" if "off < length data" for off
  proof -
    have "off div ?bs < needed" using that nb(2) bs(1) by (simp add: div_less_iff_less_mult)
    then show ?thesis by (simp add: byte_of_def)
  qed
  have "\<forall>off < length data. mem' ! (gt_actual_blocks ?r ! (off div ?bs) * ?bs + off mod ?bs) = data ! off"
    using h pos by (simp add: holds_def)
  moreover have "\<forall>p < length mem. (\<forall>off < length data. p \<noteq> gt_actual_blocks ?r ! (off div ?bs) * ?bs + off mod ?bs)
      \<longrightarrow> mem' ! p = mem ! p"
    using h pos by (simp add: holds_def)
  moreover have "gt_actual_blocks ?r = (if ?gap then [?free..<?free + needed div 2] @ [?free + needed div 2 + 2..<?free + needed + 2]
      else [?free..<?free + needed])"
    using blocks_of_pattern by simp
  moreover have "gt_start_block ?r = hd (gt_actual_blocks ?r) \<longleftrightarrow> \<not> (?gap \<and> needed = 1)"
    using nb(1) by (cases needed) (auto simp: hd_map block_of_def upt_rec [of 0])
  ultimately show ?thesis using call unfolding Let_def
    by (intro exI [of _ im'] exI [of _ ?r] exI [of _ mem'] conjI) simp_all
qed

text \<open>
  The gap is not counted: when the blocks of a file fit but the two blocks of the gap do not, embedding it with a
  gap passes the check and then writes behind the end of the image.
\<close>

theorem gap_pattern_overruns:
  assumes wf: "image_wf im" and data: "data \<noteq> []" "length data + si_block_size im \<le> 2 ^ 64"
      "needed = blocks_needed_for (length data) (si_block_size im)"
    and room: "si_next_free_block im + needed \<le> si_total_blocks im" "si_total_blocks im < si_next_free_block im + needed + 2"
  shows "test_image_gen_embed_file sha True realloc_ok (Some im) (Some name) (Some data) FRAG_PATTERN_GAP r0 = None"
proof -
  let ?bs = "si_block_size im" and ?free = "si_next_free_block im"
  obtain mem where mem: "si_data im = Live mem" "length mem = si_total_blocks im * ?bs" using wf by (auto simp: image_wf_def)
  have bs: "0 < ?bs" "(si_total_blocks im + 2) * ?bs < 2 ^ 64" using wf by (auto simp: image_wf_def)
  have len: "0 < length data" using data(1) by simp
  note nb = blocks_needed [OF bs(1) len data(2), folded data(3)]
  have "block_of True needed ?free (needed - 1) = ?free + needed + 1" using nb(1) by (auto simp: block_of_def)
  then have behind: "needed - 1 < needed \<and> \<not> block_of True needed ?free (needed - 1) < si_total_blocks im"
    using room(2) nb(1) by linarith
  have run: "embed_blocks True ?bs needed data [0..<needed] (mem, ?free, 0, []) = None"
  proof (cases "embed_blocks True ?bs needed data [0..<needed] (mem, ?free, 0, [])")
    case (Some st)
    with embed_blocks_result [OF bs(1) data(3,1,2) mem(2) bs(2) room(1) order_refl, of True] behind
    show ?thesis by (cases st) auto
  qed simp
  have "si_total_blocks im + 2 \<le> (si_total_blocks im + 2) * ?bs" using bs(1) by (cases ?bs) auto
  then have "?free + needed < 2 ^ 64" using room(1) bs(2) by linarith
  then show ?thesis
    using mem(1) data(1) room(1) run by (simp add: test_image_gen_embed_file_def Let_def data(3) [symmetric])
qed

text \<open>An image of four blocks of two bytes for the witnesses.\<close>

definition demo_synthetic :: SyntheticEvidenceImage where
  "demo_synthetic = the (snd (test_image_gen_init True True
     (Some \<lparr>si_image_path = [], si_image_size = 0, si_block_size = 0, si_total_blocks = 0, si_data = Null,
       si_next_free_block = 0, si_records = Null, si_record_count = 0, si_record_capacity = 0\<rparr>) (Some ''t.img'') 2 4))"

definition demo_truth :: GroundTruthRecord where
  "demo_truth = \<lparr>gt_name = [], gt_original_size = 0, gt_start_block = 0, gt_actual_blocks = [], gt_block_count = 0,
     gt_sha256 = [], gt_pattern_used = FRAG_PATTERN_CONTIGUOUS\<rparr>"

lemma demo_synthetic_simps:
  "image_wf demo_synthetic" "si_data demo_synthetic = Live (replicate 8 0)" "si_records demo_synthetic = Live []"
  "si_block_size demo_synthetic = 2" "si_next_free_block demo_synthetic = 0" "si_total_blocks demo_synthetic = 4"
  by (simp_all add: demo_synthetic_def test_image_gen_init_def image_wf_def Let_def)

theorem embedded_file_reads_back_witness:
  "\<exists>im' r mem'. test_image_gen_embed_file (\<lambda>_. replicate 32 0) True True (Some demo_synthetic) (Some ''a'') (Some [7, 8, 9])
      FRAG_PATTERN_GAP (Some demo_truth) = Some (ERR_SUCCESS, Some im', Some r)
    \<and> gt_actual_blocks r = [0, 3] \<and> si_data im' = Live mem' \<and> mem' ! 6 = 9"
proof -
  let ?d = "[7, 8, 9] :: byte list"
  have h: "?d \<noteq> []" "length ?d + si_block_size demo_synthetic \<le> 2 ^ 64"
    "2 = blocks_needed_for (length ?d) (si_block_size demo_synthetic)"
    "si_next_free_block demo_synthetic + 2 + (if FRAG_PATTERN_GAP = FRAG_PATTERN_GAP then 2 else 0) \<le> si_total_blocks demo_synthetic"
    by (simp_all add: demo_synthetic_simps blocks_needed_for_def)
  obtain im' r mem' where *: "test_image_gen_embed_file (\<lambda>_. replicate 32 0) True True (Some demo_synthetic) (Some ''a'') (Some ?d)
        FRAG_PATTERN_GAP (Some demo_truth) = Some (ERR_SUCCESS, Some im', Some r)"
      "si_data im' = Live mem'" and blocks: "gt_actual_blocks r = [0..<0 + 2 div 2] @ [0 + 2 div 2 + 2..<0 + 2 + 2]" and reads: "\<forall>off < length ?d. mem' ! (gt_actual_blocks r ! (off div si_block_size demo_synthetic)
        * si_block_size demo_synthetic + off mod si_block_size demo_synthetic) = ?d ! off"
    using embedded_file_reads_back [OF demo_synthetic_simps(1-3) h, of "\<lambda>_. replicate 32 0" "''a''" demo_truth]
    unfolding Let_def if_P [OF refl] demo_synthetic_simps(5) by blast
  have b: "gt_actual_blocks r = [0, 3]" unfolding blocks by (simp add: upt_rec)
  have "mem' ! 6 = 9" using reads [rule_format, of 2] by (simp add: demo_synthetic_simps b)
  with * b show ?thesis by blast
qed

theorem gap_pattern_overruns_witness:
  "test_image_gen_embed_file (\<lambda>_. replicate 32 0) True True (Some demo_synthetic) (Some ''a'') (Some [7, 8, 9, 10, 11])
      FRAG_PATTERN_GAP (Some demo_truth) = None"
proof -
  let ?d = "[7, 8, 9, 10, 11] :: byte list"
  have h: "?d \<noteq> []" "length ?d + si_block_size demo_synthetic \<le> 2 ^ 64"
    "3 = blocks_needed_for (length ?d) (si_block_size demo_synthetic)"
    "si_next_free_block demo_synthetic + 3 \<le> si_total_blocks demo_synthetic"
    "si_total_blocks demo_synthetic < si_next_free_block demo_synthetic + 3 + 2"
    by (simp_all add: demo_synthetic_simps blocks_needed_for_def)
  show ?thesis by (rule gap_pattern_overruns [OF demo_synthetic_simps(1) h])
qed

end
