(* ===== verification/Unit_Tests.thy ===== *)
theory Unit_Tests
  imports Device_Info Crypto Nvme
begin

text \<open>
  Three drivers of \<open>tests/\<close> over the model: \<open>device_tests.c\<close>, \<open>crypto_erase_tests.c\<close> and \<open>ata_nvme_tests.c\<close>.
  Each test is the condition it checks, each \<open>main\<close> the list of its verdicts and an exit code. A function that returns
  a string literal never returns NULL, so the comparisons of such a result with NULL are comparisons of \<open>Some\<close> with
  \<open>None\<close>. What the system answers is an argument, as in the theories of the modules.
\<close>

definition suite_exit :: "bool list \<Rightarrow> int" where
  "suite_exit verdicts =
     (let tests_run = length verdicts; tests_passed = length (filter (\<lambda>v. v) verdicts)
      in if tests_passed = tests_run then 0 else 1)"

lemma suite_exit_0: "suite_exit verdicts = 0 \<longleftrightarrow> (\<forall>v \<in> set verdicts. v)"
  by (simp add: suite_exit_def Let_def) (metis filter_True filter_id_conv length_filter_less linorder_neq_iff)

lemma suite_exit_all: "(\<And>v. v \<in> set verdicts \<Longrightarrow> v) \<Longrightarrow> suite_exit verdicts = 0"
  unfolding suite_exit_0 by blast

definition non_null :: "string list \<Rightarrow> bool" where
  "non_null texts = list_all (\<lambda>p. p \<noteq> None) (map Some texts)"

lemma non_null_literals [simp]: "non_null texts"
  by (simp add: non_null_def list_all_iff)

section \<open>Device tests\<close>

text \<open>The garbage the record is filled with before \<open>device_init\<close> is overwritten as a whole.\<close>

definition test_device_init_zeroes :: bool where
  "test_device_init_zeroes =
     (let dev = device_init
      in sd_device_type dev = DEVICE_TYPE_UNKNOWN \<and> sd_transport_type dev = TRANSPORT_UNKNOWN
         \<and> sd_is_read_only dev = False \<and> sd_is_removable dev = False \<and> sd_logical_sector_size dev = 512
         \<and> sd_physical_sector_size dev = 512 \<and> sd_capacity_bytes dev = 0)"

definition test_device_type_strings :: bool where
  "test_device_type_strings =
     non_null (map device_type_str
       [DEVICE_TYPE_UNKNOWN, DEVICE_TYPE_HDD, DEVICE_TYPE_SATA_SSD, DEVICE_TYPE_NVME_SSD, DEVICE_TYPE_USB_HDD,
        DEVICE_TYPE_USB_SSD, DEVICE_TYPE_USB_FLASH, DEVICE_TYPE_SD_CARD])"

definition test_transport_type_strings :: bool where
  "test_transport_type_strings =
     non_null (map device_transport_str [TRANSPORT_UNKNOWN, TRANSPORT_SATA, TRANSPORT_NVME, TRANSPORT_USB, TRANSPORT_SD])"

definition test_sanitization_method_strings :: bool where
  "test_sanitization_method_strings =
     non_null (map sanitization_method_str
       [SANITIZE_METHOD_NONE, SANITIZE_METHOD_BLOCK_ERASE, SANITIZE_METHOD_CRYPTO_ERASE, SANITIZE_METHOD_DEVICE_NATIVE])"

definition test_path_is_block_device :: "bool \<Rightarrow> filesys \<Rightarrow> bool" where
  "test_path_is_block_device stat_ok fs = device_path_is_block_device stat_ok fs (Some ''/dev/sda'')"

definition test_path_not_block_device :: "bool \<Rightarrow> filesys \<Rightarrow> bool" where
  "test_path_not_block_device stat_ok fs = (\<not> device_path_is_block_device stat_ok fs (Some ''/tmp/test.img''))"

definition test_path_nvme_is_block_device :: "bool \<Rightarrow> filesys \<Rightarrow> bool" where
  "test_path_nvme_is_block_device stat_ok fs = device_path_is_block_device stat_ok fs (Some ''/dev/nvme0n1'')"

definition test_classify_nvme :: "(string \<Rightarrow> string option) \<Rightarrow> bool" where
  "test_classify_nvme readlink =
     (let dev = the (device_classify readlink (Some ''nvme0n1'') (Some device_init))
      in sd_device_type dev = DEVICE_TYPE_NVME_SSD \<and> sd_transport_type dev = TRANSPORT_NVME)"

definition test_classify_mmcblk :: "(string \<Rightarrow> string option) \<Rightarrow> bool" where
  "test_classify_mmcblk readlink =
     (let dev = the (device_classify readlink (Some ''mmcblk0'') (Some device_init))
      in sd_device_type dev = DEVICE_TYPE_SD_CARD \<and> sd_transport_type dev = TRANSPORT_SD)"

definition device_tests_main :: "bool \<Rightarrow> filesys \<Rightarrow> (string \<Rightarrow> string option) \<Rightarrow> int" where
  "device_tests_main stat_ok fs readlink = suite_exit
     [test_device_init_zeroes, test_device_type_strings, test_transport_type_strings, test_sanitization_method_strings,
      test_path_is_block_device stat_ok fs, test_path_not_block_device stat_ok fs,
      test_path_nvme_is_block_device stat_ok fs, test_classify_nvme readlink, test_classify_mmcblk readlink]"

text \<open>The driver passes on every system where \<open>/tmp/test.img\<close> is no block device.\<close>

theorem device_tests_pass:
  "device_tests_main stat_ok fs readlink = 0 \<longleftrightarrow>
    \<not> (stat_ok \<and> (\<exists>n. fs ''/tmp/test.img'' = Some n \<and> S_ISBLK n))"
  by (auto simp: device_tests_main_def suite_exit_0 test_device_init_zeroes_def test_device_type_strings_def
      test_transport_type_strings_def test_sanitization_method_strings_def test_path_is_block_device_def
      test_path_not_block_device_def test_path_nvme_is_block_device_def test_classify_nvme_def test_classify_mmcblk_def
      device_init_def device_classify_def device_path_is_block_device_def blockdev_prefixes_def split: option.splits)

section \<open>Crypto erase tests\<close>

definition test_query_non_encrypted_device :: bool where
  "test_query_non_encrypted_device =
     (let dev = device_init
            \<lparr>sd_encryption_status := ENCRYPTION_STATUS_NOT_ENCRYPTED,
             sd_capabilities := (sd_capabilities device_init)\<lparr>cap_supports_crypto_erase := False\<rparr>\<rparr>
      in crypto_erase_query (Some dev) = CRYPTO_ERASE_NOT_ENCRYPTED)"

definition test_query_unknown_encryption :: bool where
  "test_query_unknown_encryption =
     (let dev = device_init
            \<lparr>sd_encryption_status := ENCRYPTION_STATUS_UNKNOWN,
             sd_capabilities := (sd_capabilities device_init)\<lparr>cap_supports_crypto_erase := False\<rparr>\<rparr>
      in crypto_erase_query (Some dev) = CRYPTO_ERASE_NOT_ENCRYPTED)"

definition test_query_sed_device :: bool where
  "test_query_sed_device =
     (let dev = device_init\<lparr>sd_capabilities := (sd_capabilities device_init)\<lparr>cap_supports_crypto_erase := True\<rparr>\<rparr>
      in crypto_erase_query (Some dev) = CRYPTO_ERASE_SUPPORTED)"

definition test_execute_returns_not_implemented :: bool where
  "test_execute_returns_not_implemented =
     (let dev = device_init\<lparr>sd_device_type := DEVICE_TYPE_HDD\<rparr>
      in crypto_erase_execute (Some dev) = CRYPTO_ERASE_NOT_IMPLEMENTED)"

definition test_execute_null_device :: bool where
  "test_execute_null_device = (crypto_erase_execute None = CRYPTO_ERASE_FAILED)"

definition test_status_strings_non_null :: bool where
  "test_status_strings_non_null =
     non_null (map crypto_erase_status_str
       [CRYPTO_ERASE_SUPPORTED, CRYPTO_ERASE_UNSUPPORTED, CRYPTO_ERASE_NOT_ENCRYPTED, CRYPTO_ERASE_NOT_IMPLEMENTED,
        CRYPTO_ERASE_FAILED, CRYPTO_ERASE_SUCCESS])"

definition crypto_erase_verdicts :: "bool list" where
  "crypto_erase_verdicts =
     [test_query_non_encrypted_device, test_query_unknown_encryption, test_query_sed_device,
      test_execute_returns_not_implemented, test_execute_null_device, test_status_strings_non_null]"

definition crypto_erase_tests_main :: int where
  "crypto_erase_tests_main = suite_exit crypto_erase_verdicts"

text \<open>
  The driver fails, by its fourth test alone: a device fresh from \<open>device_init\<close> has the encryption status unknown, which
  \<open>crypto_erase_execute\<close> answers with \<open>NOT_ENCRYPTED\<close>.
\<close>

theorem crypto_erase_tests_fail:
  "crypto_erase_verdicts = [True, True, True, False, True, True] \<and> crypto_erase_tests_main = 1"
proof -
  have "crypto_erase_verdicts = [True, True, True, False, True, True]"
    by (simp add: crypto_erase_verdicts_def test_query_non_encrypted_device_def test_query_unknown_encryption_def
        test_query_sed_device_def test_execute_returns_not_implemented_def test_execute_null_device_def
        test_status_strings_non_null_def crypto_erase_query_def crypto_erase_execute_def device_init_def
        no_capabilities_def Let_def)
  moreover have "suite_exit [True, True, True, False, True, True] = 1" by (simp add: suite_exit_def)
  ultimately show ?thesis by (metis crypto_erase_tests_main_def)
qed

section \<open>ATA, NVMe and key tests\<close>

text \<open>
  The system of the run: the answers of \<open>open\<close> and of the two \<open>ioctl\<close>s, the name \<open>mkstemp\<close> found, how many bytes the
  \<open>write\<close> into that file took, and whether \<open>fopen\<close> opens it. The structures that are not initialised hold \<open>junk\<close>.
\<close>

record pass_through_env =
  pt_open :: "string \<Rightarrow> Ata.open_answer"
  pt_sg_io :: "sg_request \<Rightarrow> sg_answer"
  pt_nvme :: "NvmeAdminCommand \<Rightarrow> nvme_answer"
  pt_mkstemp :: "string option"
  pt_written :: nat
  pt_fopen_ok :: bool
  pt_ata_cmd :: AtaCommand
  pt_identify :: AtaIdentifyData
  pt_ata_caps :: AtaSanitizeCapabilities
  pt_nvme_cmd :: NvmeAdminCommand
  pt_controller :: NvmeControllerData
  pt_nvme_caps :: NvmeSanitizeCapabilities

definition luks_header :: "byte list" where
  "luks_header = [0x4C, 0x55, 0x4B, 0x53, 0xBA, 0xBE, 0x00, 0x02] @ replicate 504 0"

definition synthetic_key_test :: bool where
  "synthetic_key_test =
     (let key = map (\<lambda>i. of_nat i + 0x42) [0..<32]
      in case crypto_erase_synthetic_key (Some key) (length key) of
           (ces, key') \<Rightarrow> ces = CRYPTO_ERASE_SUCCESS \<and> list_all (\<lambda>b. b = 0) (the key'))"

text \<open>The test of the LUKS header is skipped when no file can be made.\<close>

definition luks_tests :: "pass_through_env \<Rightarrow> bool list" where
  "luks_tests env =
     (case pt_mkstemp env of None \<Rightarrow> []
      | Some luks_tmp \<Rightarrow>
          let open_read = (\<lambda>p. if p = luks_tmp \<and> pt_fopen_ok env then Some (take (pt_written env) luks_header) else None)
          in [case key_mgmt_detect_luks open_read (Some luks_tmp) (Some ENCRYPTED_VOL_NONE) of
                (lerr, vol_type) \<Rightarrow> lerr = ERASECURE_OK \<and> vol_type = Some ENCRYPTED_VOL_LUKS2])"

text \<open>\<open>None\<close>: the sense data lead the query outside its buffer.\<close>

definition ata_nvme_verdicts :: "pass_through_env \<Rightarrow> bool list option" where
  "ata_nvme_verdicts env =
     (case ata_sanitize_query (pt_open env) (pt_sg_io env) (pt_identify env) (Some ''/dev/nonexistent_dummy_sata'')
             (Some (pt_ata_caps env)) of
        None \<Rightarrow> None
      | Some (ata_err, _) \<Rightarrow>
          let ata_cmd = the (ata_command_init (Some (pt_ata_cmd env)));
              nvme_cmd = the (nvme_admin_cmd_init (Some (pt_nvme_cmd env)));
              nvme_err = fst (nvme_sanitize_query (pt_open env) (pt_nvme env) (pt_controller env)
                (Some ''/dev/nonexistent_dummy_nvme'') (Some (pt_nvme_caps env)));
              sed_str = key_mgmt_capability_str KEY_MGMT_SED_DETECTED;
              vol_str = encrypted_volume_type_str ENCRYPTED_VOL_LUKS2
          in Some ([ac_timeout_ms ata_cmd > 0, nc_timeout_ms nvme_cmd > 0, ata_err \<noteq> ERASECURE_OK,
                    nvme_err \<noteq> ERASECURE_OK, synthetic_key_test]
                   @ luks_tests env
                   @ [non_null [sed_str, vol_str] \<and> length sed_str > 0 \<and> length vol_str > 0,
                      crypto_erase_status_str CRYPTO_ERASE_SUCCESS = ''Success'']))"

definition ata_nvme_tests_main :: "pass_through_env \<Rightarrow> int option" where
  "ata_nvme_tests_main env = map_option suite_exit (ata_nvme_verdicts env)"

lemma synthetic_key_destroyed: "synthetic_key_test"
  by (simp add: synthetic_key_test_def crypto_erase_synthetic_key_def key_mgmt_secure_cleanse_def list_ex_iff
      list_all_iff)

lemma luks_header_detected:
  "8 \<le> pt_written env \<Longrightarrow> pt_fopen_ok env \<Longrightarrow> list_all (\<lambda>v. v) (luks_tests env)"
  by (simp add: luks_tests_def key_mgmt_detect_luks_def luks_header_def luks_type_def luks_magic_def
      nth_append min_def split: option.split)

lemma dummy_paths_fail:
  "pt_open env ''/dev/nonexistent_dummy_sata'' \<noteq> Opened \<Longrightarrow>
    \<exists>e caps. ata_sanitize_query (pt_open env) (pt_sg_io env) (pt_identify env) (Some ''/dev/nonexistent_dummy_sata'')
      (Some (pt_ata_caps env)) = Some (e, caps) \<and> e \<noteq> ERASECURE_OK"
  "pt_open env ''/dev/nonexistent_dummy_nvme'' \<noteq> Opened \<Longrightarrow>
    fst (nvme_sanitize_query (pt_open env) (pt_nvme env) (pt_controller env) (Some ''/dev/nonexistent_dummy_nvme'')
      (Some (pt_nvme_caps env))) \<noteq> ERASECURE_OK"
  by (cases "pt_open env ''/dev/nonexistent_dummy_sata''";
      simp add: ata_sanitize_query_def ata_identify_device_def ata_execute_path_def identify_command_def)
    (cases "pt_open env ''/dev/nonexistent_dummy_nvme''";
      simp add: nvme_sanitize_query_def nvme_identify_controller_def nvme_admin_execute_path_def)

text \<open>
  The driver fails by its second test and, on a system that refuses the two dummy paths, by no other:
  \<open>nvme_admin_cmd_init\<close> leaves the timeout at 0.
\<close>

theorem ata_nvme_tests_fail:
  assumes paths: "pt_open env ''/dev/nonexistent_dummy_sata'' \<noteq> Opened" "pt_open env ''/dev/nonexistent_dummy_nvme'' \<noteq> Opened"
    and luks: "8 \<le> pt_written env" "pt_fopen_ok env"
  shows "\<exists>vs. ata_nvme_verdicts env = Some ([True, False] @ vs) \<and> (\<forall>v \<in> set vs. v) \<and> ata_nvme_tests_main env = Some 1"
proof -
  obtain e caps where q: "ata_sanitize_query (pt_open env) (pt_sg_io env) (pt_identify env)
      (Some ''/dev/nonexistent_dummy_sata'') (Some (pt_ata_caps env)) = Some (e, caps)" "e \<noteq> ERASECURE_OK"
    using dummy_paths_fail(1) [OF paths(1)] by blast
  define vs where "vs = [True, True, True] @ luks_tests env @ [True, True]"
  have "ata_nvme_verdicts env = Some ([True, False] @ vs)"
    using q dummy_paths_fail(2) [OF paths(2)] synthetic_key_destroyed
    by (simp add: ata_nvme_verdicts_def vs_def ata_command_init_def nvme_admin_cmd_init_def zero_nvme_command_def)
  moreover have "\<forall>v \<in> set vs. v" using luks_header_detected [OF luks] by (auto simp: vs_def list_all_iff)
  moreover have "suite_exit ([True, False] @ vs) = 1"
    using suite_exit_0 [of "[True, False] @ vs"] by (auto simp: suite_exit_def Let_def)
  ultimately show ?thesis by (auto simp: ata_nvme_tests_main_def)
qed

text \<open>A machine without the two devices, where the file of the LUKS test can be written and read.\<close>

definition demo_pass_through :: pass_through_env where
  "demo_pass_through =
     \<lparr>pt_open = \<lambda>_. Open_failed, pt_sg_io = \<lambda>_. Sg_error False, pt_nvme = \<lambda>_. Nvme_error False,
      pt_mkstemp = Some ''/tmp/luks_test_a1B2c3'', pt_written = 512, pt_fopen_ok = True,
      pt_ata_cmd = zero_ata_command,
      pt_identify = \<lparr>aid_model = [], aid_serial = [], aid_firmware = [], aid_lba_capacity = 0, aid_logical_sector_size = 0,
        aid_physical_sector_size = 0, aid_security_supported = False, aid_security_enabled = False,
        aid_security_locked = False, aid_security_frozen = False, aid_security_count_expired = False,
        aid_enhanced_erase_supported = False, aid_erase_time_normal = 0, aid_erase_time_enhanced = 0,
        aid_sanitize_supported = False, aid_sanitize_crypto_scramble = False, aid_sanitize_block_erase = False,
        aid_sanitize_overwrite = False, aid_raw_words = []\<rparr>,
      pt_ata_caps = zero_ata_caps, pt_nvme_cmd = zero_nvme_command,
      pt_controller = \<lparr>nctl_model = [], nctl_serial = [], nctl_firmware = [], nctl_vid = 0, nctl_ssvid = 0, nctl_nn = 0,
        nctl_sanicap = 0, nctl_sanitize_crypto = False, nctl_sanitize_block = False, nctl_sanitize_overwrite = False,
        nctl_format_supported = False, nctl_oacs = 0, nctl_fna = 0\<rparr>,
      pt_nvme_caps = \<lparr>nsc_can_format_nvm = False, nsc_can_format_crypto_erase = False, nsc_can_sanitize_block = False,
        nsc_can_sanitize_overwrite = False, nsc_can_sanitize_crypto = False, nsc_format_all_ns = False\<rparr>\<rparr>"

theorem ata_nvme_tests_fail_witness: "ata_nvme_tests_main demo_pass_through = Some 1"
proof -
  have "pt_open demo_pass_through p \<noteq> Opened" "8 \<le> pt_written demo_pass_through" "pt_fopen_ok demo_pass_through" for p
    by (simp_all add: demo_pass_through_def)
  from ata_nvme_tests_fail [OF this(1,1,2,3)] show ?thesis by blast
qed

end
