(* ===== verification/Image_Tests.thy ===== *)
theory Image_Tests
  imports Cli Unit_Tests
begin

text \<open>
  The driver \<open>tests/block_erase_tests.c\<close> over the model: erasures and verifications of temporary images. A test takes
  the answers of the system to its calls and the file system, and returns its verdict with the file system it leaves;
  \<open>None\<close> is a test that does not return.
\<close>

text \<open>
  The name \<open>mkstemp\<close> found (\<open>None\<close>: no memory for the name, or no file), the bytes that \<open>write\<close> takes in all, the
  answers to the eraser and to the verifier, those of \<open>fopen\<close> and \<open>fread\<close> when a test reads the image back, and
  whether \<open>unlink\<close> removes it.
\<close>

record image_test_env =
  it_mkstemp :: "string option"
  it_room :: nat
  it_erase :: erase_env
  it_verify :: verify_env
  it_fopen_ok :: bool
  it_fread :: nat
  it_unlink :: bool

section \<open>Helpers\<close>

text \<open>A new file filled with one byte; writing stops when \<open>write\<close> takes nothing more.\<close>

definition temp_file :: "image_test_env \<Rightarrow> filesys \<Rightarrow> byte \<Rightarrow> nat \<Rightarrow> (string \<times> filesys) option" where
  "temp_file env fs fill size_bytes =
     map_option (\<lambda>path. (path, fs(path \<mapsto> Reg (replicate (min size_bytes (it_room env)) fill)))) (it_mkstemp env)"

definition create_test_image :: "image_test_env \<Rightarrow> filesys \<Rightarrow> nat \<Rightarrow> (string \<times> filesys) option" where
  "create_test_image env fs size_bytes = temp_file env fs 0xAA size_bytes"

definition remove_test_image :: "image_test_env \<Rightarrow> string \<Rightarrow> filesys \<Rightarrow> filesys" where
  "remove_test_image env path fs = (if it_unlink env then fs(path := None) else fs)"

definition read_file_bytes :: "image_test_env \<Rightarrow> filesys \<Rightarrow> string \<Rightarrow> nat \<Rightarrow> byte list option" where
  "read_file_bytes env fs path n =
     (case fs path of
        Some node \<Rightarrow>
          if \<not> it_fopen_ok env then None
          else (let buf = take (min n (it_fread env)) (node_bytes node) in if length buf = n then Some buf else None)
      | None \<Rightarrow> None)"

type_synonym image_test = "image_test_env \<Rightarrow> filesys \<Rightarrow> (bool \<times> filesys) option"

text \<open>The frame of a test: the image is made before it and removed after it; without an image it fails.\<close>

definition on_image :: "nat \<Rightarrow> (image_test_env \<Rightarrow> string \<Rightarrow> filesys \<Rightarrow> (bool \<times> filesys) option) \<Rightarrow> image_test" where
  "on_image size_bytes body env fs =
     (case create_test_image env fs size_bytes of None \<Rightarrow> Some (False, fs)
      | Some (path, fs1) \<Rightarrow> map_option (\<lambda>(ok, fs2). (ok, remove_test_image env path fs2)) (body env path fs1))"

section \<open>The tests\<close>

definition rejects_device :: "string \<Rightarrow> image_test" where
  "rejects_device path env fs =
     map_option (\<lambda>(err, result, fs', progress). (err = ERASECURE_ERR_REAL_DEVICE_PATH, fs'))
       (block_erase_image (it_erase env) fs (Some path) (Some block_erase_options_init) (Some fresh_erase_result))"

definition test_safety_block_real_device :: image_test where
  "test_safety_block_real_device = rejects_device ''/dev/sda''"

definition test_safety_block_nvme :: image_test where
  "test_safety_block_nvme = rejects_device ''/dev/nvme0n1''"

text \<open>Erase with the given options, then look at the result and at what the file holds.\<close>

definition erase_then :: "BlockEraseOptions \<Rightarrow> (ErasecureError \<Rightarrow> BlockEraseResult \<Rightarrow> byte list option \<Rightarrow> bool)
    \<Rightarrow> image_test_env \<Rightarrow> string \<Rightarrow> filesys \<Rightarrow> (bool \<times> filesys) option" where
  "erase_then opts check env path fs =
     map_option (\<lambda>(err, result, fs', progress). (check err (the result) (read_file_bytes env fs' path 256), fs'))
       (block_erase_image (it_erase env) fs (Some path) (Some opts) (Some fresh_erase_result))"

definition filled_with :: "byte \<Rightarrow> ErasecureError \<Rightarrow> BlockEraseResult \<Rightarrow> byte list option \<Rightarrow> bool" where
  "filled_with b err result buf =
     (err = ERASECURE_OK \<and> (case buf of None \<Rightarrow> False | Some bs \<Rightarrow> list_all (\<lambda>x. x = b) bs))"

definition test_zero_pattern :: image_test where
  "test_zero_pattern = on_image (64 * 1024) (erase_then
     (block_erase_options_init\<lparr>beo_pattern := ERASE_PATTERN_ZERO, beo_block_size := 4096, beo_passes := 1\<rparr>)
     (filled_with 0x00))"

definition test_one_pattern :: image_test where
  "test_one_pattern = on_image (64 * 1024) (erase_then
     (block_erase_options_init\<lparr>beo_pattern := ERASE_PATTERN_ONE, beo_block_size := 4096, beo_passes := 1\<rparr>)
     (filled_with 0xFF))"

definition test_random_pattern :: image_test where
  "test_random_pattern = on_image (64 * 1024) (erase_then
     (block_erase_options_init\<lparr>beo_pattern := ERASE_PATTERN_RANDOM, beo_block_size := 4096, beo_passes := 1\<rparr>)
     (\<lambda>err result buf. err = ERASECURE_OK
        \<and> (case buf of None \<Rightarrow> False | Some bs \<Rightarrow> list_ex (\<lambda>x. x \<noteq> 0xAA) bs)))"

definition test_multi_pass :: image_test where
  "test_multi_pass = on_image (32 * 1024) (erase_then
     (block_erase_options_init\<lparr>beo_pattern := ERASE_PATTERN_ZERO, beo_passes := 3\<rparr>)
     (\<lambda>err result buf. err = ERASECURE_OK \<and> ber_passes_completed result = 3))"

definition test_bytes_written_correct :: image_test where
  "test_bytes_written_correct = on_image (128 * 1024) (erase_then
     (block_erase_options_init\<lparr>beo_pattern := ERASE_PATTERN_ZERO, beo_passes := 2\<rparr>)
     (\<lambda>err result buf. err = ERASECURE_OK \<and> ber_bytes_written result = 128 * 1024 * 2))"

definition verified_zero :: "image_test_env \<Rightarrow> string \<Rightarrow> filesys \<Rightarrow> VerificationResult" where
  "verified_zero env path fs =
     the (snd (verify_image_pattern (it_verify env) fs (Some path) ERASE_PATTERN_ZERO 4096 VERIFY_FULL
                 (Some fresh_verification)))"

definition test_verify_zero_pass :: image_test where
  "test_verify_zero_pass = on_image (64 * 1024) (\<lambda>env path fs.
     map_option (\<lambda>(err, result, fs', progress).
         (let vr = verified_zero env path fs' in (vr_verification_passed vr \<and> vr_blocks_failed vr = 0, fs')))
       (block_erase_image (it_erase env) fs (Some path)
         (Some (block_erase_options_init\<lparr>beo_pattern := ERASE_PATTERN_ZERO, beo_block_size := 4096\<rparr>))
         (Some fresh_erase_result)))"

definition test_verify_detects_corruption :: image_test where
  "test_verify_detects_corruption = on_image (64 * 1024) (\<lambda>env path fs.
     let vr = verified_zero env path fs in Some (\<not> vr_verification_passed vr \<and> vr_blocks_failed vr > 0, fs))"

definition test_options_init_defaults :: image_test where
  "test_options_init_defaults env fs =
     (let opts = block_erase_options_init
      in Some (beo_pattern opts = ERASE_PATTERN_ZERO \<and> beo_block_size opts = ERASECURE_DEFAULT_BLOCK_SIZE
               \<and> beo_passes opts = ERASECURE_DEFAULT_PASSES, fs))"

text \<open>The tests one after the other; test number \<open>i\<close> gets the answers \<open>env i\<close>.\<close>

fun run_tests :: "image_test list \<Rightarrow> (nat \<Rightarrow> image_test_env) \<Rightarrow> nat \<Rightarrow> filesys \<Rightarrow> (bool list \<times> filesys) option" where
  "run_tests [] env i fs = Some ([], fs)"
| "run_tests (t # ts) env i fs =
     (case t (env i) fs of None \<Rightarrow> None
      | Some (v, fs1) \<Rightarrow>
          map_option (\<lambda>(vs, fs2). (v # vs, fs2)) (run_tests ts env (Suc i) fs1))"

definition block_erase_tests :: "image_test list" where
  "block_erase_tests =
     [test_safety_block_real_device, test_safety_block_nvme, test_zero_pattern, test_one_pattern, test_random_pattern,
      test_multi_pass, test_bytes_written_correct, test_verify_zero_pass, test_verify_detects_corruption,
      test_options_init_defaults]"

definition block_erase_tests_main :: "(nat \<Rightarrow> image_test_env) \<Rightarrow> filesys \<Rightarrow> (int \<times> filesys) option" where
  "block_erase_tests_main env fs =
     map_option (\<lambda>(vs, fs'). (suite_exit vs, fs')) (run_tests block_erase_tests env 0 fs)"

section \<open>The driver on a working system\<close>

text \<open>
  A working system: the image is new, under the template given to \<open>mkstemp\<close>, and as long as asked for; the eraser and the verifier
  get what they ask for, the image can be read back and removed, and the first random bytes are not all the sentinel.
\<close>

definition working :: "filesys \<Rightarrow> image_test_env \<Rightarrow> bool" where
  "working fs env \<longleftrightarrow>
     (\<exists>path. it_mkstemp env = Some path \<and> fs path = None \<and> prefix ''/tmp/erasecure_'' path)
     \<and> 131072 \<le> it_room env \<and> cooperative_env (it_erase env) \<and> cooperative_verify_env (it_verify env)
     \<and> it_fopen_ok env \<and> 1024 \<le> it_fread env \<and> it_unlink env \<and> (\<exists>j < 256. the (env_rand (it_erase env) 0) j \<noteq> 0xAA)"

lemma template_no_device: "prefix ''/tmp/erasecure_'' path \<Longrightarrow> \<forall>pre \<in> set blockdev_prefixes. \<not> prefix pre path"
  by (auto simp: blockdev_prefixes_def prefix_def)

lemma run_tests_keep:
  "list_all2 (\<lambda>t v. \<forall>i. t (env i) fs = Some (v, fs)) ts vs \<Longrightarrow> run_tests ts env i fs = Some (vs, fs)"
  by (induction arbitrary: i rule: list_all2_induct) simp_all

lemma run_tests_all:
  "(\<And>t i. t \<in> set ts \<Longrightarrow> t (env i) fs = Some (True, fs)) \<Longrightarrow> run_tests ts env i fs = Some (replicate (length ts) True, fs)"
  by (rule run_tests_keep) (simp add: list_all2_conv_all_nth)

lemma erase_image_call:
  assumes env: "cooperative_env env" and node: "fs path = Some (Reg content)" "content \<noteq> []"
    and pre: "\<forall>pre \<in> set blockdev_prefixes. \<not> prefix pre path"
    and fits: "length content * clamp_passes (beo_passes opts) < 2 ^ 64"
  shows "\<exists>r progress. block_erase_image env fs (Some path) (Some opts) (Some fresh_erase_result)
      = Some (ERASECURE_OK, Some r, fs(path \<mapsto> Reg (pass_bytes env (beo_pattern opts) (clamp_block_size (beo_block_size opts))
          ((clamp_passes (beo_passes opts) - 1) * length content) (length content))), progress)
    \<and> ber_bytes_written r = length content * clamp_passes (beo_passes opts)
    \<and> ber_passes_completed r = clamp_passes (beo_passes opts)"
proof -
  have dev: "\<not> device_path_is_block_device True fs (Some path)"
    using pre node by (auto simp: device_path_is_block_device_def list_ex_iff)
  have call: "block_erase_image env fs (Some path) (Some opts) (Some fresh_erase_result)
      = block_erase_image_run env fs path content opts"
    using env node dev by (simp add: block_erase_image_def cooperative_env_def)
  obtain res fs' progress where run: "block_erase_image_run env fs path content opts = Some (ERASECURE_OK, res, fs', progress)"
    using block_erase_image_run_cooperative [OF env] by blast
  from block_erase_image_run_OK [OF run fits] block_erase_image_run_frame [OF run] call run show ?thesis by auto
qed

lemma rejects_device_passes:
  "\<exists>pre \<in> set blockdev_prefixes. prefix pre path \<Longrightarrow> rejects_device path env fs = Some (True, fs)"
  by (auto simp: rejects_device_def block_erase_image_def device_path_is_block_device_def list_ex_iff erase_reject_def)

lemma on_image_passes:
  assumes "working fs env" and size: "size_bytes \<le> 131072"
    and body: "\<And>path. \<forall>pre \<in> set blockdev_prefixes. \<not> prefix pre path \<Longrightarrow> \<exists>c.
      body env path (fs(path \<mapsto> Reg (replicate size_bytes 0xAA))) = Some (True, fs(path \<mapsto> Reg c))"
  shows "on_image size_bytes body env fs = Some (True, fs)"
proof -
  obtain path where path: "it_mkstemp env = Some path" "fs path = None" "\<forall>pre \<in> set blockdev_prefixes. \<not> prefix pre path"
    using assms(1) template_no_device by (auto simp: working_def)
  have "min size_bytes (it_room env) = size_bytes" using assms(1) size by (simp add: working_def)
  moreover have "fs(path := None) = fs" using path(2) by auto
  moreover have "it_unlink env" using assms(1) by (simp add: working_def)
  ultimately show ?thesis using path(1) body [OF path(3)]
    by (auto simp: on_image_def create_test_image_def temp_file_def remove_test_image_def)
qed

lemma erase_then_passes:
  assumes w: "working fs env" and size: "0 < size_bytes" "size_bytes * clamp_passes (beo_passes opts) < 2 ^ 64"
    and pre: "\<forall>pre \<in> set blockdev_prefixes. \<not> prefix pre path"
    and c: "c = pass_bytes (it_erase env) (beo_pattern opts) (clamp_block_size (beo_block_size opts))
        ((clamp_passes (beo_passes opts) - 1) * size_bytes) size_bytes"
    and check: "\<And>r. ber_bytes_written r = size_bytes * clamp_passes (beo_passes opts) \<Longrightarrow>
        ber_passes_completed r = clamp_passes (beo_passes opts) \<Longrightarrow>
        check ERASECURE_OK r (if 256 \<le> size_bytes then Some (take 256 c) else None)"
  shows "erase_then opts check env path (fs(path \<mapsto> Reg (replicate size_bytes 0xAA))) = Some (True, fs(path \<mapsto> Reg c))"
proof -
  obtain r progress where call: "block_erase_image (it_erase env) (fs(path \<mapsto> Reg (replicate size_bytes 0xAA))) (Some path)
      (Some opts) (Some fresh_erase_result) = Some (ERASECURE_OK, Some r, fs(path \<mapsto> Reg c), progress)"
    and r: "ber_bytes_written r = size_bytes * clamp_passes (beo_passes opts)"
      "ber_passes_completed r = clamp_passes (beo_passes opts)"
    using erase_image_call [of "it_erase env" "fs(path \<mapsto> Reg (replicate size_bytes 0xAA))" path "replicate size_bytes 0xAA" opts]
      w size pre by (auto simp: working_def c)
  have "length c = size_bytes" by (simp add: c)
  then have "read_file_bytes env (fs(path \<mapsto> Reg c)) path 256 = (if 256 \<le> size_bytes then Some (take 256 c) else None)"
    using w by (auto simp: read_file_bytes_def working_def Let_def min_def)
  with call check [OF r] show ?thesis by (simp add: erase_then_def)
qed

lemma erase_test_passes:
  assumes w: "working fs env" and size: "0 < size_bytes" "size_bytes \<le> 131072"
      "size_bytes * clamp_passes (beo_passes opts) < 2 ^ 64"
    and check: "\<And>r. ber_bytes_written r = size_bytes * clamp_passes (beo_passes opts) \<Longrightarrow>
        ber_passes_completed r = clamp_passes (beo_passes opts) \<Longrightarrow>
        check ERASECURE_OK r (if 256 \<le> size_bytes
          then Some (take 256 (pass_bytes (it_erase env) (beo_pattern opts) (clamp_block_size (beo_block_size opts))
                 ((clamp_passes (beo_passes opts) - 1) * size_bytes) size_bytes))
          else None)"
  shows "on_image size_bytes (erase_then opts check) env fs = Some (True, fs)"
proof (rule on_image_passes [OF w size(2)])
  fix path assume pre: "\<forall>pre \<in> set blockdev_prefixes. \<not> prefix pre path"
  from erase_then_passes [where check = check, OF w size(1,3) pre refl check]
  show "\<exists>c. erase_then opts check env path (fs(path \<mapsto> Reg (replicate size_bytes 0xAA))) = Some (True, fs(path \<mapsto> Reg c))"
    by blast
qed

lemma test_limits:
  "clamp_block_size 4096 = 4096" "clamp_passes (Suc 0) = 1" "clamp_passes 1 = 1" "clamp_passes 2 = 2" "clamp_passes 3 = 3"
  by (simp_all add: clamp_block_size_def clamp_passes_def erase_limits)

lemma pattern_tests_pass:
  assumes w: "working fs env"
  shows "test_zero_pattern env fs = Some (True, fs)" "test_one_pattern env fs = Some (True, fs)"
    "test_random_pattern env fs = Some (True, fs)" "test_multi_pass env fs = Some (True, fs)"
    "test_bytes_written_correct env fs = Some (True, fs)"
proof -
  show "test_zero_pattern env fs = Some (True, fs)" "test_one_pattern env fs = Some (True, fs)"
    unfolding test_zero_pattern_def test_one_pattern_def
    by (rule erase_test_passes [OF w]; simp add: test_limits filled_with_def pass_bytes_const list_all_iff)+
  show "test_multi_pass env fs = Some (True, fs)" "test_bytes_written_correct env fs = Some (True, fs)"
    unfolding test_multi_pass_def test_bytes_written_correct_def
    by (rule erase_test_passes [OF w]; simp add: test_limits)+
  obtain j where j: "j < 256" "the (env_rand (it_erase env) 0) j \<noteq> 0xAA" using w by (auto simp: working_def)
  have r0: "env_rand (it_erase env) 0 \<noteq> None" using w by (auto simp: working_def cooperative_env_def)
  have "list_ex (\<lambda>x. x \<noteq> 0xAA) (take 256 (pass_bytes (it_erase env) ERASE_PATTERN_RANDOM 4096 0 65536))"
    unfolding list_ex_iff
  proof (intro bexI)
    have "pass_bytes (it_erase env) ERASE_PATTERN_RANDOM 4096 0 65536 ! j = the (env_rand (it_erase env) 0) j"
      using j(1) r0 by (auto simp: pass_bytes_def pattern_byte_def)
    then show "take 256 (pass_bytes (it_erase env) ERASE_PATTERN_RANDOM 4096 0 65536) ! j \<noteq> 0xAA" using j by simp
    show "take 256 (pass_bytes (it_erase env) ERASE_PATTERN_RANDOM 4096 0 65536) ! j
        \<in> set (take 256 (pass_bytes (it_erase env) ERASE_PATTERN_RANDOM 4096 0 65536))"
      using j(1) by (intro nth_mem) simp
  qed
  then show "test_random_pattern env fs = Some (True, fs)"
    unfolding test_random_pattern_def by (intro erase_test_passes [OF w]) (simp_all add: test_limits)
qed

lemma verified_zero_exact:
  assumes "cooperative_verify_env (it_verify env)" and node: "fs path = Some (Reg content)" "content \<noteq> []"
  shows "vr_verification_passed (verified_zero env path fs) \<longleftrightarrow> (\<forall>b \<in> set content. b = 0)"
    "vr_blocks_failed (verified_zero env path fs) = 0 \<longleftrightarrow> (\<forall>b \<in> set content. b = 0)"
proof -
  obtain vr where v: "verify_image_pattern (it_verify env) fs (Some path) ERASE_PATTERN_ZERO 4096 VERIFY_FULL
      (Some fresh_verification) = (ERASECURE_OK, Some vr)"
    using verify_image_pattern_runs [where path = path and fs = fs and content = content and pattern = ERASE_PATTERN_ZERO] assms
    by blast
  have step: "sample_step_for VERIFY_FULL n = Suc 0" for n by (simp add: sample_step_for_def)
  have "vr_verification_passed vr = (vr_blocks_failed vr = 0)" "vr_blocks_failed vr = 0 \<longleftrightarrow> (\<forall>b \<in> set content. b = 0)"
    using verify_image_pattern_OK [OF v node(1) refl refl] bad_blocks_all [OF clamp_block_size_pos, of content 4096 0]
    by (simp_all add: step pattern_value_def)
  then show "vr_verification_passed (verified_zero env path fs) \<longleftrightarrow> (\<forall>b \<in> set content. b = 0)"
    "vr_blocks_failed (verified_zero env path fs) = 0 \<longleftrightarrow> (\<forall>b \<in> set content. b = 0)"
    by (simp_all add: verified_zero_def v)
qed

lemma verify_tests_pass:
  assumes w: "working fs env"
  shows "test_verify_zero_pass env fs = Some (True, fs)" "test_verify_detects_corruption env fs = Some (True, fs)"
proof -
  have coop: "cooperative_env (it_erase env)" "cooperative_verify_env (it_verify env)" using w by (simp_all add: working_def)
  show "test_verify_zero_pass env fs = Some (True, fs)" unfolding test_verify_zero_pass_def
  proof (rule on_image_passes [OF w])
    fix path assume pre: "\<forall>pre \<in> set blockdev_prefixes. \<not> prefix pre path"
    let ?fs = "fs(path \<mapsto> Reg (replicate (64 * 1024) 0xAA))"
    let ?opts = "block_erase_options_init\<lparr>beo_pattern := ERASE_PATTERN_ZERO, beo_block_size := 4096\<rparr>"
    obtain r progress where "block_erase_image (it_erase env) ?fs (Some path) (Some ?opts) (Some fresh_erase_result)
        = Some (ERASECURE_OK, Some r, ?fs(path \<mapsto> Reg (replicate (64 * 1024) 0)), progress)"
      using erase_image_call [OF coop(1), of ?fs path "replicate (64 * 1024) 0xAA" ?opts] pre
      by (auto simp: pass_bytes_const block_erase_options_init_def erase_limits clamp_passes_def)
    moreover have "vr_verification_passed (verified_zero env path (fs(path \<mapsto> Reg (replicate (64 * 1024) 0))))"
        "vr_blocks_failed (verified_zero env path (fs(path \<mapsto> Reg (replicate (64 * 1024) 0)))) = 0"
      using verified_zero_exact [OF coop(2), of "fs(path \<mapsto> Reg (replicate (64 * 1024) 0))" path] by simp_all
    ultimately show "\<exists>c. map_option (\<lambda>(err, result, fs', progress).
            (let vr = verified_zero env path fs' in (vr_verification_passed vr \<and> vr_blocks_failed vr = 0, fs')))
          (block_erase_image (it_erase env) ?fs (Some path) (Some ?opts) (Some fresh_erase_result))
        = Some (True, fs(path \<mapsto> Reg c))"
      by (intro exI [of _ "replicate (64 * 1024) 0"]) (simp add: Let_def)
  qed simp
  show "test_verify_detects_corruption env fs = Some (True, fs)" unfolding test_verify_detects_corruption_def
  proof (rule on_image_passes [OF w])
    fix path
    let ?fs = "fs(path \<mapsto> Reg (replicate (64 * 1024) 0xAA))"
    have "\<not> vr_verification_passed (verified_zero env path ?fs)" "vr_blocks_failed (verified_zero env path ?fs) \<noteq> 0"
      using verified_zero_exact [OF coop(2), of ?fs path] by simp_all
    then show "\<exists>c. (let vr = verified_zero env path ?fs in Some (\<not> vr_verification_passed vr \<and> vr_blocks_failed vr > 0, ?fs))
        = Some (True, fs(path \<mapsto> Reg c))" by (auto simp: Let_def)
  qed simp
qed

text \<open>
  C35. The driver \<open>block_erase_tests.c\<close> passes on every working system and leaves the file system as it was.
\<close>

theorem block_erase_tests_pass:
  assumes "\<And>i. working fs (env i)"
  shows "block_erase_tests_main env fs = Some (0, fs)"
proof -
  have "t (env i) fs = Some (True, fs)" if "t \<in> set block_erase_tests" for t i
    using that pattern_tests_pass [OF assms] verify_tests_pass [OF assms]
    by (auto simp: block_erase_tests_def test_safety_block_real_device_def test_safety_block_nvme_def
        test_options_init_defaults_def block_erase_options_init_def blockdev_prefixes_def intro!: rejects_device_passes)
  then have "run_tests block_erase_tests env 0 fs = Some (replicate (length block_erase_tests) True, fs)"
    by (rule run_tests_all)
  then show ?thesis by (simp add: block_erase_tests_main_def suite_exit_def)
qed

text \<open>A working system.\<close>

definition demo_test_env :: image_test_env where
  "demo_test_env =
     \<lparr>it_mkstemp = Some ''/tmp/erasecure_test_a'', it_room = 131072, it_erase = demo_env, it_verify = demo_verify_env,
      it_fopen_ok = True, it_fread = 1024, it_unlink = True\<rparr>"

lemma demo_test_env_working: "working Map.empty demo_test_env"
proof -
  have "cooperative_verify_env demo_verify_env"
    by (simp add: cooperative_verify_env_def demo_verify_env_def erase_limits)
  moreover have "\<exists>j < 256. the (env_rand demo_env 0) j \<noteq> 0xAA" by (intro exI [of _ 0]) (simp add: demo_env_def)
  ultimately show ?thesis using cooperative_demo_env
    by (auto simp: working_def demo_test_env_def blockdev_prefixes_def)
qed

theorem block_erase_tests_pass_witness: "block_erase_tests_main (\<lambda>_. demo_test_env) Map.empty = Some (0, Map.empty)"
  by (rule block_erase_tests_pass) (rule demo_test_env_working)

end
