(* ===== verification/Chain_Tests.thy ===== *)
theory Chain_Tests
  imports Image_Tests Audit_Trail
begin

text \<open>
  The driver \<open>tests/verification_tests.c\<close> over the model: digests, verification and the audit records. The two digest
  algorithms are the parameters \<open>sha256\<close> and \<open>sha512\<close>, as in \<open>Crypto\<close>; what a buffer holds before a call is \<open>[]\<close> or
  zeroes, and is overwritten.
\<close>

section \<open>Helpers\<close>

text \<open>A null pointer for \<open>fill\<close> means zeroes.\<close>

definition make_temp_file :: "image_test_env \<Rightarrow> filesys \<Rightarrow> byte option \<Rightarrow> nat \<Rightarrow> (string \<times> filesys) option" where
  "make_temp_file env fs fill nbytes = temp_file env fs (the_default 0 fill) nbytes"

definition on_temp_file :: "nat \<Rightarrow> (image_test_env \<Rightarrow> string \<Rightarrow> filesys \<Rightarrow> bool) \<Rightarrow> image_test" where
  "on_temp_file nbytes check env fs =
     (case make_temp_file env fs (Some 0x00) nbytes of None \<Rightarrow> Some (False, fs)
      | Some (path, fs1) \<Rightarrow> Some (check env path fs1, remove_test_image env path fs1))"

text \<open>What a stream delivers; reading that ends before the file does has ended with \<open>ferror\<close>.\<close>

definition stream_of :: "image_test_env \<Rightarrow> filesys \<Rightarrow> string \<Rightarrow> (byte list \<times> bool) option" where
  "stream_of env fs path =
     (if it_fopen_ok env
      then map_option (\<lambda>node. (take (it_fread env) (node_bytes node), it_fread env < length (node_bytes node))) (fs path)
      else None)"

definition pure_test :: "bool \<Rightarrow> image_test" where
  "pure_test verdict env fs = Some (verdict, fs)"

section \<open>Digest tests\<close>

definition sha256_of_nothing :: "byte list" where
  "sha256_of_nothing =
     [0xe3, 0xb0, 0xc4, 0x42, 0x98, 0xfc, 0x1c, 0x14, 0x9a, 0xfb, 0xf4, 0xc8, 0x99, 0x6f, 0xb9, 0x24,
      0x27, 0xae, 0x41, 0xe4, 0x64, 0x9b, 0x93, 0x4c, 0xa4, 0x95, 0x99, 0x1b, 0x78, 0x52, 0xb8, 0x55]"

text \<open>The digest of \<open>abc\<close> as the driver has it, which is not that of SHA-256.\<close>

definition expected_sha256_abc :: "byte list" where
  "expected_sha256_abc =
     [0xba, 0x78, 0x16, 0xbf, 0x8f, 0x01, 0xcf, 0xea, 0x41, 0x41, 0x40, 0xde, 0x5d, 0xae, 0x2e, 0xc7,
      0x3b, 0x00, 0x36, 0x1b, 0xb9, 0x2e, 0x4f, 0xde, 0x07, 0xe3, 0x87, 0x2a, 0x48, 0xa7, 0x85, 0xe9]"

definition sha512_of_nothing :: "byte list" where
  "sha512_of_nothing =
     [0xcf, 0x83, 0xe1, 0x35, 0x7e, 0xef, 0xb8, 0xbd, 0xf1, 0x54, 0x28, 0x50, 0xd6, 0x6d, 0x80, 0x07,
      0xd6, 0x20, 0xe4, 0x05, 0x0b, 0x57, 0x15, 0xdc, 0x83, 0xf4, 0xa9, 0x21, 0xd3, 0x6c, 0xe9, 0xce,
      0x47, 0xd0, 0xd1, 0x3c, 0x5d, 0x85, 0xf2, 0xb0, 0xff, 0x83, 0x18, 0xd2, 0x87, 0x7e, 0xec, 0x2f,
      0x63, 0xb9, 0x31, 0xbd, 0x47, 0x41, 0x7a, 0x81, 0xa5, 0x38, 0x32, 0x7a, 0xf9, 0x27, 0xda, 0x3e]"

text \<open>The call succeeds and \<open>memcmp\<close> finds the expected digest.\<close>

definition digest_is :: "'c evp \<Rightarrow> byte list \<Rightarrow> byte list \<Rightarrow> bool" where
  "digest_is md data expected =
     (case hash_buffer md (Some data) (Some (replicate (length expected) 0)) of
        (err, digest) \<Rightarrow> err = ERASECURE_OK \<and> take (length expected) (the digest) = expected)"

definition test_sha256_empty :: "'c evp \<Rightarrow> bool" where
  "test_sha256_empty sha256 = digest_is sha256 [] sha256_of_nothing"

definition test_sha256_abc :: "'c evp \<Rightarrow> bool" where
  "test_sha256_abc sha256 = digest_is sha256 (bytes_of ''abc'') expected_sha256_abc"

definition test_sha512_empty :: "'c evp \<Rightarrow> bool" where
  "test_sha512_empty sha512 = digest_is sha512 [] sha512_of_nothing"

definition test_hash_to_hex :: bool where
  "test_hash_to_hex = (the (hash_digest_to_hex (Some [0xDE, 0xAD, 0xBE, 0xEF]) 4 (Some [])) = ''deadbeef'')"

definition test_sha256_file :: "'c evp \<Rightarrow> image_test" where
  "test_sha256_file sha256 = on_temp_file 1024 (\<lambda>env path fs.
     case (hash_file sha256 (stream_of env fs) (Some path) (Some (replicate 32 0)),
           hash_buffer sha256 (Some (replicate 1024 0x00)) (Some (replicate 32 0))) of
       ((e1, digest_file), (e2, digest_buf)) \<Rightarrow>
         e1 = ERASECURE_OK \<and> e2 = ERASECURE_OK \<and> take 32 (the digest_file) = take 32 (the digest_buf))"

section \<open>Verification tests\<close>

definition test_verification_random_not_verifiable :: image_test where
  "test_verification_random_not_verifiable = on_temp_file 1024 (\<lambda>env path fs.
     fst (verify_image_pattern (it_verify env) fs (Some path) ERASE_PATTERN_RANDOM 512 VERIFY_FULL
            (Some fresh_verification)) = ERASECURE_ERR_UNSUPPORTED)"

definition test_verification_confidence_note_set :: image_test where
  "test_verification_confidence_note_set = on_temp_file 4096 (\<lambda>env path fs.
     length (vr_confidence_note (the (snd (verify_image_pattern (it_verify env) fs (Some path) ERASE_PATTERN_ZERO 512
       VERIFY_FULL (Some fresh_verification))))) > 0)"

section \<open>Audit tests\<close>

definition test_record :: "string \<Rightarrow> AuditRecord" where
  "test_record case_id = (the (audit_record_init (Some zero_audit_record)))\<lparr>au_case_id := cstr 64 case_id\<rparr>"

definition finalized :: "'c evp \<Rightarrow> AuditRecord \<Rightarrow> string \<Rightarrow> AuditRecord" where
  "finalized sha256 r prev_hash = the (snd (audit_record_finalize sha256 (Some r) (Some prev_hash)))"

definition test_audit_record_finalise_sets_hash :: "'c evp \<Rightarrow> bool" where
  "test_audit_record_finalise_sets_hash sha256 =
     (let r = (test_record ''TEST-CASE-001'')\<lparr>au_operation_id := cstr 64 ''OP-001''\<rparr>
      in case audit_record_finalize sha256 (Some r) (Some []) of
           (err, r') \<Rightarrow> err = ERASECURE_OK \<and> length (au_this_record_hash (the r')) = 64)"

definition test_audit_chain_different_prev :: "'c evp \<Rightarrow> bool" where
  "test_audit_chain_different_prev sha256 =
     (au_this_record_hash (finalized sha256 (test_record ''TEST'') ''aaaaaa'')
      \<noteq> au_this_record_hash (finalized sha256 (test_record ''TEST'') ''bbbbbb''))"

definition test_audit_chain_tamper_detection :: "'c evp \<Rightarrow> bool" where
  "test_audit_chain_tamper_detection sha256 =
     (let r = finalized sha256 (test_record ''TAMPER-TEST'') [];
          original_hash = cstr 65 (au_this_record_hash r);
          r' = finalized sha256 (r\<lparr>au_case_id := cstr 64 ''TAMPER-TEST-MODIFIED''\<rparr>) []
      in original_hash \<noteq> au_this_record_hash r')"

definition test_audit_to_json_non_empty :: "'c evp \<Rightarrow> (int \<Rightarrow> string option) \<Rightarrow> bool" where
  "test_audit_to_json_non_empty sha256 gm =
     (case audit_record_to_json gm (Some (finalized sha256 (test_record ''JSON-TEST'') [])) (Some []) 8192 of
        (n, buf) \<Rightarrow> n > 0 \<and> (case the buf of [] \<Rightarrow> False | c # cs \<Rightarrow> c = CHR ''{''))"

text \<open>The log is the empty file that \<open>mkstemp\<close> made; \<open>fgets\<close> gives a line when there is a byte to read.\<close>

definition test_audit_log_file_append :: "'c evp \<Rightarrow> (int \<Rightarrow> string option) \<Rightarrow> log_env \<Rightarrow> image_test" where
  "test_audit_log_file_append sha256 gm log env fs =
     (case temp_file env fs 0 0 of None \<Rightarrow> Some (False, fs)
      | Some (log_path, fs1) \<Rightarrow>
          (case audit_log_append_file log gm fs1 (Some log_path) (Some (finalized sha256 (test_record ''LOG-TEST'') [])) of
             (err, fs2) \<Rightarrow>
               let has_content = (it_fopen_ok env \<and> file_bytes fs2 log_path \<noteq> [])
               in Some (err = ERASECURE_OK \<and> has_content, remove_test_image env log_path fs2)))"

definition verification_tests :: "'c evp \<Rightarrow> 'd evp \<Rightarrow> (int \<Rightarrow> string option) \<Rightarrow> log_env \<Rightarrow> image_test list" where
  "verification_tests sha256 sha512 gm log =
     [pure_test (test_sha256_empty sha256), pure_test (test_sha256_abc sha256), pure_test (test_sha512_empty sha512),
      pure_test test_hash_to_hex, test_sha256_file sha256,
      test_verification_random_not_verifiable, test_verification_confidence_note_set,
      pure_test (test_audit_record_finalise_sets_hash sha256), pure_test (test_audit_chain_different_prev sha256),
      pure_test (test_audit_chain_tamper_detection sha256), pure_test (test_audit_to_json_non_empty sha256 gm),
      test_audit_log_file_append sha256 gm log]"

definition verification_tests_main ::
    "'c evp \<Rightarrow> 'd evp \<Rightarrow> (int \<Rightarrow> string option) \<Rightarrow> log_env \<Rightarrow> (nat \<Rightarrow> image_test_env) \<Rightarrow> filesys
     \<Rightarrow> (int \<times> filesys) option" where
  "verification_tests_main sha256 sha512 gm log env fs =
     map_option (\<lambda>(vs, fs'). (suite_exit vs, fs')) (run_tests (verification_tests sha256 sha512 gm log) env 0 fs)"

section \<open>The driver on a working system\<close>

text \<open>
  What the driver relies on in a digest library: every call succeeds and gives the digest of the data, of fixed length,
  whichever way the data are cut; and the four records that are compared do not collide.
\<close>

definition digests :: "'c evp \<Rightarrow> (byte list \<Rightarrow> byte list) \<Rightarrow> nat \<Rightarrow> bool" where
  "digests md sha n \<longleftrightarrow> evp_incremental md \<and> (\<forall>data. length (sha data) = n)
     \<and> (\<forall>data out. hash_buffer md (Some data) (Some out) = (ERASECURE_OK, Some (sha data)))"

definition hashed_text :: "string \<Rightarrow> string \<Rightarrow> byte list" where
  "hashed_text case_id prev_hash = bytes_of (canonical_string (link_record (Some prev_hash) (test_record case_id)))"

definition no_collision :: "(byte list \<Rightarrow> byte list) \<Rightarrow> bool" where
  "no_collision sha \<longleftrightarrow> inj_on sha {hashed_text ''TEST'' ''aaaaaa'', hashed_text ''TEST'' ''bbbbbb'',
     hashed_text ''TAMPER-TEST'' [], hashed_text ''TAMPER-TEST-MODIFIED'' []}"

lemma bytes_of_eq [simp]: "bytes_of s = bytes_of t \<longleftrightarrow> s = t"
  using text_of_bytes_of by metis

lemma hex_eq: "concat (map hex2 d) = concat (map hex2 e) \<longleftrightarrow> d = e"
  using hex_decode_concat by metis

lemma hashed_text_differ:
  "hashed_text ''TEST'' ''aaaaaa'' \<noteq> hashed_text ''TEST'' ''bbbbbb''"
  "hashed_text ''TAMPER-TEST'' [] \<noteq> hashed_text ''TAMPER-TEST-MODIFIED'' []"
  by (simp_all add: hashed_text_def canonical_string_def link_record_def test_record_def cstr_def)

lemma wf_test_record: "wf_audit (test_record case_id)"
  by (simp add: wf_audit_def test_record_def audit_record_init_def zero_audit_record_def length_cstr)

lemma finalize_digests:
  assumes "digests md sha 32" "wf_audit r"
  shows "audit_record_finalize md (Some r) (Some prev_hash) = (ERASECURE_OK, Some ((link_record (Some prev_hash) r)
    \<lparr>au_this_record_hash := concat (map hex2 (sha (bytes_of (canonical_string (link_record (Some prev_hash) r)))))\<rparr>))"
proof -
  have "hash_digest_to_hex (Some (sha data)) 32 (Some out) = Some (concat (map hex2 (sha data)))" for data out
    using hash_digest_to_hex_all [of "sha data" out] assms(1) by (simp add: digests_def)
  with assms(1) show ?thesis by (simp add: finalize_within_buffer [OF assms(2)] digests_def)
qed

lemma length_hex: "length (concat (map hex2 d)) = 2 * length d"
  by (induction d) simp_all

lemma finalized_fields:
  assumes "digests md sha 32"
  shows "au_this_record_hash (finalized md (test_record c) p) = concat (map hex2 (sha (hashed_text c p)))"
    "wf_audit (finalized md (test_record c) p)"
proof -
  show "au_this_record_hash (finalized md (test_record c) p) = concat (map hex2 (sha (hashed_text c p)))"
    using finalize_digests [OF assms wf_test_record] by (simp add: finalized_def hashed_text_def)
  have "length (concat (map hex2 (sha x))) = 64" for x using assms length_hex [of "sha x"] by (simp add: digests_def)
  then show "wf_audit (finalized md (test_record c) p)"
    using finalize_digests [OF assms wf_test_record, of c p] wf_link [OF wf_test_record, of "Some p" c]
    by (simp add: finalized_def wf_audit_def)
qed

lemma tampered_hash:
  assumes "digests md sha 32"
  shows "au_this_record_hash (finalized md ((finalized md (test_record c) [])\<lparr>au_case_id := cstr 64 c'\<rparr>) [])
    = concat (map hex2 (sha (hashed_text c' [])))"
proof -
  let ?r = "(finalized md (test_record c) [])\<lparr>au_case_id := cstr 64 c'\<rparr>"
  have "wf_audit ?r" using finalized_fields(2) [OF assms, of c "[]"] by (simp add: wf_audit_def length_cstr)
  moreover have "canonical_string (link_record (Some []) ?r) = canonical_string (link_record (Some []) (test_record c'))"
    using finalize_digests [OF assms wf_test_record, of c "[]"]
    by (simp add: finalized_def canonical_string_def link_record_def test_record_def)
  ultimately show ?thesis
    using finalize_digests [OF assms, of ?r "[]"] by (simp add: finalized_def [of md ?r] hashed_text_def)
qed

lemma chain_tests_pass:
  assumes sha: "digests sha256 sha 32" "no_collision sha"
  shows "test_audit_record_finalise_sets_hash sha256" "test_audit_chain_different_prev sha256"
    "test_audit_chain_tamper_detection sha256" "test_audit_to_json_non_empty sha256 gm"
proof -
  have differ: "sha (hashed_text ''TEST'' ''aaaaaa'') \<noteq> sha (hashed_text ''TEST'' ''bbbbbb'')"
      "sha (hashed_text ''TAMPER-TEST'' []) \<noteq> sha (hashed_text ''TAMPER-TEST-MODIFIED'' [])"
    using sha(2) hashed_text_differ unfolding no_collision_def inj_on_def by blast+
  show "test_audit_chain_different_prev sha256"
    using differ(1) by (simp add: test_audit_chain_different_prev_def finalized_fields [OF sha(1)] hex_eq)
  have "cstr 65 (concat (map hex2 (sha x))) = concat (map hex2 (sha x))" for x
    using sha(1) length_hex [of "sha x"] by (simp add: digests_def cstr_def)
  then show "test_audit_chain_tamper_detection sha256"
    using differ(2)
    unfolding test_audit_chain_tamper_detection_def Let_def tampered_hash [OF sha(1)] finalized_fields(1) [OF sha(1)]
    by (simp add: hex_eq)
  have "wf_audit ((test_record ''TEST-CASE-001'')\<lparr>au_operation_id := cstr 64 ''OP-001''\<rparr>)"
    using wf_test_record by (simp add: wf_audit_def length_cstr)
  from finalize_digests [OF sha(1) this] show "test_audit_record_finalise_sets_hash sha256"
    using sha(1) length_hex by (simp add: test_audit_record_finalise_sets_hash_def digests_def)
  show "test_audit_to_json_non_empty sha256 gm"
    by (simp add: test_audit_to_json_non_empty_def audit_record_to_json_def record_json_def json_object_def cstr_def)
qed

lemma on_temp_file_passes:
  assumes "working fs env" "nbytes \<le> 131072"
    and "\<And>path. check env path (fs(path \<mapsto> Reg (replicate nbytes 0)))"
  shows "on_temp_file nbytes check env fs = Some (True, fs)"
proof -
  obtain path where path: "it_mkstemp env = Some path" "fs path = None" using assms(1) by (auto simp: working_def)
  have "min nbytes (it_room env) = nbytes" using assms(1,2) by (simp add: working_def)
  moreover have "fs(path := None) = fs" using path(2) by auto
  ultimately show ?thesis using path(1) assms(3)
    using assms(1) by (simp add: on_temp_file_def make_temp_file_def temp_file_def remove_test_image_def working_def)
qed

lemma file_tests_pass:
  assumes w: "working fs env" and sha: "digests sha256 sha 32"
  shows "test_sha256_file sha256 env fs = Some (True, fs)"
    "test_verification_random_not_verifiable env fs = Some (True, fs)"
    "test_verification_confidence_note_set env fs = Some (True, fs)"
proof -
  have "stream_of env (fs(path \<mapsto> Reg (replicate 1024 0))) path = Some (replicate 1024 0, False)" for path
    using w by (simp add: stream_of_def working_def)
  then have "hash_file sha256 (stream_of env (fs(path \<mapsto> Reg (replicate 1024 0)))) (Some path) (Some out)
      = (ERASECURE_OK, Some (sha (replicate 1024 0)))" for path out
    using hash_file_eq_buffer [of sha256 "stream_of env (fs(path \<mapsto> Reg (replicate 1024 0)))" path] sha
    by (simp add: digests_def)
  then show "test_sha256_file sha256 env fs = Some (True, fs)"
    unfolding test_sha256_file_def using sha
    by (intro on_temp_file_passes [OF w]) (simp_all add: digests_def)
  show "test_verification_random_not_verifiable env fs = Some (True, fs)"
    unfolding test_verification_random_not_verifiable_def
    by (rule on_temp_file_passes [OF w]) (simp_all add: verify_image_pattern_def)
  show "test_verification_confidence_note_set env fs = Some (True, fs)"
    unfolding test_verification_confidence_note_set_def
    by (rule on_temp_file_passes [OF w]) (simp_all add: verify_image_pattern_def split_beta scope_note_def cstr_def)
qed

lemma append_test_passes:
  assumes w: "working fs env" and sha: "digests sha256 sha 32" and log: "log_fopen_ok log" "log_fprintf_ok log" "8192 \<le> log_reached log"
  shows "test_audit_log_file_append sha256 gm log env fs = Some (True, ensure_dir (log_mkdir_ok log) fs ''data/logs'')"
proof -
  obtain path where path: "it_mkstemp env = Some path" "fs path = None" "prefix ''/tmp/erasecure_'' path"
    using w by (auto simp: working_def)
  let ?r = "finalized sha256 (test_record ''LOG-TEST'') []" and ?fs = "fs(path \<mapsto> Reg [])"
  have "path \<noteq> ''data/logs''" using path(3) by auto
  then have dir: "(ensure_dir ok ?fs ''data/logs'')(path := None) = ensure_dir ok fs ''data/logs''" for ok
    using path(2) by (auto simp: ensure_dir_def fun_upd_def)
  define json where "json = bytes_of (record_json gm ?r @ [newline])"
  have "audit_log_append_file log gm ?fs (Some path) (Some ?r) = (ERASECURE_OK,
      (ensure_dir (log_mkdir_ok log) ?fs ''data/logs'')(path \<mapsto> Reg (file_bytes ?fs path @ json)))"
    using finalized_fields(2) [OF sha, of "''LOG-TEST''" "[]"] log
      length_record_json [OF finalized_fields(2) [OF sha, of "''LOG-TEST''" "[]"], of gm]
    by (simp add: audit_log_append_file_def to_json_fits Let_def json_def bytes_of_def)
  moreover have "json \<noteq> []" by (simp add: json_def bytes_of_def)
  ultimately show ?thesis
    using path(1) w dir by (simp add: test_audit_log_file_append_def temp_file_def Let_def file_bytes_def remove_test_image_def working_def)
qed

lemma run_tests_append:
  "run_tests (ts @ us) env i fs = (case run_tests ts env i fs of None \<Rightarrow> None
    | Some (vs, fs1) \<Rightarrow> map_option (\<lambda>(ws, fs2). (vs @ ws, fs2)) (run_tests us env (i + length ts) fs1))"
proof (induction ts arbitrary: i fs)
  case Nil
  show ?case by (simp add: option.map_id)
next
  case (Cons t ts)
  then show ?case by (simp add: option.map_comp comp_def split_beta split: option.split)
qed

text \<open>The digest of \<open>abc\<close> in the examples of FIPS 180.\<close>

definition sha256_of_abc :: "byte list" where
  "sha256_of_abc =
     [0xba, 0x78, 0x16, 0xbf, 0x8f, 0x01, 0xcf, 0xea, 0x41, 0x41, 0x40, 0xde, 0x5d, 0xae, 0x22, 0x23,
      0xb0, 0x03, 0x61, 0xa3, 0x96, 0x17, 0x7a, 0x9c, 0xb4, 0x10, 0xff, 0x61, 0xf2, 0x00, 0x15, 0xad]"

text \<open>
  On a working system the driver \<open>verification_tests.c\<close> fails by one test, through no fault of the code: with the
  digests that the standards give, every test passes but the second, whose expected digest of \<open>abc\<close> is not that of
  SHA-256. The driver leaves the file system as it was, but for the directory of the logs.
\<close>

theorem verification_tests_fail:
  assumes env: "\<And>i. working fs (env i)" and log: "log_fopen_ok log" "log_fprintf_ok log" "8192 \<le> log_reached log"
    and sha256: "digests sha256 sha 32" "sha [] = sha256_of_nothing" "sha (bytes_of ''abc'') = sha256_of_abc" "no_collision sha"
    and sha512: "digests sha512 sha' 64" "sha' [] = sha512_of_nothing"
  shows "run_tests (verification_tests sha256 sha512 gm log) env 0 fs
      = Some ([True, False] @ replicate 10 True, ensure_dir (log_mkdir_ok log) fs ''data/logs'')
    \<and> verification_tests_main sha256 sha512 gm log env fs = Some (1, ensure_dir (log_mkdir_ok log) fs ''data/logs'')"
proof -
  define ts where "ts = butlast (verification_tests sha256 sha512 gm log)"
  have ts: "verification_tests sha256 sha512 gm log = ts @ [test_audit_log_file_append sha256 gm log]"
    by (simp add: ts_def verification_tests_def)
  have vectors: "test_sha256_empty sha256" "\<not> test_sha256_abc sha256" "test_sha512_empty sha512"
    using sha256(1-3) sha512
    by (simp_all add: test_sha256_empty_def test_sha256_abc_def test_sha512_empty_def digest_is_def digests_def
        sha256_of_abc_def expected_sha256_abc_def)
  have hex: test_hash_to_hex
    by (simp add: test_hash_to_hex_def hash_digest_to_hex_def hex2_def digit_char_def upt_rec)
  let ?vs = "[True, False, True, True, True, True, True, True, True, True, True]"
  have "list_all2 (\<lambda>t v. \<forall>i. t (env i) fs = Some (v, fs)) ts ?vs"
    using vectors hex chain_tests_pass [OF sha256(1,4)] file_tests_pass [OF env sha256(1)]
    by (simp add: ts_def verification_tests_def pure_test_def)
  then have "run_tests ts env 0 fs = Some (?vs, fs)" by (rule run_tests_keep)
  then have run: "run_tests (verification_tests sha256 sha512 gm log) env 0 fs
      = Some (?vs @ [True], ensure_dir (log_mkdir_ok log) fs ''data/logs'')"
    using append_test_passes [OF env sha256(1) log, of gm] by (simp add: ts run_tests_append)
  then show ?thesis by (simp add: verification_tests_main_def suite_exit_def numeral_eq_Suc)
qed

text \<open>Two digest libraries with the vectors: they keep the data and look up, or take the length and the last byte.\<close>

definition demo_library :: "(byte list \<Rightarrow> byte list) \<Rightarrow> byte list evp" where
  "demo_library sha =
     \<lparr>evp_ctx_new_ok = True, evp_init = Some [], evp_update = (\<lambda>c d. Some (c @ d)), evp_final = (\<lambda>c. Some (sha c))\<rparr>"

definition demo_sha256 :: "byte list \<Rightarrow> byte list" where
  "demo_sha256 data =
     (if data = [] then sha256_of_nothing else if data = bytes_of ''abc'' then sha256_of_abc
      else [word_of_nat (length data), last data] @ replicate 30 0)"

definition demo_sha512 :: "byte list \<Rightarrow> byte list" where
  "demo_sha512 data = (if data = [] then sha512_of_nothing else replicate 64 0)"

lemma demo_library_digests: "(\<And>data. length (sha data) = n) \<Longrightarrow> digests (demo_library sha) sha n"
  by (simp add: digests_def evp_incremental_def demo_library_def hash_buffer_def evp_hash_buffer_def)

lemma demo_values:
  "map demo_sha256 [hashed_text ''TEST'' ''aaaaaa'', hashed_text ''TEST'' ''bbbbbb'', hashed_text ''TAMPER-TEST'' [],
     hashed_text ''TAMPER-TEST-MODIFIED'' []] =
   map (\<lambda>h. h @ replicate 30 0) [[236, 97], [236, 98], [237, 61], [246, 61]]"
  by code_simp

lemma demo_sha256_digests: "digests (demo_library demo_sha256) demo_sha256 32" "no_collision demo_sha256"
proof -
  show "digests (demo_library demo_sha256) demo_sha256 32"
    by (rule demo_library_digests) (simp add: demo_sha256_def sha256_of_nothing_def sha256_of_abc_def)
  show "no_collision demo_sha256" using demo_values by (auto simp: no_collision_def inj_on_def)
qed

theorem verification_tests_fail_witness:
  "verification_tests_main (demo_library demo_sha256) (demo_library demo_sha512) (\<lambda>_. None) demo_log_env (\<lambda>_. demo_test_env)
     Map.empty = Some (1, [''data/logs'' \<mapsto> DirNode])"
proof -
  have sha512: "digests (demo_library demo_sha512) demo_sha512 64"
    by (rule demo_library_digests) (simp add: demo_sha512_def sha512_of_nothing_def)
  have vectors: "demo_sha256 [] = sha256_of_nothing" "demo_sha256 (bytes_of ''abc'') = sha256_of_abc" "demo_sha512 [] = sha512_of_nothing"
    by (simp_all add: demo_sha256_def demo_sha512_def bytes_of_def)
  have log: "log_fopen_ok demo_log_env" "log_fprintf_ok demo_log_env" "8192 \<le> log_reached demo_log_env" by (simp_all add: demo_log_env_def)
  from verification_tests_fail [OF demo_test_env_working log demo_sha256_digests(1) vectors(1,2) demo_sha256_digests(2) sha512 vectors(3)]
  have "verification_tests_main (demo_library demo_sha256) (demo_library demo_sha512) (\<lambda>_. None) demo_log_env (\<lambda>_. demo_test_env)
     Map.empty = Some (1, ensure_dir (log_mkdir_ok demo_log_env) Map.empty ''data/logs'')" by blast
  then show ?thesis by (simp add: demo_log_env_def ensure_dir_def)
qed

end
