(* ===== verification/File_Tests.thy ===== *)
theory File_Tests
  imports Folder_Eraser Unit_Tests
begin

text \<open>
  The driver \<open>tests/file_eraser_tests.c\<close> over the model: the eraser of files, the read-back, the metadata and the
  options. One record of options goes through the first five tests, each changing some of its fields.
\<close>

text \<open>
  The system of one test: the name of the file that \<open>mkstemp\<close> or, failing that, \<open>fopen\<close> made, the bytes that were taken
  of its content, the answers to the eraser, what \<open>malloc\<close> returns, and the answers to \<open>metadata_erase\<close>.
\<close>

record file_test_env =
  ft_name :: "string option"
  ft_taken :: nat
  ft_env :: file_env
  ft_junk :: "byte list"
  ft_lstat_ok :: bool
  ft_utimens_ok :: bool
  ft_list_size :: int
  ft_malloc_ok :: bool
  ft_listing :: "byte list option"
  ft_remove :: "byte list \<Rightarrow> bool"
  ft_attrs :: "byte list list"

section \<open>Helpers\<close>

definition create_temp_test_file :: "file_test_env \<Rightarrow> filesys \<Rightarrow> byte list \<Rightarrow> (string \<times> filesys) option" where
  "create_temp_test_file env fs content =
     map_option (\<lambda>p. (p, fs(p \<mapsto> Reg (take (ft_taken env) content)))) (ft_name env)"

text \<open>
  A test leaves its verdicts, none when its file could not be made, the options for the tests after it and the file
  system; \<open>None\<close> is a test that does not return. The options are changed once the file is there.
\<close>

type_synonym file_test = "file_test_env \<Rightarrow> FileEraseOptions \<Rightarrow> filesys \<Rightarrow> (bool list \<times> FileEraseOptions \<times> filesys) option"

definition on_test_file :: "byte list \<Rightarrow> (FileEraseOptions \<Rightarrow> FileEraseOptions)
    \<Rightarrow> (FileEraseOptions \<Rightarrow> file_test_env \<Rightarrow> string \<Rightarrow> filesys \<Rightarrow> (bool \<times> filesys) option) \<Rightarrow> file_test" where
  "on_test_file content change body env fopts fs =
     (case create_temp_test_file env fs content of None \<Rightarrow> Some ([], fopts, fs)
      | Some (p, fs1) \<Rightarrow> map_option (\<lambda>(v, fs2). ([v], change fopts, fs2)) (body (change fopts) env p fs1))"

definition secret :: "byte list" where
  "secret = bytes_of ''TOP SECRET EVIDENCE DATA TO DESTROY 1234567890''"

definition erase_file :: "file_test_env \<Rightarrow> filesys \<Rightarrow> string \<Rightarrow> FileEraseOptions
    \<Rightarrow> (ErasecureError \<times> FileEraseResult option \<times> filesys) option" where
  "erase_file env fs p fopts = file_erase (ft_env env) (ft_junk env) fs (Some p) (Some fopts) (Some (fresh_file_result []))"

definition unlink_file :: "file_test_env \<Rightarrow> string \<Rightarrow> filesys \<Rightarrow> filesys" where
  "unlink_file env p fs = (if fe_unlink (ft_env env) p then fs(p := None) else fs)"

text \<open>Erase the file, check the outcome, remove the file.\<close>

definition erase_and_unlink :: "(ErasecureError \<Rightarrow> FileEraseResult \<Rightarrow> bool) \<Rightarrow> FileEraseOptions
    \<Rightarrow> file_test_env \<Rightarrow> string \<Rightarrow> filesys \<Rightarrow> (bool \<times> filesys) option" where
  "erase_and_unlink check fopts env p fs =
     map_option (\<lambda>(err, res, fs'). (check err (the res), unlink_file env p fs')) (erase_file env fs p fopts)"

section \<open>The tests\<close>

definition test_file_options :: file_test where
  "test_file_options env junk fs =
     (let fopts = the (file_erase_options_init (Some junk))
      in Some ([feo_pattern fopts = ERASE_PATTERN_ZERO \<and> feo_passes fopts = 1], fopts, fs))"

definition test_erase_zero :: file_test where
  "test_erase_zero = on_test_file secret (\<lambda>fopts. fopts\<lparr>feo_remove_file := False, feo_verify_after := True\<rparr>)
     (erase_and_unlink (\<lambda>err res. err = ERASECURE_OK \<and> fer_passes_completed res = 1))"

definition test_erase_one :: file_test where
  "test_erase_one = on_test_file secret
     (\<lambda>fopts. fopts\<lparr>feo_pattern := ERASE_PATTERN_ONE, feo_remove_file := False, feo_verify_after := True\<rparr>)
     (erase_and_unlink (\<lambda>err res. err = ERASECURE_OK \<and> fer_verification_passed res))"

definition test_erase_random :: file_test where
  "test_erase_random = on_test_file secret
     (\<lambda>fopts. fopts\<lparr>feo_pattern := ERASE_PATTERN_RANDOM, feo_remove_file := False, feo_verify_after := False\<rparr>)
     (erase_and_unlink (\<lambda>err res. err = ERASECURE_OK \<and> length secret \<le> fer_bytes_written res))"

text \<open>\<open>stat\<close> fails when the path is gone.\<close>

definition test_erase_removes :: file_test where
  "test_erase_removes = on_test_file secret (\<lambda>fopts. fopts\<lparr>feo_pattern := ERASE_PATTERN_ZERO, feo_remove_file := True\<rparr>)
     (\<lambda>fopts env p fs.
        map_option (\<lambda>(err, res, fs'). (err = ERASECURE_OK \<and> fs' p = None \<and> fer_file_removed (the res), fs'))
          (erase_file env fs p fopts))"

definition test_rejects :: "string \<Rightarrow> file_test" where
  "test_rejects path env fopts fs =
     map_option (\<lambda>(err, res, fs'). ([err = ERASECURE_ERR_DANGEROUS_PATH \<or> err = ERASECURE_ERR_INVALID_ARG], fopts, fs'))
       (erase_file env fs path fopts)"

definition test_metadata :: file_test where
  "test_metadata = on_test_file secret (\<lambda>fopts. fopts) (\<lambda>_ env p fs.
     case metadata_erase (ft_lstat_ok env) (ft_utimens_ok env) (ft_list_size env) (ft_malloc_ok env) (ft_listing env)
            (ft_remove env) (ft_attrs env) (Some p)
            (Some \<lparr>mer_timestamps_cleared = False, mer_name_removed = False, mer_xattrs_cleared = False,
                   mer_limitation_note = []\<rparr>) of
       (err, mres, _) \<Rightarrow> Some (err = ERASECURE_OK \<and> mer_limitation_note (the mres) \<noteq> [], unlink_file env p fs))"

definition test_file_verify :: file_test where
  "test_file_verify = on_test_file (replicate 16 0) (\<lambda>fopts. fopts) (\<lambda>_ env p fs.
     case file_verify_pattern (ft_env env) fs (Some p) ERASE_PATTERN_ZERO (Some zero_verify_result) of
       (err, vres) \<Rightarrow> Some (err = ERASECURE_OK \<and> fvr_passed (the vres) \<and> fvr_bytes_mismatched (the vres) = 0, unlink_file env p fs))"

text \<open>What the structure holds before it is initialised is \<open>junk\<close>.\<close>

definition test_folder_options :: "FolderEraseOptions \<Rightarrow> file_test" where
  "test_folder_options junk env fopts fs =
     (let fld_opts = the (folder_erase_options_init (Some junk))
      in Some ([doo_remove_dirs fld_opts = True \<and> doo_max_depth fld_opts > 0], fopts, fs))"

definition file_eraser_tests :: "FolderEraseOptions \<Rightarrow> file_test list" where
  "file_eraser_tests junk =
     [test_file_options, test_erase_zero, test_erase_one, test_erase_random, test_erase_removes,
      test_rejects ''/'', test_rejects ''/etc'', test_metadata, test_file_verify, test_folder_options junk]"

fun run_file_tests :: "file_test list \<Rightarrow> (nat \<Rightarrow> file_test_env) \<Rightarrow> nat \<Rightarrow> FileEraseOptions \<Rightarrow> filesys
    \<Rightarrow> (bool list \<times> filesys) option" where
  "run_file_tests [] env i fopts fs = Some ([], fs)"
| "run_file_tests (t # ts) env i fopts fs =
     (case t (env i) fopts fs of None \<Rightarrow> None
      | Some (vs, fopts1, fs1) \<Rightarrow>
          map_option (\<lambda>(ws, fs2). (vs @ ws, fs2)) (run_file_tests ts env (Suc i) fopts1 fs1))"

definition file_eraser_tests_main ::
    "FileEraseOptions \<Rightarrow> FolderEraseOptions \<Rightarrow> (nat \<Rightarrow> file_test_env) \<Rightarrow> filesys \<Rightarrow> (int \<times> filesys) option" where
  "file_eraser_tests_main junk junk' env fs =
     map_option (\<lambda>(vs, fs'). (suite_exit vs, fs')) (run_file_tests (file_eraser_tests junk') env 0 junk fs)"

section \<open>The driver\<close>

text \<open>
  The driver fails on every system: its first test expects the pattern zero and one pass, the defaults are the random
  pattern and three passes.
\<close>

lemma first_file_test:
  "\<exists>fopts. test_file_options env junk fs = Some ([False], fopts, fs) \<and> feo_passes fopts = 3"
  by (simp add: test_file_options_def file_erase_options_init_def)

lemma file_eraser_tests_never_pass: "file_eraser_tests_main junk junk' env fs \<noteq> Some (0, fs')"
proof
  assume "file_eraser_tests_main junk junk' env fs = Some (0, fs')"
  then obtain vs fs2 where vs: "run_file_tests (file_eraser_tests junk') env 0 junk fs = Some (vs, fs2)" "suite_exit vs = 0"
    by (auto simp: file_eraser_tests_main_def)
  obtain fopts where "test_file_options (env 0) junk fs = Some ([False], fopts, fs)" using first_file_test by blast
  with vs(1) have "False \<in> set vs" by (auto simp: file_eraser_tests_def)
  with vs(2) show False by (auto simp: suite_exit_0)
qed

text \<open>
  A working system: the files are new, under no dangerous path and hold what was written; every call does what it is asked
  for, and \<open>/\<close> and \<open>/etc\<close> are directories.
\<close>

definition file_system_works :: "filesys \<Rightarrow> file_test_env \<Rightarrow> bool" where
  "file_system_works fs env \<longleftrightarrow>
     (\<exists>p. ft_name env = Some p \<and> fs p = None \<and> \<not> is_dangerous_path p)
     \<and> length secret \<le> ft_taken env \<and> ft_lstat_ok env \<and> fs ''/'' = Some DirNode \<and> fs ''/etc'' = Some DirNode
     \<and> (\<forall>p. fe_lstat_ok (ft_env env) p \<and> fe_open_write (ft_env env) p \<and> fe_open_read (ft_env env) p
          \<and> fe_malloc (ft_env env) p \<and> fe_malloc_verify (ft_env env) p \<and> fe_unlink (ft_env env) p
          \<and> (\<forall>k. fe_write (ft_env env) p k = Some CHUNK_SIZE) \<and> (\<forall>k. fe_read (ft_env env) p k \<noteq> None))"

lemma one_chunk_loop:
  assumes "0 < n" "n \<le> CHUNK_SIZE" "fe_write env p (fw_calls st) = Some CHUNK_SIZE"
  shows "\<exists>st'. file_write_loop env p pattern n st = Some (True, st') \<and> fw_written st' = wrap64 (fw_written st + n)"
proof -
  obtain st' where c: "file_chunk env p pattern n st = (Some n, st')" "fw_written st' = wrap64 (fw_written st + n)"
    using assms by (simp add: file_chunk_def Let_def min_def)
  have "file_write_loop env p pattern 0 st' = Some (True, st')" by (subst file_write_loop.simps) simp
  with c assms(1) show ?thesis by (subst file_write_loop.simps) simp
qed

lemma small_file_passes:
  assumes "0 < n" "n \<le> CHUNK_SIZE" "\<And>k. fe_write env p k = Some CHUNK_SIZE" "fw_written st < 2 ^ 64"
  shows "\<exists>st'. file_passes m env p pattern n k st = Some (True, k + m, st') \<and> fw_written st' = wrap64 (fw_written st + m * n)"
  using assms(4)
proof (induction m arbitrary: k st)
  case (Suc m)
  let ?st = "st\<lparr>fw_pos := 0, fw_buf := pass_buffer pattern (fw_buf st)\<rparr>"
  obtain st1 where st1: "file_write_loop env p pattern n ?st = Some (True, st1)" "fw_written st1 = wrap64 (fw_written st + n)"
    using one_chunk_loop [where st = ?st, OF assms(1,2) assms(3), of pattern] by auto
  have "fw_written st1 < 2 ^ 64" unfolding st1(2) by (rule wrap64_bound)
  from Suc.IH [OF this, of "k + 1"] st1 show ?case by (auto simp: add.assoc)
qed simp

lemma length_secret [simp]: "length secret = 46"
  by (simp add: secret_def bytes_of_def)

lemma erase_secret:
  assumes sys: "file_system_works fs0 env" and p: "\<not> is_dangerous_path p" "fs p = Some (Reg secret)"
    and three: "feo_passes opts = 3"
  shows "\<exists>r c. erase_file env fs p opts = Some (ERASECURE_OK, Some r, if feo_remove_file opts then fs(p := None) else fs(p \<mapsto> Reg c))
    \<and> fer_passes_completed r = 3 \<and> fer_bytes_written r = 138
    \<and> (feo_remove_file opts \<longrightarrow> fer_file_removed r)
    \<and> (feo_verify_after opts \<and> feo_pattern opts \<noteq> ERASE_PATTERN_RANDOM \<longrightarrow> fer_verification_passed r)"
proof -
  let ?env = "ft_env env"
  have sysc: "fe_lstat_ok ?env p" "fe_open_write ?env p" "fe_open_read ?env p" "fe_malloc ?env p" "fe_malloc_verify ?env p"
      "fe_unlink ?env p" "\<And>k. fe_write ?env p k = Some CHUNK_SIZE" "\<And>k. fe_read ?env p k \<noteq> None"
    using sys by (simp_all add: file_system_works_def)
  let ?st = "\<lparr>fw_content = secret, fw_buf = ft_junk env, fw_pos = 0, fw_calls = 0, fw_written = 0\<rparr>"
  have "\<exists>st'. file_passes 3 ?env p (feo_pattern opts) 46 0 ?st = Some (True, 0 + 3, st')
      \<and> fw_written st' = wrap64 (fw_written ?st + 3 * 46)"
    by (rule small_file_passes) (simp_all add: CHUNK_SIZE_def sysc(7) del: file_passes.simps)
  then obtain st where st: "file_passes 3 ?env p (feo_pattern opts) 46 0 ?st = Some (True, 3, st)" "fw_written st = 138"
    by auto
  define fs1 where "fs1 = fs(p \<mapsto> Reg (fw_content st))"
  define r where "r = (fresh_file_result p)\<lparr>fer_original_size := 46, fer_bytes_written := 138, fer_passes_completed := 3\<rparr>"
  have call: "erase_file env fs p opts = map_option (\<lambda>(e, r', fs'). (e, Some r', fs')) (Some (file_finish ?env p opts r fs1))"
    unfolding erase_file_def
    using st file_erase_Reg [of p ?env fs secret "ft_junk env" opts "fresh_file_result []"] p sysc three
    by (simp add: file_overwrite_def lstat_def Let_def fs1_def r_def del: file_passes.simps)
  have verified: "fvr_passed (the (snd (file_verify_pattern ?env fs1 (Some p) (feo_pattern opts) (Some zero_verify_result))))"
    if "feo_pattern opts \<noteq> ERASE_PATTERN_RANDOM"
  proof -
    from file_passes_overwrites [OF st(1) that] have "fw_content st = replicate 46 (expected_byte (feo_pattern opts))" by simp
    then have "lstat ?env fs1 p = Some (Reg (replicate 46 (expected_byte (feo_pattern opts))))"
      using sysc(1) by (simp add: lstat_def fs1_def)
    from file_verify_exact [where env = ?env and fs = fs1 and p = p and pattern = "feo_pattern opts"
        and ?r0.0 = zero_verify_result, OF this sysc(3,5,8)] that show ?thesis by auto
  qed
  show ?thesis
    unfolding call
    by (intro exI [of _ "fst (snd (file_finish ?env p opts r fs1))"] exI [of _ "fw_content st"])
      (use verified sysc(6) in \<open>simp add: file_finish_def Let_def r_def fs1_def\<close>)
qed

lemma unlink_file_works [simp]: "file_system_works fs0 env \<Longrightarrow> unlink_file env p fs = fs(p := None)"
  by (simp add: unlink_file_def file_system_works_def)

lemma on_test_file_runs:
  assumes "file_system_works fs env" "length content \<le> length secret"
    and "\<And>p. \<not> is_dangerous_path p \<Longrightarrow> body (change fopts) env p (fs(p \<mapsto> Reg content)) = Some (v, fs(p := None))"
  shows "on_test_file content change body env fopts fs = Some ([v], change fopts, fs)"
proof -
  obtain p where p: "ft_name env = Some p" "fs p = None" "\<not> is_dangerous_path p" "take (ft_taken env) content = content"
    using assms(1,2) by (auto simp: file_system_works_def)
  moreover have "fs(p := None) = fs" using p(2) by auto
  ultimately show ?thesis using assms(3) [OF p(3)] by (simp add: on_test_file_def create_temp_test_file_def)
qed

lemma erase_tests_run:
  assumes sys: "file_system_works fs env" and three: "feo_passes fopts = 3"
  shows "\<exists>fopts'. test_erase_zero env fopts fs = Some ([False], fopts', fs) \<and> feo_passes fopts' = 3"
    "\<exists>fopts'. test_erase_one env fopts fs = Some ([True], fopts', fs) \<and> feo_passes fopts' = 3"
    "\<exists>fopts'. test_erase_random env fopts fs = Some ([True], fopts', fs) \<and> feo_passes fopts' = 3"
    "\<exists>fopts'. test_erase_removes env fopts fs = Some ([True], fopts', fs) \<and> feo_passes fopts' = 3"
proof -
  have run: "\<exists>r c. erase_file env (fs(p \<mapsto> Reg secret)) p opts
        = Some (ERASECURE_OK, Some r, if feo_remove_file opts then fs(p := None) else fs(p \<mapsto> Reg c))
      \<and> fer_passes_completed r = 3 \<and> fer_bytes_written r = 138 \<and> (feo_remove_file opts \<longrightarrow> fer_file_removed r)
      \<and> (feo_verify_after opts \<and> feo_pattern opts \<noteq> ERASE_PATTERN_RANDOM \<longrightarrow> fer_verification_passed r)"
    if "\<not> is_dangerous_path p" "feo_passes opts = 3" for p opts
    using erase_secret [OF sys that(1), of "fs(p \<mapsto> Reg secret)" opts] that(2)
    unfolding fun_upd_upd fun_upd_same by simp
  have "test_erase_zero env fopts fs = Some ([False], fopts\<lparr>feo_remove_file := False, feo_verify_after := True\<rparr>, fs)"
    unfolding test_erase_zero_def
    by (rule on_test_file_runs [OF sys], simp,
        use run [of _ "fopts\<lparr>feo_remove_file := False, feo_verify_after := True\<rparr>"] three in
          \<open>fastforce simp: erase_and_unlink_def unlink_file_works [OF sys]\<close>)
  then show "\<exists>fopts'. test_erase_zero env fopts fs = Some ([False], fopts', fs) \<and> feo_passes fopts' = 3"
    using three by simp
  let ?one = "fopts\<lparr>feo_pattern := ERASE_PATTERN_ONE, feo_remove_file := False, feo_verify_after := True\<rparr>"
  have "test_erase_one env fopts fs = Some ([True], ?one, fs)"
    unfolding test_erase_one_def
    by (rule on_test_file_runs [OF sys], simp, use run [of _ ?one] three in \<open>fastforce simp: erase_and_unlink_def unlink_file_works [OF sys]\<close>)
  then show "\<exists>fopts'. test_erase_one env fopts fs = Some ([True], fopts', fs) \<and> feo_passes fopts' = 3"
    using three by simp
  let ?rnd = "fopts\<lparr>feo_pattern := ERASE_PATTERN_RANDOM, feo_remove_file := False, feo_verify_after := False\<rparr>"
  have "test_erase_random env fopts fs = Some ([True], ?rnd, fs)"
    unfolding test_erase_random_def
    by (rule on_test_file_runs [OF sys], simp, use run [of _ ?rnd] three in \<open>fastforce simp: erase_and_unlink_def unlink_file_works [OF sys]\<close>)
  then show "\<exists>fopts'. test_erase_random env fopts fs = Some ([True], fopts', fs) \<and> feo_passes fopts' = 3"
    using three by simp
  let ?rm = "fopts\<lparr>feo_pattern := ERASE_PATTERN_ZERO, feo_remove_file := True\<rparr>"
  have "test_erase_removes env fopts fs = Some ([True], ?rm, fs)"
    unfolding test_erase_removes_def
    by (rule on_test_file_runs [OF sys], simp, use run [of _ ?rm] three in \<open>fastforce\<close>)
  then show "\<exists>fopts'. test_erase_removes env fopts fs = Some ([True], fopts', fs) \<and> feo_passes fopts' = 3"
    using three by simp
qed

lemma directory_refused:
  assumes "file_system_works fs env" "fs path = Some DirNode" "\<not> is_dangerous_path path"
  shows "test_rejects path env fopts fs = Some ([False], fopts, fs)"
  using assms by (simp add: test_rejects_def erase_file_def file_erase_def file_fail_def file_system_works_def lstat_def)

lemma other_tests_run:
  assumes sys: "file_system_works fs env"
  shows "test_rejects ''/'' env fopts fs = Some ([False], fopts, fs)"
    "test_rejects ''/etc'' env fopts fs = Some ([False], fopts, fs)" "test_metadata env fopts fs = Some ([True], fopts, fs)"
    "test_file_verify env fopts fs = Some ([True], fopts, fs)"
    "test_folder_options junk env fopts fs = Some ([True], fopts, fs)"
proof -
  have "\<not> is_dangerous_path ''/''" "\<not> is_dangerous_path ''/etc''" by (simp_all add: is_dangerous_path_def strstr_0_iff)
  then show "test_rejects ''/'' env fopts fs = Some ([False], fopts, fs)"
      "test_rejects ''/etc'' env fopts fs = Some ([False], fopts, fs)"
    using directory_refused [OF sys] sys by (simp_all add: file_system_works_def)
  show "test_metadata env fopts fs = Some ([True], fopts, fs)"
    unfolding test_metadata_def
    by (rule on_test_file_runs [OF sys]) (use sys in \<open>simp_all add: metadata_erase_def unlink_file_works [OF sys] file_system_works_def Let_def\<close>)
  have calls: "fe_lstat_ok (ft_env env) p" "fe_open_read (ft_env env) p" "fe_malloc_verify (ft_env env) p"
      "\<And>k. fe_read (ft_env env) p k \<noteq> None" for p
    using sys by (simp_all add: file_system_works_def)
  have "verify_reads (fe_read (ft_env env) p) 0 0 (replicate 16 0) (0, 0) = (16, 0)" for p
    using verify_reads_result [where rd = "fe_read (ft_env env) p", OF calls(4), of 0 "replicate 16 0" 0 0] by simp
  then show "test_file_verify env fopts fs = Some ([True], fopts, fs)"
    unfolding test_file_verify_def using calls
    by (intro on_test_file_runs [OF sys]) (simp_all add: file_verify_pattern_def lstat_def expected_byte_def unlink_file_works [OF sys] Let_def)
  show "test_folder_options junk env fopts fs = Some ([True], fopts, fs)"
    by (simp add: test_folder_options_def folder_erase_options_init_def)
qed

text \<open>
  What the driver \<open>file_eraser_tests.c\<close> shows on a working system: the erasures and the read-back pass, and four tests
  fail. Two of them expect other defaults, and two expect \<open>/\<close> and \<open>/etc\<close> to be refused as dangerous, which they are
  not: they are refused only because they are directories, with the code of a symbolic link.
\<close>

theorem file_eraser_tests_fail:
  assumes "\<And>i. file_system_works fs (env i)"
  shows "run_file_tests (file_eraser_tests junk') env 0 junk fs
      = Some ([False, False, True, True, True, False, False, True, True, True], fs)
    \<and> file_eraser_tests_main junk junk' env fs = Some (1, fs)"
proof -
  obtain o1 where 1: "test_file_options (env 0) junk fs = Some ([False], o1, fs)" "feo_passes o1 = 3"
    using first_file_test by blast
  obtain o2 where 2: "test_erase_zero (env (Suc 0)) o1 fs = Some ([False], o2, fs)" "feo_passes o2 = 3"
    using erase_tests_run(1) [OF assms 1(2)] by blast
  obtain o3 where 3: "test_erase_one (env (Suc (Suc 0))) o2 fs = Some ([True], o3, fs)" "feo_passes o3 = 3"
    using erase_tests_run(2) [OF assms 2(2)] by blast
  obtain o4 where 4: "test_erase_random (env (Suc (Suc (Suc 0)))) o3 fs = Some ([True], o4, fs)" "feo_passes o4 = 3"
    using erase_tests_run(3) [OF assms 3(2)] by blast
  obtain o5 where 5: "test_erase_removes (env (Suc (Suc (Suc (Suc 0))))) o4 fs = Some ([True], o5, fs)"
    using erase_tests_run(4) [OF assms 4(2)] by blast
  have "run_file_tests (file_eraser_tests junk') env 0 junk fs
      = Some ([False, False, True, True, True, False, False, True, True, True], fs)"
    by (simp add: file_eraser_tests_def 1(1) 2(1) 3(1) 4(1) 5 other_tests_run [OF assms])
  then show ?thesis by (simp add: file_eraser_tests_main_def suite_exit_def)
qed

definition demo_file_test_env :: file_test_env where
  "demo_file_test_env = \<lparr>ft_name = Some ''/tmp/ec_test_file_a'', ft_taken = 4096, ft_env = demo_file_env,
     ft_junk = replicate 4096 0, ft_lstat_ok = True, ft_utimens_ok = True, ft_list_size = 0, ft_malloc_ok = True,
     ft_listing = None, ft_remove = (\<lambda>_. True), ft_attrs = []\<rparr>"

theorem file_eraser_tests_fail_witness:
  "file_eraser_tests_main demo_file_opts
     \<lparr>doo_file_opts = demo_file_opts, doo_remove_dirs = False, doo_follow_mount = False, doo_max_depth = 0\<rparr>
     (\<lambda>_. demo_file_test_env) [''/'' \<mapsto> DirNode, ''/etc'' \<mapsto> DirNode] = Some (1, [''/'' \<mapsto> DirNode, ''/etc'' \<mapsto> DirNode])"
proof -
  have "file_system_works [''/'' \<mapsto> DirNode, ''/etc'' \<mapsto> DirNode] demo_file_test_env"
    by (simp add: file_system_works_def demo_file_test_env_def demo_file_env_def CHUNK_SIZE_def is_dangerous_path_def strstr_0_iff)
  from file_eraser_tests_fail [OF this] show ?thesis by blast
qed

end
