(* ===== verification/Recovery_Tests.thy ===== *)
theory Recovery_Tests
  imports Recovery Formats Test_Image Chain_Tests File_Mirror
begin

text \<open>
  The driver \<open>tests/recovery_tests.c\<close> over the model: the data structures of the recovery engine, two validators, and a
  synthetic image that is written, mirrored and checked. Memory is available throughout. The validators and the mirror
  are called as their definitions mean them; as it stands the driver does not compile (see \<open>Formats\<close>, \<open>File_Mirror\<close>).
\<close>

text \<open>
  The system: what the random device delivers to each of the three candidates, the name \<open>mkstemp\<close> found, the answers of
  \<open>fopen\<close>, \<open>fwrite\<close>, \<open>open\<close>, \<open>fread\<close> (\<open>rt_readable\<close>) and \<open>unlink\<close>, the checksum of zlib, and what uninitialised objects hold.
\<close>

record recovery_test_env =
  rt_urandom :: "nat \<Rightarrow> byte list option"
  rt_mkstemp :: "string option"
  rt_fopen_ok :: bool
  rt_written :: nat
  rt_fd :: int
  rt_readable :: bool
  rt_unlink :: bool
  rt_crc :: "byte list \<Rightarrow> nat"
  rt_slot :: BvSlot
  rt_image :: SyntheticEvidenceImage
  rt_record :: GroundTruthRecord

section \<open>The tests\<close>

definition blockvector_tests :: "recovery_test_env \<Rightarrow> bool list" where
  "blockvector_tests env =
     (case blockvector_create True (Some zero_blockvector) 8 of
        (err, bv0) \<Rightarrow>
          let append = (\<lambda>bv apparent actual. snd (blockvector_append True (rt_slot env) bv apparent actual));
              bv1 = append (append (append bv0 0 100) 1 101) 2 102;
              slot = blockvector_get bv1 1;
              bv2 = snd (blockvector_remove_last bv1);
              bv3 = snd (blockvector_restore bv2 1)
          in [err = ERASECURE_OK \<and> blockvector_length bv0 = 0,
              blockvector_length bv1 = 3,
              (case slot of None \<Rightarrow> False | Some s \<Rightarrow> bvs_actual_block s = 101),
              blockvector_length bv2 = 2,
              blockvector_length bv3 = 1])"

definition blockmap_tests :: "bool list" where
  "blockmap_tests =
     (case blockmap_create True (Some zero_blockmap) 16 of
        (err, bm0) \<Rightarrow>
          let bm1 = snd (blockmap_reserve (snd (blockmap_reserve bm0 5)) 5);
              bm2 = snd (blockmap_release bm1 5);
              bm3 = snd (blockmap_merge_shadow (snd (blockmap_shadow_set_covered bm2 3 True)))
          in [err = ERASECURE_OK,
              blockmap_reservation_count bm1 5 = 2,
              blockmap_reservation_count bm2 5 = 1,
              blockmap_covered_count bm3 = 1])"

definition carve_state_tests :: "recovery_test_env \<Rightarrow> bool list" where
  "carve_state_tests env =
     (case carve_state_create (rt_urandom env 0) True (Some zero_carve_state) (Some ''JPEG'') 42 of
        (err, cs) \<Rightarrow>
          [err = ERASECURE_OK \<and> length (cs_uuid (the cs)) = 36 \<and> cs_start_block (the cs) = 42,
           candidate_status_str (cs_status (the cs)) = ''NEW''])"

text \<open>The two candidates are at the addresses 1 and 2; \<open>None\<close> is a dequeue that waits.\<close>

definition promising_queue_tests :: "recovery_test_env \<Rightarrow> bool list option" where
  "promising_queue_tests env =
     (case promising_queue_init True (Some \<lparr>pq_entries = [], pq_capacity = 0, pq_shutdown = False\<rparr>) 16 of
        (err, pq0) \<Rightarrow>
          let candidate = (\<lambda>n ft start. the (snd (carve_state_create (rt_urandom env n) True (Some zero_carve_state) (Some ft) start)));
              c1 = (candidate 1 ''PNG'' 10)\<lparr>cs_priority := 100\<rparr>;
              c2 = (candidate 2 ''JPEG'' 20)\<lparr>cs_priority := 50\<rparr>;
              mem = (\<lambda>p. if p = 1 then c1 else c2);
              pq1 = snd (promising_queue_enqueue True mem pq0 (Some 1));
              pq2 = snd (promising_queue_enqueue True mem pq1 (Some 2))
          in map_option
               (\<lambda>(e, pq3, out). [err = ERASECURE_OK, promising_queue_size pq2 = 2, out \<noteq> Some None])
               (promising_queue_dequeue mem pq2 (Some None)))"

definition registry_tests :: "bool list" where
  "registry_tests =
     (let reg0 = snd (file_type_registry_init True (Some \<lparr>fr_types = [], fr_capacity = 0\<rparr>));
          all_ok = (\<lambda>_. (True, (True, \<lambda>_. True, \<lambda>_. True), (True, \<lambda>_. True, \<lambda>_. True)));
          reg1 = snd (file_type_registry_register_defaults all_ok reg0);
          reg2 = snd (register_all_validators reg1)
      in [list_all (\<lambda>name. (file_type_registry_find reg2 (Some name)
             :: (unit, unit) FileTypeDescriptor option) \<noteq> None) [''JPEG'', ''PNG'', ''PDF'', ''ZIP'']])"

definition synthetic_jpg :: "byte list" where
  "synthetic_jpg =
     [0xFF, 0xD8, 0xFF, 0xE0, 0x00, 0x10] @ bytes_of ''JFIF'' @ [0x00, 0x01, 0x01, 0x00, 0x00, 0x01,
      0x00, 0x01, 0x00, 0x00, 0xFF, 0xD9]"

text \<open>\<open>None\<close>: the validator reads outside its candidate or does not return.\<close>

definition jpeg_tests :: "bool list option" where
  "jpeg_tests =
     map_option (\<lambda>(outcome, parsed). [outcome = FILE_VALIDATION_VALIDATES \<or> outcome = FILE_VALIDATION_PROMISING])
       (jpeg_file_validator (Some synthetic_jpg) (length synthetic_jpg) (Some 0))"

definition png_tests :: "recovery_test_env \<Rightarrow> bool list option" where
  "png_tests env =
     (let png_header = [0x89, 0x50, 0x4E, 0x47, 0x0D, 0x0A, 0x1A, 0x0A]
      in case png_file_validator (rt_crc env) (Some png_header) (length png_header) (Some 0) of
           Some (Some (outcome, parsed)) \<Rightarrow> Some [outcome = FILE_VALIDATION_PROMISING]
         | _ \<Rightarrow> None)"

definition test_content :: "byte list" where
  "test_content = bytes_of ''CARVING BENCHMARK EMBEDDED FILE CONTENT''"

text \<open>
  The image test, skipped when no file can be made; \<open>None\<close> is an access outside an object. The generator answers
  with names no header declares; its \<open>ERR_SUCCESS\<close> is read as success.
\<close>

definition image_tests ::
    "'c evp \<Rightarrow> (byte list \<Rightarrow> byte list) \<Rightarrow> recovery_test_env \<Rightarrow> filesys \<Rightarrow> (bool list \<times> filesys) option" where
  "image_tests sha256 sha env fs =
     (case rt_mkstemp env of None \<Rightarrow> Some ([], fs)
      | Some img_path \<Rightarrow>
          (case test_image_gen_init True True (Some (rt_image env)) (Some img_path) 512 64 of
             (err, simg0) \<Rightarrow> do {
               (_, simg1, gt) \<leftarrow> test_image_gen_embed_file sha True True simg0 (Some ''sample.txt'') (Some test_content)
                 FRAG_PATTERN_CONTIGUOUS (Some (rt_record env));
               (_, fs1) \<leftarrow> test_image_gen_write (rt_fopen_ok env) (rt_written env) (fs(img_path \<mapsto> Reg [])) simg1;
               _ \<leftarrow> test_image_gen_destroy simg1;
               let open_read = (\<lambda>p. if rt_readable env then map_option (\<lambda>n. (node_bytes n, False)) (fs1 p) else None);
                   (fm_err, fm) = file_mirror_open sha256 open_read (rt_fd env) (map_option (\<lambda>n. length (node_bytes n)) (fs1 img_path))
                     True (Some zero_file_mirror) (Some img_path) 512;
                   v_err = file_mirror_verify_integrity sha256 open_read fm
               in Some ([err \<in> {ERASECURE_OK, ERR_SUCCESS}, fm_err = ERASECURE_OK \<and> fm_total_blocks (the fm) = 64, v_err = ERASECURE_OK],
                        if rt_unlink env then fs1(img_path := None) else fs1) }))"

definition reassembly_tests :: "ReassemblyOptions \<Rightarrow> bool list" where
  "reassembly_tests junk =
     (let ropts = the (reassembly_options_init (Some junk))
      in [ro_max_backtracks ropts > 0 \<and> ro_galloping_step ropts > 0])"

definition output_tests :: "bool list" where
  "output_tests = [recovery_output_init (Some ''test_recovery_output'') = ERASECURE_OK]"

definition recovery_verdicts ::
    "'c evp \<Rightarrow> (byte list \<Rightarrow> byte list) \<Rightarrow> ReassemblyOptions \<Rightarrow> recovery_test_env \<Rightarrow> filesys
     \<Rightarrow> (bool list \<times> filesys) option" where
  "recovery_verdicts sha256 sha junk env fs =
     do {
       queue \<leftarrow> promising_queue_tests env;
       jpeg \<leftarrow> jpeg_tests;
       png \<leftarrow> png_tests env;
       (image, fs1) \<leftarrow> image_tests sha256 sha env fs;
       Some (blockvector_tests env @ blockmap_tests @ carve_state_tests env @ queue @ registry_tests @ jpeg @ png @ image
               @ reassembly_tests junk @ output_tests, fs1)
     }"

definition recovery_tests_main ::
    "'c evp \<Rightarrow> (byte list \<Rightarrow> byte list) \<Rightarrow> ReassemblyOptions \<Rightarrow> recovery_test_env \<Rightarrow> filesys \<Rightarrow> (int \<times> filesys) option" where
  "recovery_tests_main sha256 sha junk env fs =
     map_option (\<lambda>(vs, fs'). (suite_exit vs, fs')) (recovery_verdicts sha256 sha junk env fs)"

section \<open>The data structures\<close>

lemma blockvector_tests_pass: "blockvector_tests env = [True, True, True, True, True]"
  by (simp add: blockvector_tests_def blockvector_create_def blockvector_append_def blockvector_get_def
      blockvector_remove_last_def blockvector_restore_def blockvector_length_def BVSLOT_SIZE_def Let_def)

lemma blockmap_tests_pass: "blockmap_tests = [True, True, True, True]"
proof -
  have "\<And>f. [0..<16] = [0, 1, 2, 3, 4, 5, 6, 7, 8, 9, 10, 11, 12, 13, 14, 15 :: nat]" by (simp add: upt_rec)
  then show ?thesis
    by (simp add: blockmap_tests_def blockmap_create_def blockmap_reserve_def blockmap_release_def blockmap_merge_shadow_def
        blockmap_shadow_set_covered_def blockmap_reservation_count_def blockmap_covered_count_def count_primary_def
        shadow_op_def set_shadow_def zero_blockmap_def zero_entry_def Let_def)
qed

lemma carve_state_tests_pass:
  "rt_urandom env 0 = Some r \<Longrightarrow> length r = 16 \<Longrightarrow> carve_state_tests env = [True, True]"
  using generate_uuid_version_4 [of r 37]
  by (auto simp: carve_state_tests_def carve_state_create_def blockvector_create_def BVSLOT_SIZE_def Let_def split: prod.splits)

lemma promising_queue_tests_pass: "promising_queue_tests env = Some [True, True, True]"
proof -
  have up: "heapify_up pr [1] 0 = [1]" for pr by (simp add: heapify_up.simps)
  have len: "length (heapify_up pr [1, 2] (Suc 0)) = 2" for pr
    using heapify_up_mset [of "Suc 0" "[1, 2]" pr, THEN arg_cong [where f = size]] by simp
  have ne: "heapify_up pr [1, 2] (Suc 0) \<noteq> []" for pr using len [of pr] by auto
  show ?thesis
    using up len ne
    by (simp add: promising_queue_tests_def promising_queue_init_def promising_queue_enqueue_def promising_queue_dequeue_def
        promising_queue_size_def Let_def)
qed

lemma registry_tests_pass: "registry_tests = [True]"
proof -
  have found: "List.find (\<lambda>d. strcasecmp_eq (ft_name d) name) (default_types :: (unit, unit) FileTypeDescriptor list) \<noteq> None"
    if "name \<in> {''JPEG'', ''PNG'', ''PDF'', ''ZIP''}" for name
    using that by (auto simp: find_None_iff default_types_def builtin_type_def strcasecmp_eq_def)
  show ?thesis
    using found by (simp add: registry_tests_def registry_defaults_run [unfolded registry_allocs_def] file_type_registry_find_def
        register_all_validators_def jpeg_validator_register_def png_validator_register_def pdf_validator_register_def
        zip_validator_register_def gif_validator_register_def mp3_validator_register_def elf_validator_register_def Let_def)
qed

lemma jpeg_tests_pass: "jpeg_tests = Some [True]"
  by code_simp

lemma png_tests_fail: "png_tests env = Some [False]"
  by (simp add: png_tests_def png_file_validator_def memcmp0_def mem_eq_def PNG_MAGIC_def png_scan.simps [of _ _ _ _ _ 8]
      png_step_def Let_def)

section \<open>The image\<close>

definition evidence :: "byte list" where
  "evidence = test_content @ replicate (32768 - 39) 0"

lemma length_evidence: "length evidence = 32768"
  by (simp add: evidence_def test_content_def bytes_of_def)

lemma test_content_embedded:
  assumes "cstr 256 p = p"
  shows "\<exists>img rec. test_image_gen_embed_file sha True True (snd (test_image_gen_init True True (Some i0) (Some p) 512 64))
      (Some name) (Some test_content) FRAG_PATTERN_CONTIGUOUS (Some g) = Some (ERR_SUCCESS, Some img, Some rec)
    \<and> si_data img = Live evidence \<and> si_image_size img = 32768 \<and> si_image_path img = p \<and> si_records img \<noteq> Freed
    \<and> (\<exists>rs. si_records img = Live rs)"
proof -
  have len: "length test_content = 39" by (simp add: test_content_def bytes_of_def)
  then have ne: "test_content \<noteq> []" by auto
  have "sub test_content 0 39 = Some test_content" by (simp add: sub_def len)
  moreover have "write_at (replicate 32768 0) 0 test_content = evidence" by (simp add: write_at_def evidence_def len)
  ultimately have "embed_blocks False 512 (Suc 0) test_content [0..<Suc 0] (replicate 32768 0, 0, 0, [])
      = Some (evidence, 1, 39, [0])"
    by (simp add: embed_block_def len Let_def)
  with ne assms len show ?thesis
    by (simp add: test_image_gen_embed_file_def test_image_gen_init_def blocks_needed_for_def add_record_def Let_def
        del: upt_Suc embed_blocks.simps)
qed

lemma mirror_opens_and_verifies:
  assumes sha256: "digests sha256 sha' 32" and content: "open_read p = Some (content, False)"
    and "cstr 256 p = p" "0 \<le> fd" "0 < bs"
  shows "\<exists>m. file_mirror_open sha256 open_read fd (Some (length content)) True (Some zero_file_mirror) (Some p) bs
      = (ERASECURE_OK, Some m)
    \<and> fm_total_blocks m = length content div bs \<and> file_mirror_verify_integrity sha256 open_read (Some m) = ERASECURE_OK"
proof -
  have "hash_file sha256 open_read (Some p) (Some out) = (ERASECURE_OK, Some (sha' content))" for out
    using hash_file_eq_buffer [of sha256 open_read p content out] sha256 content by (simp add: digests_def)
  with assms(3-5) show ?thesis by (simp add: file_mirror_open_def file_mirror_verify_integrity_def Let_def)
qed

lemma image_tests_pass:
  assumes sha256: "digests sha256 sha' 32" and p: "rt_mkstemp env = Some p" "cstr 256 p = p"
    and io: "rt_fopen_ok env" "32768 \<le> rt_written env" "0 \<le> rt_fd env" "rt_readable env" "rt_unlink env"
  shows "image_tests sha256 sha env fs = Some ([True, True, True], fs(p := None))"
proof -
  let ?fs1 = "fs(p \<mapsto> Reg evidence)"
  let ?read = "\<lambda>q. if rt_readable env then map_option (\<lambda>n. (node_bytes n, False)) (?fs1 q) else None"
  obtain simg0 where init: "test_image_gen_init True True (Some (rt_image env)) (Some p) 512 64 = (ERR_SUCCESS, simg0)"
    by (simp add: test_image_gen_init_def Let_def)
  obtain img rec rs where img: "test_image_gen_embed_file sha True True simg0 (Some ''sample.txt'') (Some test_content)
      FRAG_PATTERN_CONTIGUOUS (Some (rt_record env)) = Some (ERR_SUCCESS, Some img, Some rec)"
    "si_data img = Live evidence" "si_image_size img = 32768" "si_image_path img = p" "si_records img = Live rs"
    using test_content_embedded [OF p(2), of sha "rt_image env" "''sample.txt''" "rt_record env"] by (auto simp: init)
  obtain e where wr: "test_image_gen_write (rt_fopen_ok env) (rt_written env) (fs(p \<mapsto> Reg [])) (Some img) = Some (e, ?fs1)"
    using img io by (simp add: test_image_gen_write_def length_evidence min_def Let_def)
  obtain x where fin: "test_image_gen_destroy (Some img) = Some x" using img by (simp add: test_image_gen_destroy_def)
  have "?read p = Some (evidence, False)" using io by simp
  from mirror_opens_and_verifies [where open_read = ?read, OF sha256 this p(2) io(3), of 512] obtain m where m:
    "file_mirror_open sha256 ?read (rt_fd env) (Some 32768) True (Some zero_file_mirror) (Some p) 512 = (ERASECURE_OK, Some m)"
    "fm_total_blocks m = 64" "file_mirror_verify_integrity sha256 ?read (Some m) = ERASECURE_OK"
    by (auto simp: length_evidence)
  have sz: "map_option (\<lambda>n. length (node_bytes n)) (?fs1 p) = Some 32768" by (simp add: length_evidence)
  show ?thesis
    unfolding image_tests_def p(1) option.case init prod.case img(1) wr fin bind.bind_lunit Let_def sz
    using m io(5) by simp
qed

section \<open>The driver\<close>

lemma reassembly_tests_pass: "reassembly_tests junk = [True]"
  by (simp add: reassembly_tests_def reassembly_options_init_def)

lemma output_tests_pass: "output_tests = [True]"
  by (simp add: output_tests_def recovery_output_init_def)

lemma recovery_tests_fail_once:
  assumes "rt_urandom env 0 = Some r" "length r = 16"
    and image: "image_tests sha256 sha env fs = Some ([True, True, True], fs')"
  shows "recovery_verdicts sha256 sha junk env fs = Some (replicate 16 True @ False # replicate 5 True, fs')"
  by (simp add: recovery_verdicts_def blockvector_tests_pass blockmap_tests_pass carve_state_tests_pass [OF assms(1,2)]
      promising_queue_tests_pass registry_tests_pass jpeg_tests_pass png_tests_fail image reassembly_tests_pass output_tests_pass
      numeral_eq_Suc)

text \<open>
  One test of the driver cannot pass. Where memory is available and the system answers every call, the data structures,
  the registry, the JPEG validator, the image generator and the mirror do what the driver expects, and the image file
  is removed again; the validator rejects the bare signature of PNG, which the driver expects to be promising, so that
  the suite exits with 1.
\<close>

theorem recovery_tests_fail:
  assumes "rt_urandom env 0 = Some r" "length r = 16"
    and "digests sha256 sha' 32" "rt_mkstemp env = Some p" "cstr 256 p = p"
    and "rt_fopen_ok env" "32768 \<le> rt_written env" "0 \<le> rt_fd env" "rt_readable env" "rt_unlink env"
  shows "recovery_verdicts sha256 sha junk env fs = Some (replicate 16 True @ False # replicate 5 True, fs(p := None))
    \<and> recovery_tests_main sha256 sha junk env fs = Some (1, fs(p := None))"
  using recovery_tests_fail_once [OF assms(1,2) image_tests_pass [OF assms(3-10)]]
  by (simp add: recovery_tests_main_def suite_exit_def)

definition demo_recovery_env :: recovery_test_env where
  "demo_recovery_env =
     \<lparr>rt_urandom = \<lambda>_. Some (replicate 16 7), rt_mkstemp = Some ''tmp_evidence_img_a1B2c3'', rt_fopen_ok = True,
      rt_written = 32768, rt_fd = 3, rt_readable = True, rt_unlink = True, rt_crc = \<lambda>_. 0, rt_slot = zero_slot,
      rt_image = \<lparr>si_image_path = [], si_image_size = 0, si_block_size = 0, si_total_blocks = 0, si_data = Null,
        si_next_free_block = 0, si_records = Null, si_record_count = 0, si_record_capacity = 0\<rparr>,
      rt_record = \<lparr>gt_name = [], gt_original_size = 0, gt_start_block = 0, gt_actual_blocks = [], gt_block_count = 0,
        gt_sha256 = [], gt_pattern_used = FRAG_PATTERN_CONTIGUOUS\<rparr>\<rparr>"

definition demo_junk_options :: ReassemblyOptions where
  "demo_junk_options = \<lparr>ro_max_backtracks = 0, ro_galloping_step = 0, ro_locality_weight = 0, ro_validator_weight = 0,
     ro_structural_weight = 0, ro_reservation_penalty = 0\<rparr>"

theorem recovery_tests_fail_witness:
  "recovery_tests_main (demo_library demo_sha256) demo_sha256 demo_junk_options demo_recovery_env Map.empty = Some (1, Map.empty)"
proof -
  have "Map.empty(''tmp_evidence_img_a1B2c3'' := None) = (Map.empty :: filesys)" by simp
  then show ?thesis
    using recovery_tests_fail [of demo_recovery_env "replicate 16 7" "demo_library demo_sha256" demo_sha256 "''tmp_evidence_img_a1B2c3''"
        demo_sha256 demo_junk_options Map.empty] demo_sha256_digests
    by (simp add: demo_recovery_env_def)
qed

end
