(* ===== verification/Spec2Isabelle.thy ===== *)
theory Spec2Isabelle
  imports Block_Erase Device_Erase Verification Sanitizer Crypto Carve_State Promising_Queue
    Block_State File_Mirror Blockmap Worker_Pool Discovery File_Type_Registry
    File_Eraser Folder_Eraser Formats_Contract Recovery_Api Audit_Trail Audit_Database Cli Cli_Output
    Test_Image Image_Tests Chain_Tests File_Tests Recovery_Tests
begin

text \<open>
  A model of Erasecure, the data-sanitization tool under \<open>src/secure_eraser/\<close>, and what makes it correct.
  Paths below are relative to that directory; a header \<open>include/x/y.h\<close> is modelled with its \<open>src/x/y.c\<close>.

  \<^bold>\<open>The program.\<close> One library serves four uses.
  \<^item> \<^emph>\<open>Sanitization.\<close> \<open>device_scan\<close> finds the disks, \<open>sanitizer_run\<close> picks the module for the type of a
    disk, the module runs the method: it overwrites the device, or in test mode an image file, which is then read back.
  \<^item> \<^emph>\<open>Files and folders.\<close> \<open>file_erase\<close> overwrites, reads back and removes one file, \<open>folder_erase\<close> the
    files of a tree.
  \<^item> \<^emph>\<open>Recovery.\<close> A mirror shows an evidence image by blocks, discovery finds signatures in it, candidates wait in a
    priority queue, validators judge what has been put together, a worker pool runs the tasks.
  \<^item> \<^emph>\<open>Audit.\<close> Each operation leaves a record with the hash of the one before it, in a log of JSON lines and in a
    database.

  \<^bold>\<open>Which theory models what.\<close>
  \<^item> \<open>Prelude\<close>: C integers, strings, buffers and the library routines the code calls; the lemmas they share.
    \<open>Errors\<close>: \<open>common/error\<close>. \<open>Os\<close>: paths, nodes and the text files of the system. \<open>Buffers\<close>:
    reads that are checked against the object they read.
  \<^item> \<open>Device\<close>: \<open>device/device\<close> and the checks of \<open>device/device_detect\<close>. \<open>Device_Info\<close>:
    \<open>device/device_info\<close> and \<open>device_scan\<close>. \<open>Ata\<close>, \<open>Nvme\<close>: \<open>ata/\<close> and \<open>nvme/\<close>, commands,
    sense data, identify pages, sanitize capabilities.
  \<^item> \<open>Block_Erase\<close>, \<open>Device_Erase\<close>: \<open>sanitization/block_erase\<close>, the image half and the device half.
    \<open>Verification\<close>: \<open>sanitization/verification\<close>. \<open>Crypto\<close>: \<open>crypto/\<close> and
    \<open>sanitization/crypto_erase\<close>. \<open>Sanitizer\<close>: \<open>sanitization/sanitizer\<close> with the modules \<open>hdd/\<close>,
    \<open>ssd/\<close> and \<open>portable/\<close>.
  \<^item> \<open>File_Eraser\<close>, \<open>Folder_Eraser\<close>: \<open>file_eraser/\<close>, with the read-back and the metadata.
  \<^item> \<open>Carve_State\<close>, \<open>Promising_Queue\<close>, \<open>Block_State\<close>, \<open>File_Mirror\<close>, \<open>Blockmap\<close>,
    \<open>Worker_Pool\<close>, \<open>Discovery\<close>, \<open>File_Type_Registry\<close>, \<open>Validator\<close>: the modules of
    \<open>recovery/\<close> of the same names (\<open>Carve_State\<close> also \<open>blockvector\<close>). \<open>Recovery\<close>: \<open>recovery_engine\<close>,
    \<open>reassembly\<close>, \<open>checkpoint\<close>, \<open>recovery_output\<close>. \<open>Recovery_Api\<close>: \<open>recovery_api\<close>.
  \<^item> \<open>Formats\<close>, \<open>Formats_Contract\<close>: the seven validators of \<open>formats/\<close> and what they promise.
  \<^item> \<open>Audit_Trail\<close>, \<open>Audit_Database\<close>: \<open>audit/\<close>. \<open>Cli\<close>: \<open>ui/cli.c\<close> and \<open>main.c\<close>,
    what a run does. \<open>Cli_Output\<close>: what it prints, with \<open>device_print_info\<close>.
    \<open>Test_Image\<close>: \<open>testing/test_image_gen\<close>.
  \<^item> \<open>Unit_Tests\<close>, \<open>Image_Tests\<close>, \<open>Chain_Tests\<close>, \<open>File_Tests\<close>, \<open>Recovery_Tests\<close>: the
    drivers under \<open>tests/\<close>, a definition per test or group of tests and one for \<open>main\<close>, run over the model:
    \<open>device_tests.c\<close>, \<open>crypto_erase_tests.c\<close> and \<open>ata_nvme_tests.c\<close>; \<open>block_erase_tests.c\<close>;
    \<open>verification_tests.c\<close>; \<open>file_eraser_tests.c\<close>; \<open>recovery_tests.c\<close>.

  \<^bold>\<open>How state and operations correspond.\<close> A struct is a record with prefixed fields, an enum a datatype with the
  constructors of the source, a function a definition of the same name. A function that changes state returns the
  changed state beside its error code; the file system is a map from paths to nodes. A pointer that the code compares
  with NULL is an option. What the program asks of the system (\<open>open\<close>, \<open>write\<close>, \<open>malloc\<close>, \<open>ioctl\<close>,
  random bytes, the text of \<open>/proc/mounts\<close>) is a field of an environment record or an argument, arbitrary in the
  theorems, so that every failure the code handles is a case of the model. OpenSSL, SQLite and the checksum of zlib are
  parameters; the hypotheses on them state documented behaviour and each has an instance in a witness. Reads and writes
  outside an object are \<open>None\<close> in \<open>Block_State\<close>, \<open>Formats\<close>, \<open>Ata\<close> and \<open>Test_Image\<close>.

  \<^bold>\<open>Loops.\<close> No fuel is used. A loop the code bounds is a structural or measured recursion. A loop whose end depends
  on the system or on the data (the chunk loops of the erasers, the scan of PNG chunks, the walk over directories) is a
  \<open>partial_function (option)\<close>; \<open>None\<close> is a call that does not return, and that it does return, and when, is a
  theorem of its own. The worker pool is a step relation over critical sections, with its reachable states.

  \<^bold>\<open>Interfaces.\<close> \<open>backtrack_stack\<close> is what carving asks of the block vector, \<open>min_queue\<close> what the engine asks
  of the candidate queue, \<open>bounded_fifo\<close> what the pool asks of its ring, \<open>candidate_reader\<close> and
  \<open>file_validator\<close> what the engine asks of a format validator. Each is interpreted on the definitions that model the
  code, and the properties rest on the facts of the interpretations.

  \<^bold>\<open>What is shown.\<close>
  \<^item> \<^emph>\<open>Erasure\<close> (\<open>block_erase_device_guarded\<close>, \<open>block_erase_device_overwrites\<close>,
    \<open>block_erase_image_overwrites\<close>, \<open>verify_full_exact\<close>, \<open>sanitizer_image_erase_verified\<close>,
    \<open>sanitizer_test_mode_safe\<close>, \<open>sanitizer_live_guarded\<close>, \<open>scanned_device_dispatched\<close>): a device is only
    changed after every safety check, success means that every byte holds the pattern, a full verification passes
    exactly then, and test mode changes no device.
  \<^item> \<^emph>\<open>Files\<close> (\<open>file_erase_overwrites\<close>, \<open>folder_erase_confined\<close>): the same for files; a folder erasure
    changes regular files and directories found by listing the folder downwards and nothing else. The termination
    theorems say when these calls return: \<open>folder_erase_returns\<close> rests on the depth limit or on the table of inodes.
  \<^item> \<^emph>\<open>Devices\<close> (\<open>device_scan_exact\<close>, \<open>device_get_info_well_typed\<close>, \<open>ata_execute_reports_device\<close>,
    \<open>nvme_query_exact\<close>): what is listed, in which ranges the fields lie, and that answers of a device are decoded
    as they were given.
  \<^item> \<^emph>\<open>Recovery\<close> (\<open>queue_sorts\<close>, \<open>update_priority_keeps_heap\<close>, \<open>blockvector_backtracks\<close>,
    \<open>block_state_roundtrip\<close>, \<open>apparent_actual_roundtrip\<close>, \<open>find_duplicates_exact\<close>,
    \<open>discovery_scan_exact\<close>, \<open>pool_runs_in_order\<close>, \<open>destroy_finishes_accepted\<close>,
    \<open>queue_remove_exact\<close>): the data structures refine their abstract counterparts, and the pool starts each
    accepted task once and in order in every interleaving.
  \<^item> \<^emph>\<open>Formats\<close> (\<open>validators_read_candidate_only\<close>, \<open>validators_return\<close>, \<open>png_accepts_encoded\<close>,
    \<open>png_rejects_bad_checksum\<close>, \<open>pdf_zip_validate_exactly\<close>): validators stay inside the candidate, return,
    and accept what they should.
  \<^item> \<^emph>\<open>Audit\<close> (\<open>audit_session_validates\<close>, \<open>audit_validate_exact\<close>, \<open>audit_buffers_suffice\<close>,
    \<open>audit_db_rows_exact\<close>), \<^emph>\<open>command line\<close> (\<open>cli_run_safe\<close>, \<open>cli_erase_exit_code\<close>,
    \<open>cli_no_silent_failure\<close>) and \<^emph>\<open>test images\<close> (\<open>embedded_file_reads_back\<close>).
  \<^item> \<^emph>\<open>Test drivers\<close>: on a system that answers every call, \<open>block_erase_tests\<close> exits with 0
    (\<open>block_erase_tests_pass\<close>), and so does \<open>device_tests\<close> (\<open>device_tests_pass\<close>). The other five cannot:
    \<open>crypto_erase_tests_fail\<close>, \<open>ata_nvme_tests_fail\<close>, \<open>verification_tests_fail\<close>,
    \<open>file_eraser_tests_fail\<close> and \<open>recovery_tests_fail\<close> say which of their expectations the code does not meet.

  Other theorems show where the code does less than it says: \<open>verify_passes_without_reading\<close>,
  \<open>sanitizer_live_needs_no_confirmation\<close>, \<open>audit_validate_exact\<close> (the validator derives no hash again),
  \<open>audit_session_validates\<close> (a line lost when the log is closed is not noticed), \<open>cli_exit_ignores_verification\<close>,
  \<open>file_erase_ignores_later_failures\<close>, \<open>file_verify_passes_unread\<close>, \<open>listed_paths_checked\<close>,
  \<open>deserialize_reads_past_end\<close>, \<open>destroy_strands_submitter\<close>, \<open>wait_idle_strands_caller\<close>,
  \<open>png_validator_hangs\<close>, \<open>no_validator_registered\<close>, \<open>device_get_info_of_nothing\<close>,
  \<open>gap_pattern_overruns\<close> and their kind.

  \<^bold>\<open>Not modelled.\<close> Wall-clock times and the durations computed from them (the printed duration of an erasure is an
  argument); the branches for systems other than Linux;
  the failure of \<open>pthread_create\<close>, which the code ignores; \<open>common/constants.h\<close> and \<open>common/types.h\<close>, whose
  constants stand where they are used; what the test drivers print; the build files. The engine phases and the reassembly steps
  are empty in the code and are modelled as such. Doubles (the weights and scores of reassembly, the percentage of a
  progress report) are rationals. Some modules do not compile as they stand (missing declarations, calls
  with the wrong number of arguments); they are modelled as their headers and callers mean them, and the theory that
  does so says where.
\<close>

end
